(* ===== verification/Prelude.thy ===== *)
theory Prelude
  imports Complex_Main "HOL-Library.Char_ord" "HOL-Library.List_Lexorder"
begin

text \<open>
  Shared vocabulary of the development: Python results with exceptions as values, the string
  and list functions of the language the sources use, the SQL scalar functions and the shape of
  an UPDATE statement, and the lemmas about them that the component theories rely on.

  Strings are \<^typ>\<open>string\<close>, one \<^typ>\<open>char\<close> per character: every string the modelled code
  compares is ASCII, and \<open>str.lower\<close> is modelled on ASCII letters. Python's unbounded ints are
  \<^typ>\<open>int\<close>; \<open>Decimal\<close> amounts are exact rationals (the 28 digit context of \<open>decimal\<close> is far
  above what a rate times a token count needs). Instants are \<^typ>\<open>int\<close> microseconds since the
  Unix epoch, the resolution of \<open>timestamptz\<close>.
\<close>

named_theorems table_simps \<open>how an UPDATE acts on the rows of a table\<close>
named_theorems price_simps \<open>unfolding rules of the pricing functions\<close>

section \<open>Python results\<close>

datatype py_error =
    IndexError
  | KeyError string
  | ValueError string
  | AssertionError
  | RuntimeError string

type_synonym 'a result = "py_error + 'a"

type_synonym instant = int

fun and_then :: "'e + 'a \<Rightarrow> ('a \<Rightarrow> 'e + 'b) \<Rightarrow> 'e + 'b" where
  "and_then (Inl e) f = Inl e"
| "and_then (Inr x) f = f x"

lemma and_then_Inr_iff:
  "and_then r f = Inr y \<longleftrightarrow> (\<exists>x. r = Inr x \<and> f x = Inr y)"
  by (cases r) auto

lemma and_then_Inl_iff:
  "and_then r f = Inl e \<longleftrightarrow> r = Inl e \<or> (\<exists>x. r = Inr x \<and> f x = Inl e)"
  by (cases r) auto

lemma and_then_cong [fundef_cong]:
  "r = r' \<Longrightarrow> (\<And>x. r' = Inr x \<Longrightarrow> f x = g x) \<Longrightarrow> and_then r f = and_then r' g"
  by (cases r') auto

section \<open>Python strings\<close>

definition lower_char :: "char \<Rightarrow> char" where
  "lower_char c =
     (let n = (of_char c :: nat) in if 65 \<le> n \<and> n \<le> 90 then char_of (n + 32) else c)"

definition py_lower :: "string \<Rightarrow> string" where
  "py_lower s = map lower_char s"

text \<open>The operator \<open>sub in s\<close> on strings.\<close>

fun starts_with :: "string \<Rightarrow> string \<Rightarrow> bool" where
  "starts_with [] s = True"
| "starts_with (c # cs) [] = False"
| "starts_with (c # cs) (d # ds) = (c = d \<and> starts_with cs ds)"

fun contains :: "string \<Rightarrow> string \<Rightarrow> bool" where
  "contains sub [] = (sub = [])"
| "contains sub (c # cs) = (starts_with sub (c # cs) \<or> contains sub cs)"

lemma starts_with_append [simp]: "starts_with p (p @ s)"
  by (induction p) auto

lemma starts_with_iff: "starts_with p s \<longleftrightarrow> (\<exists>v. s = p @ v)"
  by (induction p s rule: starts_with.induct) auto

lemma starts_with_contains: "starts_with p s \<Longrightarrow> contains p s"
  by (cases s; cases p) auto

lemma contains_iff: "contains sub s \<longleftrightarrow> (\<exists>u v. s = u @ sub @ v)"
proof (induction s)
  case Nil
  show ?case by auto
next
  case (Cons c cs)
  show ?case
  proof
    assume "contains sub (c # cs)"
    then consider "starts_with sub (c # cs)" | "contains sub cs" by auto
    then show "\<exists>u v. c # cs = u @ sub @ v"
    proof cases
      case 1
      then obtain v where "c # cs = [] @ sub @ v" by (auto simp: starts_with_iff)
      then show ?thesis by blast
    next
      case 2
      then obtain u v where "cs = u @ sub @ v" using Cons.IH by blast
      then have "c # cs = (c # u) @ sub @ v" by simp
      then show ?thesis by blast
    qed
  next
    assume "\<exists>u v. c # cs = u @ sub @ v"
    then obtain u v where uv: "c # cs = u @ sub @ v" by blast
    show "contains sub (c # cs)"
    proof (cases u)
      case Nil
      with uv show ?thesis by (simp add: starts_with_contains)
    next
      case (Cons a u')
      with uv have "cs = u' @ sub @ v" by simp
      then show ?thesis using Cons.IH by auto
    qed
  qed
qed

fun join :: "string \<Rightarrow> string list \<Rightarrow> string" where
  "join sep [] = []"
| "join sep [x] = x"
| "join sep (x # y # ys) = x @ sep @ join sep (y # ys)"

text \<open>\<open>str\<close> of an integer.\<close>

definition digit_char :: "nat \<Rightarrow> char" where
  "digit_char d = char_of (48 + d)"

fun show_nat :: "nat \<Rightarrow> string" where
  "show_nat n = (if n < 10 then [digit_char n] else show_nat (n div 10) @ [digit_char (n mod 10)])"

declare show_nat.simps [simp del]

definition show_int :: "int \<Rightarrow> string" where
  "show_int i = (if i < 0 then ''-'' @ show_nat (nat (- i)) else show_nat (nat i))"

lemma show_nat_nonempty [simp]: "show_nat n \<noteq> []"
  by (subst show_nat.simps) simp

section \<open>Python lists\<close>

text \<open>
  \<open>min(xs, key=k)\<close> of a non-empty list: the first of the elements with the least key.
\<close>

fun min_by :: "('a \<Rightarrow> 'k::linorder) \<Rightarrow> 'a \<Rightarrow> 'a list \<Rightarrow> 'a" where
  "min_by k x [] = x"
| "min_by k x (y # ys) = (if k y < k x then min_by k y ys else min_by k x ys)"

lemma min_by_in: "min_by k x xs \<in> set (x # xs)"
proof (induction xs arbitrary: x)
  case Nil
  show ?case by simp
next
  case (Cons y ys)
  show ?case using Cons.IH [of x] Cons.IH [of y] by auto
qed

lemma min_by_le_hd: "k (min_by k x xs) \<le> k x"
proof (induction xs arbitrary: x)
  case Nil
  show ?case by simp
next
  case (Cons y ys)
  show ?case using Cons.IH [of x] Cons.IH [of y] by auto
qed

lemma min_by_le: "y \<in> set (x # xs) \<Longrightarrow> k (min_by k x xs) \<le> k y"
proof (induction xs arbitrary: x)
  case Nil
  then show ?case by simp
next
  case (Cons z zs)
  show ?case
  proof (cases "k z < k x")
    case True
    with Cons.IH [of z] Cons.prems min_by_le_hd [of k z zs] show ?thesis
      by (auto intro: order_trans)
  next
    case False
    with Cons.IH [of x] Cons.prems min_by_le_hd [of k x zs] show ?thesis
      by (auto intro: order_trans)
  qed
qed

text \<open>Everything before the chosen element has a strictly larger key: ties go to the first.\<close>

lemma min_by_first:
  "\<exists>us vs. x # xs = us @ min_by k x xs # vs \<and> (\<forall>u \<in> set us. k (min_by k x xs) < k u)"
proof (induction xs arbitrary: x)
  case Nil
  show ?case by (intro exI [of _ "[]"]) simp
next
  case (Cons y ys)
  show ?case
  proof (cases "k y < k x")
    case True
    obtain us vs where uv: "y # ys = us @ min_by k y ys # vs"
      and lt: "\<forall>u \<in> set us. k (min_by k y ys) < k u" using Cons.IH by blast
    have eq: "min_by k x (y # ys) = min_by k y ys" using True by simp
    have "k (min_by k y ys) < k x" using min_by_le_hd [of k y ys] True by simp
    with lt have "\<forall>u \<in> set (x # us). k (min_by k y ys) < k u" by simp
    moreover from uv have "x # y # ys = (x # us) @ min_by k y ys # vs" by simp
    ultimately show ?thesis unfolding eq by blast
  next
    case False
    obtain us vs where uv: "x # ys = us @ min_by k x ys # vs"
      and lt: "\<forall>u \<in> set us. k (min_by k x ys) < k u" using Cons.IH by blast
    have eq: "min_by k x (y # ys) = min_by k x ys" using False by simp
    show ?thesis
    proof (cases us)
      case Nil
      with uv have m: "min_by k x ys = x" by (metis append_Nil list.inject)
      show ?thesis unfolding eq m by (intro exI [of _ "[]"] exI [of _ "y # ys"]) simp
    next
      case (Cons u us')
      with uv have ux: "u = x" and ys: "ys = us' @ min_by k x ys # vs" by auto
      have "k (min_by k x ys) < k x" using lt Cons ux by simp
      with False lt Cons ux have "\<forall>u \<in> set (x # y # us'). k (min_by k x ys) < k u" by auto
      moreover from ys have "x # y # ys = (x # y # us') @ min_by k x ys # vs" by simp
      ultimately show ?thesis unfolding eq by blast
    qed
  qed
qed

text \<open>A loop that returns the first element with a property.\<close>

lemma find_first: "P x \<Longrightarrow> (\<And>u. u \<in> set us \<Longrightarrow> \<not> P u) \<Longrightarrow> find P (us @ x # vs) = Some x"
  by (induction us) auto

section \<open>SQL scalars and tables\<close>

definition coalesce :: "'a option \<Rightarrow> 'a \<Rightarrow> 'a" where
  "coalesce x d = (case x of None \<Rightarrow> d | Some v \<Rightarrow> v)"

lemma coalesce_simps [simp]: "coalesce None d = d" "coalesce (Some v) d = v"
  by (simp_all add: coalesce_def)

text \<open>
  \<open>UPDATE t SET ... WHERE p\<close>: every row that satisfies \<open>p\<close> is replaced by \<open>f\<close> of it.
  \<open>row_count\<close> is the statement's row count.
\<close>

definition update_where :: "('r \<Rightarrow> bool) \<Rightarrow> ('r \<Rightarrow> 'r) \<Rightarrow> 'r list \<Rightarrow> 'r list" where
  "update_where p f rows = map (\<lambda>r. if p r then f r else r) rows"

definition row_count :: "('r \<Rightarrow> bool) \<Rightarrow> 'r list \<Rightarrow> nat" where
  "row_count p rows = length (filter p rows)"

lemma set_update_where [table_simps]:
  "set (update_where p f rows) = (\<lambda>r. if p r then f r else r) ` set rows"
  by (simp add: update_where_def)

lemma length_update_where [table_simps]: "length (update_where p f rows) = length rows"
  by (simp add: update_where_def)

lemma update_where_Nil [table_simps]: "update_where p f [] = []"
  by (simp add: update_where_def)

lemma update_where_Cons [table_simps]:
  "update_where p f (r # rs) = (if p r then f r else r) # update_where p f rs"
  by (simp add: update_where_def)

lemma update_where_key:
  "(\<And>r. k (f r) = k r) \<Longrightarrow> map k (update_where p f rows) = map k rows"
  by (induction rows) (simp_all add: table_simps)

lemma update_where_none:
  "(\<And>r. r \<in> set rows \<Longrightarrow> \<not> p r) \<Longrightarrow> update_where p f rows = rows"
  by (induction rows) (simp_all add: table_simps)

lemma row_count_0_iff: "row_count p rows = 0 \<longleftrightarrow> (\<forall>r \<in> set rows. \<not> p r)"
  by (auto simp: row_count_def filter_empty_conv)

section \<open>Calendar arithmetic\<close>

abbreviation usec_per_second :: int where
  "usec_per_second \<equiv> 1000000"

text \<open>
  The hour and the ISO weekday (1 is Monday) of an instant in UTC. Day 0 of the epoch,
  1 January 1970, was a Thursday.
\<close>

definition utc_hour :: "instant \<Rightarrow> int" where
  "utc_hour t = (t div (3600 * usec_per_second)) mod 24"

definition utc_isoweekday :: "instant \<Rightarrow> int" where
  "utc_isoweekday t = (t div (86400 * usec_per_second) + 3) mod 7 + 1"

lemma utc_hour_range: "0 \<le> utc_hour t \<and> utc_hour t < 24"
  by (simp add: utc_hour_def)

lemma utc_isoweekday_range: "1 \<le> utc_isoweekday t \<and> utc_isoweekday t \<le> 7"
  using pos_mod_bound [of 7 "t div (86400 * usec_per_second) + 3"]
  by (simp add: utc_isoweekday_def)

end
