(* ===== verification/Provider_Spec.thy ===== *)
theory Provider_Spec
  imports Prelude
begin

text \<open>
  \<open>core/providers/spec.py\<close>: the shapes of provider and model facts. Each dataclass is a record
  with the class's fields (prefixed by the class, since record fields share one name space), and
  a function named after the class builds one with the dataclass's default values.
\<close>

datatype StructuredOutput = NONE | JSON_OBJECT | JSON_SCHEMA

datatype Wire = OPENAI_RESPONSES | OPENAI_CHAT | ANTHROPIC_MESSAGES

type_synonym date = "int \<times> int \<times> int"

record Source =
  s_url :: string
  s_read_on :: "date option"
  s_vendor :: bool
  s_note :: string

definition Source_of :: "string \<Rightarrow> date option \<Rightarrow> bool \<Rightarrow> Source" where
  "Source_of url read_on vendor =
     \<lparr>s_url = url, s_read_on = read_on, s_vendor = vendor, s_note = ''''\<rparr>"

record Tier =
  up_to_prompt_tokens :: "int option"
  rate_in :: rat
  rate_out :: rat
  rate_cached_in :: "rat option"
  rate_cache_write_in :: "rat option"

definition Tier_of :: "int option \<Rightarrow> rat \<Rightarrow> rat \<Rightarrow> rat option \<Rightarrow> Tier" where
  "Tier_of up_to rin rout cached =
     \<lparr>up_to_prompt_tokens = up_to, rate_in = rin, rate_out = rout,
      rate_cached_in = cached, rate_cache_write_in = None\<rparr>"

record PeakWindow =
  isodows :: "int list"
  start_hour_utc :: int
  end_hour_utc :: int

record Rates =
  tiers :: "Tier list"
  batch_rate :: "rat option"
  r_source :: Source
  batch_source :: "Source option"
  cache_write_source :: "Source option"
  off_peak_multiplier :: "rat option"
  peak_windows :: "PeakWindow list"
  off_peak_source :: "Source option"

definition Rates_of :: "Tier list \<Rightarrow> rat option \<Rightarrow> Source \<Rightarrow> Rates" where
  "Rates_of ts batch src =
     \<lparr>tiers = ts, batch_rate = batch, r_source = src, batch_source = None,
      cache_write_source = None, off_peak_multiplier = None, peak_windows = [],
      off_peak_source = None\<rparr>"

record Reasoning =
  param :: "string option"
  accepts :: "string list"
  rejects :: "string list"
  default :: "string option"
  rs_source :: Source

record Output =
  max_output_tokens :: "int option"
  default_max_output_tokens :: int
  truncation_finish_reason :: "string option"
  truncates_silently :: bool

record StructuredOutputSpec =
  mode :: StructuredOutput
  requires_literal_json_in_prompt :: bool
  schema_requires_all_fields_required :: bool
  schema_requires_additional_properties_false :: bool

definition StructuredOutputSpec_of :: "StructuredOutput \<Rightarrow> StructuredOutputSpec" where
  "StructuredOutputSpec_of m =
     \<lparr>mode = m, requires_literal_json_in_prompt = False,
      schema_requires_all_fields_required = False,
      schema_requires_additional_properties_false = False\<rparr>"

record Model =
  m_name :: string
  m_note :: string
  context_tokens :: "int option"
  structured_output :: StructuredOutputSpec
  rates :: Rates
  reasoning :: Reasoning
  m_output :: Output
  selectable :: bool
  supports_explicit_prompt_cache :: "bool option"
  batch_supported :: "bool option"
  cache_write_5m_per_mtok :: "rat option"
  cache_write_1h_per_mtok :: "rat option"

definition Model_of ::
  "string \<Rightarrow> string \<Rightarrow> int option \<Rightarrow> StructuredOutputSpec \<Rightarrow> Rates \<Rightarrow> Reasoning \<Rightarrow> Output \<Rightarrow> Model" where
  "Model_of name note ctx so rts rsn out =
     \<lparr>m_name = name, m_note = note, context_tokens = ctx, structured_output = so,
      rates = rts, reasoning = rsn, m_output = out, selectable = True,
      supports_explicit_prompt_cache = None, batch_supported = None,
      cache_write_5m_per_mtok = None, cache_write_1h_per_mtok = None\<rparr>"

record Provider =
  p_name :: string
  wire :: Wire
  base_url :: "string option"
  api_key_env :: string
  supports_temperature :: bool
  batch_endpoint :: "string option"
  p_models :: "Model list"
  p_source :: Source
  exhaustion_markers :: "string list"

lemmas spec_defs = Source_of_def Tier_of_def Rates_of_def StructuredOutputSpec_of_def Model_of_def

section \<open>Well-formed datasheets\<close>

text \<open>
  What the pricing and routing code rely on in a model's facts: at least one tier and none with a
  negative rate, the last tier without a ceiling and the ceilings increasing, multipliers that are
  discounts, and a default effort among the values the model accepts.
\<close>

definition tier_ok :: "Tier \<Rightarrow> bool" where
  "tier_ok t \<longleftrightarrow> 0 \<le> rate_in t \<and> 0 \<le> rate_out t
     \<and> (case rate_cached_in t of None \<Rightarrow> True | Some c \<Rightarrow> 0 \<le> c \<and> c \<le> rate_in t)
     \<and> (case rate_cache_write_in t of None \<Rightarrow> True | Some w \<Rightarrow> rate_in t \<le> w)"

fun ceilings_ok :: "Tier list \<Rightarrow> bool" where
  "ceilings_ok [] = False"
| "ceilings_ok [t] = (up_to_prompt_tokens t = None)"
| "ceilings_ok (t # u # ts) =
     (case up_to_prompt_tokens t of
        None \<Rightarrow> False
      | Some c \<Rightarrow> 0 \<le> c
          \<and> (case up_to_prompt_tokens u of None \<Rightarrow> True | Some d \<Rightarrow> c < d)
          \<and> ceilings_ok (u # ts))"

definition discount :: "rat option \<Rightarrow> bool" where
  "discount m = (case m of None \<Rightarrow> True | Some d \<Rightarrow> 0 < d \<and> d \<le> 1)"

definition rates_ok :: "Rates \<Rightarrow> bool" where
  "rates_ok r \<longleftrightarrow> ceilings_ok (tiers r) \<and> list_all tier_ok (tiers r)
     \<and> discount (batch_rate r) \<and> discount (off_peak_multiplier r)
     \<and> list_all (\<lambda>w. 0 \<le> start_hour_utc w \<and> start_hour_utc w < end_hour_utc w
                    \<and> end_hour_utc w \<le> 24) (peak_windows r)"

definition reasoning_ok :: "Reasoning \<Rightarrow> bool" where
  "reasoning_ok r \<longleftrightarrow> distinct (accepts r)
     \<and> list_all (\<lambda>v. v \<notin> set (accepts r)) (rejects r)
     \<and> (case default r of None \<Rightarrow> True | Some d \<Rightarrow> param r \<noteq> None \<and> d \<in> set (accepts r))"

definition model_ok :: "Model \<Rightarrow> bool" where
  "model_ok m \<longleftrightarrow> m_name m \<noteq> '''' \<and> rates_ok (rates m) \<and> reasoning_ok (reasoning m)"

lemma rates_ok_tiers: "rates_ok r \<Longrightarrow> tiers r \<noteq> []"
  by (auto simp: rates_ok_def)

lemma ceilings_ok_last: "ceilings_ok ts \<Longrightarrow> up_to_prompt_tokens (last ts) = None"
  by (induction ts rule: ceilings_ok.induct) (auto split: option.splits)

lemma rates_ok_tier: "rates_ok r \<Longrightarrow> t \<in> set (tiers r) \<Longrightarrow> tier_ok t"
  by (simp add: rates_ok_def list_all_iff)

end
