(* ===== verification/Datasheet_OpenAI.thy ===== *)
theory Datasheet_OpenAI
  imports Provider_Spec
begin

text \<open>
  \<open>core/providers/openai.py\<close>: OpenAI's rates, limits and accepted effort values, entry by entry
  in the file's order. The module's underscore names are prefixed by \<open>openai\<close>.
\<close>

definition openai_PRICES :: Source where
  "openai_PRICES =
     \<lparr>s_url = ''https://developers.openai.com/api/docs/models'', s_read_on = Some (2026, 9, 23),
      s_vendor = True,
      s_note = ''Reviewed the individual GPT-5, GPT-5.6 and embedding model pages''\<rparr>"

definition openai_PROMPT_CACHING :: Source where
  "openai_PROMPT_CACHING =
     \<lparr>s_url = ''https://developers.openai.com/api/docs/guides/prompt-caching'',
      s_read_on = Some (2026, 9, 15), s_vendor = True,
      s_note = ''GPT-5.6 and later cache writes are 1.25x uncached input; reads are 0.1x''\<rparr>"

definition openai_BATCH :: Source where
  "openai_BATCH =
     \<lparr>s_url = ''https://developers.openai.com/api/docs/guides/batch'',
      s_read_on = Some (2026, 9, 23), s_vendor = True,
      s_note = ''Batch processing at 50% of standard token pricing''\<rparr>"

definition openai_EFFORTS_API :: Source where
  "openai_EFFORTS_API =
     \<lparr>s_url = ''https://api.openai.com/v1/responses'', s_read_on = Some (2026, 9, 2),
      s_vendor = True,
      s_note = ''quoted from the provider's own 400 error text; see comment above''\<rparr>"

definition openai_GPT6_PRICES :: Source where
  "openai_GPT6_PRICES =
     \<lparr>s_url = ''https://developers.openai.com/api/docs/pricing'', s_read_on = Some (2026, 9, 22),
      s_vendor = True,
      s_note = ''short- and long-context rows for gpt-6-luna, gpt-6-sol and gpt-6-astra''\<rparr>"

definition openai_GPT6_TIER_TOKENS :: int where
  "openai_GPT6_TIER_TOKENS = 272000"

definition openai_EARLIER_GEN :: Reasoning where
  "openai_EARLIER_GEN =
     \<lparr>param = Some ''reasoning_effort'',
      accepts = [''minimal'', ''low'', ''medium'', ''high''],
      rejects = [''none'', ''xhigh'', ''max''],
      default = Some ''low'', rs_source = openai_EFFORTS_API\<rparr>"

definition openai_5_6_GEN :: Reasoning where
  "openai_5_6_GEN =
     \<lparr>param = Some ''reasoning_effort'',
      accepts = [''none'', ''low'', ''medium'', ''high'', ''xhigh'', ''max''],
      rejects = [''minimal''],
      default = Some ''low'', rs_source = openai_EFFORTS_API\<rparr>"

definition openai_EFFORTS_API_GPT6 :: Source where
  "openai_EFFORTS_API_GPT6 =
     \<lparr>s_url = ''https://api.openai.com/v1/responses'', s_read_on = Some (2026, 9, 22),
      s_vendor = True,
      s_note = ''per-model 400 text; an invalid value returns the parameter enum instead''\<rparr>"

definition openai_6_GEN :: Reasoning where
  "openai_6_GEN =
     \<lparr>param = Some ''reasoning_effort'',
      accepts = [''none'', ''low'', ''medium'', ''high'', ''xhigh'', ''max''],
      rejects = [''minimal''],
      default = Some ''low'', rs_source = openai_EFFORTS_API_GPT6\<rparr>"

definition openai_6_ASTRA :: Reasoning where
  "openai_6_ASTRA =
     \<lparr>param = Some ''reasoning_effort'',
      accepts = [''low'', ''medium'', ''high'', ''xhigh'', ''max''],
      rejects = [''none'', ''minimal''],
      default = Some ''low'', rs_source = openai_EFFORTS_API_GPT6\<rparr>"

definition openai_OUTPUT :: Output where
  "openai_OUTPUT =
     \<lparr>max_output_tokens = Some 128000, default_max_output_tokens = 6000,
      truncation_finish_reason = Some ''length'', truncates_silently = False\<rparr>"

definition openai_OUTPUT_GPT6 :: Output where
  "openai_OUTPUT_GPT6 =
     \<lparr>max_output_tokens = Some 128000, default_max_output_tokens = 6000,
      truncation_finish_reason = Some ''length'', truncates_silently = False\<rparr>"

definition openai_SCHEMA :: StructuredOutputSpec where
  "openai_SCHEMA =
     (StructuredOutputSpec_of JSON_SCHEMA)
       \<lparr>schema_requires_all_fields_required := True,
        schema_requires_additional_properties_false := True\<rparr>"

text \<open>\<open>_rates\<close> with its keyword default \<open>cache_write_multiplier="1"\<close>, which every call keeps.\<close>

definition openai_rates :: "rat \<Rightarrow> rat \<Rightarrow> rat \<Rightarrow> Rates" where
  "openai_rates rin rout cached =
     (Rates_of [(Tier_of None rin rout (Some cached))\<lparr>rate_cache_write_in := Some (rin * 1)\<rparr>]
        (Some 0.5) openai_PRICES)
       \<lparr>batch_source := Some openai_BATCH, cache_write_source := Some openai_PROMPT_CACHING\<rparr>"

definition openai_gpt6_rates :: "rat \<Rightarrow> rat \<Rightarrow> rat \<Rightarrow> rat \<Rightarrow> rat \<Rightarrow> rat \<Rightarrow> Rates" where
  "openai_gpt6_rates lo_in lo_out lo_cached hi_in hi_out hi_cached =
     (Rates_of
        [(Tier_of (Some openai_GPT6_TIER_TOKENS) lo_in lo_out (Some lo_cached))
           \<lparr>rate_cache_write_in := Some (lo_in * 1.25)\<rparr>,
         (Tier_of None hi_in hi_out (Some hi_cached))
           \<lparr>rate_cache_write_in := Some (hi_in * 1.25)\<rparr>]
        (Some 0.5) openai_GPT6_PRICES)
       \<lparr>batch_source := Some openai_GPT6_PRICES, cache_write_source := Some openai_PROMPT_CACHING\<rparr>"

definition openai_long_context_rates ::
  "string \<Rightarrow> rat \<Rightarrow> rat \<Rightarrow> rat \<Rightarrow> rat \<Rightarrow> rat \<Rightarrow> rat \<Rightarrow> Rates" where
  "openai_long_context_rates name lo_in lo_out lo_cached hi_in hi_out hi_cached =
     (openai_gpt6_rates lo_in lo_out lo_cached hi_in hi_out hi_cached)
       \<lparr>r_source := Source_of (''https://developers.openai.com/api/docs/models/'' @ name)
                      (Some (2026, 9, 23)) True,
        batch_source := Some openai_BATCH\<rparr>"

definition openai_models :: "Model list" where
  "openai_models =
     [Model_of ''gpt-5-nano'' ''Small previous-generation model; check task quality evidence''
        (Some 400000) openai_SCHEMA (openai_rates 0.05 0.40 0.005) openai_EARLIER_GEN openai_OUTPUT,
      Model_of ''gpt-5-mini'' ''Better judgment on nuanced criteria''
        (Some 400000) openai_SCHEMA (openai_rates 0.25 2.00 0.025) openai_EARLIER_GEN openai_OUTPUT,
      Model_of ''gpt-5'' ''Strong general model''
        (Some 400000) openai_SCHEMA (openai_rates 1.25 10.00 0.125) openai_EARLIER_GEN openai_OUTPUT,
      (Model_of ''gpt-5.6-luna'' ''GPT-5.6 small model, fast and cheap''
        (Some 1050000) openai_SCHEMA
        (openai_long_context_rates ''gpt-5.6-luna'' 0.20 1.20 0.020 0.40 1.80 0.040)
        openai_5_6_GEN openai_OUTPUT)\<lparr>supports_explicit_prompt_cache := Some True\<rparr>,
      Model_of ''gpt-5.6-terra'' ''GPT-5.6 mid-tier, strong quality''
        (Some 1050000) openai_SCHEMA
        (openai_long_context_rates ''gpt-5.6-terra'' 2.00 12.00 0.200 4.00 18.00 0.400)
        openai_5_6_GEN openai_OUTPUT,
      (Model_of ''text-embedding-3-small'' ''Embeddings; not a chat model''
        None (StructuredOutputSpec_of NONE) (openai_rates 0.02 0.00 0.02)
        \<lparr>param = None, accepts = [], rejects = [], default = None, rs_source = openai_PRICES\<rparr>
        \<lparr>max_output_tokens = None, default_max_output_tokens = 0,
         truncation_finish_reason = None, truncates_silently = False\<rparr>)
        \<lparr>selectable := False\<rparr>,
      Model_of ''gpt-5.6-sol'' ''GPT-5.6 flagship''
        (Some 1050000) openai_SCHEMA
        (openai_long_context_rates ''gpt-5.6-sol'' 4.00 20.00 0.400 8.00 30.00 0.800)
        openai_5_6_GEN openai_OUTPUT,
      (Model_of ''gpt-6-luna'' ''GPT-6 small: cheapest of the generation''
        (Some 1050000) openai_SCHEMA (openai_gpt6_rates 0.10 0.50 0.01 0.20 0.75 0.02)
        openai_6_GEN openai_OUTPUT_GPT6)\<lparr>supports_explicit_prompt_cache := Some True\<rparr>,
      (Model_of ''gpt-6-sol'' ''GPT-6 mid-tier''
        (Some 1050000) openai_SCHEMA (openai_gpt6_rates 2.00 10.00 0.20 4.00 15.00 0.40)
        openai_6_GEN openai_OUTPUT_GPT6)\<lparr>supports_explicit_prompt_cache := Some True\<rparr>,
      (Model_of ''gpt-6-astra'' ''GPT-6 flagship, highest cost''
        (Some 1050000) openai_SCHEMA (openai_gpt6_rates 10.00 50.00 1.00 20.00 75.00 2.00)
        openai_6_ASTRA openai_OUTPUT_GPT6)\<lparr>supports_explicit_prompt_cache := Some True\<rparr>]"

definition openai_PROVIDER :: Provider where
  "openai_PROVIDER =
     \<lparr>p_name = ''openai'', wire = OPENAI_RESPONSES, base_url = None,
      api_key_env = ''OPENAI_API_KEY'', supports_temperature = False,
      batch_endpoint = Some ''/v1/responses'',
      p_models = openai_models,
      p_source = \<lparr>s_url = '''', s_read_on = None, s_vendor = False,
        s_note = ''transport facts are from this codebase's own working integration''\<rparr>,
      exhaustion_markers =
        [''billing hard limit has been reached'', ''billing_hard_limit_reached'',
         ''insufficient_quota'', ''exceeded your current quota'', ''billing_not_active'',
         ''please check your billing details'']\<rparr>"

lemmas openai_entry_defs =
  openai_EARLIER_GEN_def openai_5_6_GEN_def openai_6_GEN_def openai_6_ASTRA_def
  openai_rates_def openai_gpt6_rates_def openai_long_context_rates_def openai_GPT6_TIER_TOKENS_def
  openai_OUTPUT_def openai_OUTPUT_GPT6_def openai_SCHEMA_def

text \<open>Every entry of this datasheet is well formed.\<close>

lemma openai_models_ok: "list_all model_ok openai_models"
  by (simp add: openai_models_def model_ok_def rates_ok_def reasoning_ok_def tier_ok_def
      discount_def openai_entry_defs spec_defs)

end
