(* ===== verification/Datasheet_Anthropic.thy ===== *)
theory Datasheet_Anthropic
  imports Provider_Spec
begin

text \<open>
  \<open>core/providers/anthropic.py\<close>: direct Claude API rates and capabilities. \<open>dataclasses.replace\<close>
  is a record update; the module's underscore names are prefixed by \<open>anthropic\<close>.
\<close>

definition anthropic_PRICES :: Source where
  "anthropic_PRICES =
     \<lparr>s_url = ''https://platform.claude.com/docs/en/about-claude/pricing'',
      s_read_on = Some (2026, 9, 23), s_vendor = True,
      s_note = ''Direct global API prices; cache and batch discounts stack''\<rparr>"

definition anthropic_BATCH :: Source where
  "anthropic_BATCH =
     \<lparr>s_url = ''https://platform.claude.com/docs/en/build-with-claude/batch-processing'',
      s_read_on = Some (2026, 9, 23), s_vendor = True,
      s_note = ''Message Batches at 50%; requires a separate collector''\<rparr>"

definition anthropic_EFFORT :: Reasoning where
  "anthropic_EFFORT =
     \<lparr>param = Some ''effort'',
      accepts = [''low'', ''medium'', ''high'', ''xhigh'', ''max''],
      rejects = [], default = None,
      rs_source = Source_of ''https://platform.claude.com/docs/en/build-with-claude/effort''
                    (Some (2026, 9, 23)) True\<rparr>"

definition anthropic_OUTPUT :: Output where
  "anthropic_OUTPUT =
     \<lparr>max_output_tokens = Some 128000, default_max_output_tokens = 4000,
      truncation_finish_reason = Some ''max_tokens'', truncates_silently = False\<rparr>"

definition anthropic_SCHEMA :: StructuredOutputSpec where
  "anthropic_SCHEMA = StructuredOutputSpec_of JSON_SCHEMA"

definition anthropic_PRICES_1030 :: Source where
  "anthropic_PRICES_1030 = anthropic_PRICES\<lparr>s_read_on := Some (2026, 10, 30)\<rparr>"

definition anthropic_WRITE_1H :: rat where
  "anthropic_WRITE_1H = 2"

definition anthropic_rates :: "rat \<Rightarrow> rat \<Rightarrow> rat \<Rightarrow> Source \<Rightarrow> Rates" where
  "anthropic_rates rin rout cached src =
     (Rates_of
        [(Tier_of None rin rout (Some cached))
           \<lparr>rate_cache_write_in := Some (rin * anthropic_WRITE_1H)\<rparr>]
        (Some 0.5) src)
       \<lparr>batch_source := Some anthropic_BATCH\<rparr>"

definition anthropic_MODELS :: Source where
  "anthropic_MODELS =
     Source_of ''https://platform.claude.com/docs/en/models/overview'' (Some (2026, 9, 23)) True"

definition anthropic_HAIKU_EFFORT :: Reasoning where
  "anthropic_HAIKU_EFFORT =
     \<lparr>param = None, accepts = [], rejects = [], default = None, rs_source = anthropic_MODELS\<rparr>"

definition anthropic_HAIKU_OUTPUT :: Output where
  "anthropic_HAIKU_OUTPUT =
     \<lparr>max_output_tokens = Some 64000, default_max_output_tokens = 4000,
      truncation_finish_reason = Some ''max_tokens'', truncates_silently = False\<rparr>"

definition anthropic_API_MODELS :: Source where
  "anthropic_API_MODELS =
     \<lparr>s_url = ''https://api.anthropic.com/v1/models'', s_read_on = Some (2026, 9, 23),
      s_vendor = True,
      s_note = ''Read-only model catalog: limits, effort levels and structured-output support''\<rparr>"

definition anthropic_EFFORT_46 :: Reasoning where
  "anthropic_EFFORT_46 =
     \<lparr>param = Some ''effort'', accepts = [''low'', ''medium'', ''high'', ''max''],
      rejects = [''xhigh''], default = None, rs_source = anthropic_API_MODELS\<rparr>"

definition anthropic_EFFORT_45 :: Reasoning where
  "anthropic_EFFORT_45 =
     \<lparr>param = Some ''effort'', accepts = [''low'', ''medium'', ''high''],
      rejects = [''xhigh'', ''max''], default = None, rs_source = anthropic_API_MODELS\<rparr>"

definition anthropic_current ::
  "string \<Rightarrow> string \<Rightarrow> rat \<Rightarrow> rat \<Rightarrow> rat \<Rightarrow> Source \<Rightarrow> Model" where
  "anthropic_current name note rin rout cached src =
     (Model_of name note (Some 1000000) anthropic_SCHEMA (anthropic_rates rin rout cached src)
        anthropic_EFFORT anthropic_OUTPUT)
       \<lparr>batch_supported := Some True,
        cache_write_5m_per_mtok := Some (rin * 1.25),
        cache_write_1h_per_mtok := Some (rin * 2)\<rparr>"

definition anthropic_models :: "Model list" where
  "anthropic_models =
     [(Model_of ''claude-opus-5'' ''Previous Opus generation; existing default preserved''
        (Some 1000000) anthropic_SCHEMA (anthropic_rates 5.00 25.00 0.500 anthropic_PRICES)
        anthropic_EFFORT anthropic_OUTPUT)
        \<lparr>batch_supported := Some True, cache_write_5m_per_mtok := Some 6.25,
         cache_write_1h_per_mtok := Some 10\<rparr>,
      (Model_of ''claude-sonnet-5'' ''Strong quality at lower cost''
        (Some 1000000) anthropic_SCHEMA (anthropic_rates 2.00 10.00 0.200 anthropic_PRICES)
        anthropic_EFFORT anthropic_OUTPUT)
        \<lparr>batch_supported := Some True, cache_write_5m_per_mtok := Some 2.5,
         cache_write_1h_per_mtok := Some 4\<rparr>,
      (Model_of ''claude-haiku-4-5'' ''Fast and cheap for simple filters''
        (Some 200000) anthropic_SCHEMA (anthropic_rates 1.00 5.00 0.100 anthropic_PRICES)
        anthropic_HAIKU_EFFORT anthropic_HAIKU_OUTPUT)
        \<lparr>batch_supported := Some True, cache_write_5m_per_mtok := Some 1.25,
         cache_write_1h_per_mtok := Some 2\<rparr>,
      anthropic_current ''claude-opus-5-5'' ''Current Opus; adaptive thinking always on''
        4 20 0.2 anthropic_PRICES,
      anthropic_current ''claude-sonnet-5-5'' ''Current Sonnet'' 2 10 0.1 anthropic_PRICES_1030,
      (Model_of ''claude-haiku-5-5'' ''Current Haiku; batched, priced like gpt-6-luna''
        (Some 1000000) anthropic_SCHEMA
        ((Rates_of
           [(Tier_of (Some 100000) 0.10 0.50 (Some 0.01))\<lparr>rate_cache_write_in := Some 0.20\<rparr>,
            (Tier_of None 0.50 2.50 (Some 0.05))\<lparr>rate_cache_write_in := Some 1.00\<rparr>]
           (Some 0.5) anthropic_PRICES_1030)\<lparr>batch_source := Some anthropic_BATCH\<rparr>)
        anthropic_EFFORT anthropic_OUTPUT)
        \<lparr>batch_supported := Some True, cache_write_5m_per_mtok := Some 0.125,
         cache_write_1h_per_mtok := Some 0.20\<rparr>,
      anthropic_current ''claude-fable-5-1'' ''Frontier reasoning; adaptive thinking always on''
        10 50 0.25 anthropic_PRICES,
      anthropic_current ''claude-fable-5'' ''Previous Fable generation'' 10 50 1 anthropic_PRICES,
      anthropic_current ''claude-opus-4-8'' ''Legacy Opus 4.8; 1M context'' 5 25 0.5 anthropic_PRICES,
      anthropic_current ''claude-opus-4-7'' ''Legacy Opus 4.7; 1M context'' 5 25 0.5 anthropic_PRICES,
      (anthropic_current ''claude-opus-4-6'' ''Legacy Opus 4.6; 1M context'' 5 25 0.5
         anthropic_PRICES)\<lparr>reasoning := anthropic_EFFORT_46\<rparr>,
      (anthropic_current ''claude-sonnet-4-6'' ''Legacy Sonnet 4.6; 1M context'' 3 15 0.3
         anthropic_PRICES)\<lparr>reasoning := anthropic_EFFORT_46\<rparr>,
      (anthropic_current ''claude-opus-4-5-20251101'' ''Pinned legacy Opus 4.5'' 5 25 0.5
         anthropic_PRICES)
        \<lparr>context_tokens := Some 200000, m_output := anthropic_HAIKU_OUTPUT,
         reasoning := anthropic_EFFORT_45\<rparr>,
      (anthropic_current ''claude-sonnet-4-5-20250929''
         ''Pinned legacy Sonnet 4.5; standard 200K context'' 3 15 0.3 anthropic_PRICES)
        \<lparr>context_tokens := Some 200000, m_output := anthropic_HAIKU_OUTPUT,
         reasoning := anthropic_HAIKU_EFFORT\<rparr>,
      (Model_of ''claude-haiku-4-5-20251001'' ''Pinned Haiku 4.5 snapshot; no effort parameter''
        (Some 200000) anthropic_SCHEMA (anthropic_rates 1 5 0.1 anthropic_PRICES)
        anthropic_HAIKU_EFFORT anthropic_HAIKU_OUTPUT)
        \<lparr>batch_supported := Some True, cache_write_5m_per_mtok := Some 1.25,
         cache_write_1h_per_mtok := Some 2\<rparr>]"

definition anthropic_PROVIDER :: Provider where
  "anthropic_PROVIDER =
     \<lparr>p_name = ''anthropic'', wire = ANTHROPIC_MESSAGES, base_url = None,
      api_key_env = ''ANTHROPIC_API_KEY'', supports_temperature = False,
      batch_endpoint = Some ''/v1/messages/batches'',
      p_models = anthropic_models,
      p_source = anthropic_MODELS,
      exhaustion_markers = [''credit balance is too low'', ''billing_error'']\<rparr>"

lemmas anthropic_entry_defs =
  anthropic_EFFORT_def anthropic_EFFORT_46_def anthropic_EFFORT_45_def anthropic_HAIKU_EFFORT_def
  anthropic_rates_def anthropic_WRITE_1H_def anthropic_current_def
  anthropic_OUTPUT_def anthropic_HAIKU_OUTPUT_def anthropic_SCHEMA_def

text \<open>Every entry of this datasheet is well formed.\<close>

lemma anthropic_models_ok: "list_all model_ok anthropic_models"
  by (simp add: anthropic_models_def model_ok_def rates_ok_def reasoning_ok_def tier_ok_def
      discount_def anthropic_entry_defs spec_defs)

end
