(* ===== verification/Datasheet_XAI.thy ===== *)
theory Datasheet_XAI
  imports Provider_Spec
begin

text \<open>
  \<open>core/providers/xai.py\<close>: xAI's tiers, batch eligibility and effort values. The module's
  underscore names are prefixed by \<open>xai\<close>.
\<close>

definition xai_DOCS :: Source where
  "xai_DOCS =
     \<lparr>s_url = ''https://docs.x.ai/developers/pricing'', s_read_on = Some (2026, 9, 23),
      s_vendor = True,
      s_note = ''vendor model page; the page itself carries no last-updated date''\<rparr>"

definition xai_MODEL_API :: Source where
  "xai_MODEL_API =
     \<lparr>s_url = ''https://api.x.ai/v1/models'', s_read_on = Some (2026, 9, 23), s_vendor = True,
      s_note = ''Read-only capability enumeration; preserve the application's low-effort default''\<rparr>"

definition xai_TIER_TOKENS :: int where
  "xai_TIER_TOKENS = 199999"

definition xai_BATCH :: Source where
  "xai_BATCH =
     \<lparr>s_url = ''https://docs.x.ai/developers/advanced-api-usage/batch-api'',
      s_read_on = Some (2026, 9, 23), s_vendor = True,
      s_note = ''20% discount only for grok-4.3 and the three grok-4.20-0309 variants''\<rparr>"

definition xai_SCHEMA :: StructuredOutputSpec where
  "xai_SCHEMA = StructuredOutputSpec_of JSON_SCHEMA"

definition xai_rates ::
  "rat \<Rightarrow> rat \<Rightarrow> rat \<Rightarrow> rat \<Rightarrow> rat \<Rightarrow> rat \<Rightarrow> rat option \<Rightarrow> Rates" where
  "xai_rates lo_in lo_out lo_cached hi_in hi_out hi_cached batch =
     (Rates_of
        [Tier_of (Some xai_TIER_TOKENS) lo_in lo_out (Some lo_cached),
         Tier_of None hi_in hi_out (Some hi_cached)]
        batch xai_DOCS)
       \<lparr>batch_source := Some xai_BATCH\<rparr>"

definition xai_output :: Output where
  "xai_output =
     \<lparr>max_output_tokens = None, default_max_output_tokens = 6000,
      truncation_finish_reason = Some ''length'', truncates_silently = False\<rparr>"

definition xai_EFFORT_4_3 :: Reasoning where
  "xai_EFFORT_4_3 =
     \<lparr>param = Some ''reasoning_effort'',
      accepts = [''none'', ''low'', ''medium'', ''high'', ''xhigh''],
      rejects = [''minimal'', ''max''],
      default = Some ''low'', rs_source = xai_MODEL_API\<rparr>"

definition xai_EFFORT_4_5_AND_4_6 :: Reasoning where
  "xai_EFFORT_4_5_AND_4_6 =
     \<lparr>param = Some ''reasoning_effort'',
      accepts = [''low'', ''medium'', ''high'', ''xhigh''],
      rejects = [''none'', ''minimal'', ''max''],
      default = Some ''low'', rs_source = xai_MODEL_API\<rparr>"

definition xai_EFFORT_4_7 :: Reasoning where
  "xai_EFFORT_4_7 =
     \<lparr>param = Some ''reasoning_effort'',
      accepts = [''low'', ''medium'', ''high'', ''xhigh''],
      rejects = [''none'', ''minimal'', ''max''],
      default = Some ''low'',
      rs_source = Source_of ''https://docs.x.ai/developers/models/grok-4.7''
                    (Some (2026, 9, 23)) True\<rparr>"

definition xai_UNVERIFIED_EFFORT :: Reasoning where
  "xai_UNVERIFIED_EFFORT =
     \<lparr>param = Some ''reasoning_effort'', accepts = [], rejects = [], default = None,
      rs_source =
        \<lparr>s_url = ''https://docs.x.ai/developers/models/grok-build-0.1'',
         s_read_on = Some (2026, 9, 23), s_vendor = True,
         s_note = ''No accepted effort enum is published; omit the parameter''\<rparr>\<rparr>"

definition xai_models :: "Model list" where
  "xai_models =
     [(Model_of ''grok-4.3'' ''Cheapest Grok; 1M context'' (Some 1000000) xai_SCHEMA
        (xai_rates 1.25 2.50 0.20 2.50 5.00 0.40 (Some 0.8)) xai_EFFORT_4_3 xai_output)
        \<lparr>batch_supported := Some True\<rparr>,
      (Model_of ''grok-4.5'' ''Stronger; 500K context'' (Some 500000) xai_SCHEMA
        (xai_rates 2.00 6.00 0.30 4.00 12.00 0.60 None) xai_EFFORT_4_5_AND_4_6 xai_output)
        \<lparr>batch_supported := Some False\<rparr>,
      (Model_of ''grok-4.6'' ''Previous flagship; 500K context'' (Some 500000) xai_SCHEMA
        (xai_rates 2.00 6.00 0.50 4.00 12.00 1.00 None) xai_EFFORT_4_5_AND_4_6 xai_output)
        \<lparr>batch_supported := Some False\<rparr>,
      (Model_of ''grok-4.7'' ''Current flagship; no Batch API support'' (Some 500000) xai_SCHEMA
        (xai_rates 2 6 0.5 4 12 1 None) xai_EFFORT_4_7 xai_output)
        \<lparr>batch_supported := Some False\<rparr>,
      (Model_of ''grok-build-0.1'' ''Coding and workflow model; no Batch API support''
        (Some 256000) xai_SCHEMA
        (xai_rates 1 2 0.2 2 4 0.4 None) xai_UNVERIFIED_EFFORT xai_output)
        \<lparr>batch_supported := Some False\<rparr>,
      (Model_of ''grok-4.20-0309-reasoning'' ''Pinned Grok 4.20 reasoning; vendor batch discount 20%''
        (Some 1000000) xai_SCHEMA
        (xai_rates 1.25 2.50 0.20 2.50 5.00 0.40 (Some 0.8)) xai_UNVERIFIED_EFFORT xai_output)
        \<lparr>batch_supported := Some True\<rparr>,
      (Model_of ''grok-4.20-0309-non-reasoning''
        ''Pinned Grok 4.20 non-reasoning; vendor batch discount 20%''
        (Some 1000000) xai_SCHEMA
        (xai_rates 1.25 2.50 0.20 2.50 5.00 0.40 (Some 0.8))
        \<lparr>param = None, accepts = [], rejects = [], default = None, rs_source = xai_MODEL_API\<rparr>
        xai_output)
        \<lparr>batch_supported := Some True\<rparr>]"

definition xai_PROVIDER :: Provider where
  "xai_PROVIDER =
     \<lparr>p_name = ''xai'', wire = OPENAI_CHAT, base_url = Some ''https://api.x.ai/v1'',
      api_key_env = ''XAI_API_KEY'', supports_temperature = True,
      batch_endpoint = Some ''/v1/batches'',
      p_models = xai_models,
      p_source = xai_DOCS,
      exhaustion_markers = []\<rparr>"

lemmas xai_entry_defs =
  xai_EFFORT_4_3_def xai_EFFORT_4_5_AND_4_6_def xai_EFFORT_4_7_def xai_UNVERIFIED_EFFORT_def
  xai_rates_def xai_TIER_TOKENS_def xai_output_def xai_SCHEMA_def

text \<open>Every entry of this datasheet is well formed.\<close>

lemma xai_models_ok: "list_all model_ok xai_models"
  by (simp add: xai_models_def model_ok_def rates_ok_def reasoning_ok_def tier_ok_def
      discount_def xai_entry_defs spec_defs)

end
