(* ===== verification/Datasheet_DeepSeek.thy ===== *)
theory Datasheet_DeepSeek
  imports Provider_Spec
begin

text \<open>
  \<open>core/providers/deepseek.py\<close>: DeepSeek's peak rates, its peak windows and its off-peak
  multiplier. The module's underscore names are prefixed by \<open>deepseek\<close>.
\<close>

definition deepseek_PRICING :: Source where
  "deepseek_PRICING =
     \<lparr>s_url = ''https://api-docs.deepseek.com/quick_start/pricing'',
      s_read_on = Some (2026, 9, 23), s_vendor = True,
      s_note = ''peak rates; off-peak is exactly half - see PEAK_WINDOWS''\<rparr>"

definition deepseek_PROBE :: Source where
  "deepseek_PROBE =
     \<lparr>s_url = ''https://api.deepseek.com/chat/completions'', s_read_on = Some (2026, 9, 2),
      s_vendor = True,
      s_note = ''established by live probe; provider error text quoted verbatim below''\<rparr>"

definition deepseek_WEEKDAYS :: "int list" where
  "deepseek_WEEKDAYS = [1, 2, 3, 4, 5]"

definition deepseek_PEAK_WINDOWS :: "PeakWindow list" where
  "deepseek_PEAK_WINDOWS =
     [\<lparr>isodows = deepseek_WEEKDAYS, start_hour_utc = 1, end_hour_utc = 4\<rparr>,
      \<lparr>isodows = deepseek_WEEKDAYS, start_hour_utc = 6, end_hour_utc = 10\<rparr>]"

definition deepseek_OFF_PEAK :: Source where
  "deepseek_OFF_PEAK =
     \<lparr>s_url = ''https://api-docs.deepseek.com/quick_start/pricing'',
      s_read_on = Some (2026, 9, 2), s_vendor = True,
      s_note =
        [CHR 0x27] @ ''Off-peak rates are half of the peak rates. Peak hours are 01:00 - 04:00 ''
        @ ''and 06:00 - 10:00 UTC, Monday through Friday (all other hours are ''
        @ ''off-peak).'' @ [CHR 0x27] @ '' Quoted from the vendor page.''\<rparr>"

definition deepseek_SCHEMA :: StructuredOutputSpec where
  "deepseek_SCHEMA =
     (StructuredOutputSpec_of JSON_OBJECT)\<lparr>requires_literal_json_in_prompt := True\<rparr>"

definition deepseek_REASONING :: Reasoning where
  "deepseek_REASONING =
     \<lparr>param = Some ''reasoning_effort'',
      accepts = [''minimal'', ''low'', ''medium'', ''high'', ''none''],
      rejects = [], default = Some ''low'', rs_source = deepseek_PROBE\<rparr>"

definition deepseek_OUTPUT :: Output where
  "deepseek_OUTPUT =
     \<lparr>max_output_tokens = Some 384000, default_max_output_tokens = 6000,
      truncation_finish_reason = Some ''length'', truncates_silently = False\<rparr>"

definition deepseek_rates :: "rat \<Rightarrow> rat \<Rightarrow> rat \<Rightarrow> Rates" where
  "deepseek_rates rin rout cached =
     (Rates_of [Tier_of None rin rout (Some cached)] None deepseek_PRICING)
       \<lparr>batch_source := None, off_peak_multiplier := Some 0.5,
        peak_windows := deepseek_PEAK_WINDOWS, off_peak_source := Some deepseek_OFF_PEAK\<rparr>"

definition deepseek_models :: "Model list" where
  "deepseek_models =
     [Model_of ''deepseek-v4-flash'' ''Legacy alias now served and billed as DeepSeek V4.1 Flash''
        (Some 1000000) deepseek_SCHEMA (deepseek_rates 0.30 1.20 0.006)
        deepseek_REASONING deepseek_OUTPUT,
      Model_of ''deepseek-v4-pro'' ''DeepSeek V4 Pro 0813; off-peak pricing available''
        (Some 1000000) deepseek_SCHEMA (deepseek_rates 1.32 3.96 0.044)
        deepseek_REASONING deepseek_OUTPUT,
      Model_of ''deepseek-v4-flash-vision-exp''
        ''Legacy vision alias now served and billed as DeepSeek V4.1 Flash''
        (Some 1000000) deepseek_SCHEMA (deepseek_rates 0.30 1.20 0.006)
        deepseek_REASONING deepseek_OUTPUT,
      (Model_of ''deepseek-flash'' ''Current DeepSeek V4.1 Flash; text and vision, off-peak pricing''
        (Some 1000000) deepseek_SCHEMA (deepseek_rates 0.30 1.20 0.006)
        deepseek_REASONING deepseek_OUTPUT)\<lparr>batch_supported := Some False\<rparr>]"

definition deepseek_PROVIDER :: Provider where
  "deepseek_PROVIDER =
     \<lparr>p_name = ''deepseek'', wire = OPENAI_CHAT, base_url = Some ''https://api.deepseek.com'',
      api_key_env = ''DEEPSEEK_API_KEY'', supports_temperature = True,
      batch_endpoint = None,
      p_models = deepseek_models,
      p_source = deepseek_PROBE,
      exhaustion_markers = [''insufficient balance'']\<rparr>"

lemmas deepseek_entry_defs =
  deepseek_REASONING_def deepseek_rates_def deepseek_PEAK_WINDOWS_def deepseek_WEEKDAYS_def
  deepseek_OUTPUT_def deepseek_SCHEMA_def

text \<open>Every entry of this datasheet is well formed.\<close>

lemma deepseek_models_ok: "list_all model_ok deepseek_models"
  by (simp add: deepseek_models_def model_ok_def rates_ok_def reasoning_ok_def tier_ok_def
      discount_def deepseek_entry_defs spec_defs)

end
