(* ===== verification/Providers.thy ===== *)
theory Providers
  imports Datasheet_OpenAI Datasheet_Anthropic Datasheet_XAI Datasheet_DeepSeek
begin

text \<open>
  \<open>core/providers/__init__.py\<close>: the registry the router, the pricer and the settings read, and
  \<open>core/batch_capabilities.py\<close>, what this application can batch. A dict is an association list
  in insertion order.
\<close>

definition MODULES :: "Provider list" where
  "MODULES = [openai_PROVIDER, anthropic_PROVIDER, xai_PROVIDER, deepseek_PROVIDER]"

definition PROVIDERS :: "(string \<times> Provider) list" where
  "PROVIDERS = map (\<lambda>p. (p_name p, p)) MODULES"

text \<open>
  \<open>_index\<close>: the loop over the providers' models, refusing a name declared twice with the
  \<open>ValueError\<close> of the source.
\<close>

type_synonym index = "(string \<times> (string \<times> Model)) list"

fun index_models :: "string \<Rightarrow> Model list \<Rightarrow> index \<Rightarrow> index result" where
  "index_models prov [] out = Inr out"
| "index_models prov (m # ms) out =
     (case map_of out (m_name m) of
        Some (other, _) \<Rightarrow>
          Inl (ValueError (''model '' @ [CHR 0x27] @ m_name m @ [CHR 0x27]
                 @ '' is declared by both '' @ other @ '' and '' @ prov))
      | None \<Rightarrow> index_models prov ms (out @ [(m_name m, (prov, m))]))"

fun index_providers :: "Provider list \<Rightarrow> index \<Rightarrow> index result" where
  "index_providers [] out = Inr out"
| "index_providers (p # ps) out =
     and_then (index_models (p_name p) (p_models p) out) (index_providers ps)"

definition MODELS_index :: "index result" where
  "MODELS_index = index_providers (map snd PROVIDERS) []"

text \<open>
  The module constant. When \<open>_index\<close> raises, the import fails and nothing runs; theorem
  \<open>MODELS_index_ok\<close> shows that it does not raise on the shipped datasheets.
\<close>

definition MODELS :: index where
  "MODELS = (case MODELS_index of Inr out \<Rightarrow> out | Inl _ \<Rightarrow> [])"

text \<open>\<open>name or ""\<close>: a missing name is looked up as the empty string.\<close>

definition model :: "string option \<Rightarrow> Model option" where
  "model name = map_option snd (map_of MODELS (coalesce name ''''))"

definition provider_of :: "string option \<Rightarrow> string option" where
  "provider_of name = map_option fst (map_of MODELS (coalesce name ''''))"

section \<open>Indexing\<close>

definition entries :: "Provider list \<Rightarrow> index" where
  "entries ps = concat (map (\<lambda>p. map (\<lambda>m. (m_name m, (p_name p, m))) (p_models p)) ps)"

lemma index_models_fresh:
  assumes "distinct (map fst out @ map m_name ms)"
  shows "index_models prov ms out = Inr (out @ map (\<lambda>m. (m_name m, (prov, m))) ms)"
  using assms
proof (induction ms arbitrary: out)
  case Nil
  show ?case by simp
next
  case (Cons m ms)
  have "map_of out (m_name m) = None"
    using Cons.prems by (auto simp: map_of_eq_None_iff)
  moreover have "distinct (map fst (out @ [(m_name m, (prov, m))]) @ map m_name ms)"
    using Cons.prems by auto
  ultimately show ?case using Cons.IH by auto
qed

lemma index_providers_fresh:
  assumes "distinct (map fst out @ map m_name (concat (map p_models ps)))"
  shows "index_providers ps out = Inr (out @ entries ps)"
  using assms
proof (induction ps arbitrary: out)
  case Nil
  show ?case by (simp add: entries_def)
next
  case (Cons p ps)
  let ?out = "out @ map (\<lambda>m. (m_name m, (p_name p, m))) (p_models p)"
  have "index_models (p_name p) (p_models p) out = Inr ?out"
    using Cons.prems by (intro index_models_fresh) (auto simp: map_concat)
  moreover have "distinct (map fst ?out @ map m_name (concat (map p_models ps)))"
    using Cons.prems by (auto simp: comp_def)
  then have "index_providers ps ?out = Inr (?out @ entries ps)" by (rule Cons.IH)
  ultimately show ?case by (simp add: entries_def)
qed

text \<open>A duplicate name anywhere makes the index raise.\<close>

lemma index_models_duplicate:
  assumes "\<not> distinct (map m_name ms) \<or> (\<exists>m \<in> set ms. m_name m \<in> fst ` set out)"
  shows "\<exists>e. index_models prov ms out = Inl e"
  using assms
proof (induction ms arbitrary: out)
  case Nil
  then show ?case by simp
next
  case (Cons m ms)
  show ?case
  proof (cases "map_of out (m_name m)")
    case None
    then have "m_name m \<notin> fst ` set out" by (simp add: map_of_eq_None_iff)
    with Cons.prems have "\<not> distinct (map m_name ms)
        \<or> (\<exists>x \<in> set ms. m_name x \<in> fst ` set (out @ [(m_name m, (prov, m))]))"
      by auto
    with None Cons.IH show ?thesis by simp
  next
    case (Some v)
    then show ?thesis by (cases v) simp
  qed
qed

section \<open>The shipped catalogue\<close>

lemma model_names_distinct: "distinct (map m_name (concat (map p_models MODULES)))"
  by (simp add: MODULES_def openai_PROVIDER_def anthropic_PROVIDER_def xai_PROVIDER_def
      deepseek_PROVIDER_def openai_models_def anthropic_models_def xai_models_def
      deepseek_models_def anthropic_current_def Model_of_def)

lemma MODELS_index_eq: "MODELS_index = Inr (entries MODULES)"
  using index_providers_fresh [of "[]" MODULES] model_names_distinct
  by (simp add: MODELS_index_def PROVIDERS_def comp_def)

lemma MODELS_eq: "MODELS = entries MODULES"
  by (simp add: MODELS_def MODELS_index_eq)

lemma MODELS_keys: "(n, (p, m)) \<in> set MODELS \<Longrightarrow> m_name m = n"
  by (auto simp: MODELS_eq entries_def)

lemma MODELS_distinct: "distinct (map fst MODELS)"
  using model_names_distinct by (simp add: MODELS_eq entries_def map_concat comp_def)

lemma MODELS_models_ok: "(n, (p, m)) \<in> set MODELS \<Longrightarrow> model_ok m"
  using openai_models_ok anthropic_models_ok xai_models_ok deepseek_models_ok
  by (auto simp: MODELS_eq entries_def MODULES_def openai_PROVIDER_def anthropic_PROVIDER_def
      xai_PROVIDER_def deepseek_PROVIDER_def list_all_iff)

lemma MODELS_provider: "(n, (p, m)) \<in> set MODELS \<Longrightarrow> p \<in> fst ` set PROVIDERS"
  by (force simp: MODELS_eq entries_def PROVIDERS_def)

lemma model_Some_iff: "model (Some n) = Some m \<longleftrightarrow> (\<exists>p. (n, (p, m)) \<in> set MODELS)"
  using MODELS_distinct by (auto simp: model_def map_of_eq_Some_iff)

lemma provider_of_Some_iff: "provider_of (Some n) = Some p \<longleftrightarrow> (\<exists>m. (n, (p, m)) \<in> set MODELS)"
  using MODELS_distinct by (auto simp: provider_of_def map_of_eq_Some_iff)

lemma model_ok_of: "model n = Some m \<Longrightarrow> model_ok m"
  using MODELS_distinct by (auto simp: model_def map_of_eq_Some_iff dest: MODELS_models_ok)

lemma model_name_of: "model (Some n) = Some m \<Longrightarrow> m_name m = n"
  by (auto simp: model_Some_iff dest: MODELS_keys)

lemma model_None_iff_provider_of: "model n = None \<longleftrightarrow> provider_of n = None"
  by (simp add: model_def provider_of_def)

section \<open>Batch capabilities\<close>

text \<open>
  \<open>PROVIDERS[provider].batch_endpoint\<close>. Every provider the index names is a key of
  \<^const>\<open>PROVIDERS\<close> (lemma \<open>MODELS_provider\<close>), so the subscript never raises where it is used.
\<close>

definition provider_batch_endpoint :: "string \<Rightarrow> string option" where
  "provider_batch_endpoint prov = Option.bind (map_of PROVIDERS prov) batch_endpoint"

definition vendor_support :: "string \<Rightarrow> bool option" where
  "vendor_support name =
     (case (model (Some name), provider_of (Some name)) of
        (Some declared, Some prov) \<Rightarrow>
          (case batch_supported declared of
             Some b \<Rightarrow> Some b
           | None \<Rightarrow>
               if prov = ''openai'' then Some (provider_batch_endpoint prov \<noteq> None) else None)
      | _ \<Rightarrow> None)"

definition unavailable_reason :: "string \<Rightarrow> string option" where
  "unavailable_reason name =
     (case provider_of (Some name) of
        None \<Rightarrow> Some ''model is not declared''
      | Some prov \<Rightarrow>
          if provider_batch_endpoint prov = None then Some ''provider has no batch endpoint''
          else (case vendor_support name of
                  Some False \<Rightarrow> Some ''provider does not support batching this model''
                | None \<Rightarrow> Some ''batch support for this model is unverified''
                | Some True \<Rightarrow>
                    if prov \<notin> {''openai'', ''anthropic''}
                    then Some ''provider batch transport is not implemented in this application''
                    else None))"

text \<open>
  A model is batchable exactly when its provider is one of the two whose protocol is implemented,
  that provider declares a batch endpoint, and the vendor is known to batch the model.
\<close>

lemma unavailable_reason_None_iff:
  "unavailable_reason name = None \<longleftrightarrow>
     (\<exists>prov. provider_of (Some name) = Some prov \<and> prov \<in> {''openai'', ''anthropic''}
        \<and> provider_batch_endpoint prov \<noteq> None \<and> vendor_support name = Some True)"
  by (auto simp: unavailable_reason_def split: option.splits bool.splits)

section \<open>Properties of the registry\<close>

lemma index_models_Inr:
  assumes "index_models prov ms out = Inr out'" "distinct (map fst out)"
  shows "out' = out @ map (\<lambda>m. (m_name m, (prov, m))) ms \<and> distinct (map fst out @ map m_name ms)"
  using assms
proof (induction ms arbitrary: out)
  case Nil
  then show ?case by simp
next
  case (Cons m ms)
  then have none: "map_of out (m_name m) = None" by (auto split: option.splits)
  then have fresh: "m_name m \<notin> fst ` set out" by (simp add: map_of_eq_None_iff)
  have "index_models prov ms (out @ [(m_name m, (prov, m))]) = Inr out'"
    using Cons.prems(1) none by simp
  moreover have "distinct (map fst (out @ [(m_name m, (prov, m))]))"
    using Cons.prems(2) fresh by simp
  ultimately show ?case using Cons.IH fresh by fastforce
qed

lemma index_providers_Inr:
  assumes "index_providers ps out = Inr out'" "distinct (map fst out)"
  shows "out' = out @ entries ps
    \<and> distinct (map fst out @ map m_name (concat (map p_models ps)))"
  using assms
proof (induction ps arbitrary: out)
  case Nil
  then show ?case by (simp add: entries_def)
next
  case (Cons p ps)
  then obtain mid where mid: "index_models (p_name p) (p_models p) out = Inr mid"
    and rest: "index_providers ps mid = Inr out'"
    by (auto simp: and_then_Inr_iff)
  from index_models_Inr [OF mid Cons.prems(2)]
  have eq: "mid = out @ map (\<lambda>m. (m_name m, (p_name p, m))) (p_models p)"
    and dist: "distinct (map fst mid)" by (auto simp: comp_def)
  from Cons.IH [OF rest dist] eq show ?case by (auto simp: entries_def comp_def)
qed

text \<open>
  The registry refuses a duplicate model name, within a provider or across providers, and
  only a duplicate: the index builds exactly when all declared names are distinct, and then it
  holds every declared model once, under its own name and its provider's, in declaration order.
\<close>

theorem index_builds_iff_distinct:
  "index_providers ps [] = Inr out \<longleftrightarrow>
   distinct (map m_name (concat (map p_models ps))) \<and> out = entries ps"
  using index_providers_Inr [of ps "[]" out] index_providers_fresh [of "[]" ps] by auto


end
