(* ===== verification/Pricing.thy ===== *)
theory Pricing
  imports Providers
begin

text \<open>
  \<open>core/pricing.py\<close>: what one model call costs. \<open>Decimal\<close> is \<^typ>\<open>rat\<close>; a token count is an
  \<^typ>\<open>int option\<close> as in the source, where \<open>None\<close> is a count nobody reported.
\<close>

definition PER_MTOK :: rat where
  "PER_MTOK = 1000000"

text \<open>
  The argument \<open>cache_write_tokens\<close>: left out (the sentinel of a reservation), a receipt that
  omits it, or a reported number.
\<close>

datatype cache_write = Unspecified | Receipt "int option"

definition rates_for :: "string option \<Rightarrow> Rates option" where
  "rates_for name = map_option rates (model name)"

text \<open>\<open>_tier_for\<close>; \<open>rates.tiers[-1]\<close> raises \<open>IndexError\<close> on an empty tuple.\<close>

definition covers :: "rat \<Rightarrow> Tier \<Rightarrow> bool" where
  "covers prompt t =
     (case up_to_prompt_tokens t of None \<Rightarrow> True | Some c \<Rightarrow> prompt \<le> of_int c)"

definition tier_for :: "Rates \<Rightarrow> rat \<Rightarrow> Tier result" where
  "tier_for r prompt =
     (case find (covers prompt) (tiers r) of
        Some t \<Rightarrow> Inr t
      | None \<Rightarrow> if tiers r = [] then Inl IndexError else Inr (last (tiers r)))"

definition cached_rate :: "Tier \<Rightarrow> rat" where
  "cached_rate t = (case rate_cached_in t of None \<Rightarrow> rate_in t | Some c \<Rightarrow> c)"

definition cache_write_rate :: "Tier \<Rightarrow> rat option" where
  "cache_write_rate t = rate_cache_write_in t"

definition in_window :: "instant \<Rightarrow> PeakWindow \<Rightarrow> bool" where
  "in_window utc w \<longleftrightarrow> utc_isoweekday utc \<in> set (isodows w)
     \<and> start_hour_utc w \<le> utc_hour utc \<and> utc_hour utc < end_hour_utc w"

definition is_off_peak :: "Rates \<Rightarrow> instant option \<Rightarrow> bool" where
  "is_off_peak r moment =
     (case moment of
        None \<Rightarrow> False
      | Some utc \<Rightarrow>
          if peak_windows r = [] \<or> off_peak_multiplier r = None then False
          else \<not> list_ex (in_window utc) (peak_windows r))"

text \<open>\<open>max(Decimal(n or 0), Decimal(0))\<close>.\<close>

definition tokens :: "int option \<Rightarrow> rat" where
  "tokens n = max (of_int (coalesce n 0)) 0"

text \<open>
  How many of the uncached tokens were written to the cache, or \<open>None\<close> where the source
  returns \<open>None\<close> because a receipt omits the count on a model with a premium write rate.
\<close>

definition cache_write_of :: "Tier \<Rightarrow> rat \<Rightarrow> cache_write \<Rightarrow> rat option" where
  "cache_write_of t remaining cw =
     (case cw of
        Unspecified \<Rightarrow> Some (if cache_write_rate t \<noteq> None then remaining else 0)
      | Receipt None \<Rightarrow>
          (case cache_write_rate t of
             Some w \<Rightarrow> if w \<noteq> rate_in t then None else Some 0
           | None \<Rightarrow> Some 0)
      | Receipt (Some n) \<Rightarrow> Some (min (max (of_int n) 0) remaining))"

text \<open>The sum of the four parts, before any multiplier.\<close>

definition base_cost :: "Tier \<Rightarrow> rat \<Rightarrow> rat \<Rightarrow> rat \<Rightarrow> rat \<Rightarrow> rat" where
  "base_cost t remaining cache_write cached completion =
     ((remaining - cache_write) * rate_in t
      + cached * cached_rate t
      + cache_write * (case cache_write_rate t of Some w \<Rightarrow> w | None \<Rightarrow> rate_in t)
      + completion * rate_out t) / PER_MTOK"

definition multiplier :: "Rates \<Rightarrow> bool \<Rightarrow> instant option \<Rightarrow> rat" where
  "multiplier r batched moment =
     (if batched then coalesce (batch_rate r) 1 else 1)
     * (if is_off_peak r moment then coalesce (off_peak_multiplier r) 1 else 1)"

definition estimate_cost_usd ::
  "string option \<Rightarrow> int option \<Rightarrow> int option \<Rightarrow> int option \<Rightarrow> bool \<Rightarrow> instant option \<Rightarrow> cache_write
   \<Rightarrow> rat option result" where
  "estimate_cost_usd name prompt_tokens completion_tokens cached_tokens batched moment cw =
     (case rates_for name of
        None \<Rightarrow> Inr None
      | Some r \<Rightarrow>
          let prompt = tokens prompt_tokens;
              completion = tokens completion_tokens;
              cached = min (tokens cached_tokens) prompt;
              remaining = max (prompt - cached) 0
          in and_then (tier_for r prompt) (\<lambda>t.
               case cache_write_of t remaining cw of
                 None \<Rightarrow> Inr None
               | Some written \<Rightarrow>
                   if written \<noteq> 0 \<and> cache_write_rate t = None then Inr None
                   else Inr (Some (base_cost t remaining written cached completion
                                   * multiplier r batched moment))))"

section \<open>Tiers\<close>

lemma tier_for_total: "tiers r \<noteq> [] \<Longrightarrow> \<exists>t \<in> set (tiers r). tier_for r prompt = Inr t"
proof -
  assume ne: "tiers r \<noteq> []"
  show ?thesis
  proof (cases "find (covers prompt) (tiers r)")
    case None
    then show ?thesis using ne by (auto simp: tier_for_def)
  next
    case (Some t)
    then have "t \<in> set (tiers r)" by (metis find_Some_iff nth_mem)
    then show ?thesis using Some by (auto simp: tier_for_def)
  qed
qed

lemma ceilings_ok_covered: "ceilings_ok ts \<Longrightarrow> \<exists>t \<in> set ts. covers prompt t"
  using ceilings_ok_last [of ts] by (cases ts) (auto simp: covers_def intro!: bexI [of _ "last ts"])

text \<open>
  On a well-formed rate table the chosen tier covers the prompt, and no earlier tier does: the
  whole request bills at the lowest tier its prompt fits in.
\<close>

lemma tier_for_first:
  assumes "rates_ok r"
  shows "\<exists>us t vs. tiers r = us @ t # vs \<and> tier_for r prompt = Inr t \<and> covers prompt t
           \<and> (\<forall>u \<in> set us. \<not> covers prompt u)"
proof -
  from assms have "\<exists>t \<in> set (tiers r). covers prompt t"
    by (intro ceilings_ok_covered) (simp add: rates_ok_def)
  then obtain us t vs where split: "tiers r = us @ t # vs" and t: "covers prompt t"
    and us: "\<forall>u \<in> set us. \<not> covers prompt u"
    using split_list_first_prop [of "tiers r" "covers prompt"] by blast
  then have "find (covers prompt) (tiers r) = Some t" by (simp add: find_first)
  with split t us show ?thesis by (auto simp: tier_for_def)
qed

section \<open>When a price is known\<close>

lemma estimate_unpriced [price_simps]:
  "rates_for name = None \<Longrightarrow> estimate_cost_usd name p c k b moment cw = Inr None"
  by (simp add: estimate_cost_usd_def)

lemma rates_for_ok: "rates_for name = Some r \<Longrightarrow> rates_ok r"
  by (auto simp: rates_for_def model_ok_def dest: model_ok_of)

text \<open>No call of the pricer on the shipped catalogue raises.\<close>

lemma estimate_no_raise: "\<exists>v. estimate_cost_usd name p c k b moment cw = Inr v"
proof (cases "rates_for name")
  case None
  then show ?thesis by (simp add: price_simps)
next
  case (Some r)
  then obtain t where "tier_for r (tokens p) = Inr t"
    using tier_for_total rates_ok_tiers rates_for_ok by blast
  with Some show ?thesis by (auto simp: estimate_cost_usd_def Let_def split: option.split)
qed

text \<open>A reservation, which has no receipt, always has a price on a declared model.\<close>

lemma reservation_priced:
  assumes "rates_for name = Some r"
  shows "\<exists>v. estimate_cost_usd name p c k b moment Unspecified = Inr (Some v)"
proof -
  obtain t where "tier_for r (tokens p) = Inr t"
    using tier_for_total rates_ok_tiers rates_for_ok assms by blast
  with assms show ?thesis
    by (auto simp: estimate_cost_usd_def Let_def cache_write_of_def split: option.split)
qed

lemma reservation_priced_iff:
  "(\<exists>v. estimate_cost_usd name p c k b moment Unspecified = Inr (Some v)) \<longleftrightarrow> model name \<noteq> None"
  using reservation_priced [of name] by (cases "rates_for name") (auto simp: price_simps rates_for_def)

section \<open>Bounds\<close>

lemma tokens_nonneg [simp]: "0 \<le> tokens n"
  by (simp add: tokens_def)

lemma cache_write_of_bounds:
  assumes "cache_write_of t remaining cw = Some w" "0 \<le> remaining"
  shows "0 \<le> w \<and> w \<le> remaining"
  using assms by (auto simp: cache_write_of_def split: cache_write.splits option.splits if_splits)

lemma cached_rate_bounds: "tier_ok t \<Longrightarrow> 0 \<le> cached_rate t \<and> cached_rate t \<le> rate_in t"
  by (auto simp: tier_ok_def cached_rate_def split: option.splits)

lemma write_rate_ge: "tier_ok t \<Longrightarrow> cache_write_rate t = Some w \<Longrightarrow> rate_in t \<le> w"
  by (auto simp: tier_ok_def cache_write_rate_def)

lemma multiplier_bounds: "rates_ok r \<Longrightarrow> 0 < multiplier r b moment \<and> multiplier r b moment \<le> 1"
  by (auto simp: multiplier_def rates_ok_def discount_def coalesce_def mult_le_one
      split: option.splits)

lemma base_cost_nonneg:
  assumes "tier_ok t" "0 \<le> w" "w \<le> remaining" "0 \<le> cached" "0 \<le> completion"
  shows "0 \<le> base_cost t remaining w cached completion"
proof -
  have "0 \<le> rate_in t" "0 \<le> rate_out t" using assms(1) by (auto simp: tier_ok_def)
  moreover have "0 \<le> cached_rate t" using cached_rate_bounds assms(1) by blast
  moreover have "0 \<le> (case cache_write_rate t of Some w \<Rightarrow> w | None \<Rightarrow> rate_in t)"
    using write_rate_ge [OF assms(1)] calculation(1) by (auto split: option.split)
  ultimately show ?thesis using assms unfolding base_cost_def PER_MTOK_def
    by (intro divide_nonneg_pos add_nonneg_nonneg mult_nonneg_nonneg) auto
qed

text \<open>What a priced call charges, in the terms of its tier.\<close>

lemma estimate_Some_cases:
  assumes "estimate_cost_usd name p c k b moment cw = Inr (Some v)"
  obtains r t w where "rates_for name = Some r" "tier_for r (tokens p) = Inr t"
    "cache_write_of t (tokens p - min (tokens k) (tokens p)) cw = Some w"
    "w = 0 \<or> cache_write_rate t \<noteq> None"
    "v = base_cost t (tokens p - min (tokens k) (tokens p)) w (min (tokens k) (tokens p)) (tokens c)
         * multiplier r b moment"
  using assms
  by (force simp: estimate_cost_usd_def Let_def max_def and_then_Inr_iff
      split: option.splits if_splits)

lemma estimate_nonneg:
  assumes "estimate_cost_usd name p c k b moment cw = Inr (Some v)"
  shows "0 \<le> v"
  using assms
proof (rule estimate_Some_cases)
  fix r t w
  assume r: "rates_for name = Some r" and t: "tier_for r (tokens p) = Inr t"
    and w: "cache_write_of t (tokens p - min (tokens k) (tokens p)) cw = Some w"
    and v: "v = base_cost t (tokens p - min (tokens k) (tokens p)) w (min (tokens k) (tokens p))
              (tokens c) * multiplier r b moment"
  have ok: "rates_ok r" using rates_for_ok r by blast
  have "t \<in> set (tiers r)" using tier_for_total [OF rates_ok_tiers [OF ok], of "tokens p"] t by auto
  then have "tier_ok t" using rates_ok_tier ok by blast
  moreover have "0 \<le> w \<and> w \<le> tokens p - min (tokens k) (tokens p)"
    using cache_write_of_bounds w by simp
  ultimately have "0 \<le> base_cost t (tokens p - min (tokens k) (tokens p)) w
      (min (tokens k) (tokens p)) (tokens c)"
    by (intro base_cost_nonneg) auto
  then show ?thesis using v multiplier_bounds [OF ok, of b moment] by simp
qed

section \<open>Properties of pricing\<close>

text \<open>The two parts of a bill are each at most what a reservation puts aside for them.\<close>

definition dearest_rate :: "Tier \<Rightarrow> rat" where
  "dearest_rate t = (case cache_write_rate t of Some w \<Rightarrow> w | None \<Rightarrow> rate_in t)"

lemma dearest_rate_ge: "tier_ok t \<Longrightarrow> rate_in t \<le> dearest_rate t \<and> cached_rate t \<le> dearest_rate t"
  using cached_rate_bounds [of t] write_rate_ge [of t]
  by (auto simp: dearest_rate_def split: option.split intro: order_trans)

lemma base_cost_le_dearest:
  assumes "tier_ok t" "0 \<le> w" "w \<le> remaining" "0 \<le> cached"
  shows "base_cost t remaining w cached completion
         \<le> ((remaining + cached) * dearest_rate t + completion * rate_out t) / PER_MTOK"
proof -
  have "(remaining - w) * rate_in t \<le> (remaining - w) * dearest_rate t"
    "cached * cached_rate t \<le> cached * dearest_rate t"
    using dearest_rate_ge [OF assms(1)] assms by (auto intro!: mult_left_mono)
  then have "(remaining - w) * rate_in t + cached * cached_rate t + w * dearest_rate t
      \<le> (remaining + cached) * dearest_rate t"
    by (simp add: algebra_simps)
  then show ?thesis
    unfolding base_cost_def dearest_rate_def PER_MTOK_def by (simp add: divide_right_mono)
qed

lemma reservation_base_cost:
  assumes "cache_write_of t prompt Unspecified = Some w"
  shows "base_cost t prompt w 0 completion
         = (prompt * dearest_rate t + completion * rate_out t) / PER_MTOK"
  using assms by (auto simp: cache_write_of_def base_cost_def dearest_rate_def split: option.splits)

lemma multiplier_peak: "rates_ok r \<Longrightarrow> multiplier r b moment \<le> multiplier r b None"
proof -
  assume ok: "rates_ok r"
  have "0 \<le> (if b then coalesce (batch_rate r) 1 else 1)"
    "(if is_off_peak r moment then coalesce (off_peak_multiplier r) 1 else 1) \<le> 1"
    using ok by (auto simp: rates_ok_def discount_def coalesce_def split: option.splits)
  then show ?thesis unfolding multiplier_def
    by (simp add: is_off_peak_def [of r None] mult_left_le)
qed

lemma model_gpt_6_luna:
  "model (Some ''gpt-6-luna'') =
     Some ((Model_of ''gpt-6-luna'' ''GPT-6 small: cheapest of the generation''
        (Some 1050000) openai_SCHEMA (openai_gpt6_rates 0.10 0.50 0.01 0.20 0.75 0.02)
        openai_6_GEN openai_OUTPUT_GPT6)\<lparr>supports_explicit_prompt_cache := Some True\<rparr>)"
  by (simp add: model_def MODELS_eq entries_def MODULES_def openai_PROVIDER_def openai_models_def
      Model_of_def)

lemmas estimate_eval =
  estimate_cost_usd_def rates_for_def Let_def tier_for_def covers_def tokens_def
  cache_write_of_def cache_write_rate_def base_cost_def PER_MTOK_def multiplier_def is_off_peak_def
  cached_rate_def model_gpt_6_luna openai_entry_defs spec_defs



text \<open>
  Unknown is never booked as free. The pricer answers \<open>None\<close> exactly when the model is not
  declared, when a receipt omits the cache writes of a model whose write rate differs from its
  input rate, or when a receipt reports writes the tier publishes no rate for. In every other case
  it answers an amount, and the amount is never negative.
\<close>

theorem price_unknown_iff:
  "estimate_cost_usd name p c k b moment cw = Inr None \<longleftrightarrow>
   (case rates_for name of
      None \<Rightarrow> True
    | Some r \<Rightarrow>
        (case tier_for r (tokens p) of
           Inl _ \<Rightarrow> False
         | Inr t \<Rightarrow>
             (cw = Receipt None \<and> (case cache_write_rate t of None \<Rightarrow> False | Some x \<Rightarrow> x \<noteq> rate_in t))
             \<or> (case cw of Receipt (Some n) \<Rightarrow>
                    0 < n \<and> tokens k < tokens p \<and> cache_write_rate t = None
                | _ \<Rightarrow> False)))"
proof (cases "rates_for name")
  case None
  then show ?thesis by (simp add: price_simps)
next
  case (Some r)
  then obtain t where t: "tier_for r (tokens p) = Inr t"
    using tier_for_total rates_ok_tiers rates_for_ok by blast
  show ?thesis
  proof (cases cw)
    case Unspecified
    with Some t show ?thesis
      by (auto simp: estimate_cost_usd_def Let_def cache_write_of_def split: option.splits)
  next
    case (Receipt w)
    with Some t show ?thesis
      by (cases w) (auto simp: estimate_cost_usd_def Let_def cache_write_of_def min_def max_def
          split: option.splits if_splits)
  qed
qed

text \<open>
  A price is an amount of money: whenever the pricer answers a number, it is not negative.
\<close>

theorem price_nonneg:
  assumes "estimate_cost_usd name p c k b moment cw = Inr (Some v)"
  shows "0 \<le> v"
  using assms by (rule estimate_nonneg)

theorem price_nonneg_witness:
  "estimate_cost_usd (Some ''gpt-6-luna'') (Some 1000) (Some (-5)) (Some 300) True (Some 0)
     (Receipt (Some 100)) = Inr (Some (151 / 4000000)) \<and> (0 :: rat) \<le> 151 / 4000000"
proof -
  have a: "estimate_cost_usd (Some ''gpt-6-luna'') (Some 1000) (Some (-5)) (Some 300) True (Some 0)
       (Receipt (Some 100)) = Inr (Some (151 / 4000000))"
    by (simp add: estimate_eval)
  show ?thesis using a price_nonneg [OF a] by blast
qed

text \<open>
  The whole request bills at one tier, the lowest its prompt fits in: the chosen tier covers
  the prompt, no earlier one does, and the fall-through to the last tier is never needed.
\<close>

theorem request_bills_at_first_covering_tier:
  assumes "rates_for name = Some r"
  shows "\<exists>us t vs. tiers r = us @ t # vs \<and> tier_for r prompt = Inr t \<and> covers prompt t
           \<and> list_all (\<lambda>u. \<not> covers prompt u) us"
  using tier_for_first [OF rates_for_ok [OF assms], of prompt] by (simp add: list_all_iff)

theorem request_bills_at_first_covering_tier_witness:
  "\<exists>r us t vs. rates_for (Some ''gpt-6-luna'') = Some r \<and> tiers r = us @ t # vs
     \<and> tier_for r 272001 = Inr t \<and> covers 272001 t \<and> list_all (\<lambda>u. \<not> covers 272001 u) us"
proof -
  obtain r where r: "rates_for (Some ''gpt-6-luna'') = Some r"
    by (simp add: rates_for_def model_gpt_6_luna)
  show ?thesis using request_bills_at_first_covering_tier [OF r, of 272001] r by blast
qed

lemma off_peak_weekly:
  "is_off_peak r (Some (t + week * (7 * 86400 * usec_per_second))) = is_off_peak r (Some t)"
proof -
  have h: "t + week * (7 * 86400 * usec_per_second) = t + (week * 168) * (3600 * usec_per_second)"
    and d: "t + week * (7 * 86400 * usec_per_second) = t + (week * 7) * (86400 * usec_per_second)"
    by simp_all
  have "utc_hour (t + week * (7 * 86400 * usec_per_second)) = utc_hour t"
    unfolding utc_hour_def h by (subst div_mult_self1) (simp_all add: mod_add_eq [symmetric])
  moreover have "utc_isoweekday (t + week * (7 * 86400 * usec_per_second)) = utc_isoweekday t"
  proof -
    have "(x + week * 7 + 3) mod 7 = (x + 3) mod 7" for x by presburger
    moreover have "(t + (week * 7) * (86400 * usec_per_second)) div (86400 * usec_per_second)
        = t div (86400 * usec_per_second) + week * 7" by (subst div_mult_self1) simp_all
    ultimately show ?thesis unfolding utc_isoweekday_def d by simp
  qed
  ultimately show ?thesis by (simp add: is_off_peak_def in_window_def cong: list_ex_cong)
qed

lemma deepseek_off_peak_epoch_week:
  "map (\<lambda>m. length (filter (\<lambda>h. is_off_peak (rates m) (Some (h * 3600 * usec_per_second))) [0..167]))
     deepseek_models = [133, 133, 133, 133]"
  by code_simp

text \<open>
  DeepSeek's wall-clock discount covers 133 of a week's 168 hours, the count its datasheet
  states: in every week, hour by hour, the rates of each DeepSeek model are off peak in exactly
  133 of them.
\<close>

theorem deepseek_off_peak_hours:
  "map (\<lambda>m. length (filter (\<lambda>h. is_off_peak (rates m)
              (Some (h * 3600 * usec_per_second + week * (7 * 86400 * usec_per_second)))) [0..167]))
     deepseek_models = [133, 133, 133, 133]"
  using deepseek_off_peak_epoch_week by (simp only: off_peak_weekly)

end
