(* ===== verification/Pricing_SQL.thy ===== *)
theory Pricing_SQL
  imports Pricing
begin

text \<open>
  \<open>core.pricing.cost_sql\<close>: the cost formula rendered as a SQL expression. The f-strings of the
  source are a syntax tree here, \<open>render_value\<close> and \<open>render_cond\<close> print the text the source
  builds, and \<open>value_of\<close> and \<open>cond_of\<close> are PostgreSQL's semantics of that text: \<open>NULL\<close> is
  \<open>None\<close>, arithmetic and comparisons propagate it, \<open>GREATEST\<close> and \<open>LEAST\<close> ignore it, the
  connectives are three-valued and \<open>CASE WHEN\<close> takes its first branch on true only. A fragment
  the caller passes in (a column or a placeholder) is a symbol the environment gives a value.
\<close>

datatype sql_value =
    Sym string
  | Lit nat
  | Null
  | Greatest sql_value sql_value
  | Least sql_value sql_value
  | Coalesce sql_value sql_value
  | Minus sql_value sql_value
  | Plus sql_value sql_value
  | Times sql_value sql_value
  | Over sql_value sql_value
  | Paren sql_value
  | CaseWhen sql_cond sql_value sql_value
and sql_cond =
    Flag string
  | Gt sql_value sql_value
  | Ne sql_value sql_value
  | IsNull sql_value
  | IsNotNull sql_value
  | CAnd sql_cond sql_cond
  | COr sql_cond sql_cond
  | CParen sql_cond

fun render_value :: "sql_value \<Rightarrow> string"
  and render_cond :: "sql_cond \<Rightarrow> string" where
  "render_value (Sym s) = s"
| "render_value (Lit n) = show_nat n"
| "render_value Null = ''NULL''"
| "render_value (Greatest a b) = ''GREATEST('' @ render_value a @ '', '' @ render_value b @ '')''"
| "render_value (Least a b) = ''LEAST('' @ render_value a @ '', '' @ render_value b @ '')''"
| "render_value (Coalesce a b) = ''COALESCE('' @ render_value a @ '', '' @ render_value b @ '')''"
| "render_value (Minus a b) = render_value a @ '' - '' @ render_value b"
| "render_value (Plus a b) = render_value a @ '' + '' @ render_value b"
| "render_value (Times a b) = render_value a @ '' * '' @ render_value b"
| "render_value (Over a b) = render_value a @ '' / '' @ render_value b"
| "render_value (Paren a) = ''('' @ render_value a @ '')''"
| "render_value (CaseWhen c a b) =
     ''CASE WHEN '' @ render_cond c @ '' THEN '' @ render_value a @ '' ELSE '' @ render_value b
     @ '' END''"
| "render_cond (Flag s) = s"
| "render_cond (Gt a b) = render_value a @ '' > '' @ render_value b"
| "render_cond (Ne a b) = render_value a @ '' <> '' @ render_value b"
| "render_cond (IsNull a) = render_value a @ '' IS NULL''"
| "render_cond (IsNotNull a) = render_value a @ '' IS NOT NULL''"
| "render_cond (CAnd a b) = render_cond a @ '' AND '' @ render_cond b"
| "render_cond (COr a b) = render_cond a @ '' OR '' @ render_cond b"
| "render_cond (CParen a) = ''('' @ render_cond a @ '')''"

text \<open>What the row and the caller bind: values of symbols and truth values of flags.\<close>

record sql_env =
  col :: "string \<Rightarrow> rat option"
  flag :: "string \<Rightarrow> bool option"

definition null_op :: "(rat \<Rightarrow> rat \<Rightarrow> 'a) \<Rightarrow> rat option \<Rightarrow> rat option \<Rightarrow> 'a option" where
  "null_op f a b = (case (a, b) of (Some x, Some y) \<Rightarrow> Some (f x y) | _ \<Rightarrow> None)"

definition null_pick :: "(rat \<Rightarrow> rat \<Rightarrow> rat) \<Rightarrow> rat option \<Rightarrow> rat option \<Rightarrow> rat option" where
  "null_pick f a b =
     (case (a, b) of (Some x, Some y) \<Rightarrow> Some (f x y) | (Some x, None) \<Rightarrow> Some x | (None, y) \<Rightarrow> y)"

fun and3 :: "bool option \<Rightarrow> bool option \<Rightarrow> bool option" where
  "and3 (Some False) b = Some False"
| "and3 a (Some False) = Some False"
| "and3 (Some True) (Some True) = Some True"
| "and3 a b = None"

fun or3 :: "bool option \<Rightarrow> bool option \<Rightarrow> bool option" where
  "or3 (Some True) b = Some True"
| "or3 a (Some True) = Some True"
| "or3 (Some False) (Some False) = Some False"
| "or3 a b = None"

fun value_of :: "sql_env \<Rightarrow> sql_value \<Rightarrow> rat option"
  and cond_of :: "sql_env \<Rightarrow> sql_cond \<Rightarrow> bool option" where
  "value_of e (Sym s) = col e s"
| "value_of e (Lit n) = Some (of_nat n)"
| "value_of e Null = None"
| "value_of e (Greatest a b) = null_pick max (value_of e a) (value_of e b)"
| "value_of e (Least a b) = null_pick min (value_of e a) (value_of e b)"
| "value_of e (Coalesce a b) = (case value_of e a of Some x \<Rightarrow> Some x | None \<Rightarrow> value_of e b)"
| "value_of e (Minus a b) = null_op (-) (value_of e a) (value_of e b)"
| "value_of e (Plus a b) = null_op (+) (value_of e a) (value_of e b)"
| "value_of e (Times a b) = null_op (*) (value_of e a) (value_of e b)"
| "value_of e (Over a b) = null_op (/) (value_of e a) (value_of e b)"
| "value_of e (Paren a) = value_of e a"
| "value_of e (CaseWhen c a b) = (if cond_of e c = Some True then value_of e a else value_of e b)"
| "cond_of e (Flag s) = flag e s"
| "cond_of e (Gt a b) = null_op (>) (value_of e a) (value_of e b)"
| "cond_of e (Ne a b) = null_op (\<noteq>) (value_of e a) (value_of e b)"
| "cond_of e (IsNull a) = Some (value_of e a = None)"
| "cond_of e (IsNotNull a) = Some (value_of e a \<noteq> None)"
| "cond_of e (CAnd a b) = and3 (cond_of e a) (cond_of e b)"
| "cond_of e (COr a b) = or3 (cond_of e a) (cond_of e b)"
| "cond_of e (CParen a) = cond_of e a"

text \<open>The arguments of \<open>cost_sql\<close>, each a fragment of SQL text.\<close>

record cost_args =
  model_rate_in :: string
  model_rate_out :: string
  model_rate_cached_in :: string
  batch_rate_arg :: string
  model_rate_cache_write_in :: "string option"
  arg_prompt :: string
  arg_completion :: string
  arg_cached :: string
  cache_write_arg :: "string option"
  arg_batched :: string

definition sql_prompt :: "cost_args \<Rightarrow> sql_value" where
  "sql_prompt a = Greatest (Coalesce (Sym (arg_prompt a)) (Lit 0)) (Lit 0)"

definition sql_completion :: "cost_args \<Rightarrow> sql_value" where
  "sql_completion a = Greatest (Coalesce (Sym (arg_completion a)) (Lit 0)) (Lit 0)"

definition sql_cached_part :: "cost_args \<Rightarrow> sql_value" where
  "sql_cached_part a =
     Least (Greatest (Coalesce (Sym (arg_cached a)) (Lit 0)) (Lit 0)) (sql_prompt a)"

definition sql_remaining :: "cost_args \<Rightarrow> sql_value" where
  "sql_remaining a = Greatest (Minus (sql_prompt a) (sql_cached_part a)) (Lit 0)"

definition sql_write_part :: "cost_args \<Rightarrow> sql_value" where
  "sql_write_part a =
     (case cache_write_arg a of
        None \<Rightarrow> Lit 0
      | Some cw \<Rightarrow> Least (Greatest (Coalesce (Sym cw) (Lit 0)) (Lit 0)) (sql_remaining a))"

definition sql_write_rate :: "cost_args \<Rightarrow> sql_value" where
  "sql_write_rate a =
     (case (cache_write_arg a, model_rate_cache_write_in a) of
        (Some _, Some rate) \<Rightarrow> Coalesce (Sym rate) (Sym (model_rate_in a))
      | _ \<Rightarrow> Sym (model_rate_in a))"

definition sql_unknown :: "cost_args \<Rightarrow> sql_cond option" where
  "sql_unknown a =
     (case cache_write_arg a of
        None \<Rightarrow> None
      | Some cw \<Rightarrow>
          (case model_rate_cache_write_in a of
             None \<Rightarrow> Some (Gt (sql_write_part a) (Lit 0))
           | Some rate \<Rightarrow> Some
               (COr
                 (CParen (CAnd (CAnd (IsNull (Sym cw)) (IsNotNull (Sym rate)))
                               (Ne (Sym rate) (Sym (model_rate_in a)))))
                 (CParen (CAnd (Gt (sql_write_part a) (Lit 0)) (IsNull (Sym rate)))))))"

definition sql_expression :: "cost_args \<Rightarrow> sql_value" where
  "sql_expression a =
     Times
       (Paren (Over
         (Paren (Plus (Plus (Plus
            (Times (Paren (Minus (sql_remaining a) (sql_write_part a))) (Sym (model_rate_in a)))
            (Times (sql_cached_part a) (Sym (model_rate_cached_in a))))
            (Times (sql_write_part a) (sql_write_rate a)))
            (Times (sql_completion a) (Sym (model_rate_out a)))))
         (Lit 1000000)))
       (CaseWhen (Flag (arg_batched a)) (Sym (batch_rate_arg a)) (Lit 1))"

definition cost_sql :: "cost_args \<Rightarrow> sql_value" where
  "cost_sql a =
     (case sql_unknown a of
        None \<Rightarrow> sql_expression a
      | Some unknown \<Rightarrow> CaseWhen unknown Null (sql_expression a))"

section \<open>What the rendered expression computes\<close>

named_theorems sql_eval \<open>the values of the parts of the rendered expression\<close>

lemma null_op_Some [simp]: "null_op f (Some x) (Some y) = Some (f x y)"
  by (simp add: null_op_def)

lemma null_pick_Some [simp]: "null_pick f (Some x) (Some y) = Some (f x y)"
  by (simp add: null_pick_def)

lemma and3_True_iff: "and3 a b = Some True \<longleftrightarrow> a = Some True \<and> b = Some True"
  by (cases "(a, b)" rule: and3.cases) auto

lemma or3_True_iff: "or3 a b = Some True \<longleftrightarrow> a = Some True \<or> b = Some True"
  by (cases "(a, b)" rule: or3.cases) auto

text \<open>
  A row of token counts and the bound rates of one tier, as the caller of the rendered
  expression binds them: a model without a batch lane binds 1, a tier without a published cache
  rate binds the input rate.
\<close>

definition binds_row ::
  "sql_env \<Rightarrow> cost_args \<Rightarrow> int option \<Rightarrow> int option \<Rightarrow> int option \<Rightarrow> bool \<Rightarrow> bool" where
  "binds_row e a p c k b \<longleftrightarrow>
     col e (arg_prompt a) = map_option of_int p \<and> col e (arg_completion a) = map_option of_int c
     \<and> col e (arg_cached a) = map_option of_int k \<and> flag e (arg_batched a) = Some b"

definition binds_rates :: "sql_env \<Rightarrow> cost_args \<Rightarrow> Rates \<Rightarrow> Tier \<Rightarrow> bool" where
  "binds_rates e a r t \<longleftrightarrow>
     col e (model_rate_in a) = Some (rate_in t) \<and> col e (model_rate_out a) = Some (rate_out t)
     \<and> col e (model_rate_cached_in a) = Some (cached_rate t)
     \<and> col e (batch_rate_arg a) = Some (coalesce (batch_rate r) 1)"

lemma value_tokens:
  "col e s = map_option of_int n \<Longrightarrow>
   value_of e (Greatest (Coalesce (Sym s) (Lit 0)) (Lit 0)) = Some (tokens n)"
  by (cases n) (simp_all add: tokens_def)

lemma value_sql_prompt [sql_eval]:
  "binds_row e a p c k b \<Longrightarrow> value_of e (sql_prompt a) = Some (tokens p)"
  by (simp only: sql_prompt_def binds_row_def value_tokens)

lemma value_sql_completion [sql_eval]:
  "binds_row e a p c k b \<Longrightarrow> value_of e (sql_completion a) = Some (tokens c)"
  by (simp only: sql_completion_def binds_row_def value_tokens)

lemma value_sql_cached_part [sql_eval]:
  assumes "binds_row e a p c k b"
  shows "value_of e (sql_cached_part a) = Some (min (tokens k) (tokens p))"
proof -
  have "value_of e (Greatest (Coalesce (Sym (arg_cached a)) (Lit 0)) (Lit 0)) = Some (tokens k)"
    using assms by (simp only: binds_row_def value_tokens)
  then show ?thesis using value_sql_prompt [OF assms] unfolding sql_cached_part_def
    by (simp del: value_of.simps(4,6) add: value_of.simps(5))
qed

lemma value_sql_remaining [sql_eval]:
  assumes "binds_row e a p c k b"
  shows "value_of e (sql_remaining a) = Some (tokens p - min (tokens k) (tokens p))"
  using value_sql_prompt [OF assms] value_sql_cached_part [OF assms]
  by (simp add: sql_remaining_def)

text \<open>The arithmetic part, given the values of the write count and the write rate.\<close>

lemma value_sql_expression:
  assumes row: "binds_row e a p c k b" and rts: "binds_rates e a r t"
    and w: "value_of e (sql_write_part a) = Some w"
    and wr: "value_of e (sql_write_rate a)
               = Some (case cache_write_rate t of Some x \<Rightarrow> x | None \<Rightarrow> rate_in t) \<or> w = 0
             \<and> value_of e (sql_write_rate a) \<noteq> None"
  shows "value_of e (sql_expression a)
       = Some (base_cost t (tokens p - min (tokens k) (tokens p)) w (min (tokens k) (tokens p))
                 (tokens c) * multiplier r b None)"
proof -
  obtain x where x: "value_of e (sql_write_rate a) = Some x" using wr by auto
  have "w * x = w * (case cache_write_rate t of Some x \<Rightarrow> x | None \<Rightarrow> rate_in t)"
    using wr x by auto
  moreover have "flag e (arg_batched a) = Some b" using row by (simp add: binds_row_def)
  ultimately show ?thesis
    using value_sql_remaining [OF row] value_sql_cached_part [OF row] value_sql_completion [OF row]
      rts w x
    by (simp add: sql_expression_def binds_rates_def base_cost_def PER_MTOK_def multiplier_def
        is_off_peak_def)
qed

lemma estimate_receipt:
  assumes "rates_for name = Some r" and "tier_for r (tokens p) = Inr t"
  shows "estimate_cost_usd name p c k b None (Receipt w) =
     Inr (case cache_write_of t (tokens p - min (tokens k) (tokens p)) (Receipt w) of
            None \<Rightarrow> None
          | Some written \<Rightarrow>
              if written \<noteq> 0 \<and> cache_write_rate t = None then None
              else Some (base_cost t (tokens p - min (tokens k) (tokens p)) written
                           (min (tokens k) (tokens p)) (tokens c) * multiplier r b None))"
proof -
  have "max (tokens p - min (tokens k) (tokens p)) 0 = tokens p - min (tokens k) (tokens p)"
    by (simp add: min_def)
  with assms show ?thesis by (auto simp: estimate_cost_usd_def Let_def split: option.split)
qed

text \<open>Where the caller names a cache-write column, its clamped value is the written count.\<close>

lemma value_sql_write_part:
  assumes "binds_row e a p c k b" "cache_write_arg a = Some cw" "col e cw = map_option of_int w"
  shows "value_of e (sql_write_part a)
           = Some (min (tokens w) (tokens p - min (tokens k) (tokens p)))"
proof -
  have "value_of e (Greatest (Coalesce (Sym cw) (Lit 0)) (Lit 0)) = Some (tokens w)"
    using assms(3) by (rule value_tokens)
  then show ?thesis using value_sql_remaining [OF assms(1)] assms(2) unfolding sql_write_part_def
    by (simp del: value_of.simps(4,6) add: value_of.simps(5))
qed

lemma cache_write_of_receipt:
  "cache_write_of t remaining (Receipt w) =
     (if w = None \<and> (\<exists>x. cache_write_rate t = Some x \<and> x \<noteq> rate_in t) then None
      else Some (min (tokens w) (if w = None then 0 else remaining)))"
  by (auto simp: cache_write_of_def tokens_def split: option.splits)

lemma clamp_pos: "0 \<le> (x :: rat) \<Longrightarrow> 0 < min (tokens w) x \<longleftrightarrow> min (tokens w) x \<noteq> 0"
  using tokens_nonneg [of w] by (simp add: less_le)

lemma cost_sql_full:
  assumes r: "rates_for name = Some r" and t: "tier_for r (tokens p) = Inr t"
    and row: "binds_row e a p c k b" and rts: "binds_rates e a r t"
    and cw: "cache_write_arg a = Some cw" "col e cw = map_option of_int w"
    and wr: "model_rate_cache_write_in a = Some rate" "col e rate = rate_cache_write_in t"
  shows "estimate_cost_usd name p c k b None (Receipt w) = Inr (value_of e (cost_sql a))"
proof -
  let ?rem = "tokens p - min (tokens k) (tokens p)"
  let ?w = "min (tokens w) ?rem"
  have rem: "0 \<le> ?rem" by simp
  have part: "value_of e (sql_write_part a) = Some ?w"
    using value_sql_write_part [OF row cw] .
  have rin: "col e (model_rate_in a) = Some (rate_in t)" using rts by (simp add: binds_rates_def)
  have wrate: "value_of e (sql_write_rate a)
      = Some (case cache_write_rate t of Some x \<Rightarrow> x | None \<Rightarrow> rate_in t)"
    using cw wr rin by (simp add: sql_write_rate_def cache_write_rate_def split: option.split)
  have expr: "value_of e (sql_expression a)
      = Some (base_cost t ?rem ?w (min (tokens k) (tokens p)) (tokens c) * multiplier r b None)"
    using value_sql_expression [OF row rts part] wrate by simp
  have unknown: "cond_of e (the (sql_unknown a)) = Some True \<longleftrightarrow>
      (w = None \<and> (\<exists>x. cache_write_rate t = Some x \<and> x \<noteq> rate_in t))
      \<or> (?w > 0 \<and> cache_write_rate t = None)"
    using cw wr part rin
    by (auto simp: sql_unknown_def or3_True_iff and3_True_iff cache_write_rate_def null_op_def
        split: option.splits)
  have "sql_unknown a \<noteq> None" using cw wr by (simp add: sql_unknown_def)
  then have "value_of e (cost_sql a) =
      (if cond_of e (the (sql_unknown a)) = Some True then None else value_of e (sql_expression a))"
    by (auto simp: cost_sql_def)
  moreover have "w = None \<Longrightarrow> ?w = 0" by (simp add: tokens_def min_def)
  moreover have "?w > 0 \<longleftrightarrow> ?w \<noteq> 0" using rem by (rule clamp_pos)
  ultimately show ?thesis
    by (auto simp: estimate_receipt [OF r t] cache_write_of_receipt unknown expr)
qed

text \<open>Where the caller names no write rate, the tier must have none either.\<close>

lemma cost_sql_no_write_rate:
  assumes r: "rates_for name = Some r" and t: "tier_for r (tokens p) = Inr t"
    and row: "binds_row e a p c k b" and rts: "binds_rates e a r t"
    and cw: "cache_write_arg a = Some cw" "col e cw = map_option of_int w"
    and wr: "model_rate_cache_write_in a = None" "rate_cache_write_in t = None"
  shows "estimate_cost_usd name p c k b None (Receipt w) = Inr (value_of e (cost_sql a))"
proof -
  let ?rem = "tokens p - min (tokens k) (tokens p)"
  let ?w = "min (tokens w) ?rem"
  have part: "value_of e (sql_write_part a) = Some ?w"
    using value_sql_write_part [OF row cw] .
  have "value_of e (sql_write_rate a)
      = Some (case cache_write_rate t of Some x \<Rightarrow> x | None \<Rightarrow> rate_in t)"
    using cw wr rts by (simp add: sql_write_rate_def cache_write_rate_def binds_rates_def)
  then have expr: "value_of e (sql_expression a)
      = Some (base_cost t ?rem ?w (min (tokens k) (tokens p)) (tokens c) * multiplier r b None)"
    using value_sql_expression [OF row rts part] by simp
  have "value_of e (cost_sql a) = (if ?w > 0 then None else value_of e (sql_expression a))"
    using cw wr part by (simp add: cost_sql_def sql_unknown_def)
  moreover have "w = None \<Longrightarrow> ?w = 0" by (simp add: tokens_def min_def)
  moreover have "?w > 0 \<longleftrightarrow> ?w \<noteq> 0" by (rule clamp_pos) simp
  ultimately show ?thesis using wr(2)
    by (auto simp: estimate_receipt [OF r t] cache_write_of_receipt expr cache_write_rate_def)
qed

text \<open>Where the caller names no write column, the expression prices a receipt of zero writes.\<close>

lemma cost_sql_no_writes:
  assumes r: "rates_for name = Some r" and t: "tier_for r (tokens p) = Inr t"
    and row: "binds_row e a p c k b" and rts: "binds_rates e a r t"
    and cw: "cache_write_arg a = None"
  shows "estimate_cost_usd name p c k b None (Receipt (Some 0)) = Inr (value_of e (cost_sql a))"
proof -
  let ?rem = "tokens p - min (tokens k) (tokens p)"
  have part: "value_of e (sql_write_part a) = Some 0" using cw by (simp add: sql_write_part_def)
  have "value_of e (sql_write_rate a) \<noteq> None"
    using cw rts by (simp add: sql_write_rate_def binds_rates_def)
  then have "value_of e (sql_expression a)
      = Some (base_cost t ?rem 0 (min (tokens k) (tokens p)) (tokens c) * multiplier r b None)"
    using value_sql_expression [OF row rts part] by simp
  moreover have "cache_write_of t ?rem (Receipt (Some 0)) = Some 0"
    by (simp add: cache_write_of_def)
  ultimately show ?thesis using cw
    by (simp add: estimate_receipt [OF r t] cost_sql_def sql_unknown_def)
qed

section \<open>Parity\<close>

text \<open>A caller that prices a table with a write column, and the row the witnesses price.\<close>

definition sample_args :: "string option \<Rightarrow> string option \<Rightarrow> cost_args" where
  "sample_args write_rate write_column =
     \<lparr>model_rate_in = ''%(rate_in)s'', model_rate_out = ''%(rate_out)s'',
      model_rate_cached_in = ''%(cached)s'', batch_rate_arg = ''%(batch)s'',
      model_rate_cache_write_in = write_rate, arg_prompt = ''prompt_tokens'',
      arg_completion = ''completion_tokens'', arg_cached = ''cached_tokens'',
      cache_write_arg = write_column, arg_batched = ''batched''\<rparr>"

definition sample_env :: sql_env where
  "sample_env =
     \<lparr>col = map_of [(''%(rate_in)s'', 0.1), (''%(rate_out)s'', 0.5), (''%(cached)s'', 0.01),
                    (''%(batch)s'', 0.5), (''%(write)s'', 0.125), (''prompt_tokens'', 1000),
                    (''completion_tokens'', 200), (''cached_tokens'', 300),
                    (''cache_write_tokens'', 100)],
      flag = map_of [(''batched'', True)]\<rparr>"

lemma luna_low_tier:
  "rates_for (Some ''gpt-6-luna'') = Some (openai_gpt6_rates 0.10 0.50 0.01 0.20 0.75 0.02)
   \<and> tier_for (openai_gpt6_rates 0.10 0.50 0.01 0.20 0.75 0.02) (tokens (Some 1000))
     = Inr ((Tier_of (Some 272000) 0.10 0.50 (Some 0.01))\<lparr>rate_cache_write_in := Some 0.125\<rparr>)"
  by (simp add: estimate_eval)

lemma sample_binds:
  "binds_row sample_env (sample_args wr wc) (Some 1000) (Some 200) (Some 300) True
   \<and> binds_rates sample_env (sample_args wr wc) (openai_gpt6_rates 0.10 0.50 0.01 0.20 0.75 0.02)
       ((Tier_of (Some 272000) 0.10 0.50 (Some 0.01))\<lparr>rate_cache_write_in := Some 0.125\<rparr>)"
  by (simp add: binds_row_def binds_rates_def sample_env_def sample_args_def cached_rate_def
      openai_gpt6_rates_def spec_defs)

text \<open>
  C9: The two renderings of the price agree. For every declared model, every row of token counts
  (missing and negative ones included) and either value of the batch flag, the value PostgreSQL
  computes for the rendered expression, with the selected tier's rates bound, is what the Python
  pricer returns for the same receipt with no wall-clock discount, \<open>NULL\<close> where it returns \<open>None\<close>.
\<close>

theorem cost_sql_parity:
  assumes "rates_for name = Some r" and "tier_for r (tokens p) = Inr t"
    and "binds_row e a p c k b" and "binds_rates e a r t"
    and "cache_write_arg a = Some cw" and "col e cw = map_option of_int w"
    and "model_rate_cache_write_in a = Some rate" and "col e rate = rate_cache_write_in t"
  shows "estimate_cost_usd name p c k b None (Receipt w) = Inr (value_of e (cost_sql a))"
  using assms by (rule cost_sql_full)

theorem cost_sql_parity_witness:
  "value_of sample_env (cost_sql (sample_args (Some ''%(write)s'') (Some ''cache_write_tokens'')))
     = Some (351 / 4000000)"
proof -
  have "estimate_cost_usd (Some ''gpt-6-luna'') (Some 1000) (Some 200) (Some 300) True None
      (Receipt (Some 100))
    = Inr (value_of sample_env
        (cost_sql (sample_args (Some ''%(write)s'') (Some ''cache_write_tokens''))))"
    by (rule cost_sql_parity
        [OF luna_low_tier [THEN conjunct1] luna_low_tier [THEN conjunct2]
            sample_binds [THEN conjunct1] sample_binds [THEN conjunct2],
         where cw = "''cache_write_tokens''" and rate = "''%(write)s''"])
      (simp_all add: sample_env_def sample_args_def Tier_of_def)
  moreover have "estimate_cost_usd (Some ''gpt-6-luna'') (Some 1000) (Some 200) (Some 300) True None
      (Receipt (Some 100)) = Inr (Some (351 / 4000000))"
    by (simp add: estimate_eval)
  ultimately show ?thesis by simp
qed

text \<open>
  A caller that names no cache-write column prices a row as the Python pricer prices a receipt
  that reports zero writes, and never gets \<open>NULL\<close>.
\<close>

theorem cost_sql_parity_without_writes:
  assumes "rates_for name = Some r" and "tier_for r (tokens p) = Inr t"
    and "binds_row e a p c k b" and "binds_rates e a r t" and "cache_write_arg a = None"
  shows "estimate_cost_usd name p c k b None (Receipt (Some 0)) = Inr (value_of e (cost_sql a))
         \<and> value_of e (cost_sql a) \<noteq> None"
proof -
  have eq: "estimate_cost_usd name p c k b None (Receipt (Some 0)) = Inr (value_of e (cost_sql a))"
    using assms by (rule cost_sql_no_writes)
  have "cache_write_of t (tokens p - min (tokens k) (tokens p)) (Receipt (Some 0)) = Some 0"
    by (simp add: cache_write_of_def)
  with eq have "value_of e (cost_sql a) = Some (base_cost t (tokens p - min (tokens k) (tokens p)) 0
      (min (tokens k) (tokens p)) (tokens c) * multiplier r b None)"
    by (simp add: estimate_receipt [OF assms(1,2)])
  with eq show ?thesis by simp
qed

theorem cost_sql_parity_without_writes_witness:
  "estimate_cost_usd (Some ''gpt-6-luna'') (Some 1000) (Some 200) (Some 300) True None
     (Receipt (Some 0)) = Inr (value_of sample_env (cost_sql (sample_args None None)))
   \<and> value_of sample_env (cost_sql (sample_args None None)) \<noteq> None"
  by (rule cost_sql_parity_without_writes
      [OF luna_low_tier [THEN conjunct1] luna_low_tier [THEN conjunct2]
          sample_binds [THEN conjunct1] sample_binds [THEN conjunct2]])
    (simp add: sample_args_def)

end
