(* ===== verification/Json.thy ===== *)
theory Json
  imports Prelude
begin

text \<open>
  JSONB values and the operators the queue's SQL applies to a task's payload: \<open>->\<close> and
  \<open>->>\<close> (lookup), \<open>?\<close> (key test), \<open>-\<close> (key removal), \<open>||\<close> (merge) and
  \<open>jsonb_set\<close> on a top-level key. An object is an association list without a second entry
  for a key; the order of its entries is not read by any of the operators.
\<close>

section \<open>Values\<close>

datatype json =
    JNull
  | JBool bool
  | JNum int
  | JStr string
  | JArr "json list"
  | JObj "(string \<times> json) list"

type_synonym object = "(string \<times> json) list"

text \<open>
  \<open>truthy_json\<close> is Python's truth of a decoded value; \<open>json_text\<close> is \<open>->>\<close> on a scalar:
  SQL NULL for a JSON null, and the value's text otherwise. Arrays and objects have a text too;
  no key the queue reads with \<open>->>\<close> holds one, so it is left unread here (\<open>None\<close>).
\<close>

fun truthy_json :: "json \<Rightarrow> bool" where
  "truthy_json JNull = False"
| "truthy_json (JBool b) = b"
| "truthy_json (JNum n) = (n \<noteq> 0)"
| "truthy_json (JStr s) = (s \<noteq> '''')"
| "truthy_json (JArr xs) = (xs \<noteq> [])"
| "truthy_json (JObj kvs) = (kvs \<noteq> [])"

fun json_text :: "json \<Rightarrow> string option" where
  "json_text (JStr s) = Some s"
| "json_text (JNum n) = Some (show_int n)"
| "json_text (JBool b) = Some (if b then ''true'' else ''false'')"
| "json_text _ = None"

section \<open>Objects\<close>

definition get :: "object \<Rightarrow> string \<Rightarrow> json option" where
  "get obj k = map_of obj k"

definition get_text :: "object \<Rightarrow> string \<Rightarrow> string option" where
  "get_text obj k = Option.bind (get obj k) json_text"

definition has_key :: "object \<Rightarrow> string \<Rightarrow> bool" where
  "has_key obj k \<longleftrightarrow> get obj k \<noteq> None"

definition drop_keys :: "string list \<Rightarrow> object \<Rightarrow> object" where
  "drop_keys ks obj = filter (\<lambda>(k, _). k \<notin> set ks) obj"

definition put :: "string \<Rightarrow> json \<Rightarrow> object \<Rightarrow> object" where
  "put k v obj = (k, v) # drop_keys [k] obj"

definition merge :: "object \<Rightarrow> object \<Rightarrow> object" where
  "merge obj data = data @ drop_keys (map fst data) obj"

lemma get_drop_keys [simp]:
  "get (drop_keys ks obj) k = (if k \<in> set ks then None else get obj k)"
  by (induction obj) (auto simp: get_def drop_keys_def)

lemma get_put [simp]: "get (put k v obj) k' = (if k' = k then Some v else get obj k')"
  using get_drop_keys [of "[k]" obj k'] by (auto simp: put_def get_def)

lemma get_merge [simp]:
  "get (merge obj data) k = (case get data k of None \<Rightarrow> get obj k | Some v \<Rightarrow> Some v)"
  using get_drop_keys [of "map fst data" obj k]
  by (auto simp: merge_def get_def map_add_def map_of_eq_None_iff split: option.split if_splits)
    (force simp: map_of_eq_None_iff dest: map_of_SomeD)

lemma get_merge_Nil [simp]: "get (merge obj []) k = get obj k"
  by (simp add: get_def merge_def drop_keys_def)

section \<open>Lists of strings in an object\<close>

text \<open>
  The list under a key: what \<open>COALESCE(payload->k, '[]')\<close> holds when the key is an array of
  strings. A missing key, a JSON null and anything that is no array give the empty list.
\<close>

fun string_elems :: "json list \<Rightarrow> string list" where
  "string_elems [] = []"
| "string_elems (JStr s # vs) = s # string_elems vs"
| "string_elems (_ # vs) = string_elems vs"

definition strings :: "object \<Rightarrow> string \<Rightarrow> string list" where
  "strings obj k = (case get obj k of Some (JArr vs) \<Rightarrow> string_elems vs | _ \<Rightarrow> [])"

definition JStrs :: "string list \<Rightarrow> json" where
  "JStrs ss = JArr (map JStr ss)"

lemma string_elems_JStr [simp]: "string_elems (map JStr ss) = ss"
  by (induction ss) auto

lemma string_elems_append [simp]: "string_elems (xs @ ys) = string_elems xs @ string_elems ys"
  by (induction xs rule: string_elems.induct) auto

lemma strings_put [simp]:
  "strings (put k (JArr vs) obj) k' = (if k' = k then string_elems vs else strings obj k')"
  by (simp add: strings_def)

lemma strings_put_strs [simp]:
  "strings (put k (JStrs ss) obj) k' = (if k' = k then ss else strings obj k')"
  by (simp add: JStrs_def)

lemma strings_drop_keys [simp]:
  "strings (drop_keys ks obj) k = (if k \<in> set ks then [] else strings obj k)"
  by (simp add: strings_def)

lemma strings_merge_other: "get data k = None \<Longrightarrow> strings (merge obj data) k = strings obj k"
  by (simp add: strings_def)

lemma strings_merge_strs: "get data k = Some (JStrs ss) \<Longrightarrow> strings (merge obj data) k = ss"
  by (simp add: strings_def JStrs_def)

end
