(* ===== verification/Tasks.thy ===== *)
theory Tasks
  imports Json
begin

text \<open>
  The \<open>tasks\<close> table (\<open>api/orm/platform.py\<close>) and the writes that \<open>api/queue.py\<close> owns:
  \<open>enqueue\<close>, \<open>merge_payload\<close> and \<open>cancel\<close>, with the queue's reads of a source's run of
  failed pulls. The table is the list of its rows in insertion order; \<open>now()\<close> is an
  argument. Publishing a task event is a notification and changes no row, so it is left out.
\<close>

section \<open>Rows\<close>

datatype Status = Pending | Running | Waiting | Awaiting_batch | Done | Failed | Cancelled

record Task =
  tid :: int
  kind :: string
  payload :: object
  dedupe_key :: "string option"
  parent_id :: "int option"
  status :: Status
  attempts :: int
  batch_resumes :: int
  worker :: "string option"
  last_heartbeat :: "instant option"
  progress :: "object option"
  not_before :: "instant option"
  progress_at :: "instant option"
  error_text :: "string option"
  created_at :: instant
  started_at :: "instant option"
  finished_at :: "instant option"

text \<open>\<open>RETRIES_SPENT\<close>: the claims of a task that were not the resumption of a parked batch.\<close>

definition retries_spent :: "Task \<Rightarrow> int" where
  "retries_spent t = attempts t - batch_resumes t"

text \<open>\<open>SELECT ... WHERE id = ...\<close>; ids are the primary key, so there is at most one row.\<close>

definition row :: "Task list \<Rightarrow> int \<Rightarrow> Task option" where
  "row tbl i = find (\<lambda>t. tid t = i) tbl"

record queue =
  tasks :: "Task list"
  next_id :: int

section \<open>Enqueueing\<close>

definition new_task ::
  "instant \<Rightarrow> int \<Rightarrow> string \<Rightarrow> object \<Rightarrow> string option \<Rightarrow> int option \<Rightarrow> Task" where
  "new_task now i k p dedupe parent =
     \<lparr>tid = i, kind = k, payload = p, dedupe_key = dedupe, parent_id = parent,
      status = Pending, attempts = 0, batch_resumes = 0, worker = None, last_heartbeat = None,
      progress = None, not_before = None, progress_at = None, error_text = None,
      created_at = now, started_at = None, finished_at = None\<rparr>"

text \<open>
  The value the payload gives the \<open>parent_id\<close> column, a bigint: an integer or NULL. The
  database refuses any other JSON value.
\<close>

definition parent_column :: "object \<Rightarrow> int option result" where
  "parent_column p =
     (case get p ''parent_id'' of
        None \<Rightarrow> Inr None
      | Some JNull \<Rightarrow> Inr None
      | Some (JNum n) \<Rightarrow> Inr (Some n)
      | Some _ \<Rightarrow> Inl (ValueError ''parent_id is not a bigint''))"

text \<open>
  \<open>INSERT ... ON CONFLICT (dedupe_key) DO NOTHING RETURNING id\<close>. NULL keys never conflict; a
  conflicting insert still draws an id from the identity sequence.
\<close>

definition enqueue ::
  "instant \<Rightarrow> string \<Rightarrow> object \<Rightarrow> string option \<Rightarrow> queue \<Rightarrow> (int option \<times> queue) result" where
  "enqueue now k p dedupe q =
     and_then (parent_column p) (\<lambda>parent.
       if dedupe \<noteq> None \<and> (\<exists>t \<in> set (tasks q). dedupe_key t = dedupe)
       then Inr (None, q\<lparr>next_id := next_id q + 1\<rparr>)
       else Inr (Some (next_id q),
                 q\<lparr>tasks := tasks q @ [new_task now (next_id q) k p dedupe parent],
                   next_id := next_id q + 1\<rparr>))"

section \<open>Payload keys and cancellation\<close>

definition merge_payload_row :: "object \<Rightarrow> string list \<Rightarrow> Task \<Rightarrow> Task" where
  "merge_payload_row data dropped t = t\<lparr>payload := merge (drop_keys dropped (payload t)) data\<rparr>"

definition merge_payload :: "int \<Rightarrow> object \<Rightarrow> string list \<Rightarrow> Task list \<Rightarrow> Task list" where
  "merge_payload i data dropped = update_where (\<lambda>t. tid t = i) (merge_payload_row data dropped)"

record cancel_filter =
  f_ids :: "int list option"
  f_kind :: "string option"
  f_status :: "Status option"
  f_source :: "string option"

definition cancel_matches :: "Status list \<Rightarrow> cancel_filter \<Rightarrow> Task \<Rightarrow> bool" where
  "cancel_matches cancellable f t \<longleftrightarrow>
     status t \<in> set cancellable
     \<and> (case f_ids f of None \<Rightarrow> True | Some is \<Rightarrow> tid t \<in> set is)
     \<and> (case f_kind f of None \<Rightarrow> True | Some k \<Rightarrow> kind t = k)
     \<and> (case f_status f of None \<Rightarrow> True | Some s \<Rightarrow> status t = s)
     \<and> (case f_source f of None \<Rightarrow> True | Some s \<Rightarrow> get_text (payload t) ''source'' = Some s)"

definition cancel_row :: "instant \<Rightarrow> string \<Rightarrow> Task \<Rightarrow> Task" where
  "cancel_row now why t =
     t\<lparr>status := Cancelled, error_text := Some why, finished_at := Some now\<rparr>"

definition cancel ::
  "instant \<Rightarrow> Status list \<Rightarrow> cancel_filter \<Rightarrow> Task list \<Rightarrow> int list \<times> Task list" where
  "cancel now cancellable f tbl =
     (map tid (filter (cancel_matches cancellable f) tbl),
      update_where (cancel_matches cancellable f) (cancel_row now ''cancelled by admin'') tbl)"

text \<open>
  The administrator's endpoint (\<open>api/routers/admin/fleet_tasks.py\<close>): a selection must be
  given, and a status must be one that can be cancelled. The reply lists what was cancelled
  and which of the ids asked for were not.
\<close>

definition ACTIVE_STATUSES :: "Status list" where
  "ACTIVE_STATUSES = [Pending, Running, Awaiting_batch, Waiting]"

definition TASK_STATUSES :: "Status list" where
  "TASK_STATUSES = [Pending, Waiting, Running, Awaiting_batch, Done, Failed, Cancelled]"

definition CANCELLABLE :: "Status list" where
  "CANCELLABLE = filter (\<lambda>s. s \<in> set ACTIVE_STATUSES) TASK_STATUSES"

datatype cancel_refusal = NO_SELECTION | NOT_CANCELLABLE Status

definition cancel_tasks ::
  "instant \<Rightarrow> cancel_filter \<Rightarrow> Task list
   \<Rightarrow> cancel_refusal + ((int list \<times> int list) \<times> Task list)" where
  "cancel_tasks now f tbl =
     (if f_ids f = None \<and> f_kind f = None \<and> f_source f = None \<and> f_status f = None
      then Inl NO_SELECTION
      else case f_status f of
        Some s \<Rightarrow>
          if s \<notin> set CANCELLABLE then Inl (NOT_CANCELLABLE s)
          else (case cancel now CANCELLABLE f tbl of (is, tbl') \<Rightarrow>
                  Inr ((is, filter (\<lambda>i. i \<notin> set is) (coalesce (f_ids f) [])), tbl'))
      | None \<Rightarrow>
          (case cancel now CANCELLABLE f tbl of (is, tbl') \<Rightarrow>
             Inr ((is, filter (\<lambda>i. i \<notin> set is) (coalesce (f_ids f) [])), tbl')))"

lemma cancel_tasks_table:
  "cancel_tasks now f tbl = Inr (reply, tbl') \<Longrightarrow> tbl' = snd (cancel now CANCELLABLE f tbl)"
  by (auto simp: cancel_tasks_def split: if_splits option.splits prod.splits)

section \<open>Runs of failed pulls\<close>

record Source_row =
  s_name :: string
  s_active :: bool
  s_interval_hours :: int

record failure_run =
  failures :: nat
  last_failed :: "instant option"
  last_error :: "string option"

definition INACTIVE_SOURCE_ERROR :: string where
  "INACTIVE_SOURCE_ERROR = ''unknown or inactive source''"

definition pull_of :: "string \<Rightarrow> Task \<Rightarrow> bool" where
  "pull_of src t \<longleftrightarrow> kind t = ''ingest_source'' \<and> get_text (payload t) ''source'' = Some src"

definition last_success :: "string \<Rightarrow> Task list \<Rightarrow> int" where
  "last_success src tbl =
     foldr max (map tid (filter (\<lambda>t. pull_of src t \<and> status t = Done) tbl)) 0"

definition failed_since :: "string \<Rightarrow> Task list \<Rightarrow> Task list" where
  "failed_since src tbl =
     filter (\<lambda>t. pull_of src t \<and> status t = Failed
               \<and> error_text t \<noteq> Some INACTIVE_SOURCE_ERROR
               \<and> tid t > last_success src tbl) tbl"

definition max_instant :: "instant list \<Rightarrow> instant option" where
  "max_instant ts = (case ts of [] \<Rightarrow> None | t # rest \<Rightarrow> Some (foldr max rest t))"

text \<open>\<open>(array_agg(error ORDER BY id DESC))[1]\<close>: the error of the failed pull with the highest id.\<close>

definition FAILURE_RUN :: "string \<Rightarrow> Task list \<Rightarrow> failure_run" where
  "FAILURE_RUN src tbl =
     (let fs = failed_since src tbl in
      \<lparr>failures = length fs,
       last_failed = max_instant (map created_at fs),
       last_error = (case fs of [] \<Rightarrow> None
                     | f # rest \<Rightarrow> error_text (min_by (\<lambda>t. - tid t) f rest))\<rparr>)"

definition failure_runs ::
  "Source_row list \<Rightarrow> string list option \<Rightarrow> nat \<Rightarrow> Task list
   \<Rightarrow> (string \<times> (Source_row \<times> failure_run)) list" where
  "failure_runs srcs names at_least tbl =
     map (\<lambda>s. (s_name s, s, FAILURE_RUN (s_name s) tbl))
       (filter (\<lambda>s. (case names of None \<Rightarrow> True | Some ns \<Rightarrow> s_name s \<in> set ns)
                  \<and> failures (FAILURE_RUN (s_name s) tbl) \<ge> at_least) srcs)"

text \<open>\<open>cap\<close> is \<open>ingest_retry_max_hours\<close>; the callers pass a run of at least one failure.\<close>

definition pull_wait_hours :: "int \<Rightarrow> int \<Rightarrow> nat \<Rightarrow> int" where
  "pull_wait_hours cap interval_hours n = max interval_hours (min (interval_hours * 2 ^ (n - 1)) cap)"

abbreviation hours :: "int \<Rightarrow> int" where
  "hours h \<equiv> h * 3600 * usec_per_second"

definition backing_off ::
  "instant \<Rightarrow> int \<Rightarrow> nat \<Rightarrow> Source_row list \<Rightarrow> string list \<Rightarrow> Task list \<Rightarrow> string list" where
  "backing_off now cap give_up srcs names tbl =
     (if names = [] then [] else
      map fst (filter (\<lambda>(_, s, run). failures run < give_up
        \<and> (case last_failed run of
             None \<Rightarrow> False
           | Some l \<Rightarrow> l > now - hours (pull_wait_hours cap (s_interval_hours s) (failures run))))
        (failure_runs srcs (Some names) 1 tbl)))"

text \<open>
  \<open>daily_pull_anchor\<close> in the wall-clock time of its zone: two aware times of one zone compare
  and subtract as wall-clock times, so the zone's offsets play no part. \<open>hour\<close> is
  \<open>daily_ingest_hour_eastern\<close>; \<open>replace\<close> refuses an hour outside 0..23.
\<close>

definition daily_pull_anchor :: "int \<Rightarrow> int \<Rightarrow> int result" where
  "daily_pull_anchor hour local =
     (if hour < 0 \<or> 23 < hour then Inl (ValueError ''hour must be in 0..23'') else
      let day = hours 24; anchor = local - local mod day + hours hour in
      Inr (if anchor > local then anchor - day else anchor))"

end
