(* ===== verification/Lifecycle.thy ===== *)
theory Lifecycle
  imports Tasks
begin

text \<open>
  \<open>tasks/runtime/lifecycle.py\<close>: the claim that proves a run still owns its task, the writes a
  run makes under that claim (\<open>finish\<close>, \<open>fail_unavailable_payload\<close>, progress and
  checkpoints, \<open>park_waiting\<close>) and the parent a chunk reports to. Each UPDATE statement is an
  \<open>update_where\<close> whose second argument is the statement's SET clause as a function on one row.
\<close>

section \<open>Claims\<close>

record TaskClaim =
  task_id :: int
  c_worker :: string
  c_attempts :: int

text \<open>
  The claim is read from a context variable: \<open>cur\<close> is its value. The guard is the SQL tail
  \<open>AND worker = ... AND attempts = ...\<close>, empty when there is no claim for this task.
\<close>

definition stamped :: "TaskClaim \<Rightarrow> Task \<Rightarrow> bool" where
  "stamped c t \<longleftrightarrow> worker t = Some (c_worker c) \<and> attempts t = c_attempts c"

definition claim_guard :: "TaskClaim option \<Rightarrow> int \<Rightarrow> Task \<Rightarrow> bool" where
  "claim_guard cur i t \<longleftrightarrow>
     (case cur of None \<Rightarrow> True | Some c \<Rightarrow> task_id c \<noteq> i \<or> stamped c t)"

definition owned_running :: "TaskClaim option \<Rightarrow> int \<Rightarrow> Task \<Rightarrow> bool" where
  "owned_running cur i t \<longleftrightarrow> tid t = i \<and> status t = Running \<and> claim_guard cur i t"

section \<open>Ending a run\<close>

definition finish_row :: "instant \<Rightarrow> Status \<Rightarrow> string option \<Rightarrow> Task \<Rightarrow> Task" where
  "finish_row now st err t =
     t\<lparr>status := st, error_text := err, finished_at := Some now,
       payload := (if st = Done then drop_keys [''batch_ids''] (payload t) else payload t)\<rparr>"

definition finish ::
  "instant \<Rightarrow> TaskClaim option \<Rightarrow> int \<Rightarrow> Status \<Rightarrow> string option \<Rightarrow> Task list \<Rightarrow> Task list" where
  "finish now cur i st err = update_where (owned_running cur i) (finish_row now st err)"

definition PAYLOAD_UNAVAILABLE :: json where
  "PAYLOAD_UNAVAILABLE = JObj [(''reason'', JStr ''payload_unavailable'')]"

definition fail_unavailable_payload_row :: "instant \<Rightarrow> string \<Rightarrow> Task \<Rightarrow> Task" where
  "fail_unavailable_payload_row now err t =
     t\<lparr>status := Failed, error_text := Some err, finished_at := Some now,
       attempts := max (attempts t - 1) 0,
       payload := merge (payload t) [(''payload_recovery'', PAYLOAD_UNAVAILABLE)]\<rparr>"

definition fail_unavailable_payload ::
  "instant \<Rightarrow> TaskClaim option \<Rightarrow> int \<Rightarrow> string \<Rightarrow> Task list \<Rightarrow> Task list" where
  "fail_unavailable_payload now cur i err =
     update_where (owned_running cur i) (fail_unavailable_payload_row now err)"

definition cancelled :: "int \<Rightarrow> Task list \<Rightarrow> bool" where
  "cancelled i tbl = (case row tbl i of None \<Rightarrow> True | Some t \<Rightarrow> status t \<noteq> Running)"

definition parent_cancelled :: "int \<Rightarrow> Task list \<Rightarrow> bool" where
  "parent_cancelled i tbl = (case row tbl i of None \<Rightarrow> True | Some t \<Rightarrow> status t = Cancelled)"

section \<open>Progress, checkpoints and parking on chunks\<close>

definition progress_row :: "instant \<Rightarrow> object \<Rightarrow> object \<Rightarrow> Task \<Rightarrow> Task" where
  "progress_row now prog data t =
     t\<lparr>payload := (if data = [] then payload t else merge (payload t) data),
       progress := Some prog, last_heartbeat := Some now,
       progress_at := (if progress t \<noteq> Some prog then Some now else progress_at t)\<rparr>"

definition progress_target :: "TaskClaim option \<Rightarrow> bool \<Rightarrow> int \<Rightarrow> Task \<Rightarrow> bool" where
  "progress_target cur running_only i t \<longleftrightarrow>
     tid t = i \<and> (running_only \<longrightarrow> status t = Running) \<and> claim_guard cur i t"

definition write_progress ::
  "instant \<Rightarrow> TaskClaim option \<Rightarrow> int \<Rightarrow> object \<Rightarrow> bool \<Rightarrow> object \<Rightarrow> Task list
   \<Rightarrow> nat \<times> Task list" where
  "write_progress now cur i prog running_only data tbl =
     (row_count (progress_target cur running_only i) tbl,
      update_where (progress_target cur running_only i) (progress_row now prog data) tbl)"

text \<open>\<open>{"done": done, "total": total, "label": label, **extra}\<close>\<close>

definition progress_of :: "int \<Rightarrow> int \<Rightarrow> string \<Rightarrow> object \<Rightarrow> object" where
  "progress_of finished tot label extra =
     merge [(''done'', JNum finished), (''total'', JNum tot), (''label'', JStr label)] extra"

definition set_progress ::
  "instant \<Rightarrow> TaskClaim option \<Rightarrow> int \<Rightarrow> int \<Rightarrow> int \<Rightarrow> string \<Rightarrow> object \<Rightarrow> Task list \<Rightarrow> Task list" where
  "set_progress now cur i finished tot label extra tbl =
     snd (write_progress now cur i (progress_of finished tot label extra) False [] tbl)"

definition checkpoint ::
  "instant \<Rightarrow> TaskClaim option \<Rightarrow> int \<Rightarrow> int \<Rightarrow> int \<Rightarrow> string \<Rightarrow> object \<Rightarrow> object \<Rightarrow> Task list
   \<Rightarrow> bool \<times> Task list" where
  "checkpoint now cur i finished tot label extra data tbl =
     (case write_progress now cur i (progress_of finished tot label extra) True data tbl of
        (n, tbl') \<Rightarrow> (n = 1, tbl'))"

definition park_waiting_row :: "int \<Rightarrow> string \<Rightarrow> Task \<Rightarrow> Task" where
  "park_waiting_row tot label t =
     t\<lparr>status := Waiting, progress := Some (progress_of 0 tot label [])\<rparr>"

definition park_waiting :: "TaskClaim option \<Rightarrow> int \<Rightarrow> int \<Rightarrow> string \<Rightarrow> Task list \<Rightarrow> Task list" where
  "park_waiting cur i tot label =
     update_where (owned_running cur i) (park_waiting_row tot label)"

section \<open>Parents and their chunks\<close>

definition CHUNK_KINDS :: "string list" where
  "CHUNK_KINDS = [''run_filter_chunk'', ''reverify_chunk'', ''run_filter_batch_chunk'']"

definition chunk_of :: "int \<Rightarrow> Task \<Rightarrow> bool" where
  "chunk_of i t \<longleftrightarrow> kind t \<in> set CHUNK_KINDS \<and> parent_id t = Some i"

definition live_status :: "Status \<Rightarrow> bool" where
  "live_status s \<longleftrightarrow> s = Pending \<or> s = Running \<or> s = Awaiting_batch"

definition progress_done :: "Task \<Rightarrow> int" where
  "progress_done t =
     (case Option.bind (progress t) (\<lambda>p. get p ''done'') of Some (JNum n) \<Rightarrow> n | _ \<Rightarrow> 0)"

definition parent_progress_row :: "instant \<Rightarrow> int \<Rightarrow> Task \<Rightarrow> Task" where
  "parent_progress_row now n t =
     t\<lparr>progress := Some (put ''done'' (JNum n) (coalesce (progress t) [])),
       last_heartbeat := Some now\<rparr>"

definition update_parent_progress :: "instant \<Rightarrow> int \<Rightarrow> Task list \<Rightarrow> Task list" where
  "update_parent_progress now i tbl =
     update_where (\<lambda>t. tid t = i \<and> status t = Waiting)
       (parent_progress_row now (sum_list (map progress_done (filter (chunk_of i) tbl)))) tbl"

text \<open>
  What finalizing asks of the board afterwards. Both calls are guarded by a handler that only
  logs, so nothing they raise reaches the caller.
\<close>

datatype followup = Demote_closed | Materialize_passing json

definition followup_of :: "Task \<Rightarrow> followup list" where
  "followup_of parent =
     (if kind parent = ''reverify_open'' then [Demote_closed]
      else (case get (payload parent) ''user_id'' of
              None \<Rightarrow> []
            | Some u \<Rightarrow> if truthy_json u then [Materialize_passing u] else []))"

definition finalize_row :: "instant \<Rightarrow> nat \<Rightarrow> Task \<Rightarrow> Task" where
  "finalize_row now n_failed t =
     t\<lparr>status := (if n_failed \<noteq> 0 then Failed else Done),
       error_text := (if n_failed \<noteq> 0 then Some (show_nat n_failed @ '' chunk(s) failed'') else None),
       finished_at := Some now\<rparr>"

definition maybe_finalize_parent :: "instant \<Rightarrow> int \<Rightarrow> Task list \<Rightarrow> Task list \<times> followup list" where
  "maybe_finalize_parent now i tbl0 =
     (let tbl = update_parent_progress now i tbl0 in
      case row tbl i of
        None \<Rightarrow> (tbl, [])
      | Some parent \<Rightarrow>
          if status parent \<noteq> Waiting then (tbl, [])
          else if row_count (\<lambda>t. chunk_of i t \<and> live_status (status t)) tbl \<noteq> 0 then (tbl, [])
          else (update_where (\<lambda>t. tid t = i \<and> status t = Waiting)
                  (finalize_row now (row_count (\<lambda>t. chunk_of i t \<and> status t = Failed) tbl)) tbl,
                followup_of parent))"

definition orphaned_chunk :: "Task list \<Rightarrow> Task \<Rightarrow> bool" where
  "orphaned_chunk tbl t \<longleftrightarrow>
     kind t \<in> set CHUNK_KINDS \<and> status t = Pending
     \<and> (\<exists>p \<in> set tbl. parent_id t = Some (tid p) \<and> status p = Cancelled)"

definition finalizable :: "Task list \<Rightarrow> int list" where
  "finalizable tbl =
     map tid (filter (\<lambda>t. status t = Waiting
       \<and> \<not> (\<exists>c \<in> set tbl. chunk_of (tid t) c \<and> live_status (status c))) tbl)"

fun finalize_all :: "instant \<Rightarrow> int list \<Rightarrow> Task list \<Rightarrow> Task list \<times> followup list" where
  "finalize_all now [] tbl = (tbl, [])"
| "finalize_all now (i # is) tbl =
     (case maybe_finalize_parent now i tbl of
        (tbl', fs) \<Rightarrow> (case finalize_all now is tbl' of (tbl'', gs) \<Rightarrow> (tbl'', fs @ gs)))"

definition reconcile_chunks :: "instant \<Rightarrow> Task list \<Rightarrow> Task list \<times> followup list" where
  "reconcile_chunks now tbl =
     (let tbl' = update_where (orphaned_chunk tbl) (cancel_row now ''parent cancelled'') tbl
      in finalize_all now (finalizable tbl') tbl')"

end
