(* ===== verification/Batching.thy ===== *)
theory Batching
  imports Lifecycle
begin

text \<open>
  Provider batches of a task (\<open>tasks/runtime/batching.py\<close>) and the poll that resumes parked
  tasks (\<open>tasks/batches.py\<close>): the batch ids kept in the payload, the \<open>ai_batches\<close> ledger the
  event hook writes, parking and resuming, and the three ways a parked task is woken. What the
  provider answers to a status call is an argument.
\<close>

section \<open>Batch ids in the payload\<close>

text \<open>\<open>COALESCE(payload->'batch_ids', '[]')\<close>, as the left operand of \<open>||\<close>.\<close>

definition recorded_batch_ids :: "object \<Rightarrow> json list" where
  "recorded_batch_ids p =
     (case get p ''batch_ids'' of None \<Rightarrow> [] | Some (JArr vs) \<Rightarrow> vs | Some v \<Rightarrow> [v])"

definition record_batch_ids_row :: "string list \<Rightarrow> Task \<Rightarrow> Task" where
  "record_batch_ids_row ids t =
     t\<lparr>payload := put ''batch_ids''
         (JArr (recorded_batch_ids (payload t)
                @ filter (\<lambda>v. v \<notin> set (recorded_batch_ids (payload t))) (map JStr ids)))
         (payload t)\<rparr>"

definition record_batch_ids :: "int \<Rightarrow> string list \<Rightarrow> Task list \<Rightarrow> Task list" where
  "record_batch_ids i ids = update_where (\<lambda>t. tid t = i) (record_batch_ids_row ids)"

definition pending_batch_ids :: "int \<Rightarrow> Task list \<Rightarrow> string list" where
  "pending_batch_ids i tbl =
     (case row tbl i of None \<Rightarrow> [] | Some t \<Rightarrow> strings (payload t) ''batch_ids'')"

section \<open>Parking and resuming\<close>

definition park_batch_row :: "Task \<Rightarrow> Task" where
  "park_batch_row t = t\<lparr>status := Awaiting_batch, started_at := None, last_heartbeat := None\<rparr>"

definition park_awaiting_batch ::
  "TaskClaim option \<Rightarrow> int \<Rightarrow> string list \<Rightarrow> Task list \<Rightarrow> bool \<times> Task list" where
  "park_awaiting_batch cur i ids tbl0 =
     (let tbl = record_batch_ids i ids tbl0 in
      (row_count (owned_running cur i) tbl \<noteq> 0,
       update_where (owned_running cur i) park_batch_row tbl))"

definition resume_row :: "Task \<Rightarrow> Task" where
  "resume_row t =
     t\<lparr>status := Pending, started_at := None, last_heartbeat := None,
       batch_resumes := batch_resumes t + 1\<rparr>"

definition resume_parked :: "int \<Rightarrow> Task list \<Rightarrow> Task list" where
  "resume_parked i = update_where (\<lambda>t. tid t = i \<and> status t = Awaiting_batch) resume_row"

definition repark_if_unfinished :: "TaskClaim option \<Rightarrow> int \<Rightarrow> Task list \<Rightarrow> bool \<times> Task list" where
  "repark_if_unfinished cur i tbl =
     (let remaining = pending_batch_ids i tbl in
      if remaining = [] then (False, tbl) else park_awaiting_batch cur i remaining tbl)"

text \<open>\<open>receipts\<close> are the task ids that hold a row of \<open>batch_result_receipts\<close>.\<close>

definition has_batch_work :: "int list \<Rightarrow> int \<Rightarrow> Task list \<Rightarrow> bool" where
  "has_batch_work receipts i tbl \<longleftrightarrow>
     (case row tbl i of
        None \<Rightarrow> False
      | Some t \<Rightarrow> (case get (payload t) ''batch_ids'' of None \<Rightarrow> False | Some v \<Rightarrow> truthy_json v)
          \<or> get (payload t) ''batch_collection_checkpointed'' = Some (JBool True))
     \<or> i \<in> set receipts"

text \<open>What collecting writes on the task: the ids that remain, and that results are stored.\<close>

definition collected_data :: "string list \<Rightarrow> object" where
  "collected_data unfinished =
     [(''batch_ids'', JStrs unfinished), (''batch_collection_checkpointed'', JBool True)]"

section \<open>The batch ledger\<close>

record AiBatch =
  provider_batch_id :: string
  b_task_id :: int
  b_purpose :: string
  b_model :: "string option"
  b_requests :: int
  b_completed :: int
  b_failed_count :: int
  b_status :: string
  b_est_tokens :: int
  b_payer :: "string option"
  b_payer_id :: "int option"
  b_fallback_from :: "string option"
  b_submitted_at :: instant
  b_updated_at :: instant
  b_completed_at :: "instant option"

definition TERMINAL_STATES :: "string list" where
  "TERMINAL_STATES = [''completed'', ''failed'', ''expired'', ''cancelled'']"

definition is_terminal :: "string \<Rightarrow> bool" where
  "is_terminal s \<longleftrightarrow> s \<in> set TERMINAL_STATES"

definition completed_stamp :: "instant \<Rightarrow> string \<Rightarrow> instant option \<Rightarrow> instant option" where
  "completed_stamp now st before =
     (if is_terminal st then Some (coalesce before now) else None)"

record batch_hook =
  h_task_id :: int
  h_purpose :: string
  h_model :: "string option"
  h_payer :: string
  h_payer_id :: "int option"
  h_fallback_from :: "string option"
  h_resumed :: "string list"
  h_metadata :: "(string \<times> string option) list"

record event_counts =
  n_requests :: int
  n_completed :: int
  n_failed :: int
  n_est_tokens :: int

definition batch_metadata ::
  "int \<Rightarrow> string list \<Rightarrow> AiBatch list \<Rightarrow> (string \<times> string option) list" where
  "batch_metadata i ids ledger =
     map (\<lambda>b. (provider_batch_id b, b_model b))
       (filter (\<lambda>b. b_task_id b = i \<and> provider_batch_id b \<in> set ids) ledger)"

text \<open>The hook reads the ids and models of the batches it resumes when it is made.\<close>

definition batch_event_hook ::
  "int \<Rightarrow> string \<Rightarrow> string option \<Rightarrow> string \<times> int option \<Rightarrow> string option
   \<Rightarrow> Task list \<Rightarrow> AiBatch list \<Rightarrow> batch_hook" where
  "batch_event_hook i purp mdl payer fallback tbl ledger =
     (let resumed = pending_batch_ids i tbl in
      \<lparr>h_task_id = i, h_purpose = purp, h_model = mdl, h_payer = fst payer,
       h_payer_id = snd payer, h_fallback_from = fallback, h_resumed = resumed,
       h_metadata = batch_metadata i resumed ledger\<rparr>)"

definition event_insert ::
  "instant \<Rightarrow> batch_hook \<Rightarrow> string \<Rightarrow> string \<Rightarrow> event_counts \<Rightarrow> AiBatch" where
  "event_insert now hk bid st n =
     \<lparr>provider_batch_id = bid, b_task_id = h_task_id hk, b_purpose = h_purpose hk,
      b_model = (if bid \<in> set (h_resumed hk) then Option.bind (map_of (h_metadata hk) bid) id
                 else h_model hk),
      b_requests = n_requests n, b_completed = n_completed n, b_failed_count = n_failed n,
      b_status = st, b_est_tokens = n_est_tokens n,
      b_payer = Some (h_payer hk), b_payer_id = h_payer_id hk,
      b_fallback_from = (if bid \<in> set (h_resumed hk) then None else h_fallback_from hk),
      b_submitted_at = now, b_updated_at = now, b_completed_at = None\<rparr>"

definition event_conflict ::
  "instant \<Rightarrow> batch_hook \<Rightarrow> string \<Rightarrow> event_counts \<Rightarrow> AiBatch \<Rightarrow> AiBatch" where
  "event_conflict now hk st n b =
     b\<lparr>b_payer := (case b_payer b of None \<Rightarrow> Some (h_payer hk) | Some p \<Rightarrow> Some p),
       b_payer_id := (if b_payer b = None then h_payer_id hk else b_payer_id b),
       b_requests := max (b_requests b) (n_requests n),
       b_completed := n_completed n, b_failed_count := n_failed n, b_status := st,
       b_est_tokens := max (b_est_tokens b) (n_est_tokens n),
       b_updated_at := now,
       b_completed_at := completed_stamp now st (b_completed_at b)\<rparr>"

definition on_event ::
  "instant \<Rightarrow> batch_hook \<Rightarrow> string \<Rightarrow> string \<Rightarrow> event_counts
   \<Rightarrow> Task list \<times> AiBatch list \<Rightarrow> Task list \<times> AiBatch list" where
  "on_event now hk bid st n db =
     (case db of (tbl, ledger) \<Rightarrow>
        (record_batch_ids (h_task_id hk) [bid] tbl,
         if \<exists>b \<in> set ledger. provider_batch_id b = bid
         then update_where (\<lambda>b. provider_batch_id b = bid) (event_conflict now hk st n) ledger
         else ledger @ [event_insert now hk bid st n]))"

section \<open>Polling\<close>

record BatchProgress =
  p_status :: string
  p_total :: int
  p_completed :: int
  p_failed :: int

definition progress_batch_row :: "instant \<Rightarrow> BatchProgress \<Rightarrow> AiBatch \<Rightarrow> AiBatch" where
  "progress_batch_row now p b =
     b\<lparr>b_status := p_status p, b_updated_at := now,
       b_requests := max (b_requests b) (p_total p),
       b_completed := max (b_completed b) (p_completed p),
       b_failed_count := max (b_failed_count b) (p_failed p),
       b_completed_at := completed_stamp now (p_status p) (b_completed_at b)\<rparr>"

fun record_progress ::
  "instant \<Rightarrow> (string \<times> BatchProgress) list \<Rightarrow> AiBatch list \<Rightarrow> AiBatch list" where
  "record_progress now [] ledger = ledger"
| "record_progress now ((bid, p) # ps) ledger =
     record_progress now ps
       (if p_status p = '''' then ledger
        else update_where (\<lambda>b. provider_batch_id b = bid) (progress_batch_row now p) ledger)"

definition submitted_before :: "instant \<Rightarrow> string list \<Rightarrow> AiBatch list \<Rightarrow> bool" where
  "submitted_before cutoff ids ledger \<longleftrightarrow>
     (\<exists>b \<in> set ledger. provider_batch_id b \<in> set ids \<and> b_submitted_at b < cutoff)"

definition younger_than :: "instant \<Rightarrow> string list \<Rightarrow> int \<Rightarrow> AiBatch list \<Rightarrow> bool" where
  "younger_than now ids seconds ledger \<longleftrightarrow>
     (\<exists>b \<in> set ledger. provider_batch_id b \<in> set ids
        \<and> b_submitted_at b > now - seconds * usec_per_second)"

text \<open>
  What a poll does with one parked task. \<open>answers\<close> is the provider's reply for the task's ids;
  a batch with no readable status counts as unfinished.
\<close>

datatype poll_action = Resume | Resume_partial | Expired_wait | Wait

definition finished_ids :: "(string \<times> BatchProgress) list \<Rightarrow> string list \<Rightarrow> string list" where
  "finished_ids answers ids =
     filter (\<lambda>b. case map_of answers b of None \<Rightarrow> False | Some p \<Rightarrow> is_terminal (p_status p)) ids"

definition poll_action ::
  "instant \<Rightarrow> int \<Rightarrow> int \<Rightarrow> (string \<times> BatchProgress) list \<Rightarrow> string list \<Rightarrow> AiBatch list
   \<Rightarrow> poll_action" where
  "poll_action now window straggler_seconds answers ids ledger =
     (if ids = [] then Resume
      else let finished = finished_ids answers ids;
               overdue = submitted_before (now - window * usec_per_second) ids ledger in
        if length finished = length ids then Resume
        else if finished = [] then (if overdue then Expired_wait else Wait)
        else if overdue \<or> \<not> younger_than now (filter (\<lambda>b. b \<notin> set finished) ids)
                               straggler_seconds ledger
        then Resume_partial else Wait)"

record poll_counts =
  resumed :: nat
  partial :: nat
  expired :: nat

fun poll_parked ::
  "instant \<Rightarrow> int \<Rightarrow> int \<Rightarrow> (string list \<Rightarrow> (string \<times> BatchProgress) list) \<Rightarrow> Task list
   \<Rightarrow> Task list \<Rightarrow> AiBatch list \<Rightarrow> poll_counts \<times> Task list \<times> AiBatch list" where
  "poll_parked now window straggler ask [] tbl ledger =
     (\<lparr>resumed = 0, partial = 0, expired = 0\<rparr>, tbl, ledger)"
| "poll_parked now window straggler ask (t # ts) tbl ledger =
     (let ids = strings (payload t) ''batch_ids'';
          answers = (if ids = [] then [] else ask ids);
          ledger' = record_progress now answers ledger;
          act = poll_action now window straggler answers ids ledger';
          tbl' = (if act = Resume \<or> act = Resume_partial then resume_parked (tid t) tbl else tbl)
      in case poll_parked now window straggler ask ts tbl' ledger' of (n, rest) \<Rightarrow>
        (n\<lparr>resumed := resumed n + (if act = Resume then 1 else 0),
           partial := partial n + (if act = Resume_partial then 1 else 0),
           expired := expired n + (if act = Expired_wait then 1 else 0)\<rparr>, rest))"

definition orphan :: "instant \<Rightarrow> int \<Rightarrow> Task list \<Rightarrow> AiBatch \<Rightarrow> bool" where
  "orphan now window tbl b \<longleftrightarrow>
     \<not> is_terminal (b_status b) \<and> b_submitted_at b < now - window * usec_per_second
     \<and> \<not> (\<exists>t \<in> set tbl. tid t = b_task_id b
            \<and> status t \<in> {Awaiting_batch, Pending, Running, Waiting})"

definition expire_row :: "instant \<Rightarrow> AiBatch \<Rightarrow> AiBatch" where
  "expire_row now b =
     b\<lparr>b_status := ''expired'', b_updated_at := now,
       b_completed_at := Some (coalesce (b_completed_at b) now)\<rparr>"

definition expire_orphans ::
  "instant \<Rightarrow> int \<Rightarrow> Task list \<Rightarrow> AiBatch list \<Rightarrow> nat \<times> AiBatch list" where
  "expire_orphans now window tbl ledger =
     (row_count (orphan now window tbl) ledger,
      update_where (orphan now window tbl) (expire_row now) ledger)"

definition parked_tasks :: "Task list \<Rightarrow> Task list" where
  "parked_tasks tbl = sort_key tid (filter (\<lambda>t. status t = Awaiting_batch) tbl)"

definition poll_label :: "poll_counts \<Rightarrow> nat \<Rightarrow> string" where
  "poll_label n orphaned =
     show_nat (resumed n) @ '' resumed, '' @ show_nat (partial n)
     @ '' resumed on stragglers, '' @ show_nat (expired n)
     @ '' past the completion window with nothing finished, '' @ show_nat orphaned
     @ '' orphaned batch row(s) expired''"

definition handle_poll_batches ::
  "instant \<Rightarrow> TaskClaim option \<Rightarrow> int \<Rightarrow> int \<Rightarrow> int
   \<Rightarrow> (string list \<Rightarrow> (string \<times> BatchProgress) list)
   \<Rightarrow> Task list \<times> AiBatch list \<Rightarrow> Task list \<times> AiBatch list" where
  "handle_poll_batches now cur i window straggler_hours ask db =
     (case db of (tbl, ledger) \<Rightarrow>
        let parked = parked_tasks tbl in
        if parked = []
        then (set_progress now cur i 0 0 ''nothing awaiting batches'' [] tbl, ledger)
        else case poll_parked now window (straggler_hours * 3600) ask parked tbl ledger of
          (n, tbl', ledger') \<Rightarrow>
            (case expire_orphans now window tbl' ledger' of (orphaned, ledger'') \<Rightarrow>
              (set_progress now cur i (int (resumed n + partial n)) (int (length parked))
                 (poll_label n orphaned) [] tbl', ledger'')))"

section \<open>Batches a payload names\<close>

text \<open>The payload of the task \<open>i\<close> names the batch.\<close>

definition named :: "int \<Rightarrow> Task list \<Rightarrow> string \<Rightarrow> bool" where
  "named i tbl b \<longleftrightarrow> (\<forall>t \<in> set tbl. tid t = i \<longrightarrow> b \<in> set (strings (payload t) ''batch_ids''))"

lemma string_elems_iff: "b \<in> set (string_elems vs) \<longleftrightarrow> JStr b \<in> set vs"
  by (induction vs rule: string_elems.induct) auto

lemma strings_record:
  "b \<in> set (strings (payload (record_batch_ids_row ids t)) ''batch_ids'')
   \<longleftrightarrow> b \<in> set ids \<or> JStr b \<in> set (recorded_batch_ids (payload t))"
  by (auto simp: record_batch_ids_row_def strings_def string_elems_iff)

lemma recorded_strings:
  "b \<in> set (strings p ''batch_ids'') \<Longrightarrow> JStr b \<in> set (recorded_batch_ids p)"
  by (auto simp: strings_def recorded_batch_ids_def string_elems_iff split: option.splits json.splits)

lemma named_record:
  assumes "b \<in> set ids \<or> named i tbl b"
  shows "named i (record_batch_ids i ids tbl) b"
  using assms recorded_strings
  by (auto simp: named_def record_batch_ids_def table_simps strings_record)

lemma named_park:
  assumes "b \<in> set ids \<or> named i tbl b" "park_awaiting_batch cur i ids tbl = (ok, tbl')"
  shows "named i tbl' b"
  using named_record [OF assms(1)] assms(2)
  by (auto simp: park_awaiting_batch_def Let_def named_def table_simps park_batch_row_def)

lemma named_record_any: "named i tbl b \<Longrightarrow> named i (record_batch_ids j ids tbl) b"
  using recorded_strings
  by (auto simp: named_def record_batch_ids_def table_simps strings_record)
    (auto simp: record_batch_ids_row_def)

lemma named_on_event:
  "named i tbl b \<Longrightarrow> on_event now hk bid st n (tbl, ledger) = (tbl', ledger') \<Longrightarrow> named i tbl' b"
  by (auto simp: on_event_def named_record_any)

end
