(* ===== verification/Hosts.thy ===== *)
theory Hosts
  imports Json
begin

text \<open>
  Pacing of upstream hosts per egress address (\<open>api/hosts.py\<close>): the \<open>host_budget\<close> table,
  \<open>take\<close>, \<open>refused\<close>, \<open>succeeded\<close> and the reads beside them. The pace is a rational
  number of seconds where the column is a double; an instant is in microseconds, and
  \<open>make_interval(secs => s)\<close> rounds to them. One call sees one \<open>now()\<close>. The properties are
  the spacing the pacing exists for and the bounds of the learned gap.
\<close>

section \<open>The table and its operations\<close>

record HostBudget =
  host :: string
  egress_group :: string
  pace_seconds :: rat
  next_allowed_at :: instant
  ok_count :: int
  refused_count :: int
  updated_at :: instant

definition REFUSED_MIN_SECONDS :: rat where "REFUSED_MIN_SECONDS = 30"
definition CAP_SECONDS :: rat where "CAP_SECONDS = 900"
definition DECAY :: rat where "DECAY = 9 / 10"
definition BLOCKED_AFTER :: int where "BLOCKED_AFTER = 3"
definition REQUEUE_SECONDS :: rat where "REQUEUE_SECONDS = 5"

definition secs :: "rat \<Rightarrow> int" where
  "secs s = round (s * of_int usec_per_second)"

text \<open>
  \<open>limits\<close> is the \<open>ingest_host_pace_seconds\<close> setting, a dictionary of positive integers; a
  missing host has no floor.
\<close>

definition floor_for :: "object \<Rightarrow> string \<Rightarrow> rat" where
  "floor_for limits h = (case get limits h of Some (JNum n) \<Rightarrow> of_int n | _ \<Rightarrow> 0)"

definition budget_of :: "string \<Rightarrow> string \<Rightarrow> HostBudget \<Rightarrow> bool" where
  "budget_of h e b \<longleftrightarrow> host b = h \<and> egress_group b = e"

definition upsert_floor ::
  "instant \<Rightarrow> rat \<Rightarrow> string \<Rightarrow> string \<Rightarrow> HostBudget list \<Rightarrow> HostBudget list" where
  "upsert_floor now flr h e tbl =
     (if \<exists>b \<in> set tbl. budget_of h e b
      then update_where (budget_of h e) (\<lambda>b. b\<lparr>pace_seconds := max (pace_seconds b) flr\<rparr>) tbl
      else tbl @ [\<lparr>host = h, egress_group = e, pace_seconds = flr, next_allowed_at = now,
                   ok_count = 0, refused_count = 0, updated_at = now\<rparr>])"

definition take_row :: "instant \<Rightarrow> HostBudget \<Rightarrow> HostBudget" where
  "take_row now b = b\<lparr>next_allowed_at := now + secs (pace_seconds b), updated_at := now\<rparr>"

definition take_slot ::
  "instant \<Rightarrow> object \<Rightarrow> string \<Rightarrow> string \<Rightarrow> HostBudget list \<Rightarrow> instant option \<times> HostBudget list" where
  "take_slot now limits h e tbl0 =
     (let tbl = upsert_floor now (floor_for limits h) h e tbl0;
          free = (\<lambda>b. budget_of h e b \<and> next_allowed_at b \<le> now)
      in if row_count free tbl \<noteq> 0 then (None, update_where free (take_row now) tbl)
         else (map_option next_allowed_at (find (budget_of h e) tbl), tbl))"

definition widened :: "rat \<Rightarrow> rat" where
  "widened pace = min CAP_SECONDS (max (pace * 2) REFUSED_MIN_SECONDS)"

definition refused_row :: "instant \<Rightarrow> HostBudget \<Rightarrow> HostBudget" where
  "refused_row now b =
     b\<lparr>pace_seconds := widened (pace_seconds b),
       next_allowed_at := now + secs (widened (pace_seconds b)),
       refused_count := refused_count b + 1, updated_at := now\<rparr>"

definition refused ::
  "instant \<Rightarrow> string \<Rightarrow> string \<Rightarrow> HostBudget list \<Rightarrow> instant \<times> HostBudget list" where
  "refused now h e tbl =
     (let tbl' = update_where (budget_of h e) (refused_row now) tbl in
      (case find (budget_of h e) tbl' of
         Some b \<Rightarrow> next_allowed_at b
       | None \<Rightarrow> now + secs REFUSED_MIN_SECONDS, tbl'))"

definition succeeded_row :: "instant \<Rightarrow> rat \<Rightarrow> HostBudget \<Rightarrow> HostBudget" where
  "succeeded_row now flr b =
     b\<lparr>pace_seconds := max flr (pace_seconds b * DECAY), ok_count := ok_count b + 1,
       updated_at := now\<rparr>"

definition succeeded ::
  "instant \<Rightarrow> object \<Rightarrow> string \<Rightarrow> string \<Rightarrow> HostBudget list \<Rightarrow> HostBudget list" where
  "succeeded now limits h e =
     update_where (budget_of h e) (succeeded_row now (floor_for limits h))"

definition blocked :: "int \<Rightarrow> int \<Rightarrow> bool" where
  "blocked ok n \<longleftrightarrow> ok = 0 \<and> n \<ge> BLOCKED_AFTER"

definition soon :: "instant \<Rightarrow> instant" where
  "soon now = now + secs REQUEUE_SECONDS"

section \<open>A budget's history\<close>

text \<open>
  The calls one address makes against one host, each at its moment. \<open>host_run\<close> gives the
  moments at which a slot was taken, and the table after them.
\<close>

datatype host_op = Take | Refused | Succeeded

fun host_run ::
  "object \<Rightarrow> string \<Rightarrow> string \<Rightarrow> (instant \<times> host_op) list \<Rightarrow> HostBudget list
   \<Rightarrow> instant list \<times> HostBudget list" where
  "host_run limits h e [] tbl = ([], tbl)"
| "host_run limits h e ((now, Take) # ops) tbl =
     (case take_slot now limits h e tbl of (opens, tbl') \<Rightarrow>
      (case host_run limits h e ops tbl' of (ts, tbl'') \<Rightarrow>
        (if opens = None then now # ts else ts, tbl'')))"
| "host_run limits h e ((now, Refused) # ops) tbl =
     host_run limits h e ops (snd (refused now h e tbl))"
| "host_run limits h e ((now, Succeeded) # ops) tbl =
     host_run limits h e ops (succeeded now limits h e tbl)"

fun spaced :: "int \<Rightarrow> int list \<Rightarrow> bool" where
  "spaced gap (t # u # ts) = (t + gap \<le> u \<and> spaced gap (u # ts))"
| "spaced gap _ = True"

section \<open>What pacing guarantees\<close>

lemma secs_mono: "a \<le> b \<Longrightarrow> secs a \<le> secs b"
  by (simp add: secs_def round_mono)

lemma secs_of_int [simp]: "secs (of_int n) = n * usec_per_second"
proof -
  have "of_int n * of_int usec_per_second = (of_int (n * usec_per_second) :: rat)" by simp
  then show ?thesis by (simp only: secs_def round_of_int)
qed

lemma widened_bounds:
  "widened p \<le> CAP_SECONDS" "REFUSED_MIN_SECONDS \<le> widened p"
  "f \<le> p \<Longrightarrow> 0 \<le> p \<Longrightarrow> f \<le> CAP_SECONDS \<Longrightarrow> f \<le> widened p"
  by (auto simp: widened_def REFUSED_MIN_SECONDS_def CAP_SECONDS_def)

text \<open>Every row of the pair is closed until \<open>u\<close> at least, with a gap of at least the floor.\<close>

definition closed_until :: "rat \<Rightarrow> string \<Rightarrow> string \<Rightarrow> instant \<Rightarrow> HostBudget list \<Rightarrow> bool" where
  "closed_until flr h e u tbl \<longleftrightarrow>
     (\<exists>b \<in> set tbl. budget_of h e b)
     \<and> (\<forall>b \<in> set tbl. budget_of h e b \<longrightarrow> flr \<le> pace_seconds b \<and> u \<le> next_allowed_at b)"

lemma budget_of_upd [simp]:
  "budget_of h e (b\<lparr>pace_seconds := p\<rparr>) = budget_of h e b"
  "budget_of h e (take_row now b) = budget_of h e b"
  "budget_of h e (refused_row now b) = budget_of h e b"
  "budget_of h e (succeeded_row now flr b) = budget_of h e b"
  by (auto simp: budget_of_def take_row_def refused_row_def succeeded_row_def)

lemma host_row_fields [simp]:
  "pace_seconds (take_row now b) = pace_seconds b"
  "next_allowed_at (take_row now b) = now + secs (pace_seconds b)"
  "pace_seconds (refused_row now b) = widened (pace_seconds b)"
  "next_allowed_at (refused_row now b) = now + secs (widened (pace_seconds b))"
  "pace_seconds (succeeded_row now flr b) = max flr (pace_seconds b * DECAY)"
  "next_allowed_at (succeeded_row now flr b) = next_allowed_at b"
  by (simp_all add: take_row_def refused_row_def succeeded_row_def)

lemma closed_until_update:
  assumes "closed_until flr h e u tbl"
    and "\<And>b. b \<in> set tbl \<Longrightarrow> budget_of h e b \<Longrightarrow> budget_of h e (f b)
          \<and> (flr \<le> pace_seconds b \<longrightarrow> u \<le> next_allowed_at b \<longrightarrow>
             flr \<le> pace_seconds (f b) \<and> u \<le> next_allowed_at (f b))"
  shows "closed_until flr h e u (update_where (budget_of h e) f tbl)"
  using assms by (auto simp: closed_until_def table_simps)

lemma refused_keeps_closed:
  assumes "closed_until flr h e u tbl" "0 \<le> flr" "flr \<le> CAP_SECONDS" "u \<le> now + secs flr"
  shows "closed_until flr h e u (snd (refused now h e tbl))"
proof -
  have "flr \<le> p \<Longrightarrow> flr \<le> widened p" for p
    using assms(2,3) widened_bounds(3) [of flr p] by linarith
  moreover have "flr \<le> p \<Longrightarrow> u \<le> now + secs (widened p)" for p
    using assms(4) secs_mono [of flr "widened p"] calculation [of p] by linarith
  ultimately show ?thesis
    using assms(1)
    by (auto simp: refused_def Let_def intro!: closed_until_update)
qed

lemma succeeded_keeps_closed:
  "closed_until (floor_for limits h) h e u tbl
   \<Longrightarrow> closed_until (floor_for limits h) h e u (succeeded now limits h e tbl)"
  unfolding succeeded_def by (rule closed_until_update) auto

lemma upsert_floor_has: "\<exists>b \<in> set (upsert_floor now flr h e tbl). budget_of h e b"
proof (cases "\<exists>b \<in> set tbl. budget_of h e b")
  case True
  then obtain b where "b \<in> set tbl" "budget_of h e b" by blast
  then show ?thesis
    by (auto simp: upsert_floor_def table_simps
        intro!: bexI [of _ "b\<lparr>pace_seconds := max (pace_seconds b) flr\<rparr>"])
next
  case False
  then show ?thesis by (simp only: upsert_floor_def if_False) (simp add: budget_of_def)
qed

lemma upsert_floor_pace:
  "b \<in> set (upsert_floor now flr h e tbl) \<Longrightarrow> budget_of h e b \<Longrightarrow> flr \<le> pace_seconds b"
  by (auto simp: upsert_floor_def table_simps split: if_splits)

lemma upsert_floor_keeps_closed:
  assumes "closed_until flr h e u tbl"
  shows "closed_until flr h e u (upsert_floor now flr h e tbl)"
proof -
  have "upsert_floor now flr h e tbl =
      update_where (budget_of h e) (\<lambda>b. b\<lparr>pace_seconds := max (pace_seconds b) flr\<rparr>) tbl"
    using assms by (simp only: upsert_floor_def closed_until_def if_True)
  then show ?thesis using closed_until_update [OF assms] by simp
qed

text \<open>The primary key of the table.\<close>

definition host_keys :: "HostBudget list \<Rightarrow> (string \<times> string) list" where
  "host_keys tbl = map (\<lambda>b. (host b, egress_group b)) tbl"

lemma host_keys_update:
  "(\<And>b. host (f b) = host b) \<Longrightarrow> (\<And>b. egress_group (f b) = egress_group b)
   \<Longrightarrow> host_keys (update_where p f tbl) = host_keys tbl"
  by (simp add: host_keys_def update_where_key)

lemma host_keys_ops:
  "host_keys (update_where p (take_row now) tbl) = host_keys tbl"
  "host_keys (snd (refused now h e tbl)) = host_keys tbl"
  "host_keys (succeeded now limits h e tbl) = host_keys tbl"
  by (simp_all add: refused_def succeeded_def Let_def host_keys_update
      take_row_def refused_row_def succeeded_row_def)

lemma upsert_floor_keys:
  "distinct (host_keys tbl) \<Longrightarrow> distinct (host_keys (upsert_floor now flr h e tbl))"
  by (auto simp: upsert_floor_def host_keys_update)
    (auto simp: host_keys_def budget_of_def)

lemma take_slot_keys:
  "distinct (host_keys tbl) \<Longrightarrow> distinct (host_keys (snd (take_slot now limits h e tbl)))"
  by (simp add: take_slot_def Let_def host_keys_ops upsert_floor_keys)

lemma budget_unique:
  "distinct (host_keys tbl) \<Longrightarrow> b \<in> set tbl \<Longrightarrow> b' \<in> set tbl
   \<Longrightarrow> budget_of h e b \<Longrightarrow> budget_of h e b' \<Longrightarrow> b = b'"
  by (auto simp: host_keys_def budget_of_def distinct_map dest: inj_onD)

lemma take_slot_opens:
  assumes "take_slot now limits h e tbl = (None, tbl')" and keys: "distinct (host_keys tbl)"
  shows "closed_until (floor_for limits h) h e (now + secs (floor_for limits h)) tbl'"
    and "closed_until (floor_for limits h) h e u tbl \<Longrightarrow> u \<le> now"
proof -
  define T where "T = upsert_floor now (floor_for limits h) h e tbl"
  let ?free = "\<lambda>b. budget_of h e b \<and> next_allowed_at b \<le> now"
  obtain b0 where b0: "b0 \<in> set T" "budget_of h e b0" "next_allowed_at b0 \<le> now"
      and tbl': "tbl' = update_where ?free (take_row now) T"
  proof (cases "row_count ?free T \<noteq> 0")
    case True
    then show ?thesis
      using that assms(1) by (auto simp: take_slot_def Let_def T_def [symmetric] row_count_0_iff)
  next
    case False
    then have "find (budget_of h e) T = None"
      using assms(1) by (auto simp: take_slot_def Let_def T_def [symmetric])
    then show ?thesis
      using upsert_floor_has [of now "floor_for limits h" h e tbl]
      by (auto simp: find_None_iff T_def)
  qed
  have one: "b \<in> set T \<Longrightarrow> budget_of h e b \<Longrightarrow> b = b0" for b
    using budget_unique [of T b b0] upsert_floor_keys [OF keys] b0 by (simp add: T_def)
  have pace: "floor_for limits h \<le> pace_seconds b0"
    using b0 by (intro upsert_floor_pace) (auto simp: T_def)
  show "closed_until (floor_for limits h) h e (now + secs (floor_for limits h)) tbl'"
    unfolding closed_until_def
  proof (intro conjI ballI impI)
    show "\<exists>b \<in> set tbl'. budget_of h e b"
      using b0 by (auto simp: tbl' table_simps intro!: bexI [of _ "take_row now b0"])
  next
    fix b assume "b \<in> set tbl'" "budget_of h e b"
    then obtain r where r: "r \<in> set T" "b = (if ?free r then take_row now r else r)"
      by (auto simp: tbl' table_simps)
    with \<open>budget_of h e b\<close> have "budget_of h e r" by (auto split: if_splits)
    with r(1) have "r = b0" by (rule one)
    with r(2) b0 have b: "b = take_row now b0" by simp
    show "floor_for limits h \<le> pace_seconds b" using pace by (simp add: b)
    show "now + secs (floor_for limits h) \<le> next_allowed_at b"
      using secs_mono [OF pace] by (simp add: b)
  qed
  assume "closed_until (floor_for limits h) h e u tbl"
  then have "closed_until (floor_for limits h) h e u T"
    unfolding T_def by (rule upsert_floor_keeps_closed)
  then show "u \<le> now" using b0 by (auto simp: closed_until_def)
qed

lemma take_slot_refused_keeps_closed:
  "take_slot now limits h e tbl = (Some opens, tbl')
   \<Longrightarrow> closed_until (floor_for limits h) h e u tbl
   \<Longrightarrow> closed_until (floor_for limits h) h e u tbl'"
  by (auto simp: take_slot_def Let_def upsert_floor_keeps_closed split: if_splits)

lemma host_run_spaced_after:
  "closed_until (floor_for limits h) h e (t0 + secs (floor_for limits h)) tbl
    \<Longrightarrow> distinct (host_keys tbl) \<Longrightarrow> sorted (t0 # map fst ops)
    \<Longrightarrow> 0 \<le> floor_for limits h \<Longrightarrow> floor_for limits h \<le> CAP_SECONDS
    \<Longrightarrow> spaced (secs (floor_for limits h)) (t0 # fst (host_run limits h e ops tbl))"
proof (induction limits h e ops tbl arbitrary: t0 rule: host_run.induct)
  case (2 limits h e now ops tbl)
  obtain opens tbl' where take: "take_slot now limits h e tbl = (opens, tbl')" by fastforce
  then have keys: "distinct (host_keys tbl')" using take_slot_keys [OF 2(3), of now limits h e] by simp
  show ?case
  proof (cases opens)
    case None
    note opened = take_slot_opens [OF take [unfolded None] 2(3)]
    have "spaced (secs (floor_for limits h)) (now # fst (host_run limits h e ops tbl'))"
      using 2(1) [OF take [symmetric] opened(1) keys] 2(4-6) by simp
    then show ?thesis using opened(2) [OF 2(2)] take None by (auto split: prod.split)
  next
    case (Some u)
    have "closed_until (floor_for limits h) h e (t0 + secs (floor_for limits h)) tbl'"
      using take_slot_refused_keeps_closed [OF take [unfolded Some] 2(2)] .
    then show ?thesis
      using 2(1) [OF take [symmetric] _ keys, of t0] 2(4-6) take Some by (auto split: prod.split)
  qed
next
  case (3 limits h e now ops tbl)
  let ?f = "floor_for limits h"
  have "closed_until ?f h e (t0 + secs ?f) (snd (refused now h e tbl))"
    using refused_keeps_closed [OF 3(2), of now] 3(4-6) by simp
  then show ?case using 3(1) 3(3-6) by (simp add: host_keys_ops)
qed (auto simp: host_keys_ops succeeded_keeps_closed)

lemma host_run_spaced:
  "distinct (host_keys tbl) \<Longrightarrow> sorted (map fst ops)
   \<Longrightarrow> 0 \<le> floor_for limits h \<Longrightarrow> floor_for limits h \<le> CAP_SECONDS
   \<Longrightarrow> spaced (secs (floor_for limits h)) (fst (host_run limits h e ops tbl))"
proof (induction limits h e ops tbl rule: host_run.induct)
  case (2 limits h e now ops tbl)
  obtain opens tbl' where take: "take_slot now limits h e tbl = (opens, tbl')" by fastforce
  then have keys: "distinct (host_keys tbl')" using take_slot_keys [OF 2(2), of now limits h e] by simp
  show ?case
  proof (cases opens)
    case None
    note opened = take_slot_opens(1) [OF take [unfolded None] 2(2)]
    show ?thesis
      using host_run_spaced_after [OF opened keys, of ops] 2(3-5) take None
      by (auto split: prod.split)
  next
    case (Some u)
    then show ?thesis using 2(1) [OF take [symmetric] keys] 2(3-5) take by (auto split: prod.split)
  qed
qed (auto simp: host_keys_ops)

text \<open>
  An address keeps its distance from a host. Whatever it does in between, pulls that
  succeed, refusals, attempts while the slot is closed, the slots one address takes of one
  host are at least the configured floor apart, for every floor up to the cap of fifteen
  minutes.
\<close>

theorem slots_keep_their_distance:
  assumes "distinct (host_keys tbl)" and "sorted (map fst ops)"
    and "get limits h = Some (JNum n)" and "0 < n" and "of_int n \<le> CAP_SECONDS"
  shows "spaced (n * usec_per_second) (fst (host_run limits h e ops tbl))"
proof -
  have flr: "floor_for limits h = of_int n" using assms(3) by (simp add: floor_for_def)
  show ?thesis
    using host_run_spaced [OF assms(1,2), of limits h e] assms(4,5) by (simp add: flr)
qed

theorem slots_keep_their_distance_witness:
  "spaced (20 * usec_per_second)
     (fst (host_run [(''apply.workable.com'', JNum 20)] ''apply.workable.com'' ''oci''
        [(0, Take), (5000000, Refused), (40000000, Take), (70000000, Take)] []))
   \<and> fst (host_run [(''apply.workable.com'', JNum 20)] ''apply.workable.com'' ''oci''
        [(0, Take), (5000000, Refused), (40000000, Take), (70000000, Take)] []) = [0, 70000000]"
proof (rule conjI)
  show "spaced (20 * usec_per_second)
     (fst (host_run [(''apply.workable.com'', JNum 20)] ''apply.workable.com'' ''oci''
        [(0, Take), (5000000, Refused), (40000000, Take), (70000000, Take)] []))"
    by (rule slots_keep_their_distance) (simp_all add: host_keys_def get_def CAP_SECONDS_def)
  show "fst (host_run [(''apply.workable.com'', JNum 20)] ''apply.workable.com'' ''oci''
        [(0, Take), (5000000, Refused), (40000000, Take), (70000000, Take)] []) = [0, 70000000]"
    by code_simp
qed

text \<open>
  The gap learned from refusals is bounded. Starting from any gap between the floor and
  fifteen minutes it stays there: a refusal at least doubles it up to the cap, never leaving
  it under thirty seconds, and a success gives back a tenth of it, never under the floor.
\<close>

theorem learned_gap_stays_bounded:
  assumes "0 \<le> flr" "flr \<le> CAP_SECONDS" "flr \<le> pace_seconds b" "pace_seconds b \<le> CAP_SECONDS"
  shows "flr \<le> pace_seconds (refused_row now b) \<and> pace_seconds (refused_row now b) \<le> CAP_SECONDS
    \<and> REFUSED_MIN_SECONDS \<le> pace_seconds (refused_row now b)
    \<and> min CAP_SECONDS (2 * pace_seconds b) \<le> pace_seconds (refused_row now b)
    \<and> flr \<le> pace_seconds (succeeded_row now flr b)
    \<and> pace_seconds (succeeded_row now flr b) \<le> pace_seconds b"
proof -
  have "pace_seconds b * DECAY \<le> pace_seconds b"
    using assms(1,3) by (simp add: DECAY_def)
  then show ?thesis
    using assms widened_bounds [of "pace_seconds b"] widened_bounds(3) [of flr "pace_seconds b"]
    by (simp add: widened_def)
qed

theorem learned_gap_stays_bounded_witness:
  "pace_seconds (refused_row 7 \<lparr>host = ''h'', egress_group = ''g'', pace_seconds = 20,
     next_allowed_at = 0, ok_count = 1, refused_count = 0, updated_at = 0\<rparr>) \<le> CAP_SECONDS"
  using learned_gap_stays_bounded [of 20 "\<lparr>host = ''h'', egress_group = ''g'', pace_seconds = 20,
     next_allowed_at = 0, ok_count = 1, refused_count = 0, updated_at = 0\<rparr>" 7]
  by (simp add: CAP_SECONDS_def)

text \<open>
  A floor above the cap is not kept. The setting accepts any positive number of seconds and
  is described as the gap the fleet never goes under, but a refusal on a host whose floor is
  1000 seconds reopens the address after 900.
\<close>

theorem floor_above_cap_is_undercut:
  "fst (host_run [(''h'', JNum 1000)] ''h'' ''g''
     [(0, Take), (1000000, Refused), (901000000, Take)] []) = [0, 901000000]"
  by code_simp

end
