(* ===== verification/Claims.thy ===== *)
theory Claims
  imports Lifecycle Hosts "HOL-Library.Product_Lexorder"
begin

text \<open>
  Claiming and recovering tasks (\<open>api/worker_lifecycle/claims.py\<close>) and what a worker gives
  back when it is told to stop (\<open>api/worker.py\<close>). The handlers a worker's image has, its
  allow and deny lists and its egress address are a record; rows other transactions hold
  locked are a list of ids, since \<open>SKIP LOCKED\<close> passes over them.
\<close>

section \<open>Claiming\<close>

record claim_env =
  known_kinds :: "string list"
  worker_kinds :: "string list"
  exclude_kinds :: "string list"
  egress :: string

definition kinds_clause :: "string list \<Rightarrow> string list \<Rightarrow> Task \<Rightarrow> bool" where
  "kinds_clause kinds excluded t \<longleftrightarrow>
     (kinds \<noteq> [] \<longrightarrow> kind t \<in> set kinds) \<and> (excluded \<noteq> [] \<longrightarrow> kind t \<notin> set excluded)"

definition source_interval :: "Source_row list \<Rightarrow> Task \<Rightarrow> int" where
  "source_interval srcs t =
     (case find (\<lambda>s. get_text (payload t) ''source'' = Some (s_name s)) srcs of
        None \<Rightarrow> 0
      | Some s \<Rightarrow> hours (s_interval_hours s))"

definition CLAIM_ORDER :: "Source_row list \<Rightarrow> Task \<Rightarrow> instant \<times> int" where
  "CLAIM_ORDER srcs t =
     (created_at t + (if has_key (payload t) ''host'' then source_interval srcs t else 0), tid t)"

definition host_open :: "instant \<Rightarrow> string \<Rightarrow> HostBudget list \<Rightarrow> Task \<Rightarrow> bool" where
  "host_open now egr budgets t \<longleftrightarrow>
     \<not> (\<exists>b \<in> set budgets. get_text (payload t) ''host'' = Some (host b)
          \<and> egress_group b = egr \<and> next_allowed_at b > now)"

definition eligible ::
  "instant \<Rightarrow> claim_env \<Rightarrow> string list \<Rightarrow> HostBudget list \<Rightarrow> int list \<Rightarrow> Task \<Rightarrow> bool" where
  "eligible now env too_heavy budgets locked t \<longleftrightarrow>
     status t = Pending \<and> kind t \<in> set (known_kinds env)
     \<and> kinds_clause (worker_kinds env) (exclude_kinds env @ too_heavy) t
     \<and> (case not_before t of None \<Rightarrow> True | Some nb \<Rightarrow> nb \<le> now)
     \<and> host_open now (egress env) budgets t
     \<and> tid t \<notin> set locked"

definition claim_row :: "instant \<Rightarrow> string \<Rightarrow> Task \<Rightarrow> Task" where
  "claim_row now w t =
     t\<lparr>status := Running, started_at := Some now, last_heartbeat := Some now,
       attempts := attempts t + 1, worker := Some w\<rparr>"

text \<open>The row the claim returns, when there is one, and the table after it.\<close>

definition claim_task ::
  "instant \<Rightarrow> claim_env \<Rightarrow> string \<Rightarrow> string list \<Rightarrow> Source_row list \<Rightarrow> HostBudget list
   \<Rightarrow> int list \<Rightarrow> Task list \<Rightarrow> Task option \<times> Task list" where
  "claim_task now env w too_heavy srcs budgets locked tbl =
     (case filter (eligible now env too_heavy budgets locked) tbl of
        [] \<Rightarrow> (None, tbl)
      | t # ts \<Rightarrow>
          let first = min_by (CLAIM_ORDER srcs) t ts in
          (Some (claim_row now w first),
           update_where (\<lambda>r. tid r = tid first) (claim_row now w) tbl))"

definition claim_of :: "Task \<Rightarrow> TaskClaim" where
  "claim_of t = \<lparr>task_id = tid t, c_worker = coalesce (worker t) '''', c_attempts = attempts t\<rparr>"

section \<open>The reaper\<close>

definition stale :: "instant \<Rightarrow> int \<Rightarrow> Task \<Rightarrow> bool" where
  "stale now minutes t \<longleftrightarrow>
     (case (case last_heartbeat t of Some b \<Rightarrow> Some b | None \<Rightarrow> started_at t) of
        None \<Rightarrow> False
      | Some beat \<Rightarrow> beat < now - minutes * 60 * usec_per_second)"

definition requeue_row :: "Task \<Rightarrow> Task" where
  "requeue_row t = t\<lparr>status := Pending, started_at := None, last_heartbeat := None\<rparr>"

definition lost_row :: "instant \<Rightarrow> Task \<Rightarrow> Task" where
  "lost_row now t =
     t\<lparr>status := Failed, finished_at := Some now,
       error_text := Some (''worker lost (heartbeat timeout after '' @ show_int (retries_spent t)
                           @ '' attempts)'')\<rparr>"

definition reapable :: "instant \<Rightarrow> int \<Rightarrow> int \<Rightarrow> Task \<Rightarrow> bool" where
  "reapable now max_attempts minutes t \<longleftrightarrow>
     status t = Running \<and> retries_spent t < max_attempts \<and> stale now minutes t"

definition lost :: "instant \<Rightarrow> int \<Rightarrow> int \<Rightarrow> Task \<Rightarrow> bool" where
  "lost now max_attempts minutes t \<longleftrightarrow>
     status t = Running \<and> retries_spent t \<ge> max_attempts \<and> stale now minutes t"

text \<open>The two statements in order; the counts are what the telemetry reports.\<close>

definition reap_stale_tasks ::
  "instant \<Rightarrow> int \<Rightarrow> int \<Rightarrow> Task list \<Rightarrow> (nat \<times> nat) \<times> Task list" where
  "reap_stale_tasks now max_attempts minutes tbl =
     (let requeued = update_where (reapable now max_attempts minutes) requeue_row tbl in
      ((row_count (reapable now max_attempts minutes) tbl,
        row_count (lost now max_attempts minutes) requeued),
       update_where (lost now max_attempts minutes) (lost_row now) requeued))"

section \<open>Giving claims back on exit\<close>

text \<open>
  The claims a process holds, by task id. Every process has its own dictionary; here they are
  one list, and a process's entry for a task is the one with its name and that task id.
\<close>

definition hold :: "TaskClaim \<Rightarrow> TaskClaim list \<Rightarrow> TaskClaim list" where
  "hold c held =
     c # filter (\<lambda>d. \<not> (c_worker d = c_worker c \<and> task_id d = task_id c)) held"

definition let_go :: "TaskClaim \<Rightarrow> TaskClaim list \<Rightarrow> TaskClaim list" where
  "let_go c held = filter (\<lambda>d. \<not> (c_worker d = c_worker c \<and> task_id d = task_id c)) held"

definition give_back_row :: "Task \<Rightarrow> Task" where
  "give_back_row t =
     t\<lparr>status := Pending, attempts := max (attempts t - 1) 0, started_at := None,
       last_heartbeat := None\<rparr>"

definition REQUEUE_ON_EXIT :: "TaskClaim \<Rightarrow> Task list \<Rightarrow> Task list" where
  "REQUEUE_ON_EXIT c =
     update_where (\<lambda>t. tid t = task_id c \<and> status t = Running \<and> stamped c t) give_back_row"

definition release_all :: "string \<Rightarrow> TaskClaim list \<Rightarrow> Task list \<Rightarrow> Task list" where
  "release_all w held tbl = fold REQUEUE_ON_EXIT (filter (\<lambda>c. c_worker c = w) held) tbl"

end
