(* ===== verification/Execution.thy ===== *)
theory Execution
  imports Batching Claims
begin

text \<open>
  Running a claimed task to its end (\<open>api/worker_lifecycle/execution.py\<close>). A handler is code
  of its own: how it ended is the argument \<open>outcome\<close>, and the writes it made on the way are the
  operations of the other theories. The heartbeat thread is \<open>heartbeat\<close>, one beat at a time.
\<close>

section \<open>How a handler can end\<close>

text \<open>
  An exception carries its text, and whether it is an instance of the database and connection
  errors of \<open>_TRANSIENT_EXCEPTIONS\<close> or of \<open>MemoryError\<close>.
\<close>

record exc =
  exc_text :: string
  exc_connection :: bool
  exc_memory :: bool

datatype outcome =
    Returned
  | AIPaused string
  | AwaitingBatch
  | Deferred instant
  | PayloadUnavailable string
  | Failure exc

definition TRANSIENT_MARKERS :: "string list" where
  "TRANSIENT_MARKERS =
     [''can'' @ [CHR 0x27] @ ''t start new thread'',
      ''cannot allocate memory'',
      ''resource temporarily unavailable'',
      ''out of memory'',
      ''no space left on device'']"

definition marked :: "exc \<Rightarrow> bool" where
  "marked e \<longleftrightarrow> (\<exists>m \<in> set TRANSIENT_MARKERS. contains m (py_lower (exc_text e)))"

definition exhausted_host :: "exc \<Rightarrow> bool" where
  "exhausted_host e \<longleftrightarrow> exc_memory e \<or> marked e"

definition is_transient :: "exc \<Rightarrow> bool" where
  "is_transient e \<longleftrightarrow> exc_connection e \<or> marked e"

section \<open>The heartbeat\<close>

definition held_by :: "TaskClaim \<Rightarrow> Task \<Rightarrow> bool" where
  "held_by c t \<longleftrightarrow> tid t = task_id c \<and> status t = Running \<and> stamped c t"

definition beat_row :: "instant \<Rightarrow> Task \<Rightarrow> Task" where
  "beat_row now t = t\<lparr>last_heartbeat := Some now\<rparr>"

text \<open>A beat that changes no row means the claim is lost, and the thread stops.\<close>

definition heartbeat :: "instant \<Rightarrow> TaskClaim \<Rightarrow> Task list \<Rightarrow> bool \<times> Task list" where
  "heartbeat now c tbl =
     (row_count (held_by c) tbl \<noteq> 0, update_where (held_by c) (beat_row now) tbl)"

section \<open>Settling a run\<close>

definition defer_row :: "instant \<Rightarrow> Task \<Rightarrow> Task" where
  "defer_row nb t =
     t\<lparr>status := Pending, started_at := None, last_heartbeat := None, worker := None,
       attempts := max (attempts t - 1) 0, not_before := Some nb\<rparr>"

definition retry_row :: "string \<Rightarrow> Task \<Rightarrow> Task" where
  "retry_row msg t =
     t\<lparr>status := Pending, started_at := None, last_heartbeat := None,
       error_text := Some (''retrying after transient error: '' @ take 200 msg)\<rparr>"

definition settle ::
  "instant \<Rightarrow> int \<Rightarrow> TaskClaim \<Rightarrow> int \<Rightarrow> outcome \<Rightarrow> Task list \<Rightarrow> Task list" where
  "settle now max_attempts c spent out tbl =
     (case out of
        Returned \<Rightarrow>
          (case repark_if_unfinished (Some c) (task_id c) tbl of
             (True, tbl') \<Rightarrow> tbl'
           | (False, tbl') \<Rightarrow> finish now (Some c) (task_id c) Done None tbl')
      | AIPaused msg \<Rightarrow> finish now (Some c) (task_id c) Done (Some msg) tbl
      | AwaitingBatch \<Rightarrow> tbl
      | Deferred nb \<Rightarrow> update_where (held_by c) (defer_row nb) tbl
      | PayloadUnavailable msg \<Rightarrow> fail_unavailable_payload now (Some c) (task_id c) msg tbl
      | Failure e \<Rightarrow>
          if is_transient e \<and> spent < max_attempts
          then update_where (held_by c) (retry_row (exc_text e)) tbl
          else finish now (Some c) (task_id c) Failed (Some (exc_text e)) tbl)"

text \<open>
  \<open>run_held\<close> after the handler: settle, then report to the parent of a chunk. A payload
  without a parent raises inside the guarded block, which only logs. The result says whether
  the host ran short. \<open>t\<close> is the row the claim returned.
\<close>

definition run_held ::
  "instant \<Rightarrow> int \<Rightarrow> string list \<Rightarrow> Task \<Rightarrow> outcome \<Rightarrow> Task list
   \<Rightarrow> bool \<times> Task list \<times> followup list" where
  "run_held now max_attempts known t out tbl =
     (let c = claim_of t in
      if kind t \<notin> set known
      then (False, finish now (Some c) (tid t) Failed
                     (Some (''unknown task kind: '' @ kind t)) tbl, [])
      else
        let tbl' = settle now max_attempts c (retries_spent t) out tbl in
        (case out of Failure e \<Rightarrow> exhausted_host e | _ \<Rightarrow> False,
         case (if kind t \<in> set CHUNK_KINDS then get (payload t) ''parent_id'' else None) of
           Some (JNum p) \<Rightarrow> maybe_finalize_parent now p tbl'
         | _ \<Rightarrow> (tbl', [])))"

end
