(* ===== verification/Recovery.thy ===== *)
theory Recovery
  imports Execution
begin

text \<open>
  Operator recovery of a task that failed because a stored payload could not be read
  (\<open>tasks/runtime/payload_recovery.py\<close>). The recovery reads the task, its parent, its request
  snapshots and its receipts, checks every stored payload it would need, and then repeats the
  reads under locks: \<open>seen\<close> is what the first reads returned and \<open>db\<close> what the locked ones
  see. Reading an object of the payload store is outside the repository, so whether each one
  is available is an argument.
\<close>

section \<open>What recovery reads\<close>

record snapshot_row =
  q_custom_id :: string
  q_ref :: string

record receipt_row =
  r_batch_id :: string
  r_custom_id :: string
  r_response :: string
  r_consumed :: bool

record recovery_db =
  rd_tasks :: "Task list"
  rd_requests :: "snapshot_row list"
  rd_receipts :: "receipt_row list"
  rd_batches :: "AiBatch list"

text \<open>
  What the object store answers: whether the jobs of a run, a request snapshot and a stored
  response can be read.
\<close>

record object_store =
  jobs_readable :: bool
  snapshot_readable :: "snapshot_row \<Rightarrow> bool"
  response_readable :: "receipt_row \<Rightarrow> bool"

datatype recovery_result = Conflict | Unavailable | Requeued

section \<open>The checks\<close>

text \<open>\<open>[1-9][0-9]* chunk\(s\) failed\<close>, matched against the whole text.\<close>

fun all_digits_then :: "string \<Rightarrow> string \<Rightarrow> bool" where
  "all_digits_then suffix [] = (suffix = [])"
| "all_digits_then suffix (ch # s) =
     (suffix = ch # s
      \<or> (ch \<in> set ''0123456789'' \<and> all_digits_then suffix s))"

definition chunks_failed_text :: "string \<Rightarrow> bool" where
  "chunks_failed_text s =
     (case s of [] \<Rightarrow> False
      | ch # rest \<Rightarrow> ch \<in> set ''123456789'' \<and> all_digits_then '' chunk(s) failed'' rest)"

definition recoverable_parent :: "Task \<Rightarrow> bool" where
  "recoverable_parent p \<longleftrightarrow>
     status p = Waiting
     \<or> (status p = Failed \<and> chunks_failed_text (coalesce (error_text p) ''''))"

text \<open>\<open>source["parent_id"] or payload.get("parent_id")\<close>; an id of zero is false.\<close>

definition parent_of :: "Task \<Rightarrow> int option" where
  "parent_of t =
     (case parent_id t of
        Some p \<Rightarrow> if p \<noteq> 0 then Some p
                  else (case get (payload t) ''parent_id'' of Some (JNum n) \<Rightarrow> Some n | _ \<Rightarrow> None)
      | None \<Rightarrow> (case get (payload t) ''parent_id'' of Some (JNum n) \<Rightarrow> Some n | _ \<Rightarrow> None))"

definition marked_unavailable :: "Task \<Rightarrow> bool" where
  "marked_unavailable t \<longleftrightarrow> get (payload t) ''payload_recovery'' = Some PAYLOAD_UNAVAILABLE"

definition checkpointed :: "Task \<Rightarrow> bool" where
  "checkpointed t \<longleftrightarrow> get (payload t) ''batch_collection_checkpointed'' = Some (JBool True)"

definition has_batch_ids :: "Task \<Rightarrow> bool" where
  "has_batch_ids t \<longleftrightarrow>
     (case get (payload t) ''batch_ids'' of None \<Rightarrow> False | Some v \<Rightarrow> truthy_json v)"

definition unconsumed_receipts :: "receipt_row list \<Rightarrow> receipt_row list" where
  "unconsumed_receipts rs = filter (\<lambda>r. \<not> r_consumed r) rs"

definition payloads_readable :: "string list \<Rightarrow> object_store \<Rightarrow> Task \<Rightarrow> recovery_db \<Rightarrow> bool" where
  "payloads_readable job_kinds st t seen \<longleftrightarrow>
     (kind t \<in> set job_kinds \<longrightarrow> jobs_readable st)
     \<and> (\<forall>q \<in> set (rd_requests seen).
          \<not> (checkpointed t \<and> \<not> has_batch_ids t)
          \<or> q_custom_id q \<in> r_custom_id ` set (unconsumed_receipts (rd_receipts seen))
          \<longrightarrow> snapshot_readable st q)
     \<and> (\<forall>r \<in> set (unconsumed_receipts (rd_receipts seen)). response_readable st r)"

text \<open>
  Paid work the ledger names but the task no longer points at: recovering would buy it again.
\<close>

definition ambiguous :: "int \<Rightarrow> Task \<Rightarrow> recovery_db \<Rightarrow> bool" where
  "ambiguous i t db \<longleftrightarrow>
     (\<exists>b \<in> set (rd_batches db). b_task_id b = i)
     \<and> \<not> (has_batch_ids t \<or> checkpointed t \<or> rd_receipts db \<noteq> [])"

section \<open>The recovery\<close>

definition reopen_parent_row :: "Task \<Rightarrow> Task" where
  "reopen_parent_row t = t\<lparr>status := Waiting, error_text := None, finished_at := None\<rparr>"

definition recover_row :: "Task \<Rightarrow> Task" where
  "recover_row t =
     t\<lparr>status := Pending, payload := drop_keys [''payload_recovery''] (payload t),
       error_text := None, finished_at := None, started_at := None, last_heartbeat := None,
       worker := None\<rparr>"

definition requeue_recovered :: "int \<Rightarrow> Task option \<Rightarrow> Task list \<Rightarrow> Task list" where
  "requeue_recovered i parent tbl =
     update_where (\<lambda>t. tid t = i) recover_row
       (case parent of
          Some p \<Rightarrow> if status p = Failed
                    then update_where (\<lambda>t. tid t = tid p) reopen_parent_row tbl else tbl
        | None \<Rightarrow> tbl)"

definition locked_retry ::
  "int \<Rightarrow> Task \<Rightarrow> Task option \<Rightarrow> recovery_db \<Rightarrow> recovery_db \<Rightarrow> recovery_result \<times> Task list" where
  "locked_retry i source parent seen db =
     (if (case parent of Some p \<Rightarrow> row (rd_tasks db) (tid p) \<noteq> Some p | None \<Rightarrow> False)
         \<or> row (rd_tasks db) i \<noteq> Some source
         \<or> rd_requests db \<noteq> rd_requests seen \<or> rd_receipts db \<noteq> rd_receipts seen
         \<or> ambiguous i source db
      then (Conflict, rd_tasks db)
      else (Requeued, requeue_recovered i parent (rd_tasks db)))"

definition retry ::
  "string list \<Rightarrow> object_store \<Rightarrow> int \<Rightarrow> recovery_db \<Rightarrow> recovery_db
   \<Rightarrow> recovery_result \<times> Task list" where
  "retry job_kinds st i seen db =
     (case row (rd_tasks seen) i of
        None \<Rightarrow> (Conflict, rd_tasks db)
      | Some source \<Rightarrow>
          if status source \<noteq> Failed \<or> \<not> marked_unavailable source then (Conflict, rd_tasks db)
          else
            (case parent_of source of
               None \<Rightarrow>
                 if payloads_readable job_kinds st source seen
                 then locked_retry i source None seen db else (Unavailable, rd_tasks db)
             | Some p \<Rightarrow>
                 if kind source \<notin> set CHUNK_KINDS then (Conflict, rd_tasks db)
                 else (case row (rd_tasks seen) p of
                         None \<Rightarrow> (Conflict, rd_tasks db)
                       | Some parent \<Rightarrow>
                           if \<not> recoverable_parent parent then (Conflict, rd_tasks db)
                           else if payloads_readable job_kinds st source seen
                           then locked_retry i source (Some parent) seen db
                           else (Unavailable, rd_tasks db))))"

end
