(* ===== verification/Transitions.thy ===== *)
theory Transitions
  imports Prelude
begin

text \<open>
  Transition systems and table writes in general: the states reachable from the initial ones,
  an interface for invariants proved step by step, and the interface of an UPDATE statement
  that keeps a property of the rows it changes.
\<close>

inductive reach :: "('s \<Rightarrow> bool) \<Rightarrow> ('s \<Rightarrow> 's \<Rightarrow> bool) \<Rightarrow> 's \<Rightarrow> bool"
  for init step where
  start: "init s \<Longrightarrow> reach init step s"
| more: "reach init step s \<Longrightarrow> step s s' \<Longrightarrow> reach init step s'"

locale invariant_system =
  fixes init :: "'s \<Rightarrow> bool" and step :: "'s \<Rightarrow> 's \<Rightarrow> bool" and inv :: "'s \<Rightarrow> bool"
  assumes init_inv: "init s \<Longrightarrow> inv s"
    and step_inv: "inv s \<Longrightarrow> step s s' \<Longrightarrow> inv s'"
begin

lemma reach_inv: "reach init step s \<Longrightarrow> inv s"
  by (induction rule: reach.induct) (auto intro: init_inv step_inv)

end

text \<open>A write under a guard that keeps an invariant of single rows.\<close>

locale guarded_write =
  fixes guard :: "'r \<Rightarrow> bool" and upd :: "'r \<Rightarrow> 'r" and inv :: "'r \<Rightarrow> bool"
  assumes keeps: "guard r \<Longrightarrow> inv r \<Longrightarrow> inv (upd r)"
begin

lemma table_keeps: "\<forall>r \<in> set tbl. inv r \<Longrightarrow> \<forall>r \<in> set (update_where guard upd tbl). inv r"
  by (auto simp: table_simps keeps)

end

text \<open>A write that relates every row to its successor by a reflexive, transitive relation.\<close>

locale related_write =
  fixes rel :: "'r \<Rightarrow> 'r \<Rightarrow> bool" and guard :: "'r \<Rightarrow> bool" and upd :: "'r \<Rightarrow> 'r"
  assumes related: "guard r \<Longrightarrow> rel r (upd r)"
    and refl: "rel r r"
    and trans: "rel r s \<Longrightarrow> rel s t \<Longrightarrow> rel r t"
begin

lemma table_related: "list_all2 rel tbl (update_where guard upd tbl)"
  by (induction tbl) (auto simp: table_simps related refl)

lemma table_chain: "list_all2 rel a b \<Longrightarrow> list_all2 rel a (update_where guard upd b)"
  by (induction rule: list_all2_induct) (auto simp: table_simps intro: trans related)

end

lemma list_all2_set_right:
  "list_all2 P xs ys \<Longrightarrow> y \<in> set ys \<Longrightarrow> \<exists>x \<in> set xs. P x y"
  by (induction rule: list_all2_induct) auto

lemma list_all2_set_left:
  "list_all2 P xs ys \<Longrightarrow> x \<in> set xs \<Longrightarrow> \<exists>y \<in> set ys. P x y"
  by (induction rule: list_all2_induct) auto

lemma list_all2_map_eq:
  "list_all2 P xs ys \<Longrightarrow> (\<And>x y. P x y \<Longrightarrow> f y = f x) \<Longrightarrow> map f ys = map f xs"
  by (induction rule: list_all2_induct) auto

end
