(* ===== verification/Worker_Fleet.thy ===== *)
theory Worker_Fleet
  imports Recovery Transitions
begin

text \<open>
  The fleet as a transition system. A state is the queue, the runs in progress (each the row
  its claim returned) and the claims the processes would give back on exit. A step is one
  database write of one of the modelled operations, by a run, by another worker's
  housekeeping or by an administrator, in any order, or the loss of a process. The clock
  passes \<open>now\<close> to each step freely. The theorems say that the pair (worker, attempts) of a
  claim is a generation stamp: at most one run of a task can write its lifecycle, and a run
  that lost its claim never regains it; and that the retry budget bounds the claims.
\<close>

section \<open>States and steps\<close>

record world =
  q :: queue
  runs :: "Task set"
  held :: "TaskClaim list"

definition tasks_of :: "world \<Rightarrow> Task list" where
  "tasks_of w = tasks (q w)"

definition with_tasks :: "world \<Rightarrow> Task list \<Rightarrow> world" where
  "with_tasks w tbl = w\<lparr>q := (q w)\<lparr>tasks := tbl\<rparr>\<rparr>"

definition end_run :: "Task \<Rightarrow> world \<Rightarrow> world" where
  "end_run r w = w\<lparr>runs := runs w - {r}, held := let_go (claim_of r) (held w)\<rparr>"

definition end_process :: "string \<Rightarrow> world \<Rightarrow> world" where
  "end_process name w =
     w\<lparr>runs := {r \<in> runs w. worker r \<noteq> Some name},
       held := filter (\<lambda>c. c_worker c \<noteq> name) (held w)\<rparr>"

definition initial :: "world \<Rightarrow> bool" where
  "initial w \<longleftrightarrow> tasks_of w = [] \<and> runs w = {} \<and> held w = []"

text \<open>
  Payload keys a handler may set itself: the recovery marker is written by
  \<open>fail_unavailable_payload\<close> alone, and the batch ids by the batching operations alone.
\<close>

definition plain :: "object \<Rightarrow> bool" where
  "plain p \<longleftrightarrow> get p ''payload_recovery'' = None \<and> get p ''batch_ids'' = None"

inductive step :: "int \<Rightarrow> world \<Rightarrow> world \<Rightarrow> bool" for M where
  enqueue: "enqueue now k p d (q w) = Inr (res, q') \<Longrightarrow> plain p \<Longrightarrow> step M w (w\<lparr>q := q'\<rparr>)"
| claim: "claim_task now env name heavy srcs budgets locked (tasks_of w) = (Some r, tbl)
    \<Longrightarrow> step M w ((with_tasks w tbl)\<lparr>runs := insert r (runs w), held := hold (claim_of r) (held w)\<rparr>)"
| heartbeat: "r \<in> runs w
    \<Longrightarrow> step M w (with_tasks w (snd (heartbeat now (claim_of r) (tasks_of w))))"
| progress: "r \<in> runs w \<Longrightarrow> plain data
    \<Longrightarrow> step M w (with_tasks w
          (snd (write_progress now (Some (claim_of r)) i prog only data (tasks_of w))))"
| merge: "plain data \<Longrightarrow> ''batch_ids'' \<notin> set ks
    \<Longrightarrow> step M w (with_tasks w (merge_payload i data ks (tasks_of w)))"
| collect: "step M w (with_tasks w (merge_payload i (collected_data unfinished) [] (tasks_of w)))"
| record_ids: "step M w (with_tasks w (record_batch_ids i ids (tasks_of w)))"
| park_waiting: "r \<in> runs w
    \<Longrightarrow> step M w (with_tasks w (park_waiting (Some (claim_of r)) (tid r) n label (tasks_of w)))"
| park_batch: "r \<in> runs w
    \<Longrightarrow> step M w (with_tasks w
          (snd (park_awaiting_batch (Some (claim_of r)) (tid r) ids (tasks_of w))))"
| settle: "r \<in> runs w
    \<Longrightarrow> step M w (with_tasks (end_run r w)
          (fst (snd (run_held now M known r out (tasks_of w)))))"
| abandon: "r \<in> runs w \<Longrightarrow> step M w (end_run r w)"
| crash: "step M w (end_process name w)"
| exit: "step M w (with_tasks (end_process name w) (release_all name (held w) (tasks_of w)))"
| reap: "step M w (with_tasks w (snd (reap_stale_tasks now M minutes (tasks_of w))))"
| cancel: "cancel_tasks now f (tasks_of w) = Inr (reply, tbl) \<Longrightarrow> step M w (with_tasks w tbl)"
| reconcile: "step M w (with_tasks w (fst (reconcile_chunks now (tasks_of w))))"
| finalize: "step M w (with_tasks w (fst (maybe_finalize_parent now i (tasks_of w))))"
| resume: "step M w (with_tasks w (resume_parked i (tasks_of w)))"
| recover: "retry job_kinds st i seen db = (res, tbl) \<Longrightarrow> rd_tasks db = tasks_of w
    \<Longrightarrow> step M w (with_tasks w tbl)"

abbreviation reachable :: "int \<Rightarrow> world \<Rightarrow> bool" where
  "reachable M \<equiv> reach initial (step M)"

lemma tasks_of_simps [simp]:
  "tasks_of (with_tasks w tbl) = tbl" "tasks_of (end_run r w) = tasks_of w"
  "tasks_of (end_process name w) = tasks_of w" "tasks_of (w\<lparr>q := qq\<rparr>) = tasks qq"
  "tasks_of (w\<lparr>runs := R\<rparr>) = tasks_of w" "tasks_of (w\<lparr>held := H\<rparr>) = tasks_of w"
  by (simp_all add: tasks_of_def with_tasks_def end_run_def end_process_def)

lemma next_id_simps [simp]:
  "next_id (q (with_tasks w tbl)) = next_id (q w)" "next_id (q (end_run r w)) = next_id (q w)"
  "next_id (q (end_process name w)) = next_id (q w)"
  by (simp_all add: with_tasks_def end_run_def end_process_def)

lemma runs_simps [simp]:
  "runs (with_tasks w tbl) = runs w" "held (with_tasks w tbl) = held w"
  "runs (end_run r w) = runs w - {r}" "held (end_run r w) = let_go (claim_of r) (held w)"
  "runs (end_process name w) = {r \<in> runs w. worker r \<noteq> Some name}"
  "held (end_process name w) = filter (\<lambda>c. c_worker c \<noteq> name) (held w)"
  by (simp_all add: with_tasks_def end_run_def end_process_def)

section \<open>Writes that leave the stamp alone\<close>

text \<open>
  \<open>quiet t t'\<close>: the row keeps its identity and its stamp, and is running afterwards only if it
  was before, under the same worker and the same count of resumes.
\<close>

definition quiet :: "Task \<Rightarrow> Task \<Rightarrow> bool" where
  "quiet t t' \<longleftrightarrow>
     tid t' = tid t \<and> kind t' = kind t \<and> dedupe_key t' = dedupe_key t \<and> attempts t' = attempts t
     \<and> (status t' = Running \<longrightarrow>
          status t = Running \<and> worker t' = worker t \<and> batch_resumes t' = batch_resumes t)"

lemma quiet_refl: "quiet t t"
  by (simp add: quiet_def)

lemma quiet_trans: "quiet t u \<Longrightarrow> quiet u v \<Longrightarrow> quiet t v"
  by (auto simp: quiet_def)

lemmas row_defs =
  merge_payload_row_def cancel_row_def finish_row_def progress_row_def park_waiting_row_def
  parent_progress_row_def finalize_row_def requeue_row_def lost_row_def record_batch_ids_row_def
  park_batch_row_def resume_row_def beat_row_def retry_row_def reopen_parent_row_def
  recover_row_def

interpretation merge_payload: related_write quiet p "merge_payload_row data ks" for p data ks
  by unfold_locales (auto simp: quiet_def row_defs)
interpretation cancel: related_write quiet p "cancel_row now why" for p now why
  by unfold_locales (auto simp: quiet_def row_defs)
interpretation finish: related_write quiet "owned_running cur i" "finish_row now st err"
  for cur i now st err
  by unfold_locales (auto simp: quiet_def row_defs owned_running_def)
interpretation progress: related_write quiet p "progress_row now prog data" for p now prog data
  by unfold_locales (auto simp: quiet_def row_defs)
interpretation park_waiting: related_write quiet p "park_waiting_row n label" for p n label
  by unfold_locales (auto simp: quiet_def row_defs)
interpretation parent_progress: related_write quiet p "parent_progress_row now n" for p now n
  by unfold_locales (auto simp: quiet_def row_defs)
interpretation finalize: related_write quiet p "finalize_row now n" for p now n
  by unfold_locales (auto simp: quiet_def row_defs)
interpretation requeue: related_write quiet p requeue_row for p
  by unfold_locales (auto simp: quiet_def row_defs)
interpretation lost: related_write quiet p "lost_row now" for p now
  by unfold_locales (auto simp: quiet_def row_defs)
interpretation record_ids: related_write quiet p "record_batch_ids_row ids" for p ids
  by unfold_locales (auto simp: quiet_def row_defs)
interpretation park_batch: related_write quiet p park_batch_row for p
  by unfold_locales (auto simp: quiet_def row_defs)
interpretation resume: related_write quiet p resume_row for p
  by unfold_locales (auto simp: quiet_def row_defs)
interpretation beat: related_write quiet p "beat_row now" for p now
  by unfold_locales (auto simp: quiet_def row_defs)
interpretation retry: related_write quiet p "retry_row msg" for p msg
  by unfold_locales (auto simp: quiet_def row_defs)
interpretation reopen: related_write quiet p reopen_parent_row for p
  by unfold_locales (auto simp: quiet_def row_defs)
interpretation recover: related_write quiet p recover_row for p
  by unfold_locales (auto simp: quiet_def row_defs)

lemma quiet_table_refl: "list_all2 quiet tbl tbl"
  by (simp add: list_all2_refl quiet_refl)

lemma quiet_table_trans:
  "list_all2 quiet a b \<Longrightarrow> list_all2 quiet b c \<Longrightarrow> list_all2 quiet a c"
  by (rule list_all2_trans [of quiet quiet quiet]) (auto intro: quiet_trans)

section \<open>Quiet operations\<close>

lemma quiet_update_parent_progress: "list_all2 quiet tbl (update_parent_progress now i tbl)"
  by (simp add: update_parent_progress_def parent_progress.table_related)

lemma quiet_maybe_finalize: "list_all2 quiet tbl (fst (maybe_finalize_parent now i tbl))"
  by (auto simp: maybe_finalize_parent_def Let_def quiet_update_parent_progress
      intro!: finalize.table_chain split: option.split)

lemma quiet_finalize_all: "list_all2 quiet tbl (fst (finalize_all now is tbl))"
proof (induction "is" arbitrary: tbl)
  case (Cons i "is")
  obtain tbl' fs where m: "maybe_finalize_parent now i tbl = (tbl', fs)" by fastforce
  have "list_all2 quiet tbl tbl'" using quiet_maybe_finalize [of tbl now i] by (simp add: m)
  then have "list_all2 quiet tbl (fst (finalize_all now is tbl'))"
    using Cons.IH by (rule quiet_table_trans)
  then show ?case by (cases "finalize_all now is tbl'") (simp add: m)
qed (simp add: quiet_table_refl)

lemma quiet_reconcile: "list_all2 quiet tbl (fst (reconcile_chunks now tbl))"
  unfolding reconcile_chunks_def Let_def
  by (rule quiet_table_trans [OF cancel.table_related quiet_finalize_all])

lemma quiet_reap: "list_all2 quiet tbl (snd (reap_stale_tasks now M minutes tbl))"
  by (simp add: reap_stale_tasks_def Let_def lost.table_chain requeue.table_related)

lemma quiet_cancel: "list_all2 quiet tbl (snd (cancel now cancellable f tbl))"
  by (simp add: cancel_def cancel.table_related)

lemma quiet_park_batch: "list_all2 quiet tbl (snd (park_awaiting_batch cur i ids tbl))"
  by (simp add: park_awaiting_batch_def Let_def park_batch.table_chain record_ids.table_related
      record_batch_ids_def)

lemma quiet_repark: "list_all2 quiet tbl (snd (repark_if_unfinished cur i tbl))"
  by (simp add: repark_if_unfinished_def Let_def quiet_park_batch quiet_table_refl)

lemma quiet_requeue_recovered: "list_all2 quiet tbl (requeue_recovered i parent tbl)"
  by (auto simp: requeue_recovered_def quiet_table_refl reopen.table_related
      intro!: recover.table_chain split: option.split)

lemma quiet_retry:
  "retry job_kinds st i seen db = (res, tbl) \<Longrightarrow> list_all2 quiet (rd_tasks db) tbl"
  by (auto simp: retry_def locked_retry_def quiet_requeue_recovered quiet_table_refl
      split: option.splits if_splits)

lemma quiet_finish: "list_all2 quiet tbl (finish now cur i st err tbl)"
  by (simp add: finish_def finish.table_related)

text \<open>
  Only two endings give the attempt back; every other one leaves the stamps of the table as
  they are.
\<close>

definition gives_back :: "outcome \<Rightarrow> bool" where
  "gives_back out \<longleftrightarrow> (case out of Deferred _ \<Rightarrow> True | PayloadUnavailable _ \<Rightarrow> True | _ \<Rightarrow> False)"

lemma quiet_settle: "\<not> gives_back out \<Longrightarrow> list_all2 quiet tbl (settle now M c spent out tbl)"
proof (cases out)
  case Returned
  obtain b tbl' where r: "repark_if_unfinished (Some c) (task_id c) tbl = (b, tbl')" by fastforce
  then have "list_all2 quiet tbl tbl'" using quiet_repark [of tbl "Some c" "task_id c"] by simp
  then show ?thesis
    by (cases b) (simp_all add: settle_def Returned r finish_def finish.table_chain)
qed (auto simp: settle_def gives_back_def quiet_finish quiet_table_refl retry.table_related)

section \<open>The stamp invariant\<close>

definition stamps :: "int \<Rightarrow> Task list \<Rightarrow> Task set \<Rightarrow> bool" where
  "stamps n T R \<longleftrightarrow>
     distinct (map tid T)
     \<and> (\<forall>t \<in> set T. tid t < n) \<and> (\<forall>r \<in> R. tid r < n)
     \<and> (\<forall>r \<in> R. \<exists>v. worker r = Some v)
     \<and> (\<forall>r \<in> R. \<forall>s \<in> R. tid r = tid s \<longrightarrow> attempts r = attempts s \<longrightarrow> r = s)
     \<and> (\<forall>r \<in> R. \<forall>t \<in> set T. tid t = tid r \<longrightarrow> attempts r \<le> attempts t)
     \<and> (\<forall>r \<in> R. \<forall>t \<in> set T. tid t = tid r \<longrightarrow> status t = Running \<longrightarrow> attempts t = attempts r
          \<longrightarrow> worker t = worker r \<and> batch_resumes t = batch_resumes r)
     \<and> (\<forall>t \<in> set T. \<forall>u \<in> set T. dedupe_key t \<noteq> None \<longrightarrow> dedupe_key t = dedupe_key u \<longrightarrow> t = u)"

lemma stampsD:
  assumes "stamps n T R"
  shows "distinct (map tid T)" "t \<in> set T \<Longrightarrow> tid t < n" "r \<in> R \<Longrightarrow> tid r < n"
    "r \<in> R \<Longrightarrow> \<exists>v. worker r = Some v"
    "r \<in> R \<Longrightarrow> s \<in> R \<Longrightarrow> tid r = tid s \<Longrightarrow> attempts r = attempts s \<Longrightarrow> r = s"
    "r \<in> R \<Longrightarrow> t \<in> set T \<Longrightarrow> tid t = tid r \<Longrightarrow> attempts r \<le> attempts t"
    "r \<in> R \<Longrightarrow> t \<in> set T \<Longrightarrow> tid t = tid r \<Longrightarrow> status t = Running \<Longrightarrow> attempts t = attempts r
      \<Longrightarrow> worker t = worker r \<and> batch_resumes t = batch_resumes r"
    "t \<in> set T \<Longrightarrow> u \<in> set T \<Longrightarrow> dedupe_key t \<noteq> None \<Longrightarrow> dedupe_key t = dedupe_key u \<Longrightarrow> t = u"
  using assms unfolding stamps_def by blast+

lemma same_tid: "distinct (map tid T) \<Longrightarrow> t \<in> set T \<Longrightarrow> u \<in> set T \<Longrightarrow> tid t = tid u \<Longrightarrow> t = u"
  by (auto simp: distinct_map dest: inj_onD)

lemma stamps_mono: "stamps n T R \<Longrightarrow> R' \<subseteq> R \<Longrightarrow> stamps n T R'"
  unfolding stamps_def by blast

text \<open>
  Every row keeps its identity and dedupe key; a row running afterwards was running, with the
  same stamp; and no row's count of attempts falls below that of a run that goes on.
\<close>

lemma stamps_rel:
  assumes inv: "stamps n T R" and R': "R' \<subseteq> R" and rel: "list_all2 P T T'"
    and P: "\<And>t t'. t \<in> set T \<Longrightarrow> P t t' \<Longrightarrow> tid t' = tid t \<and> dedupe_key t' = dedupe_key t
      \<and> (status t' = Running \<longrightarrow> status t = Running \<and> worker t' = worker t
           \<and> batch_resumes t' = batch_resumes t \<and> attempts t' = attempts t)
      \<and> (\<forall>r \<in> R'. tid r = tid t \<longrightarrow> attempts r \<le> attempts t')"
  shows "stamps n T' R'"
proof -
  have P': "list_all2 (\<lambda>t t'. t \<in> set T \<and> P t t') T T'"
    using rel by (auto simp: list_all2_conv_all_nth)
  have tids: "map tid T' = map tid T" by (rule list_all2_map_eq [OF P']) (use P in blast)
  have from_left: "\<exists>t \<in> set T. P t t'" if "t' \<in> set T'" for t'
    using list_all2_set_right [OF rel that] .
  have dedupe: "t' = u'" if dup: "t' \<in> set T'" "u' \<in> set T'" "dedupe_key t' \<noteq> None"
    "dedupe_key t' = dedupe_key u'" for t' u'
  proof -
    obtain t u where tu: "t \<in> set T" "u \<in> set T" "P t t'" "P u u'"
      using from_left dup by blast
    then have "t = u" using P stampsD(8) [OF inv, of t u] dup by metis
    then have "tid t' = tid u'" using P tu by metis
    then show ?thesis using same_tid [of T'] stampsD(1) [OF inv] tids dup by metis
  qed
  show ?thesis
    unfolding stamps_def
  proof (intro conjI ballI impI)
    fix r t' assume r: "r \<in> R'" "t' \<in> set T'" "tid t' = tid r"
    then obtain t where t: "t \<in> set T" "P t t'" using from_left by blast
    then show "attempts r \<le> attempts t'" using P [OF t] r by simp
    assume "status t' = Running" "attempts t' = attempts r"
    then show "worker t' = worker r" "batch_resumes t' = batch_resumes r"
      using P [OF t] stampsD(7) [OF inv, of r t] t r R' by auto
  qed (use tids stampsD [OF inv] R' dedupe from_left P in \<open>metis subsetD\<close>)+
qed

lemma stamps_quiet:
  assumes "stamps n T R" "R' \<subseteq> R" "list_all2 quiet T T'"
  shows "stamps n T' R'"
  using assms(1,2,3)
proof (rule stamps_rel)
  fix t t' assume "t \<in> set T" "quiet t t'"
  then show "tid t' = tid t \<and> dedupe_key t' = dedupe_key t
      \<and> (status t' = Running \<longrightarrow> status t = Running \<and> worker t' = worker t
           \<and> batch_resumes t' = batch_resumes t \<and> attempts t' = attempts t)
      \<and> (\<forall>r \<in> R'. tid r = tid t \<longrightarrow> attempts r \<le> attempts t')"
    using stampsD(6) [OF assms(1)] assms(2) by (auto simp: quiet_def)
qed

text \<open>A write that takes the row out of \<open>Running\<close> and gives at most one attempt back.\<close>

definition backed :: "Task \<Rightarrow> Task \<Rightarrow> bool" where
  "backed t t' \<longleftrightarrow>
     tid t' = tid t \<and> dedupe_key t' = dedupe_key t \<and> status t' \<noteq> Running
     \<and> attempts t - 1 \<le> attempts t'"

lemma backed_rows:
  "backed t (defer_row nb t)" "backed t (fail_unavailable_payload_row now msg t)"
  "backed t (give_back_row t)"
  by (simp_all add: backed_def defer_row_def fail_unavailable_payload_row_def give_back_row_def)

lemma owned_running_claim: "owned_running (Some c) (task_id c) = held_by c"
  by (auto simp: fun_eq_iff owned_running_def held_by_def claim_guard_def)

lemma held_by_claim_of:
  "held_by (claim_of r) t \<Longrightarrow> tid t = tid r \<and> status t = Running \<and> attempts t = attempts r"
  by (simp add: held_by_def stamped_def claim_of_def)

lemma stamps_give_back:
  assumes inv: "stamps n T R" and r: "r \<in> R" and f: "\<And>t. backed t (f t)"
  shows "stamps n (update_where (held_by (claim_of r)) f T) (R - {r})"
proof (rule stamps_rel [OF inv Diff_subset])
  let ?P = "\<lambda>t t'. t' = (if held_by (claim_of r) t then f t else t)"
  show "list_all2 ?P T (update_where (held_by (claim_of r)) f T)"
    by (simp add: update_where_def list_all2_map2 list_all2_refl)
  fix t t' assume t: "t \<in> set T" "?P t t'"
  have others: "attempts s < attempts t"
    if "s \<in> R - {r}" "tid s = tid t" "held_by (claim_of r) t" for s
    using stampsD(6) [OF inv, of s t] stampsD(5) [OF inv, of s r] held_by_claim_of [OF that(3)] that r t
    by force
  show "tid t' = tid t \<and> dedupe_key t' = dedupe_key t
      \<and> (status t' = Running \<longrightarrow> status t = Running \<and> worker t' = worker t
           \<and> batch_resumes t' = batch_resumes t \<and> attempts t' = attempts t)
      \<and> (\<forall>s \<in> R - {r}. tid s = tid t \<longrightarrow> attempts s \<le> attempts t')"
  proof (cases "held_by (claim_of r) t")
    case True
    then show ?thesis using f [of t] others t by (force simp: backed_def)
  next
    case False
    then show ?thesis using t stampsD(6) [OF inv, of _ t] by auto
  qed
qed

lemma stamps_settle:
  assumes "stamps n T R" "r \<in> R"
  shows "stamps n (settle now M (claim_of r) spent out T) (R - {r})"
proof (cases "gives_back out")
  case False
  then show ?thesis using stamps_quiet [OF assms(1) Diff_subset quiet_settle] by blast
next
  case True
  then show ?thesis
    using stamps_give_back [OF assms backed_rows(1)] stamps_give_back [OF assms backed_rows(2)]
    by (auto simp: gives_back_def settle_def fail_unavailable_payload_def owned_running_claim
        split: outcome.splits)
qed

lemma stamps_run_held:
  assumes "stamps n T R" "r \<in> R"
  shows "stamps n (fst (snd (run_held now M known r out T))) (R - {r})"
proof (cases "kind r \<in> set known")
  case False
  then show ?thesis
    using stamps_quiet [OF assms(1) Diff_subset quiet_finish] by (simp add: run_held_def Let_def)
next
  case True
  have s: "stamps n (settle now M (claim_of r) (retries_spent r) out T) (R - {r})"
    by (rule stamps_settle [OF assms])
  show ?thesis
    using s stamps_quiet [OF s order_refl quiet_maybe_finalize] True
    by (auto simp: run_held_def Let_def split: option.splits json.splits)
qed

lemma stamps_release:
  "stamps n T R \<Longrightarrow> distinct cs \<Longrightarrow> set cs \<subseteq> claim_of ` R
   \<Longrightarrow> stamps n (fold REQUEUE_ON_EXIT cs T) {r \<in> R. claim_of r \<notin> set cs}"
proof (induction cs arbitrary: T R)
  case (Cons c cs)
  then obtain r where r: "r \<in> R" "c = claim_of r" by auto
  have one: "s = r" if "s \<in> R" "claim_of s = c" for s
    using stampsD(5) [OF Cons.prems(1), of s r] that r by (simp add: claim_of_def)
  have "stamps n (REQUEUE_ON_EXIT c T) (R - {r})"
    using stamps_give_back [OF Cons.prems(1) r(1) backed_rows(3)]
    by (simp add: REQUEUE_ON_EXIT_def r(2) held_by_def [abs_def])
  moreover have "set cs \<subseteq> claim_of ` (R - {r})" using Cons.prems(2,3) r by force
  moreover have "distinct cs" using Cons.prems(2) by simp
  ultimately have "stamps n (fold REQUEUE_ON_EXIT cs (REQUEUE_ON_EXIT c T))
      {s \<in> R - {r}. claim_of s \<notin> set cs}"
    by (intro Cons.IH)
  then have "stamps n (fold REQUEUE_ON_EXIT (c # cs) T) {s \<in> R - {r}. claim_of s \<notin> set cs}"
    by simp
  then show ?case by (rule stamps_mono) (use one r in auto)
qed simp

lemma claim_task_Some:
  assumes "claim_task now env name heavy srcs budgets locked T = (Some r, T')"
  obtains t where "t \<in> set T" "eligible now env heavy budgets locked t" "r = claim_row now name t"
    "T' = update_where (\<lambda>u. tid u = tid t) (claim_row now name) T"
    "\<And>u. u \<in> set T \<Longrightarrow> eligible now env heavy budgets locked u
      \<Longrightarrow> CLAIM_ORDER srcs t \<le> CLAIM_ORDER srcs u"
proof -
  let ?E = "eligible now env heavy budgets locked"
  obtain x xs where x: "filter ?E T = x # xs"
    using assms by (cases "filter ?E T") (auto simp: claim_task_def)
  let ?t = "min_by (CLAIM_ORDER srcs) x xs"
  have "?t \<in> set (filter ?E T)" using min_by_in [of "CLAIM_ORDER srcs" x xs] x by simp
  moreover have "CLAIM_ORDER srcs ?t \<le> CLAIM_ORDER srcs u" if "u \<in> set T" "?E u" for u
  proof -
    have "u \<in> set (filter ?E T)" using that by simp
    then have "u \<in> set (x # xs)" by (simp only: x)
    then show ?thesis by (rule min_by_le)
  qed
  moreover have "r = claim_row now name ?t"
      "T' = update_where (\<lambda>u. tid u = tid ?t) (claim_row now name) T"
    using assms by (simp_all add: claim_task_def x Let_def)
  ultimately show thesis using that [of ?t] by simp
qed

lemma stamps_claim:
  assumes inv: "stamps n T R" and t: "t \<in> set T" and r: "r = claim_row now name t"
  shows "stamps n (update_where (\<lambda>u. tid u = tid t) (claim_row now name) T) (insert r R)"
proof -
  let ?T = "update_where (\<lambda>u. tid u = tid t) (claim_row now name) T"
  have below: "attempts s < attempts r" if "s \<in> R" "tid s = tid r" for s
    using stampsD(6) [OF inv that(1) t] that by (simp add: r claim_row_def)
  have rows: "u' = r \<or> (u' \<in> set T \<and> tid u' \<noteq> tid r)" if row: "u' \<in> set ?T" for u'
  proof -
    obtain u where u: "u \<in> set T" "u' = (if tid u = tid t then claim_row now name u else u)"
      using row unfolding set_update_where by blast
    show ?thesis
    proof (cases "tid u = tid t")
      case True
      then have "u = t" using same_tid [OF stampsD(1) [OF inv] u(1) t] by simp
      then show ?thesis using u(2) r by simp
    qed (use u r in \<open>simp add: claim_row_def\<close>)
  qed
  have tids: "map tid ?T = map tid T" by (rule update_where_key) (simp add: claim_row_def)
  have rt: "tid r = tid t" "worker r = Some name" "dedupe_key r = dedupe_key t"
    by (simp_all add: r claim_row_def)
  have old: "u = v" if "u \<in> set T" "v \<in> set T" "dedupe_key u \<noteq> None" "dedupe_key u = dedupe_key v" for u v
    using stampsD(8) [OF inv] that by blast
  have no_dup: False if "v \<in> set T" "tid v \<noteq> tid r" "dedupe_key r \<noteq> None" "dedupe_key v = dedupe_key r" for v
    using old [OF that(1) t] that rt by metis
  have dedupe: "u = v" if dup: "u \<in> set ?T" "v \<in> set ?T" "dedupe_key u \<noteq> None" "dedupe_key u = dedupe_key v"
    for u v
    using rows [OF dup(1)] rows [OF dup(2)]
  proof (elim disjE conjE)
    assume "u = r" "v \<in> set T" "tid v \<noteq> tid r"
    then show ?thesis using no_dup [of v] dup(3,4) by metis
  next
    assume "v = r" "u \<in> set T" "tid u \<noteq> tid r"
    then show ?thesis using no_dup [of u] dup(3,4) by metis
  qed (use old dup(3,4) in blast)+
  show ?thesis
    unfolding stamps_def
  proof (intro conjI ballI impI)
    show "distinct (map tid ?T)" using stampsD(1) [OF inv] tids by simp
    show "tid u < n" if "u \<in> set ?T" for u
      using rows [OF that] stampsD(2) [OF inv] t rt by auto
    show "tid s < n" if "s \<in> insert r R" for s
      using that stampsD(2,3) [OF inv] t rt by auto
    show "\<exists>v. worker s = Some v" if "s \<in> insert r R" for s
      using that stampsD(4) [OF inv] rt by auto
    show "s = s'" if "s \<in> insert r R" "s' \<in> insert r R" "tid s = tid s'" "attempts s = attempts s'" for s s'
      using that below [of s] below [of s'] stampsD(5) [OF inv, of s s'] by auto
    show "attempts s \<le> attempts u" if "s \<in> insert r R" "u \<in> set ?T" "tid u = tid s" for s u
      using that rows [OF that(2)] below [of s] stampsD(6) [OF inv, of s u] by auto
    show "worker u = worker s" "batch_resumes u = batch_resumes s"
      if "s \<in> insert r R" "u \<in> set ?T" "tid u = tid s" "status u = Running" "attempts u = attempts s" for s u
      using that rows [OF that(2)] below [of s] stampsD(7) [OF inv, of s u] by auto
  qed (use dedupe in blast)
qed

lemma stamps_append:
  assumes inv: "stamps n T R" and t: "tid t = n" "status t \<noteq> Running"
    and fresh: "\<not> (dedupe_key t \<noteq> None \<and> (\<exists>u \<in> set T. dedupe_key u = dedupe_key t))"
  shows "stamps (n + 1) (T @ [t]) R"
  unfolding stamps_def
proof (intro conjI ballI impI)
  show "distinct (map tid (T @ [t]))" using stampsD(1,2) [OF inv] t by force
  show "tid u < n + 1" if "u \<in> set (T @ [t])" for u
    using that stampsD(2) [OF inv, of u] t by auto
  show "tid r < n + 1" if "r \<in> R" for r using stampsD(3) [OF inv that] by simp
  show "attempts r \<le> attempts u" if "r \<in> R" "u \<in> set (T @ [t])" "tid u = tid r" for r u
    using that stampsD(3) [OF inv that(1)] stampsD(6) [OF inv, of r u] t by auto
  show "worker u = worker r" "batch_resumes u = batch_resumes r"
    if "r \<in> R" "u \<in> set (T @ [t])" "tid u = tid r" "status u = Running" "attempts u = attempts r" for r u
    using that stampsD(7) [OF inv, of r u] t by auto
  show "u = v" if "u \<in> set (T @ [t])" "v \<in> set (T @ [t])" "dedupe_key u \<noteq> None"
      "dedupe_key u = dedupe_key v" for u v
    using that stampsD(8) [OF inv, of u v] fresh by auto
qed (use stampsD(4,5) [OF inv] in auto)

lemma stamps_enqueue:
  assumes "stamps (next_id qu) (tasks qu) R" "enqueue now k p d qu = Inr (res, qu')"
  shows "stamps (next_id qu') (tasks qu') R"
proof -
  obtain parent where parent: "parent_column p = Inr parent"
    using assms(2) by (auto simp: enqueue_def and_then_Inr_iff)
  show ?thesis
  proof (cases "d \<noteq> None \<and> (\<exists>t \<in> set (tasks qu). dedupe_key t = d)")
    case True
    then have "tasks qu' = tasks qu" "next_id qu' = next_id qu + 1"
      using assms(2) by (auto simp: enqueue_def parent)
    then show ?thesis using assms(1) by (force simp: stamps_def)
  next
    case False
    then have "tasks qu' = tasks qu @ [new_task now (next_id qu) k p d parent]"
        "next_id qu' = next_id qu + 1"
      using assms(2) by (auto simp: enqueue_def parent)
    then show ?thesis using stamps_append [OF assms(1)] False by (simp add: new_task_def)
  qed
qed

definition fleet_inv :: "world \<Rightarrow> bool" where
  "fleet_inv w \<longleftrightarrow>
     stamps (next_id (q w)) (tasks_of w) (runs w)
     \<and> set (held w) \<subseteq> claim_of ` runs w \<and> distinct (held w)"

lemma fleet_inv_quiet:
  "fleet_inv w \<Longrightarrow> list_all2 quiet (tasks_of w) tbl \<Longrightarrow> fleet_inv (with_tasks w tbl)"
  by (auto simp: fleet_inv_def intro: stamps_quiet)

lemma fleet_inv_end_run:
  assumes "fleet_inv w" "stamps (next_id (q w)) tbl (runs w - {r})"
  shows "fleet_inv (with_tasks (end_run r w) tbl)"
  using assms by (force simp: fleet_inv_def let_go_def claim_of_def image_iff)

lemma fleet_inv_end_process:
  assumes "fleet_inv w" "stamps (next_id (q w)) tbl {r \<in> runs w. worker r \<noteq> Some name}"
  shows "fleet_inv (with_tasks (end_process name w) tbl)"
proof -
  have "c \<in> claim_of ` {r \<in> runs w. worker r \<noteq> Some name}"
    if c: "c \<in> set (held w)" "c_worker c \<noteq> name" for c
  proof -
    obtain r where "r \<in> runs w" "c = claim_of r" using assms(1) c by (auto simp: fleet_inv_def)
    then show ?thesis using c(2) by (auto simp: claim_of_def)
  qed
  then show ?thesis using assms by (auto simp: fleet_inv_def)
qed

lemma with_tasks_same: "with_tasks w (tasks_of w) = w"
  by (simp add: with_tasks_def tasks_of_def)

lemma fleet_inv_claim:
  assumes inv: "fleet_inv w" and "claim_task now env name heavy srcs budgets locked (tasks_of w) = (Some r, tbl)"
  shows "fleet_inv ((with_tasks w tbl)\<lparr>runs := insert r (runs w), held := hold (claim_of r) (held w)\<rparr>)"
proof -
  from assms(2) obtain t where t: "t \<in> set (tasks_of w)" "r = claim_row now name t"
    "tbl = update_where (\<lambda>u. tid u = tid t) (claim_row now name) (tasks_of w)"
    by (rule claim_task_Some)
  have "stamps (next_id (q w)) tbl (insert r (runs w))"
    using stamps_claim [of "next_id (q w)" "tasks_of w" "runs w" t r now name] inv t
    by (simp add: fleet_inv_def)
  then show ?thesis using inv by (auto simp: fleet_inv_def hold_def with_tasks_def tasks_of_def)
qed

lemma fleet_inv_exit:
  assumes inv: "fleet_inv w"
  shows "fleet_inv (with_tasks (end_process name w) (release_all name (held w) (tasks_of w)))"
proof -
  let ?cs = "filter (\<lambda>c. c_worker c = name) (held w)"
  have "stamps (next_id (q w)) (fold REQUEUE_ON_EXIT ?cs (tasks_of w))
      {r \<in> runs w. claim_of r \<notin> set ?cs}"
    using inv by (intro stamps_release) (auto simp: fleet_inv_def)
  then have "stamps (next_id (q w)) (fold REQUEUE_ON_EXIT ?cs (tasks_of w))
      {r \<in> runs w. worker r \<noteq> Some name}"
  proof (rule stamps_mono)
    show "{r \<in> runs w. worker r \<noteq> Some name} \<subseteq> {r \<in> runs w. claim_of r \<notin> set ?cs}"
      using inv by (force simp: fleet_inv_def claim_of_def dest: stampsD(4))
  qed
  then show ?thesis using fleet_inv_end_process [OF inv] by (simp add: release_all_def)
qed

lemmas quiet_ops =
  quiet_maybe_finalize quiet_reconcile quiet_reap quiet_cancel quiet_park_batch quiet_retry

lemma fleet_inv_step:
  assumes inv: "fleet_inv w" and "step M w w'"
  shows "fleet_inv w'"
  using assms(2)
proof cases
  case (enqueue now k p d res q')
  then show ?thesis using inv by (auto simp: fleet_inv_def tasks_of_def intro: stamps_enqueue)
next
  case (settle r now known out)
  then show ?thesis
    using inv stamps_run_held [of "next_id (q w)" "tasks_of w" "runs w" r now M known out]
    by (simp add: fleet_inv_end_run fleet_inv_def [of w])
next
  case (abandon r)
  have "fleet_inv (with_tasks (end_run r w) (tasks_of w))"
    using inv by (intro fleet_inv_end_run) (auto simp: fleet_inv_def intro: stamps_mono)
  then show ?thesis using abandon by (simp add: with_tasks_def end_run_def tasks_of_def)
next
  case (crash name)
  have "fleet_inv (with_tasks (end_process name w) (tasks_of w))"
    using inv by (intro fleet_inv_end_process) (auto simp: fleet_inv_def intro: stamps_mono)
  then show ?thesis using crash by (simp add: with_tasks_def end_process_def tasks_of_def)
next
  case (recover job_kinds st i seen db res tbl)
  then show ?thesis using fleet_inv_quiet [OF inv] quiet_retry by metis
next
  case (cancel now f reply tbl)
  then show ?thesis using fleet_inv_quiet [OF inv quiet_cancel] cancel_tasks_table by metis
qed (auto intro!: fleet_inv_quiet [OF inv] fleet_inv_claim [OF inv] fleet_inv_exit [OF inv] quiet_ops
    simp: heartbeat_def beat.table_related write_progress_def progress.table_related
      merge_payload_def merge_payload.table_related record_batch_ids_def record_ids.table_related
      park_waiting_def park_waiting.table_related resume_parked_def resume.table_related)

interpretation fleet: invariant_system initial "step M" fleet_inv for M
proof unfold_locales
  show "fleet_inv w" if "initial w" for w
    using that by (simp add: initial_def fleet_inv_def stamps_def)
qed (rule fleet_inv_step)

section \<open>What the stamp guarantees\<close>

lemma held_by_unique:
  assumes "fleet_inv w" "r \<in> runs w" "s \<in> runs w" "held_by (claim_of r) t" "held_by (claim_of s) t"
  shows "r = s"
  using assms held_by_claim_of [of r t] held_by_claim_of [of s t] stampsD(5)
  by (metis fleet_inv_def)

text \<open>Where a running row of the next state comes from.\<close>

definition ran_before :: "Task list \<Rightarrow> Task \<Rightarrow> bool" where
  "ran_before T t' \<longleftrightarrow>
     (\<exists>t \<in> set T. tid t = tid t' \<and> status t = Running \<and> attempts t = attempts t'
        \<and> worker t = worker t')"

lemma quiet_ran_before:
  "list_all2 quiet T T' \<Longrightarrow> t' \<in> set T' \<Longrightarrow> status t' = Running \<Longrightarrow> ran_before T t'"
  using list_all2_set_right [of quiet T T' t'] by (auto simp: ran_before_def quiet_def)

lemma backed_ran_before:
  "(\<And>t. backed t (f t)) \<Longrightarrow> t' \<in> set (update_where p f T) \<Longrightarrow> status t' = Running \<Longrightarrow> t' \<in> set T"
  by (fastforce simp: table_simps backed_def)

lemma ran_before_self: "t' \<in> set T \<Longrightarrow> status t' = Running \<Longrightarrow> ran_before T t'"
  by (auto simp: ran_before_def)

lemma ran_before_trans:
  assumes "ran_before T' t" "\<And>u. u \<in> set T' \<Longrightarrow> status u = Running \<Longrightarrow> ran_before T u"
  shows "ran_before T t"
proof -
  obtain u where u: "u \<in> set T'" "tid u = tid t" "status u = Running" "attempts u = attempts t"
      "worker u = worker t"
    using assms(1) by (auto simp: ran_before_def)
  then show ?thesis using assms(2) [of u] by (auto simp: ran_before_def)
qed

lemma settle_ran_before:
  "t' \<in> set (settle now M c spent out T) \<Longrightarrow> status t' = Running \<Longrightarrow> ran_before T t'"
proof (cases "gives_back out")
  case True
  assume t': "t' \<in> set (settle now M c spent out T)" "status t' = Running"
  have "t' \<in> set T"
  proof (cases out)
    case (Deferred nb)
    then show ?thesis using t' backed_ran_before [OF backed_rows(1)] by (simp add: settle_def)
  next
    case (PayloadUnavailable msg)
    then show ?thesis
      using t' backed_ran_before [OF backed_rows(2)]
      by (simp add: settle_def fail_unavailable_payload_def)
  qed (use True in \<open>simp_all add: gives_back_def\<close>)
  then show ?thesis using t'(2) by (rule ran_before_self)
qed (auto intro: quiet_ran_before quiet_settle)

lemma run_held_ran_before:
  assumes "t' \<in> set (fst (snd (run_held now M known r out T)))" "status t' = Running"
  shows "ran_before T t'"
proof -
  let ?S = "settle now M (claim_of r) (retries_spent r) out T"
  consider "t' \<in> set (finish now (Some (claim_of r)) (tid r) Failed
        (Some (''unknown task kind: '' @ kind r)) T)"
    | "t' \<in> set ?S" | p where "t' \<in> set (fst (maybe_finalize_parent now p ?S))"
    using assms(1) by (auto simp: run_held_def Let_def split: if_splits option.splits json.splits)
  then show ?thesis
  proof cases
    case 3
    then have "ran_before ?S t'" using quiet_ran_before [OF quiet_maybe_finalize] assms(2) by blast
    then show ?thesis by (rule ran_before_trans) (rule settle_ran_before)
  qed (use assms(2) quiet_ran_before [OF quiet_finish] settle_ran_before in blast)+
qed

lemma release_ran_before:
  "t' \<in> set (fold REQUEUE_ON_EXIT cs T) \<Longrightarrow> status t' = Running \<Longrightarrow> t' \<in> set T"
proof (induction cs arbitrary: T)
  case (Cons c cs)
  then have "t' \<in> set (REQUEUE_ON_EXIT c T)" by simp
  then show ?case
    using backed_ran_before [OF backed_rows(3)] Cons.prems(2) by (auto simp: REQUEUE_ON_EXIT_def)
qed simp

lemma step_running:
  assumes "step M w w'" "t' \<in> set (tasks_of w')" "status t' = Running"
  shows "ran_before (tasks_of w) t'
    \<or> (\<exists>t \<in> set (tasks_of w). tid t = tid t' \<and> attempts t' = attempts t + 1)"
  using assms(1)
proof cases
  case (enqueue now k p d res q')
  then have "t' \<in> set (tasks_of w)"
    using assms(2,3)
    by (auto simp: enqueue_def and_then_Inr_iff tasks_of_def new_task_def split: if_splits)
  then show ?thesis using assms(3) by (blast intro: ran_before_self)
next
  case (claim now env name heavy srcs budgets locked r tbl)
  from claim(2) obtain t where t: "t \<in> set (tasks_of w)" "r = claim_row now name t"
    "tbl = update_where (\<lambda>u. tid u = tid t) (claim_row now name) (tasks_of w)"
    by (rule claim_task_Some)
  have "t' \<in> set tbl" using claim(1) assms(2) by (simp add: tasks_of_def with_tasks_def)
  then show ?thesis
    using t(3) assms(3) by (auto simp: table_simps claim_row_def split: if_splits intro: ran_before_self)
next
  case (settle r now known out)
  then show ?thesis using run_held_ran_before assms(2,3) by auto
next
  case (exit name)
  then show ?thesis
    using release_ran_before assms(2,3) by (auto simp: release_all_def intro: ran_before_self)
next
  case (recover job_kinds st i seen db res tbl)
  then show ?thesis
    using quiet_ran_before [OF quiet_retry [OF recover(2)]] assms(2,3) by auto
next
  case (cancel now f reply tbl)
  then show ?thesis
    using quiet_ran_before [OF quiet_cancel] cancel_tasks_table [OF cancel(2)] assms(2,3) by auto
qed (use assms(2,3) in \<open>auto intro: ran_before_self quiet_ran_before quiet_ops
    simp: heartbeat_def quiet_ran_before [OF beat.table_related] write_progress_def
      quiet_ran_before [OF progress.table_related] merge_payload_def
      quiet_ran_before [OF merge_payload.table_related] record_batch_ids_def
      quiet_ran_before [OF record_ids.table_related] park_waiting_def
      quiet_ran_before [OF park_waiting.table_related] resume_parked_def
      quiet_ran_before [OF resume.table_related]\<close>)

end
