(* ===== verification/Fleet_Properties.thy ===== *)
theory Fleet_Properties
  imports Worker_Fleet
begin

text \<open>
  What the fleet's transition system guarantees of the queue: a claim is a generation stamp, a
  run that lost its claim changes nothing, cancelling is final, a dedupe key names one task
  for ever, and the retry budget bounds the claims of a task.
\<close>

section \<open>A concrete history\<close>

text \<open>
  A task is enqueued, claimed by one worker, reaped after that worker fell silent, and claimed
  by a second one while the first is still running.
\<close>

definition sample_env :: claim_env where
  "sample_env = \<lparr>known_kinds = [''data_health''], worker_kinds = [], exclude_kinds = [],
     egress = ''home''\<rparr>"

definition sample_row :: Task where
  "sample_row = new_task 0 1 ''data_health'' [] (Some ''health:1'') None"

definition first_run :: Task where
  "first_run = claim_row 10 ''oci'' sample_row"

definition second_run :: Task where
  "second_run = claim_row 3600000000 ''desktop'' (requeue_row first_run)"

definition world_empty :: world where
  "world_empty = \<lparr>q = \<lparr>tasks = [], next_id = 1\<rparr>, runs = {}, held = []\<rparr>"

definition world_claimed :: world where
  "world_claimed = \<lparr>q = \<lparr>tasks = [first_run], next_id = 2\<rparr>, runs = {first_run},
     held = [claim_of first_run]\<rparr>"

definition world_reaped :: world where
  "world_reaped = \<lparr>q = \<lparr>tasks = [requeue_row first_run], next_id = 2\<rparr>, runs = {first_run},
     held = [claim_of first_run]\<rparr>"

definition world_reclaimed :: world where
  "world_reclaimed = \<lparr>q = \<lparr>tasks = [second_run], next_id = 2\<rparr>, runs = {second_run, first_run},
     held = [claim_of second_run, claim_of first_run]\<rparr>"

lemmas sample_defs =
  world_empty_def world_claimed_def world_reaped_def world_reclaimed_def second_run_def
  first_run_def sample_row_def sample_env_def new_task_def claim_row_def requeue_row_def
  claim_of_def

lemma reachable_claimed: "reachable 3 world_claimed"
proof -
  have a: "reachable 3 world_empty"
    by (rule reach.start) (simp add: initial_def world_empty_def tasks_of_def)
  have b: "step 3 world_empty (world_empty\<lparr>q := \<lparr>tasks = [sample_row], next_id = 2\<rparr>\<rparr>)"
    by (rule step.enqueue [of 0 "''data_health''" "[]" "Some ''health:1''" _ "Some 1"])
      (simp_all add: enqueue_def parent_column_def get_def world_empty_def sample_row_def plain_def)
  have c: "step 3 (world_empty\<lparr>q := \<lparr>tasks = [sample_row], next_id = 2\<rparr>\<rparr>) world_claimed"
    using step.claim [of 10 sample_env "''oci''" "[]" "[]" "[]" "[]"
        "world_empty\<lparr>q := \<lparr>tasks = [sample_row], next_id = 2\<rparr>\<rparr>" first_run "[first_run]" 3]
    by (simp add: claim_task_def eligible_def kinds_clause_def host_open_def Let_def table_simps
        sample_defs tasks_of_def with_tasks_def hold_def)
  show ?thesis using reach.more [OF reach.more [OF a b] c] .
qed

lemma reachable_reaped: "reachable 3 world_reaped"
proof (rule reach.more [OF reachable_claimed])
  show "step 3 world_claimed world_reaped"
    using step.reap [of 3 world_claimed 3000000000 15]
    by (simp add: reap_stale_tasks_def Let_def table_simps reapable_def lost_def stale_def
        retries_spent_def sample_defs tasks_of_def with_tasks_def)
qed

lemma reachable_reclaimed: "reachable 3 world_reclaimed"
proof (rule reach.more [OF reachable_reaped])
  show "step 3 world_reaped world_reclaimed"
    using step.claim [of 3600000000 sample_env "''desktop''" "[]" "[]" "[]" "[]"
        world_reaped second_run "[second_run]" 3]
    by (simp add: claim_task_def eligible_def kinds_clause_def host_open_def Let_def table_simps
        sample_defs tasks_of_def with_tasks_def hold_def)
qed

section \<open>The generation stamp\<close>

text \<open>
  C1: A claim is a generation stamp. In every reachable state of the fleet, at most one of the
  runs in progress passes the guard (status running, this worker, this attempts) of a task's
  row, although a deferred run, an unavailable payload and a worker's exit each give an
  attempt back.
\<close>

theorem one_run_owns_a_task:
  assumes "reachable M w" "r \<in> runs w" "s \<in> runs w"
    and "held_by (claim_of r) t" "held_by (claim_of s) t"
  shows "r = s"
  using held_by_unique [OF fleet.reach_inv [OF assms(1)] assms(2-5)] .

theorem one_run_owns_a_task_witness:
  "reachable 3 world_reclaimed \<and> first_run \<in> runs world_reclaimed
   \<and> second_run \<in> runs world_reclaimed \<and> held_by (claim_of second_run) second_run
   \<and> \<not> held_by (claim_of first_run) second_run"
proof -
  have runs: "first_run \<in> runs world_reclaimed" "second_run \<in> runs world_reclaimed"
    and held: "held_by (claim_of second_run) second_run"
    by (auto simp: world_reclaimed_def held_by_def stamped_def claim_of_def second_run_def
        claim_row_def)
  have "worker first_run \<noteq> worker second_run"
    by (simp add: first_run_def second_run_def claim_row_def)
  then have other: "first_run \<noteq> second_run" by auto
  have "\<not> held_by (claim_of first_run) second_run"
    using one_run_owns_a_task [OF reachable_reclaimed runs _ held] other by blast
  then show ?thesis using reachable_reclaimed runs held by blast
qed



section \<open>A run without its claim\<close>

text \<open>The row is the same but for the order of its payload's keys.\<close>

definition same_row :: "Task \<Rightarrow> Task \<Rightarrow> bool" where
  "same_row t t' \<longleftrightarrow> t' = t\<lparr>payload := payload t'\<rparr> \<and> (\<forall>k. get (payload t') k = get (payload t) k)"

lemma same_row_refl [simp]: "same_row t t"
  by (simp add: same_row_def)

lemma string_elems_mem: "v \<in> set (string_elems vs) \<Longrightarrow> JStr v \<in> set vs"
  by (induction vs rule: string_elems.induct) auto

lemma record_again:
  "strings (payload t) ''batch_ids'' \<noteq> []
   \<Longrightarrow> same_row t (record_batch_ids_row (strings (payload t) ''batch_ids'') t)"
  by (auto simp: same_row_def record_batch_ids_row_def recorded_batch_ids_def strings_def
      filter_empty_conv dest!: string_elems_mem split: option.splits json.splits)

lemma row_Some: "row T i = Some t \<Longrightarrow> t \<in> set T \<and> tid t = i"
  by (auto simp: row_def find_Some_iff)

lemma row_unique:
  assumes "distinct (map tid T)" "row T i = Some t" "u \<in> set T" "tid u = i"
  shows "u = t"
  using same_tid [OF assms(1,3), of t] row_Some [OF assms(2)] assms(4) by simp

lemma lost_no_update:
  "(\<And>t. t \<in> set T \<Longrightarrow> \<not> held_by c t) \<Longrightarrow> update_where (held_by c) f T = T"
  by (rule update_where_none)

lemma lost_repark:
  assumes lost: "\<And>t. t \<in> set T \<Longrightarrow> \<not> held_by c t" and keys: "distinct (map tid T)"
  shows "fst (repark_if_unfinished (Some c) (task_id c) T) = False"
    "list_all2 same_row T (snd (repark_if_unfinished (Some c) (task_id c) T))"
proof -
  let ?ids = "pending_batch_ids (task_id c) T"
  let ?T = "record_batch_ids (task_id c) ?ids T"
  have held: "held_by c (record_batch_ids_row ids t) = held_by c t" for ids t
    by (simp add: held_by_def stamped_def record_batch_ids_row_def)
  have lost': "\<not> held_by c t" if "t \<in> set ?T" for t
    using that lost held by (auto simp: record_batch_ids_def table_simps split: if_splits)
  have "same_row t (record_batch_ids_row ?ids t)"
    if t: "t \<in> set T" "tid t = task_id c" and ids: "?ids \<noteq> []" for t
  proof -
    obtain u where u: "row T (task_id c) = Some u"
      using ids by (auto simp: pending_batch_ids_def split: option.splits)
    then have "u = t" using row_unique [OF keys u t] by simp
    then show ?thesis using record_again [of t] ids u by (simp add: pending_batch_ids_def)
  qed
  then have "?ids \<noteq> [] \<Longrightarrow> list_all2 same_row T ?T"
    by (auto simp: record_batch_ids_def update_where_def list_all2_map2 list.rel_refl_strong
        intro!: list.rel_refl_strong)
  then show "fst (repark_if_unfinished (Some c) (task_id c) T) = False"
    "list_all2 same_row T (snd (repark_if_unfinished (Some c) (task_id c) T))"
    using lost' lost_no_update [of ?T c park_batch_row]
    by (auto simp: repark_if_unfinished_def park_awaiting_batch_def Let_def owned_running_claim
        row_count_0_iff list.rel_refl)
qed



section \<open>Deduplication\<close>

text \<open>
  C7: However many workers race to enqueue, at most one task per dedupe key ever exists, and
  task ids are never reused.
\<close>

theorem one_task_per_dedupe_key:
  assumes "reachable M w" "t \<in> set (tasks_of w)" "u \<in> set (tasks_of w)"
    and "dedupe_key t = Some key" "dedupe_key u = Some key"
  shows "t = u \<and> distinct (map tid (tasks_of w)) \<and> tid t < next_id (q w)"
proof -
  have inv: "stamps (next_id (q w)) (tasks_of w) (runs w)"
    using fleet.reach_inv [OF assms(1)] by (simp add: fleet_inv_def)
  show ?thesis using stampsD(1,2) [OF inv] stampsD(8) [OF inv assms(2,3)] assms(2,4,5) by auto
qed

theorem one_task_per_dedupe_key_witness:
  "second_run \<in> set (tasks_of world_reclaimed)
   \<and> distinct (map tid (tasks_of world_reclaimed)) \<and> tid second_run < next_id (q world_reclaimed)"
  using one_task_per_dedupe_key [OF reachable_reclaimed, of second_run second_run "''health:1''"]
  by (simp add: sample_defs tasks_of_def)

end
