(* ===== verification/Fleet_Budget.thy ===== *)
theory Fleet_Budget
  imports Fleet_Properties
begin

text \<open>
  The retry budget. A row's \<open>attempts\<close> counts claims and \<open>batch_resumes\<close> the claims that
  resumed a parked batch; their difference is what the budget \<open>task_max_attempts\<close> is compared
  with. The invariant of a single row below is kept by every write of the fleet; each is an
  interpretation of the guarded-write interface.
\<close>

section \<open>The invariant of a row\<close>

definition in_budget :: "int \<Rightarrow> Task \<Rightarrow> bool" where
  "in_budget M t \<longleftrightarrow>
     0 \<le> batch_resumes t \<and> batch_resumes t \<le> attempts t \<and> retries_spent t \<le> M
     \<and> (status t = Running \<or> status t = Awaiting_batch \<longrightarrow> batch_resumes t < attempts t)
     \<and> (status t = Pending \<longrightarrow> retries_spent t < M)
     \<and> (has_key (payload t) ''payload_recovery'' \<longrightarrow>
          status t \<notin> {Pending, Running, Awaiting_batch} \<and> retries_spent t < M)"

lemmas budget_simps = in_budget_def retries_spent_def has_key_def

interpretation budget_merge: guarded_write
  "\<lambda>t. get data ''payload_recovery'' = None \<and> p t" "merge_payload_row data ks"
  "in_budget M" for p data ks M
  by unfold_locales
    (auto simp: budget_simps merge_payload_row_def plain_def split: if_splits)
interpretation budget_progress: guarded_write "\<lambda>t. plain data \<and> p t" "progress_row now prog data"
  "in_budget M" for p now prog data M
  by unfold_locales (auto simp: budget_simps progress_row_def plain_def)
interpretation budget_record: guarded_write p "record_batch_ids_row ids" "in_budget M" for p ids M
  by unfold_locales (auto simp: budget_simps record_batch_ids_row_def)
interpretation budget_beat: guarded_write p "beat_row now" "in_budget M" for p now M
  by unfold_locales (auto simp: budget_simps beat_row_def)
interpretation budget_cancel: guarded_write p "cancel_row now why" "in_budget M" for p now why M
  by unfold_locales (auto simp: budget_simps cancel_row_def)
interpretation budget_parent: guarded_write p "parent_progress_row now n" "in_budget M" for p now n M
  by unfold_locales (auto simp: budget_simps parent_progress_row_def)
interpretation budget_finalize: guarded_write p "finalize_row now n" "in_budget M" for p now n M
  by unfold_locales (auto simp: budget_simps finalize_row_def)
interpretation budget_park: guarded_write p "park_waiting_row n label" "in_budget M" for p n label M
  by unfold_locales (auto simp: budget_simps park_waiting_row_def)
interpretation budget_done: guarded_write p "finish_row now Done err" "in_budget M" for p now err M
  by unfold_locales (auto simp: budget_simps finish_row_def)
interpretation budget_failed: guarded_write p "finish_row now Failed err" "in_budget M" for p now err M
  by unfold_locales (auto simp: budget_simps finish_row_def)
interpretation budget_reopen: guarded_write p reopen_parent_row "in_budget M" for p M
  by unfold_locales (auto simp: budget_simps reopen_parent_row_def)
interpretation budget_lost: guarded_write p "lost_row now" "in_budget M" for p now M
  by unfold_locales (auto simp: budget_simps lost_row_def)
interpretation budget_requeue: guarded_write "reapable now M minutes" requeue_row "in_budget M"
  for now M minutes
  by unfold_locales (auto simp: budget_simps requeue_row_def reapable_def)
interpretation budget_batch: guarded_write "owned_running cur i" park_batch_row "in_budget M" for cur i M
  by unfold_locales (auto simp: budget_simps park_batch_row_def owned_running_def)
interpretation budget_resume: guarded_write "\<lambda>t. tid t = i \<and> status t = Awaiting_batch" resume_row
  "in_budget M" for i M
  by unfold_locales (auto simp: budget_simps resume_row_def)
interpretation budget_defer: guarded_write "held_by c" "defer_row nb" "in_budget M" for c nb M
  by unfold_locales (auto simp: budget_simps defer_row_def held_by_def)
interpretation budget_back: guarded_write "held_by c" give_back_row "in_budget M" for c M
  by unfold_locales (auto simp: budget_simps give_back_row_def held_by_def)
interpretation budget_unavailable: guarded_write "held_by c" "fail_unavailable_payload_row now msg"
  "in_budget M" for c now msg M
  by unfold_locales (auto simp: budget_simps fail_unavailable_payload_row_def held_by_def)
interpretation budget_retry: guarded_write "\<lambda>t. held_by c t \<and> retries_spent t < M" "retry_row msg"
  "in_budget M" for c msg M
  by unfold_locales (auto simp: budget_simps retry_row_def held_by_def)
interpretation budget_claim: guarded_write "\<lambda>t. status t = Pending" "claim_row now name" "in_budget M"
  for now name M
  by unfold_locales (auto simp: budget_simps claim_row_def)
interpretation budget_recover: guarded_write "\<lambda>t. has_key (payload t) ''payload_recovery''"
  recover_row "in_budget M" for M
  by unfold_locales (auto simp: budget_simps recover_row_def)

section \<open>The invariant of the table\<close>

abbreviation budgeted :: "int \<Rightarrow> Task list \<Rightarrow> bool" where
  "budgeted M T \<equiv> \<forall>t \<in> set T. in_budget M t"

lemma budgeted_finalize:
  assumes "budgeted M T"
  shows "budgeted M (fst (maybe_finalize_parent now i T))"
proof -
  let ?T = "update_parent_progress now i T"
  have T: "budgeted M ?T"
    unfolding update_parent_progress_def using assms by (rule budget_parent.table_keeps)
  have "fst (maybe_finalize_parent now i T) \<in> {?T, update_where (\<lambda>t. tid t = i \<and> status t = Waiting)
      (finalize_row now (row_count (\<lambda>t. chunk_of i t \<and> status t = Failed) ?T)) ?T}"
    by (auto simp: maybe_finalize_parent_def Let_def split: option.split)
  then show ?thesis
  proof (elim insertE emptyE)
    assume "fst (maybe_finalize_parent now i T) = ?T"
    then show ?thesis using T by metis
  qed (use budget_finalize.table_keeps [OF T] in metis)
qed

lemma budgeted_finalize_all: "budgeted M T \<Longrightarrow> budgeted M (fst (finalize_all now is T))"
proof (induction "is" arbitrary: T)
  case (Cons i "is")
  obtain T' fs where m: "maybe_finalize_parent now i T = (T', fs)" by fastforce
  then have "budgeted M T'" using budgeted_finalize [OF Cons.prems, of now i] by simp
  then have "budgeted M (fst (finalize_all now is T'))" by (rule Cons.IH)
  then show ?case by (cases "finalize_all now is T'") (simp add: m)
qed simp

lemma budgeted_reconcile: "budgeted M T \<Longrightarrow> budgeted M (fst (reconcile_chunks now T))"
  unfolding reconcile_chunks_def Let_def
  by (intro budgeted_finalize_all budget_cancel.table_keeps)

lemma budgeted_reap: "budgeted M T \<Longrightarrow> budgeted M (snd (reap_stale_tasks now M minutes T))"
  unfolding reap_stale_tasks_def Let_def snd_conv
  by (intro budget_lost.table_keeps budget_requeue.table_keeps)

lemma budgeted_park_batch: "budgeted M T \<Longrightarrow> budgeted M (snd (park_awaiting_batch cur i ids T))"
  unfolding park_awaiting_batch_def Let_def snd_conv record_batch_ids_def
  by (intro budget_batch.table_keeps budget_record.table_keeps)

lemma budgeted_repark: "budgeted M T \<Longrightarrow> budgeted M (snd (repark_if_unfinished cur i T))"
  by (auto simp: repark_if_unfinished_def Let_def dest: budgeted_park_batch)

lemma update_where_cong:
  "(\<And>r. r \<in> set T \<Longrightarrow> p r = p' r) \<Longrightarrow> update_where p f T = update_where p' f T"
  by (induction T) (auto simp: table_simps)

lemma budgeted_settle:
  assumes "budgeted M T" and spent: "\<And>t. t \<in> set T \<Longrightarrow> held_by c t \<Longrightarrow> retries_spent t = spent"
  shows "budgeted M (settle now M c spent out T)"
proof (cases out)
  case Returned
  obtain b T' where r: "repark_if_unfinished (Some c) (task_id c) T = (b, T')" by fastforce
  have "budgeted M T'" using budgeted_repark [OF assms(1), of "Some c" "task_id c"] by (simp add: r)
  then show ?thesis
    using budget_done.table_keeps [of T' M] by (cases b) (simp_all add: settle_def Returned finish_def r)
next
  case (Failure e)
  have "budgeted M (update_where (held_by c) (retry_row (exc_text e)) T)" if "spent < M"
    using budget_retry.table_keeps [OF assms(1), of c "exc_text e"] spent that
      update_where_cong [of T "held_by c" "\<lambda>t. held_by c t \<and> retries_spent t < M"]
    by (metis (no_types, lifting))
  then show ?thesis
    using budget_failed.table_keeps [OF assms(1)] by (simp add: settle_def Failure finish_def)
qed (use budget_done.table_keeps [OF assms(1)] budget_defer.table_keeps [OF assms(1)]
      budget_unavailable.table_keeps [OF assms(1)] assms(1) in
    \<open>simp_all add: settle_def finish_def fail_unavailable_payload_def owned_running_claim\<close>)

lemma budgeted_run_held:
  assumes "budgeted M T"
    and "\<And>t. t \<in> set T \<Longrightarrow> held_by (claim_of r) t \<Longrightarrow> retries_spent t = retries_spent r"
  shows "budgeted M (fst (snd (run_held now M known r out T)))"
proof -
  have s: "budgeted M (settle now M (claim_of r) (retries_spent r) out T)"
    using assms by (rule budgeted_settle)
  show ?thesis
    using s budgeted_finalize [OF s] budget_failed.table_keeps [OF assms(1)]
    by (auto simp: run_held_def Let_def finish_def split: option.splits json.splits)
qed

lemma budgeted_release: "budgeted M T \<Longrightarrow> budgeted M (fold REQUEUE_ON_EXIT cs T)"
proof (induction cs arbitrary: T)
  case (Cons c cs)
  have "budgeted M (REQUEUE_ON_EXIT c T)"
    using budget_back.table_keeps [OF Cons.prems, of c]
    by (simp add: REQUEUE_ON_EXIT_def held_by_def [abs_def])
  then show ?case using Cons.IH by simp
qed simp

lemma budgeted_enqueue:
  "budgeted M (tasks qu) \<Longrightarrow> 1 \<le> M \<Longrightarrow> plain p \<Longrightarrow> enqueue now k p d qu = Inr (res, qu')
   \<Longrightarrow> budgeted M (tasks qu')"
  by (auto simp: enqueue_def and_then_Inr_iff new_task_def budget_simps plain_def split: if_splits)

lemma budgeted_claim:
  assumes "budgeted M T" and "distinct (map tid T)"
    and "claim_task now env name heavy srcs budgets locked T = (Some r, T')"
  shows "budgeted M T'"
proof -
  from assms(3) obtain t where t: "t \<in> set T" "eligible now env heavy budgets locked t"
    "T' = update_where (\<lambda>u. tid u = tid t) (claim_row now name) T"
    by (rule claim_task_Some)
  have "in_budget M (claim_row now name t)"
    using budget_claim.keeps [of t M] assms(1) t by (simp add: eligible_def)
  moreover have "u = t" if "u \<in> set T" "tid u = tid t" for u
    using same_tid [OF assms(2) that(1) t(1) that(2)] .
  ultimately show ?thesis using assms(1) t(3) by (auto simp: table_simps)
qed

lemma budgeted_requeue_recovered:
  assumes "budgeted M T" and "\<And>t. t \<in> set T \<Longrightarrow> tid t = i \<Longrightarrow> marked_unavailable t"
  shows "budgeted M (requeue_recovered i parent T)"
proof -
  let ?T = "case parent of
      Some p \<Rightarrow> if status p = Failed then update_where (\<lambda>t. tid t = tid p) reopen_parent_row T else T
    | None \<Rightarrow> T"
  have T: "budgeted M ?T"
    using budget_reopen.table_keeps [OF assms(1)] assms(1) by (auto split: option.split)
  have "has_key (payload t) ''payload_recovery''" if "t \<in> set ?T" "tid t = i" for t
    using that assms(2)
    by (fastforce simp: table_simps marked_unavailable_def has_key_def reopen_parent_row_def
        split: option.splits if_splits)
  then have "update_where (\<lambda>t. tid t = i) recover_row ?T
      = update_where (\<lambda>t. has_key (payload t) ''payload_recovery'' \<and> tid t = i) recover_row ?T"
    by (intro update_where_cong) blast
  moreover have "in_budget M t" if "t \<in> set (update_where
      (\<lambda>t. has_key (payload t) ''payload_recovery'' \<and> tid t = i) recover_row ?T)" for t
    using that T budget_recover.keeps by (auto simp: table_simps)
  ultimately show ?thesis by (simp add: requeue_recovered_def)
qed

lemma retry_cases:
  assumes "retry job_kinds st i seen db = (res, tbl)"
  obtains "tbl = rd_tasks db" | source parent where "row (rd_tasks db) i = Some source"
    "marked_unavailable source" "status source = Failed"
    "tbl = requeue_recovered i parent (rd_tasks db)"
    "\<And>p. parent = Some p \<Longrightarrow> row (rd_tasks db) (tid p) = Some p"
  using assms
  by (fastforce simp: retry_def locked_retry_def split: option.splits if_splits)

lemma budgeted_retry:
  assumes "budgeted M (rd_tasks db)" "distinct (map tid (rd_tasks db))"
    and "retry job_kinds st i seen db = (res, tbl)"
  shows "budgeted M tbl"
  using assms(3)
proof (cases rule: retry_cases)
  case (2 source parent)
  have "marked_unavailable t" if "t \<in> set (rd_tasks db)" "tid t = i" for t
    using row_unique [OF assms(2) 2(1) that] 2(2) by simp
  then show ?thesis using budgeted_requeue_recovered [OF assms(1)] 2(4) by blast
qed (use assms(1) in simp)

section \<open>The budget of the fleet\<close>

definition budget_inv :: "int \<Rightarrow> world \<Rightarrow> bool" where
  "budget_inv M w \<longleftrightarrow> 1 \<le> M \<longrightarrow> fleet_inv w \<and> budgeted M (tasks_of w)"

lemma held_retries:
  assumes "fleet_inv w" "r \<in> runs w" "t \<in> set (tasks_of w)" "held_by (claim_of r) t"
  shows "retries_spent t = retries_spent r"
  using assms held_by_claim_of [OF assms(4)] stampsD(7) [of "next_id (q w)" "tasks_of w" "runs w" r t]
  by (simp add: fleet_inv_def retries_spent_def)

lemma budgeted_step:
  assumes inv: "fleet_inv w" "budgeted M (tasks_of w)" "1 \<le> M" and "step M w w'"
  shows "budgeted M (tasks_of w')"
proof -
  have keys: "distinct (map tid (tasks_of w))" using inv(1) stampsD(1) by (auto simp: fleet_inv_def)
  from \<open>step M w w'\<close> show ?thesis
  proof cases
    case (enqueue now k p d res q')
    then show ?thesis using budgeted_enqueue inv(2,3) by (simp add: tasks_of_def)
  next
    case (claim now env name heavy srcs budgets locked r tbl)
    then show ?thesis using budgeted_claim [OF inv(2) keys claim(2)] by (simp add: with_tasks_def tasks_of_def)
  next
    case (progress r data now i prog only)
    then show ?thesis
      using budget_progress.table_keeps
        [OF inv(2), of data "progress_target (Some (claim_of r)) only i" now prog]
      by (simp add: write_progress_def)
  next
    case (merge data ks i)
    then show ?thesis
      using budget_merge.table_keeps [OF inv(2), of data "\<lambda>t. tid t = i" ks]
      by (simp add: merge_payload_def plain_def)
  next
    case (settle r now known out)
    then show ?thesis using budgeted_run_held [OF inv(2) held_retries [OF inv(1) settle(2)]] by simp
  next
    case (recover job_kinds st i seen db res tbl)
    then show ?thesis using budgeted_retry [OF _ _ recover(2)] inv(2) keys by simp
  next
    case (collect i unfinished)
    then show ?thesis
      using budget_merge.table_keeps [OF inv(2), of "collected_data unfinished" "\<lambda>t. tid t = i" "[]"]
      by (simp add: merge_payload_def collected_data_def get_def)
  next
    case (heartbeat r now)
    show ?thesis unfolding heartbeat(1) heartbeat_def tasks_of_simps snd_conv
      by (rule budget_beat.table_keeps [OF inv(2)])
  next
    case (record_ids i ids)
    show ?thesis unfolding record_ids(1) record_batch_ids_def tasks_of_simps
      by (rule budget_record.table_keeps [OF inv(2)])
  next
    case (park_waiting r n label)
    show ?thesis unfolding park_waiting(1) park_waiting_def tasks_of_simps
      by (rule budget_park.table_keeps [OF inv(2)])
  next
    case (park_batch r ids)
    show ?thesis unfolding park_batch(1) tasks_of_simps by (rule budgeted_park_batch [OF inv(2)])
  next
    case (exit name)
    show ?thesis unfolding exit tasks_of_simps release_all_def by (rule budgeted_release [OF inv(2)])
  next
    case (reap now minutes)
    show ?thesis unfolding reap tasks_of_simps by (rule budgeted_reap [OF inv(2)])
  next
    case (cancel now f reply tbl)
    show ?thesis unfolding cancel(1) cancel_tasks_table [OF cancel(2)] cancel_def tasks_of_simps snd_conv
      by (rule budget_cancel.table_keeps [OF inv(2)])
  next
    case (reconcile now)
    show ?thesis unfolding reconcile tasks_of_simps by (rule budgeted_reconcile [OF inv(2)])
  next
    case (finalize now i)
    show ?thesis unfolding finalize tasks_of_simps by (rule budgeted_finalize [OF inv(2)])
  next
    case (resume i)
    show ?thesis unfolding resume resume_parked_def tasks_of_simps
      by (rule budget_resume.table_keeps [OF inv(2)])
  next
    case (abandon r)
    show ?thesis unfolding abandon tasks_of_simps by (rule inv(2))
  next
    case (crash name)
    show ?thesis unfolding crash tasks_of_simps by (rule inv(2))
  qed
qed

interpretation budget: invariant_system initial "step M" "budget_inv M" for M
proof unfold_locales
  show "budget_inv M w" if "initial w" for w
    using that fleet.init_inv [OF that] by (simp add: budget_inv_def initial_def)
next
  show "budget_inv M w'" if "budget_inv M w" "step M w w'" for w w'
    using that budgeted_step fleet_inv_step by (auto simp: budget_inv_def)
qed

text \<open>
  C5: The retry budget is a bound. With \<open>task_max_attempts\<close> at least one, no sequence of
  claims, losses, deferrals, parks, recoveries and restarts claims a task more than that many
  times beyond the claims that resumed a parked batch; a running task has spent at least one
  retry, and a pending one always has a retry left, so it is never claimed past the budget.
\<close>

theorem retry_budget_bounds_claims:
  assumes "reachable M w" "1 \<le> M" "t \<in> set (tasks_of w)"
  shows "0 \<le> retries_spent t \<and> retries_spent t \<le> M
    \<and> (status t = Running \<longrightarrow> 1 \<le> retries_spent t)
    \<and> (status t = Pending \<longrightarrow> retries_spent t < M)"
proof -
  have "in_budget M t" using budget.reach_inv [OF assms(1)] assms(2,3) by (simp add: budget_inv_def)
  then show ?thesis by (auto simp: in_budget_def retries_spent_def)
qed

theorem retry_budget_bounds_claims_witness:
  "retries_spent second_run \<le> 3 \<and> 1 \<le> retries_spent second_run"
proof -
  have "second_run \<in> set (tasks_of world_reclaimed)" "status second_run = Running"
    by (simp_all add: world_reclaimed_def tasks_of_def second_run_def claim_row_def)
  then show ?thesis
    using retry_budget_bounds_claims [OF reachable_reclaimed, of second_run] by simp
qed

end
