(* ===== verification/Fleet_Care.thy ===== *)
theory Fleet_Care
  imports Fleet_Budget
begin

text \<open>
  Two promises the fleet's writes keep row by row: the end of a task, done or cancelled by an
  administrator, is final, and the provider batches a task has paid for stay named in its
  payload until their results are collected or the task is done.
\<close>

section \<open>The relation every write keeps\<close>

definition paid_ids :: "Task \<Rightarrow> string set" where
  "paid_ids t = set (strings (payload t) ''batch_ids'')"

definition careful :: "Task \<Rightarrow> Task \<Rightarrow> bool" where
  "careful t t' \<longleftrightarrow>
     tid t' = tid t \<and> (status t = Cancelled \<longrightarrow> status t' = Cancelled)
     \<and> (status t = Done \<longrightarrow> status t' = Done)
     \<and> (status t' = Done \<or> paid_ids t \<subseteq> paid_ids t')"

lemma careful_refl: "careful t t"
  by (simp add: careful_def)

lemma careful_trans: "careful t u \<Longrightarrow> careful u v \<Longrightarrow> careful t v"
  by (auto simp: careful_def)

lemma careful_table_refl: "list_all2 careful T T"
  by (simp add: list.rel_refl careful_refl)

lemma careful_table_trans:
  "list_all2 careful a b \<Longrightarrow> list_all2 careful b c \<Longrightarrow> list_all2 careful a c"
  by (rule list_all2_trans [of careful careful careful]) (auto intro: careful_trans)

lemmas careful_simps = careful_def paid_ids_def

interpretation careful_merge: related_write careful
  "\<lambda>t. get data ''batch_ids'' = None \<and> ''batch_ids'' \<notin> set ks \<and> p t" "merge_payload_row data ks"
  for data ks p
  by unfold_locales
    (auto simp: careful_simps merge_payload_row_def strings_merge_other split: if_splits)
interpretation careful_progress: related_write careful
  "\<lambda>t. get data ''batch_ids'' = None \<and> p t" "progress_row now prog data" for now prog data p
  by unfold_locales (auto simp: careful_simps progress_row_def strings_merge_other)
interpretation careful_record: related_write careful p "record_batch_ids_row ids" for p ids
  by unfold_locales (auto simp: careful_simps record_batch_ids_row_def recorded_batch_ids_def
      strings_def split: option.splits json.splits)
interpretation careful_beat: related_write careful p "beat_row now" for p now
  by unfold_locales (auto simp: careful_simps beat_row_def)
interpretation careful_parent: related_write careful p "parent_progress_row now n" for p now n
  by unfold_locales (auto simp: careful_simps parent_progress_row_def)
interpretation careful_finalize: related_write careful "\<lambda>t. tid t = i \<and> status t = Waiting"
  "finalize_row now n" for i now n
  by unfold_locales (auto simp: careful_simps finalize_row_def)
interpretation careful_cancel: related_write careful "cancel_matches CANCELLABLE f"
  "cancel_row now why" for f now why
  by unfold_locales (auto simp: careful_simps cancel_row_def cancel_matches_def CANCELLABLE_def
      ACTIVE_STATUSES_def)
interpretation careful_orphan: related_write careful "orphaned_chunk T" "cancel_row now why"
  for T now why
  by unfold_locales (auto simp: careful_simps cancel_row_def orphaned_chunk_def)
interpretation careful_finish: related_write careful "owned_running cur i" "finish_row now st err"
  for cur i now st err
  by unfold_locales (auto simp: careful_simps finish_row_def owned_running_def)
interpretation careful_unavailable: related_write careful "owned_running cur i"
  "fail_unavailable_payload_row now msg" for cur i now msg
  by unfold_locales (auto simp: careful_simps fail_unavailable_payload_row_def owned_running_def
      strings_merge_other get_def)
interpretation careful_park: related_write careful "owned_running cur i" "park_waiting_row n label"
  for cur i n label
  by unfold_locales (auto simp: careful_simps park_waiting_row_def owned_running_def)
interpretation careful_batch: related_write careful "owned_running cur i" park_batch_row for cur i
  by unfold_locales (auto simp: careful_simps park_batch_row_def owned_running_def)
interpretation careful_resume: related_write careful "\<lambda>t. tid t = i \<and> status t = Awaiting_batch"
  resume_row for i
  by unfold_locales (auto simp: careful_simps resume_row_def)
interpretation careful_requeue: related_write careful "reapable now M minutes" requeue_row
  for now M minutes
  by unfold_locales (auto simp: careful_simps requeue_row_def reapable_def)
interpretation careful_lost: related_write careful "lost now M minutes" "lost_row now'"
  for now M minutes now'
  by unfold_locales (auto simp: careful_simps lost_row_def lost_def)
interpretation careful_defer: related_write careful "held_by c" "defer_row nb" for c nb
  by unfold_locales (auto simp: careful_simps defer_row_def held_by_def)
interpretation careful_retry: related_write careful "held_by c" "retry_row msg" for c msg
  by unfold_locales (auto simp: careful_simps retry_row_def held_by_def)
interpretation careful_back: related_write careful
  "\<lambda>t. tid t = i \<and> status t = Running \<and> stamped c t" give_back_row for i c
  by unfold_locales (auto simp: careful_simps give_back_row_def)
interpretation careful_claim: related_write careful "\<lambda>t. tid t = i \<and> status t = Pending"
  "claim_row now name" for i now name
  by unfold_locales (auto simp: careful_simps claim_row_def)
interpretation careful_recover: related_write careful "\<lambda>t. tid t = i \<and> status t = Failed"
  recover_row for i
  by unfold_locales (auto simp: careful_simps recover_row_def)
interpretation careful_reopen: related_write careful "\<lambda>t. tid t = i \<and> status t = Failed"
  reopen_parent_row for i
  by unfold_locales (auto simp: careful_simps reopen_parent_row_def)

section \<open>Careful operations\<close>

lemma careful_maybe_finalize: "list_all2 careful T (fst (maybe_finalize_parent now i T))"
  by (auto simp: maybe_finalize_parent_def update_parent_progress_def Let_def
      careful_parent.table_related intro!: careful_finalize.table_chain split: option.split)

lemma careful_finalize_all: "list_all2 careful T (fst (finalize_all now is T))"
proof (induction "is" arbitrary: T)
  case (Cons i "is")
  obtain T' fs where m: "maybe_finalize_parent now i T = (T', fs)" by fastforce
  have "list_all2 careful T T'" using careful_maybe_finalize [of T now i] by (simp add: m)
  then have "list_all2 careful T (fst (finalize_all now is T'))"
    using Cons.IH by (rule careful_table_trans)
  then show ?case by (cases "finalize_all now is T'") (simp add: m)
qed (simp add: careful_table_refl)

lemma careful_reconcile: "list_all2 careful T (fst (reconcile_chunks now T))"
  unfolding reconcile_chunks_def Let_def
  by (rule careful_table_trans [OF careful_orphan.table_related careful_finalize_all])

lemma careful_park_awaiting: "list_all2 careful T (snd (park_awaiting_batch cur i ids T))"
  by (simp add: park_awaiting_batch_def Let_def careful_batch.table_chain
      careful_record.table_related record_batch_ids_def)

lemma careful_settle: "list_all2 careful T (settle now M c spent out T)"
proof (cases out)
  case Returned
  obtain b T' where r: "repark_if_unfinished (Some c) (task_id c) T = (b, T')" by fastforce
  have "list_all2 careful T T'"
    using careful_park_awaiting r
    by (auto simp: repark_if_unfinished_def Let_def careful_table_refl split: if_splits)
      (metis snd_conv)
  then show ?thesis
    by (cases b) (simp_all add: settle_def Returned r finish_def careful_finish.table_chain)
qed (auto simp: settle_def finish_def fail_unavailable_payload_def careful_table_refl
    careful_finish.table_related careful_unavailable.table_related careful_defer.table_related
    careful_retry.table_related)

lemma careful_run_held: "list_all2 careful T (fst (snd (run_held now M known r out T)))"
  using careful_table_trans [OF careful_settle careful_maybe_finalize]
  by (auto simp: run_held_def Let_def finish_def careful_finish.table_related careful_settle
      split: option.splits json.splits)

lemma careful_release: "list_all2 careful T (fold REQUEUE_ON_EXIT cs T)"
proof (induction cs arbitrary: T)
  case (Cons c cs)
  have "list_all2 careful T (REQUEUE_ON_EXIT c T)"
    by (simp add: REQUEUE_ON_EXIT_def careful_back.table_related)
  then show ?case using careful_table_trans [OF _ Cons.IH] by simp
qed (simp add: careful_table_refl)

text \<open>A write by id is a write of the one row with that id, whose status is known.\<close>

lemma update_by_id:
  assumes "distinct (map tid T)" "row T i = Some t" "status t = s"
  shows "update_where (\<lambda>u. tid u = i) f T = update_where (\<lambda>u. tid u = i \<and> status u = s) f T"
  using row_unique [OF assms(1,2)] assms(3) by (intro update_where_cong) auto

lemma row_update_other:
  "i \<noteq> j \<Longrightarrow> (\<And>t. tid (f t) = tid t) \<Longrightarrow> row (update_where (\<lambda>t. tid t = j) f T) i = row T i"
  by (induction T) (auto simp: row_def table_simps)

lemma careful_retry_op:
  assumes "distinct (map tid (rd_tasks db))" "retry job_kinds st i seen db = (res, tbl)"
  shows "list_all2 careful (rd_tasks db) tbl"
  using assms(2)
proof (cases rule: retry_cases)
  case 1
  then show ?thesis by (simp add: careful_table_refl)
next
  case (2 source parent)
  let ?T = "rd_tasks db"
  let ?U = "case parent of
      Some p \<Rightarrow> if status p = Failed then update_where (\<lambda>t. tid t = tid p) reopen_parent_row ?T else ?T
    | None \<Rightarrow> ?T"
  have U: "list_all2 careful ?T ?U"
    using 2(5) update_by_id [OF assms(1)] careful_reopen.table_related
    by (auto simp: careful_table_refl split: option.split)
  show ?thesis
  proof (cases "\<exists>p. parent = Some p \<and> tid p = i \<and> status p = Failed")
    case True
    then obtain p where p: "parent = Some p" "tid p = i" "status p = Failed" by blast
    have "list_all2 careful ?T (update_where (\<lambda>t. tid t = i \<and> status t = Failed)
        (recover_row \<circ> reopen_parent_row) ?T)"
      by (auto simp: update_where_def list_all2_map2 careful_simps recover_row_def
          reopen_parent_row_def intro!: list.rel_refl_strong)
    moreover have "requeue_recovered i parent ?T
        = update_where (\<lambda>t. tid t = i) (recover_row \<circ> reopen_parent_row) ?T"
      by (simp add: requeue_recovered_def p update_where_def reopen_parent_row_def)
    ultimately show ?thesis
      using update_by_id [OF assms(1) 2(1,3), of "recover_row \<circ> reopen_parent_row"] 2(4) by simp
  next
    case False
    have "row ?U i = Some source"
      using 2(1) False row_update_other [of i _ reopen_parent_row]
      by (auto simp: reopen_parent_row_def split: option.splits)
    moreover have "distinct (map tid ?U)"
      using assms(1) update_where_key [of tid reopen_parent_row]
      by (auto simp: reopen_parent_row_def split: option.split)
    ultimately have "update_where (\<lambda>t. tid t = i) recover_row ?U
        = update_where (\<lambda>t. tid t = i \<and> status t = Failed) recover_row ?U"
      using update_by_id 2(3) by blast
    then show ?thesis using careful_recover.table_chain [OF U, of i] 2(4) by (simp add: requeue_recovered_def)
  qed
qed

section \<open>Final statuses and paid batches\<close>

text \<open>\<open>collecting w w' i unfinished\<close>: the step stores task \<open>i\<close>'s results and keeps only \<open>unfinished\<close>.\<close>

definition collecting :: "world \<Rightarrow> world \<Rightarrow> int \<Rightarrow> string list \<Rightarrow> bool" where
  "collecting w w' i unfinished \<longleftrightarrow>
     tasks_of w' = merge_payload i (collected_data unfinished) [] (tasks_of w)"

lemma collecting_row:
  assumes "collecting w w' i unfinished" "t \<in> set (tasks_of w)"
  shows "(if tid t = i then merge_payload_row (collected_data unfinished) [] t else t)
    \<in> set (tasks_of w')"
  using assms by (auto simp: collecting_def merge_payload_def table_simps)

lemma step_careful:
  assumes inv: "fleet_inv w" and "step M w w'"
  shows "(\<exists>T. list_all2 careful (tasks_of w) T \<and> set T \<subseteq> set (tasks_of w'))
    \<or> (\<exists>i unfinished. collecting w w' i unfinished)"
proof -
  let ?T = "tasks_of w"
  have keys: "distinct (map tid ?T)" using inv stampsD(1) by (auto simp: fleet_inv_def)
  have here: ?thesis if "list_all2 careful ?T (tasks_of w')" using that by blast
  from assms(2) show ?thesis
  proof cases
    case (enqueue now k p d res q')
    then have "set ?T \<subseteq> set (tasks_of w')"
      by (auto simp: tasks_of_def enqueue_def and_then_Inr_iff split: if_splits)
    then show ?thesis using careful_table_refl by blast
  next
    case (claim now env name heavy srcs budgets locked r tbl)
    from claim(2) obtain t where t: "t \<in> set ?T" "eligible now env heavy budgets locked t"
      "tbl = update_where (\<lambda>u. tid u = tid t) (claim_row now name) ?T"
      by (rule claim_task_Some)
    have "tbl = update_where (\<lambda>u. tid u = tid t \<and> status u = Pending) (claim_row now name) ?T"
      using t same_tid [OF keys _ t(1)] by (auto simp: eligible_def intro!: update_where_cong)
    moreover have "tasks_of w' = tbl" using claim(1) by (simp add: tasks_of_def with_tasks_def)
    ultimately show ?thesis using here careful_claim.table_related by simp
  next
    case (progress r data now i prog only)
    then show ?thesis
      using here careful_progress.table_related
        [where data = data and p = "progress_target (Some (claim_of r)) only i" and tbl = ?T]
      by (simp add: write_progress_def plain_def)
  next
    case (merge data ks i)
    then show ?thesis
      using here careful_merge.table_related
        [where data = data and ks = ks and p = "\<lambda>t. tid t = i" and tbl = ?T]
      by (simp add: merge_payload_def plain_def)
  next
    case (collect i unfinished)
    then show ?thesis by (auto simp: collecting_def)
  next
    case (cancel now f reply tbl)
    then have "tasks_of w' = update_where (cancel_matches CANCELLABLE f)
        (cancel_row now ''cancelled by admin'') ?T"
      using cancel_tasks_table [OF cancel(2)] by (simp add: cancel_def)
    then show ?thesis using here careful_cancel.table_related by simp
  next
    case (recover job_kinds st i seen db res tbl)
    then show ?thesis using here careful_retry_op [OF _ recover(2)] keys by simp
  next
    case (reap now minutes)
    then show ?thesis
      using here
      by (simp add: reap_stale_tasks_def Let_def careful_lost.table_chain careful_requeue.table_related)
  qed (rule here, simp add: heartbeat_def careful_beat.table_related record_batch_ids_def
      careful_record.table_related park_waiting_def careful_park.table_related
      careful_park_awaiting careful_run_held careful_table_refl release_all_def careful_release
      careful_reconcile careful_maybe_finalize resume_parked_def careful_resume.table_related)+
qed

text \<open>
  C6: The end of a task is final. A task an administrator cancelled stays cancelled, and a task
  that is done stays done, whatever any worker, reaper, finalizer or recovery does next; in
  particular a worker still running a cancelled task cannot finish it.
\<close>

theorem cancelled_and_done_are_final:
  assumes "reachable M w" "step M w w'" "t \<in> set (tasks_of w)" "status t \<in> {Cancelled, Done}"
  shows "\<exists>t' \<in> set (tasks_of w'). tid t' = tid t \<and> status t' = status t"
proof -
  have inv: "fleet_inv w" by (rule fleet.reach_inv [OF assms(1)])
  from step_careful [OF inv assms(2)] show ?thesis
  proof
    assume "\<exists>T. list_all2 careful (tasks_of w) T \<and> set T \<subseteq> set (tasks_of w')"
    then show ?thesis
      using list_all2_set_left [of careful "tasks_of w" _ t] assms(3,4)
      by (auto simp: careful_def) (metis subsetD)+
  next
    assume "\<exists>i unfinished. collecting w w' i unfinished"
    then obtain i unfinished where "collecting w w' i unfinished" by blast
    then show ?thesis
      using collecting_row [OF _ assms(3)] by (metis Task.select_convs(1,6) Task.surjective Task.update_convs(3) merge_payload_row_def)
  qed
qed

definition world_cancelled :: world where
  "world_cancelled =
     with_tasks world_claimed [cancel_row 20 ''cancelled by admin'' first_run]"

lemma reachable_cancelled: "reachable 3 world_cancelled"
proof (rule reach.more [OF reachable_claimed])
  show "step 3 world_claimed world_cancelled"
    unfolding world_cancelled_def
    by (rule step.cancel [of 20 "\<lparr>f_ids = Some [1], f_kind = None, f_status = None, f_source = None\<rparr>"
          _ "([1], [])"])
      (simp add: cancel_tasks_def cancel_def cancel_matches_def CANCELLABLE_def ACTIVE_STATUSES_def
        TASK_STATUSES_def table_simps sample_defs tasks_of_def)
qed

theorem cancelled_and_done_are_final_witness:
  "\<exists>t' \<in> set (tasks_of (with_tasks (end_run first_run world_cancelled)
       (fst (snd (run_held 30 3 [''data_health''] first_run Returned (tasks_of world_cancelled)))))).
     tid t' = 1 \<and> status t' = Cancelled"
proof -
  let ?t = "cancel_row 20 ''cancelled by admin'' first_run"
  have "first_run \<in> runs world_cancelled" "?t \<in> set (tasks_of world_cancelled)"
    by (simp_all add: world_cancelled_def world_claimed_def)
  then show ?thesis
    using cancelled_and_done_are_final [OF reachable_cancelled step.settle, of first_run ?t]
    by (simp add: cancel_row_def sample_defs)
qed


definition world_paid :: world where
  "world_paid = with_tasks world_claimed (record_batch_ids 1 [''batch_7''] (tasks_of world_claimed))"

lemma reachable_paid: "reachable 3 world_paid"
  unfolding world_paid_def by (rule reach.more [OF reachable_claimed step.record_ids])

lemma world_paid_tasks:
  "tasks_of world_paid = [first_run\<lparr>payload := [(''batch_ids'', JArr [JStr ''batch_7''])]\<rparr>]"
  by (simp add: world_paid_def record_batch_ids_def record_batch_ids_row_def recorded_batch_ids_def
      put_def drop_keys_def get_def table_simps sample_defs tasks_of_def with_tasks_def)


end
