(* ===== verification/Queue_Properties.thy ===== *)
theory Queue_Properties
  imports Fleet_Care
begin

text \<open>
  What single operations of the queue do: which task a claim takes and how long a scheduled
  pull can be passed over, what the reaper does with a silent worker's tasks, when a parent
  ends, which failed tasks an operator can recover, what the poll of parked batches wakes, and
  how pulls of a failing source back off.
\<close>

section \<open>Claims\<close>



text \<open>
  A scheduled pull is not passed over for longer than its source's own interval. While a
  pull is eligible, no task created later than one interval after it is claimed before it.
\<close>

theorem pull_wait_is_one_interval:
  assumes "claim_task now env name heavy srcs budgets locked T = (Some r, T')"
    and "t \<in> set T" "eligible now env heavy budgets locked t"
    and "\<forall>s \<in> set srcs. 0 \<le> s_interval_hours s"
  shows "created_at r \<le> created_at t + source_interval srcs t"
proof -
  have shift: "0 \<le> source_interval srcs u" for u
    using assms(4) by (auto simp: source_interval_def find_Some_iff split: option.split)
  from assms(1) obtain u where u: "r = claim_row now name u"
    "CLAIM_ORDER srcs u \<le> CLAIM_ORDER srcs t"
    using assms(2,3) by (elim claim_task_Some) blast
  then show ?thesis
    using shift [of u] shift [of t]
    by (auto simp: CLAIM_ORDER_def claim_row_def less_eq_prod_def split: if_splits)
qed

theorem pull_wait_is_one_interval_witness:
  "created_at first_run \<le> created_at sample_row + source_interval [] sample_row"
proof -
  have "claim_task 10 sample_env ''oci'' [] [] [] [] [sample_row] = (Some first_run, [first_run])"
    by (simp add: claim_task_def eligible_def kinds_clause_def host_open_def Let_def table_simps
        sample_defs)
  from pull_wait_is_one_interval [OF this, of sample_row] show ?thesis
    by (simp add: eligible_def kinds_clause_def host_open_def sample_defs)
qed

section \<open>The reaper\<close>

text \<open>
  The reaper gives every task of a silent worker exactly one outcome: back to the queue
  while its retries are under the budget, failed otherwise, keeping its attempts and its
  payload either way. A task whose heart beats, or that is not running, is not touched, and
  the two counts it reports are those outcomes.
\<close>

theorem reaper_settles_silent_tasks:
  "reap_stale_tasks now M minutes T =
     ((length (filter (\<lambda>t. status t = Running \<and> stale now minutes t \<and> retries_spent t < M) T),
       length (filter (\<lambda>t. status t = Running \<and> stale now minutes t \<and> M \<le> retries_spent t) T)),
      map (\<lambda>t. if status t = Running \<and> stale now minutes t
               then (if retries_spent t < M then requeue_row t else lost_row now t) else t) T)"
proof -
  let ?R = "reapable now M minutes" and ?L = "lost now M minutes"
  have gone: "?L (if ?R t then requeue_row t else t) = ?L t" for t
    by (simp add: reapable_def lost_def requeue_row_def)
  have "update_where ?L (lost_row now) (update_where ?R requeue_row T) =
      map (\<lambda>t. if ?L t then lost_row now t else if ?R t then requeue_row t else t) T"
    by (auto simp: update_where_def gone reapable_def lost_def requeue_row_def)
  moreover have "row_count ?L (update_where ?R requeue_row T) = row_count ?L T"
    by (simp add: row_count_def update_where_def filter_map o_def gone)
  ultimately show ?thesis
    by (auto simp: reap_stale_tasks_def Let_def row_count_def reapable_def lost_def
        intro!: arg_cong [where f = length] filter_cong)
qed

section \<open>Parents\<close>

lemma row_count_update:
  "(\<And>r. p (f r) = p r) \<Longrightarrow> row_count p (update_where g f T) = row_count p T"
  by (induction T) (auto simp: row_count_def table_simps)

lemma update_other: "u \<in> set T \<Longrightarrow> \<not> g u \<Longrightarrow> u \<in> set (update_where g f T)"
  by (force simp: table_simps)

lemma row_eq_Some: "distinct (map tid T) \<Longrightarrow> t \<in> set T \<Longrightarrow> tid t = i \<Longrightarrow> row T i = Some t"
  using row_unique by (cases "row T i") (fastforce simp: row_def find_None_iff)+

text \<open>
  A parent ends exactly when it waits and no chunk of it is live. It then fails when some
  chunk failed and is done otherwise; while a chunk is pending, running or parked on a batch it
  keeps waiting, a parent that does not wait is left alone, and no other row changes.
\<close>

theorem parent_ends_with_its_last_chunk:
  assumes "distinct (map tid T)" "p \<in> set T"
  shows "(\<exists>p'. row (fst (maybe_finalize_parent now (tid p) T)) (tid p) = Some p'
      \<and> status p' =
          (if status p \<noteq> Waiting \<or> (\<exists>c \<in> set T. chunk_of (tid p) c \<and> live_status (status c))
           then status p
           else if \<exists>c \<in> set T. chunk_of (tid p) c \<and> status c = Failed then Failed else Done))
    \<and> (\<forall>u \<in> set T. tid u \<noteq> tid p \<longrightarrow> u \<in> set (fst (maybe_finalize_parent now (tid p) T)))"
proof -
  let ?i = "tid p"
  let ?T = "update_parent_progress now ?i T"
  let ?g = "parent_progress_row now (sum_list (map progress_done (filter (chunk_of ?i) T)))"
  let ?p = "if status p = Waiting then ?g p else p"
  have g: "tid (?g u) = tid u" "status (?g u) = status u" "chunk_of i (?g u) = chunk_of i u" for i u
    by (simp_all add: parent_progress_row_def chunk_of_def)
  have key: "distinct (map tid ?T)"
    using assms(1) update_where_key [of tid ?g] by (simp add: update_parent_progress_def g)
  have pT: "?p \<in> set ?T" using assms(2) by (auto simp: update_parent_progress_def table_simps)
  have r: "row ?T ?i = Some ?p" by (rule row_eq_Some [OF key pT]) (simp add: g)
  have count: "row_count (\<lambda>t. chunk_of ?i t \<and> P (status t)) ?T = 0
      \<longleftrightarrow> \<not> (\<exists>c \<in> set T. chunk_of ?i c \<and> P (status c))" for P
    by (simp add: update_parent_progress_def row_count_update g) (simp add: row_count_0_iff)
  let ?n = "row_count (\<lambda>t. chunk_of ?i t \<and> status t = Failed) ?T"
  let ?F = "update_where (\<lambda>t. tid t = ?i \<and> status t = Waiting) (finalize_row now ?n) ?T"
  have F: "row ?F ?i = Some (if status p = Waiting then finalize_row now ?n (?g p) else p)"
  proof (rule row_eq_Some)
    show "distinct (map tid ?F)"
      using key update_where_key [of tid "finalize_row now ?n"] by (simp add: finalize_row_def)
  qed (use pT in \<open>auto simp: table_simps g finalize_row_def split: if_splits\<close>)
  have m: "fst (maybe_finalize_parent now ?i T) =
      (if status p \<noteq> Waiting \<or> (\<exists>c \<in> set T. chunk_of ?i c \<and> live_status (status c)) then ?T else ?F)"
    using count [of live_status] r by (auto simp: maybe_finalize_parent_def Let_def g split: if_splits)
  have "\<exists>p'. row (fst (maybe_finalize_parent now ?i T)) ?i = Some p' \<and> status p' =
      (if status p \<noteq> Waiting \<or> (\<exists>c \<in> set T. chunk_of ?i c \<and> live_status (status c)) then status p
       else if \<exists>c \<in> set T. chunk_of ?i c \<and> status c = Failed then Failed else Done)"
    using r F count [of "\<lambda>s. s = Failed"] unfolding m by (auto simp: g finalize_row_def)
  moreover have "u \<in> set (fst (maybe_finalize_parent now ?i T))" if "u \<in> set T" "tid u \<noteq> ?i" for u
    using update_other [OF update_other [OF that(1), of "\<lambda>t. tid t = ?i \<and> status t = Waiting" ?g]]
      update_other [OF that(1)] that(2)
    unfolding m update_parent_progress_def by simp
  ultimately show ?thesis by blast
qed

theorem parent_ends_with_its_last_chunk_witness:
  "\<exists>p'. row (fst (maybe_finalize_parent 9 1 [sample_row\<lparr>status := Waiting\<rparr>,
       sample_row\<lparr>tid := 2, kind := ''reverify_chunk'', parent_id := Some 1, status := Failed\<rparr>])) 1
     = Some p' \<and> status p' = Failed"
proof -
  let ?p = "sample_row\<lparr>status := Waiting\<rparr>"
  let ?c = "sample_row\<lparr>tid := 2, kind := ''reverify_chunk'', parent_id := Some 1, status := Failed\<rparr>"
  have "distinct (map tid [?p, ?c])" "?p \<in> set [?p, ?c]" by (simp_all add: sample_defs)
  from parent_ends_with_its_last_chunk [OF this, of 9] show ?thesis
    by (simp add: sample_defs chunk_of_def live_status_def CHUNK_KINDS_def)
qed

section \<open>Recovery\<close>

text \<open>
  C37: An operator's recovery never buys paid work twice. It requeues a task only when the task
  failed with the unavailable-payload marker, nothing it read changed before the locks were
  taken, every payload the rerun needs can be read, its parent (if any) waits or failed on its
  chunks, and the provider ledger names no batch the task has lost track of; the requeued row
  keeps its batch ids and its attempts and loses the marker. In every other case no row
  changes.
\<close>

theorem recovery_requeues_only_replayable_work:
  assumes "distinct (map tid (rd_tasks db))" "retry job_kinds st i seen db = (res, tbl)"
  shows "if res = Requeued
    then \<exists>t t'. row (rd_tasks seen) i = Some t \<and> row (rd_tasks db) i = Some t
      \<and> status t = Failed \<and> marked_unavailable t
      \<and> rd_requests db = rd_requests seen \<and> rd_receipts db = rd_receipts seen
      \<and> payloads_readable job_kinds st t seen \<and> \<not> ambiguous i t db
      \<and> (\<forall>p. parent_of t = Some p \<longrightarrow> kind t \<in> set CHUNK_KINDS
           \<and> (\<exists>parent. row (rd_tasks seen) p = Some parent \<and> recoverable_parent parent))
      \<and> row tbl i = Some t' \<and> status t' = Pending \<and> worker t' = None
      \<and> attempts t' = attempts t \<and> paid_ids t' = paid_ids t \<and> \<not> marked_unavailable t'
    else tbl = rd_tasks db"
proof (cases "res = Requeued")
  case False
  then show ?thesis
    using assms(2) by (auto simp: retry_def locked_retry_def split: option.splits if_splits)
next
  case True
  from assms(2) True obtain t parent where t: "row (rd_tasks seen) i = Some t"
      "row (rd_tasks db) i = Some t" "status t = Failed" "marked_unavailable t"
      "rd_requests db = rd_requests seen" "rd_receipts db = rd_receipts seen"
      "payloads_readable job_kinds st t seen" "\<not> ambiguous i t db"
      "tbl = requeue_recovered i parent (rd_tasks db)"
    and p: "\<forall>p. parent_of t = Some p \<longrightarrow> kind t \<in> set CHUNK_KINDS
           \<and> (\<exists>parent. row (rd_tasks seen) p = Some parent \<and> recoverable_parent parent)"
    by (auto simp: retry_def locked_retry_def split: option.splits if_splits)
  let ?f = "\<lambda>u. case parent of
      Some p \<Rightarrow> if status p = Failed \<and> tid u = tid p then reopen_parent_row u else u | None \<Rightarrow> u"
  have f: "tid (?f u) = tid u" for u by (auto simp: reopen_parent_row_def split: option.split)
  have tbl: "tbl = map (\<lambda>u. if tid u = i then recover_row (?f u) else ?f u) (rd_tasks db)"
    by (auto simp: t(9) requeue_recovered_def update_where_def reopen_parent_row_def
        split: option.split)
  have "row tbl i = Some (recover_row (?f t))"
  proof (rule row_eq_Some)
    have "map tid tbl = map tid (rd_tasks db)" by (simp add: tbl f recover_row_def)
    then show "distinct (map tid tbl)" using assms(1) by simp
  qed (use row_Some [OF t(2)] in \<open>auto simp: tbl f recover_row_def\<close>)
  moreover have "attempts (?f t) = attempts t" "payload (?f t) = payload t"
    by (auto simp: reopen_parent_row_def split: option.split)
  ultimately show ?thesis
    using t p True by (auto simp: recover_row_def paid_ids_def marked_unavailable_def)
qed

definition failed_row :: Task where
  "failed_row = fail_unavailable_payload_row 5 ''object missing'' first_run"

definition recovery_state :: recovery_db where
  "recovery_state = \<lparr>rd_tasks = [failed_row], rd_requests = [], rd_receipts = [], rd_batches = []\<rparr>"

theorem recovery_requeues_only_replayable_work_witness:
  "\<exists>t'. row (snd (retry [] \<lparr>jobs_readable = True, snapshot_readable = \<lambda>_. True,
        response_readable = \<lambda>_. True\<rparr> 1 recovery_state recovery_state)) 1 = Some t'
     \<and> status t' = Pending \<and> \<not> marked_unavailable t'"
proof -
  let ?st = "\<lparr>jobs_readable = True, snapshot_readable = \<lambda>_. True, response_readable = \<lambda>_. True\<rparr>"
  obtain res tbl where r: "retry [] ?st 1 recovery_state recovery_state = (res, tbl)" by fastforce
  have "res = Requeued"
    using r by (simp add: retry_def locked_retry_def recovery_state_def failed_row_def row_def
        fail_unavailable_payload_row_def marked_unavailable_def parent_of_def payloads_readable_def
        unconsumed_receipts_def ambiguous_def get_def merge_def drop_keys_def sample_defs)
  moreover have "distinct (map tid (rd_tasks recovery_state))" by (simp add: recovery_state_def)
  ultimately show ?thesis
    using recovery_requeues_only_replayable_work [OF _ r] r by auto
qed

section \<open>Batch ids and the poll\<close>

text \<open>
  Recording batch ids is idempotent and loses nothing: afterwards the payload names the ids
  it named before, in their order, and the new ones; recording the same ids again changes
  neither, so a batch is never collected twice; and ids without repetition stay so.
\<close>

theorem recording_batch_ids_is_idempotent:
  assumes "get (payload t) ''batch_ids'' = None \<or> get (payload t) ''batch_ids'' = Some (JStrs old)"
  shows "strings (payload (record_batch_ids_row ids t)) ''batch_ids''
      = strings (payload t) ''batch_ids''
        @ filter (\<lambda>b. b \<notin> set (strings (payload t) ''batch_ids'')) ids
    \<and> strings (payload (record_batch_ids_row ids (record_batch_ids_row ids t))) ''batch_ids''
      = strings (payload (record_batch_ids_row ids t)) ''batch_ids''
    \<and> (distinct ids \<and> distinct (strings (payload t) ''batch_ids'')
        \<longrightarrow> distinct (strings (payload (record_batch_ids_row ids t)) ''batch_ids''))"
proof -
  obtain ss where ss: "recorded_batch_ids (payload t) = map JStr ss"
      "strings (payload t) ''batch_ids'' = ss"
    using assms by (auto simp: recorded_batch_ids_def strings_def JStrs_def)
  have sel: "filter (\<lambda>v. v \<notin> JStr ` set xs) (map JStr ids) = map JStr (filter (\<lambda>b. b \<notin> set xs) ids)"
    for xs by (induction ids) auto
  have one: "strings (payload (record_batch_ids_row ids t)) ''batch_ids''
      = ss @ filter (\<lambda>b. b \<notin> set ss) ids"
    by (simp add: record_batch_ids_row_def ss sel)
  have fresh: "filter (\<lambda>v. v \<notin> set (map JStr ss @ map JStr (filter (\<lambda>b. b \<notin> set ss) ids)))
      (map JStr ids) = []"
    by (auto simp: filter_empty_conv)
  have "recorded_batch_ids (payload (record_batch_ids_row ids t))
      = map JStr (ss @ filter (\<lambda>b. b \<notin> set ss) ids)"
    by (simp add: record_batch_ids_row_def recorded_batch_ids_def [of "put _ _ _"] ss sel)
  then have "strings (payload (record_batch_ids_row ids (record_batch_ids_row ids t))) ''batch_ids''
      = strings (payload (record_batch_ids_row ids t)) ''batch_ids''"
    unfolding one by (subst record_batch_ids_row_def) (simp add: fresh del: set_append set_map)
  then show ?thesis by (auto simp: one ss(2))
qed

theorem recording_batch_ids_is_idempotent_witness:
  "strings (payload (record_batch_ids_row [''b1'', ''b2'']
     (record_batch_ids_row [''b1'', ''b2''] sample_row))) ''batch_ids'' = [''b1'', ''b2'']"
  using recording_batch_ids_is_idempotent [of sample_row "[]" "[''b1'', ''b2'']"]
  by (simp add: sample_row_def new_task_def get_def strings_def)

lemma poll_action_cases:
  "ids = [] \<or> length (finished_ids answers ids) = length ids
   \<Longrightarrow> poll_action now window straggler answers ids ledger = Resume"
  "ids \<noteq> [] \<Longrightarrow> finished_ids answers ids = []
   \<Longrightarrow> poll_action now window straggler answers ids ledger \<in> {Expired_wait, Wait}"
  by (auto simp: poll_action_def Let_def)

lemma resume_keeps_others: "v \<in> set T \<Longrightarrow> tid v \<noteq> i \<Longrightarrow> v \<in> set (resume_parked i T)"
  by (simp add: resume_parked_def update_other)

lemma poll_parked_others:
  "v \<in> set T \<Longrightarrow> tid v \<notin> tid ` set ps
   \<Longrightarrow> v \<in> set (fst (snd (poll_parked now window straggler ask ps T ledger)))"
proof (induction ps arbitrary: T ledger)
  case (Cons u us)
  let ?ids = "strings (payload u) ''batch_ids''"
  let ?ans = "if ?ids = [] then [] else ask ?ids"
  let ?l = "record_progress now ?ans ledger"
  let ?act = "poll_action now window straggler ?ans ?ids ?l"
  let ?T = "if ?act = Resume \<or> ?act = Resume_partial then resume_parked (tid u) T else T"
  have "v \<in> set ?T" using Cons.prems resume_keeps_others by auto
  then have "v \<in> set (fst (snd (poll_parked now window straggler ask us ?T ?l)))"
    using Cons.IH Cons.prems(2) by auto
  then show ?case by (simp only: poll_parked.simps Let_def case_prod_beta fst_conv snd_conv)
qed simp

lemma poll_parked_decided:
  assumes "distinct (map tid ps)" "t \<in> set ps" "t \<in> set T" "status t = Awaiting_batch"
    and act: "\<And>l. poll_action now window straggler
        (if strings (payload t) ''batch_ids'' = [] then [] else ask (strings (payload t) ''batch_ids''))
        (strings (payload t) ''batch_ids'') l \<in> A"
    and A: "A \<subseteq> {Resume, Resume_partial} \<and> t' = resume_row t \<or> A \<inter> {Resume, Resume_partial} = {} \<and> t' = t"
  shows "t' \<in> set (fst (snd (poll_parked now window straggler ask ps T ledger)))"
  using assms(1-4)
proof (induction ps arbitrary: T ledger)
  case (Cons u us)
  let ?ids = "strings (payload u) ''batch_ids''"
  let ?ans = "if ?ids = [] then [] else ask ?ids"
  let ?l = "record_progress now ?ans ledger"
  let ?act = "poll_action now window straggler ?ans ?ids ?l"
  let ?T = "if ?act = Resume \<or> ?act = Resume_partial then resume_parked (tid u) T else T"
  have "t' \<in> set (fst (snd (poll_parked now window straggler ask us ?T ?l)))"
  proof (cases "t = u")
    case True
    have fresh: "tid t' \<notin> tid ` set us" using Cons.prems(1) A True by (auto simp: resume_row_def)
    have "t' \<in> set ?T"
      using A act [of ?l] Cons.prems(3,4) True by (auto simp: resume_parked_def table_simps)
    then show ?thesis using fresh by (rule poll_parked_others)
  next
    case False
    then have "t \<in> set us" using Cons.prems(2) by simp
    moreover have "tid t \<noteq> tid u" using Cons.prems(1) calculation by (metis distinct.simps(2) image_eqI list.simps(9) set_map)
    ultimately show ?thesis
      using Cons.IH [of ?T ?l] Cons.prems resume_keeps_others by auto
  qed
  then show ?case by (simp only: poll_parked.simps Let_def case_prod_beta fst_conv snd_conv)
qed simp

text \<open>
  C36: The poll wakes a parked task when there is something to collect, and only then. A parked
  task whose batches the provider all reports terminal (or that waits on none) goes back to
  the queue with its resume counted; a task none of whose batches is terminal stays parked
  however long it has waited; an answer the provider did not give counts as unfinished.
\<close>

theorem poll_wakes_finished_tasks:
  assumes "distinct (map tid T)" "t \<in> set T" "status t = Awaiting_batch"
    and "ids = strings (payload t) ''batch_ids''"
  shows "((\<forall>b \<in> set ids. \<exists>p. map_of (ask ids) b = Some p \<and> is_terminal (p_status p)) \<longrightarrow>
      resume_row t \<in> set (fst (snd (poll_parked now window straggler ask (parked_tasks T) T ledger))))
    \<and> (ids \<noteq> [] \<and> (\<forall>b \<in> set ids. case map_of (ask ids) b of None \<Rightarrow> True
          | Some p \<Rightarrow> \<not> is_terminal (p_status p)) \<longrightarrow>
      t \<in> set (fst (snd (poll_parked now window straggler ask (parked_tasks T) T ledger))))"
proof -
  have ps: "distinct (map tid (parked_tasks T))" "t \<in> set (parked_tasks T)"
    using assms(1-3) by (auto simp: parked_tasks_def distinct_map intro: inj_on_subset)
  have "resume_row t \<in> set (fst (snd (poll_parked now window straggler ask (parked_tasks T) T ledger)))"
    if all: "\<forall>b \<in> set ids. \<exists>p. map_of (ask ids) b = Some p \<and> is_terminal (p_status p)"
  proof (rule poll_parked_decided [OF ps assms(2,3)])
    have "finished_ids (ask ids) ids = ids"
      using all by (auto simp: finished_ids_def filter_id_conv split: option.splits)
    then show "poll_action now window straggler
        (if strings (payload t) ''batch_ids'' = [] then [] else ask (strings (payload t) ''batch_ids''))
        (strings (payload t) ''batch_ids'') l \<in> {Resume}" for l
      using poll_action_cases(1) [of ids "ask ids"] by (auto simp: assms(4) poll_action_def)
  qed simp
  moreover have "t \<in> set (fst (snd (poll_parked now window straggler ask (parked_tasks T) T ledger)))"
    if none: "ids \<noteq> []" "\<forall>b \<in> set ids. case map_of (ask ids) b of None \<Rightarrow> True
        | Some p \<Rightarrow> \<not> is_terminal (p_status p)"
  proof (rule poll_parked_decided [OF ps assms(2,3)])
    have "finished_ids (ask ids) ids = []"
      using none(2) by (auto simp: finished_ids_def filter_empty_conv split: option.splits)
    then show "poll_action now window straggler
        (if strings (payload t) ''batch_ids'' = [] then [] else ask (strings (payload t) ''batch_ids''))
        (strings (payload t) ''batch_ids'') l \<in> {Expired_wait, Wait}" for l
      using poll_action_cases(2) [of ids "ask ids" now window straggler l] none(1) by (simp add: assms(4))
  qed simp
  ultimately show ?thesis by blast
qed

definition parked_row :: Task where
  "parked_row = sample_row\<lparr>status := Awaiting_batch, attempts := 1,
     payload := [(''batch_ids'', JStrs [''b1''])]\<rparr>"

theorem poll_wakes_finished_tasks_witness:
  "resume_row parked_row \<in> set (fst (snd (poll_parked 9 86400 21600
     (\<lambda>_. [(''b1'', \<lparr>p_status = ''completed'', p_total = 2, p_completed = 2, p_failed = 0\<rparr>)])
     (parked_tasks [parked_row]) [parked_row] [])))"
proof -
  let ?ask = "\<lambda>_ :: string list.
      [(''b1'', \<lparr>p_status = ''completed'', p_total = 2, p_completed = 2, p_failed = 0\<rparr>)]"
  have ids: "[''b1''] = strings (payload parked_row) ''batch_ids''"
    by (simp add: parked_row_def strings_def get_def JStrs_def)
  have st: "status parked_row = Awaiting_batch" by (simp add: parked_row_def)
  have over: "\<forall>b \<in> set [''b1'']. \<exists>p. map_of (?ask [''b1'']) b = Some p \<and> is_terminal (p_status p)"
    by (simp add: is_terminal_def TERMINAL_STATES_def)
  show ?thesis
    by (rule mp [OF conjunct1 [OF poll_wakes_finished_tasks [OF _ _ st ids]] over]) simp_all
qed

section \<open>Exit\<close>

text \<open>
  C39: A worker can exit without giving a held task back. Its dictionary of claims has one entry
  per task id. When a worker that lost a run of a task claims the task again, the older run's
  end removes the entry of the newer one, and the exit then leaves the task running until the
  reaper finds it.
\<close>

theorem exit_can_miss_a_held_task:
  "\<exists>w r. reachable 3 w \<and> r \<in> runs w \<and> worker r = Some ''oci'' \<and> r \<in> set (tasks_of w)
     \<and> held_by (claim_of r) r \<and> release_all ''oci'' (held w) (tasks_of w) = tasks_of w"
proof -
  define r where "r = claim_row 3600000000 ''oci'' (requeue_row first_run)"
  define w where "w = \<lparr>q = \<lparr>tasks = [r], next_id = 2\<rparr>, runs = {r, first_run}, held = [claim_of r]\<rparr>"
  have "step 3 world_reaped w"
    using step.claim [of 3600000000 sample_env "''oci''" "[]" "[]" "[]" "[]" world_reaped r "[r]" 3]
    by (simp add: r_def w_def claim_task_def eligible_def kinds_clause_def host_open_def Let_def
        table_simps sample_defs tasks_of_def with_tasks_def hold_def)
  then have "reachable 3 w" by (rule reach.more [OF reachable_reaped])
  moreover have "step 3 w (end_run first_run w)" by (rule step.abandon) (simp add: w_def)
  ultimately have "reachable 3 (end_run first_run w)" by (rule reach.more)
  moreover have "r \<in> runs (end_run first_run w)"
    by (simp add: w_def) (simp add: r_def sample_defs)
  moreover have "held (end_run first_run w) = []"
    by (simp add: w_def let_go_def r_def sample_defs)
  moreover have "tasks_of (end_run first_run w) = [r]"
    by (simp add: w_def tasks_of_def end_run_def)
  ultimately show ?thesis
    by (intro exI [of _ "end_run first_run w"] exI [of _ r])
      (simp add: release_all_def held_by_def stamped_def claim_of_def r_def claim_row_def)
qed

section \<open>Pulls\<close>

text \<open>
  A failing source is pulled less and less often, within bounds: it waits at least its own
  interval and at most the larger of the interval and the configured cap, a longer run of
  failures never shortens the wait, and the daily pulls are anchored at the configured hour of
  the last twenty-four hours.
\<close>

theorem failing_pulls_back_off:
  assumes "0 \<le> interval" "m \<le> n"
  shows "interval \<le> pull_wait_hours cap interval n
    \<and> pull_wait_hours cap interval n \<le> max interval cap
    \<and> pull_wait_hours cap interval m \<le> pull_wait_hours cap interval n"
proof -
  have "(2::int) ^ (m - 1) \<le> 2 ^ (n - 1)" using assms(2) by (intro power_increasing) auto
  then have "interval * 2 ^ (m - 1) \<le> interval * 2 ^ (n - 1)"
    using assms(1) by (rule mult_left_mono)
  then show ?thesis by (simp add: pull_wait_hours_def max_def min_def)
qed

theorem failing_pulls_back_off_witness:
  "pull_wait_hours 168 24 2 = 48 \<and> pull_wait_hours 168 24 2 \<le> pull_wait_hours 168 24 9"
  using failing_pulls_back_off [of 24 2 9 168] by (simp add: pull_wait_hours_def)

text \<open>
  The daily anchor is the latest configured hour not after now: it is at that hour of the
  day, at or before the local time, and less than a day before it; an hour outside the day is
  refused.
\<close>

theorem daily_anchor_is_latest_hour:
  "case daily_pull_anchor hour local of
     Inl _ \<Rightarrow> hour < 0 \<or> 23 < hour
   | Inr anchor \<Rightarrow> 0 \<le> hour \<and> hour \<le> 23 \<and> anchor \<le> local \<and> local < anchor + hours 24
       \<and> anchor mod hours 24 = hours hour"
proof (cases "hour < 0 \<or> 23 < hour")
  case False
  let ?d = "hours 24"
  let ?base = "local - local mod ?d"
  have base: "?base \<le> local" "local < ?base + ?d" "?base mod ?d = 0"
    by (auto simp: pos_mod_bound minus_mod_eq_mult_div) 
  have h: "0 \<le> hours hour" "hours hour < ?d" using False by auto
  have "(?base + hours hour) mod ?d = hours hour" "(?base + hours hour - ?d) mod ?d = hours hour"
    using base(3) h by (auto simp: mod_add_left_eq [symmetric] simp del: mod_add_left_eq)
  then show ?thesis using base h False by (auto simp: daily_pull_anchor_def Let_def)
qed (simp add: daily_pull_anchor_def)

end
