(* ===== verification/Routing.thy ===== *)
theory Routing
  imports Pricing "HOL-Library.Product_Lexorder" "HOL-Library.Multiset"
begin

text \<open>
  \<open>core/routing.py\<close>: choosing a task's model from declared capability, sanction and price. A
  \<open>NoEligibleModel\<close> and a failed assertion or a crash of the pricer are different values of
  \<open>route_error\<close>, so that the theorems can say that only the first one happens.
\<close>

datatype ModelChangeEffect = MIXES | RERUNS

record Evidence =
  e_model :: string
  e_verdict :: string
  e_finding :: string
  e_sample_size :: int
  e_measured_on :: date

datatype pvalue = PStr string | PInt int

record TaskShape =
  purpose :: string
  structured :: StructuredOutput
  t_batched :: bool
  t_max_output_tokens :: int
  est_prompt_tokens :: int
  candidates :: "string list"
  effort :: "string option"
  effort_preference :: "string list"
  t_params :: "(string \<times> pvalue) list"
  t_label :: string
  per_cycle :: int
  t_notes :: string
  on_model_change :: ModelChangeEffect
  evidence :: "Evidence list"

record Choice =
  c_provider :: string
  c_model :: string
  c_params :: "(string \<times> pvalue) list"
  c_est_cost_usd :: "rat option"
  c_off_peak :: bool
  c_reason :: string
  c_overridden :: bool
  c_fallback_from :: "string option"

datatype route_error = NoEligibleModel string | Raised py_error

definition MODE_RANK :: "StructuredOutput \<Rightarrow> nat" where
  "MODE_RANK m = (case m of NONE \<Rightarrow> 0 | JSON_OBJECT \<Rightarrow> 1 | JSON_SCHEMA \<Rightarrow> 2)"

definition mode_str :: "StructuredOutput \<Rightarrow> string" where
  "mode_str m = (case m of NONE \<Rightarrow> ''none'' | JSON_OBJECT \<Rightarrow> ''json_object''
                 | JSON_SCHEMA \<Rightarrow> ''json_schema'')"

definition quoted :: "string \<Rightarrow> string" where
  "quoted s = [CHR 0x27] @ s @ [CHR 0x27]"

text \<open>\<open>s or t\<close> on optional strings: \<open>None\<close> and the empty string are false.\<close>

definition str_or :: "string option \<Rightarrow> string option \<Rightarrow> string option" where
  "str_or s t = (case s of None \<Rightarrow> t | Some v \<Rightarrow> if v = '''' then t else s)"

definition truthy :: "string option \<Rightarrow> bool" where
  "truthy s \<longleftrightarrow> s \<noteq> None \<and> s \<noteq> Some ''''"

section \<open>Rejection\<close>

definition effort_rejection :: "TaskShape \<Rightarrow> Model \<Rightarrow> string" where
  "effort_rejection shape declared =
     (case effort shape of
        None \<Rightarrow> ''''
      | Some e \<Rightarrow>
          if param (reasoning declared) = None then ''model does not support an effort parameter''
          else if accepts (reasoning declared) \<noteq> [] \<and> e \<notin> set (accepts (reasoning declared))
          then ''does not accept effort '' @ quoted e @ '' (accepts ''
               @ join '', '' (accepts (reasoning declared)) @ '')''
          else '''')"

definition output_rejection :: "TaskShape \<Rightarrow> Model \<Rightarrow> string" where
  "output_rejection shape declared =
     (case max_output_tokens (m_output declared) of
        None \<Rightarrow> ''''
      | Some cap \<Rightarrow>
          if t_max_output_tokens shape > cap
          then ''caps output at '' @ show_int cap @ '' tokens, task asks for ''
               @ show_int (t_max_output_tokens shape)
          else '''')"

definition rejection ::
  "TaskShape \<Rightarrow> string \<Rightarrow> Model option \<Rightarrow> string option \<Rightarrow> string result" where
  "rejection shape name declared_opt provider_opt =
     (case (declared_opt, provider_opt) of
        (Some declared, Some _) \<Rightarrow>
          if MODE_RANK (mode (structured_output declared)) < MODE_RANK (structured shape)
          then Inr (''declares '' @ mode_str (mode (structured_output declared))
                    @ '' output, task needs at least '' @ mode_str (structured shape))
          else if t_batched shape \<and> truthy (unavailable_reason name)
          then Inr (the (unavailable_reason name))
          else if effort_rejection shape declared \<noteq> ''''
          then Inr (effort_rejection shape declared)
          else if output_rejection shape declared \<noteq> ''''
          then Inr (output_rejection shape declared)
          else and_then
                 (estimate_cost_usd (Some name) (Some 1) (Some 1) None False None Unspecified)
                 (\<lambda>cost. Inr (if cost = None
                    then ''has no published rates, so its spend could not be reported'' else ''''))
      | _ \<Rightarrow> Inr ''not declared in any provider datasheet'')"

definition preferred_effort :: "TaskShape \<Rightarrow> Model \<Rightarrow> string option" where
  "preferred_effort shape declared =
     (case (if accepts (reasoning declared) = [] then None
            else find (\<lambda>e. e \<in> set (accepts (reasoning declared))) (effort_preference shape)) of
        Some e \<Rightarrow> Some e
      | None \<Rightarrow> default (reasoning declared))"

definition resolved_effort :: "TaskShape \<Rightarrow> string option" where
  "resolved_effort shape =
     (case candidates shape of
        [] \<Rightarrow> None
      | first # _ \<Rightarrow>
          (case model (Some first) of
             None \<Rightarrow> None
           | Some declared \<Rightarrow> str_or (effort shape) (preferred_effort shape declared)))"

definition setdefault :: "string \<Rightarrow> pvalue \<Rightarrow> (string \<times> pvalue) list \<Rightarrow> (string \<times> pvalue) list" where
  "setdefault k v d = (if k \<in> fst ` set d then d else d @ [(k, v)])"

definition params_for :: "TaskShape \<Rightarrow> Model \<Rightarrow> (string \<times> pvalue) list" where
  "params_for shape declared =
     setdefault ''max_output_tokens'' (PInt (t_max_output_tokens shape))
       (case param (reasoning declared) of
          None \<Rightarrow> t_params shape
        | Some q \<Rightarrow>
            (case str_or (effort shape) (preferred_effort shape declared) of
               None \<Rightarrow> t_params shape
             | Some e \<Rightarrow>
                 if q = '''' \<or> e = '''' then t_params shape
                 else setdefault q (PStr e) (t_params shape)))"

definition estimate :: "TaskShape \<Rightarrow> string \<Rightarrow> instant option \<Rightarrow> rat option result" where
  "estimate shape name moment =
     estimate_cost_usd (Some name) (Some (est_prompt_tokens shape))
       (Some (t_max_output_tokens shape)) None (t_batched shape) moment Unspecified"

section \<open>The configuration screen's list\<close>

record Candidacy =
  y_model :: string
  y_provider :: string
  y_eligible :: bool
  y_rejection :: string
  y_sanctioned :: bool
  y_est_cost_usd :: "rat option"
  y_est_cycle_cost_usd :: "rat option"
  y_price_varies_by_time :: bool

definition candidacy ::
  "TaskShape \<Rightarrow> instant option \<Rightarrow> string \<times> (string \<times> Model) \<Rightarrow> Candidacy result" where
  "candidacy shape moment item =
     (case item of (name, prov, declared) \<Rightarrow>
        and_then (rejection shape name (Some declared) (Some prov)) (\<lambda>why.
        and_then (if why \<noteq> '''' then Inr None else estimate shape name moment) (\<lambda>per_call.
        Inr \<lparr>y_model = name, y_provider = prov, y_eligible = (why = ''''), y_rejection = why,
             y_sanctioned = (name \<in> set (candidates shape)), y_est_cost_usd = per_call,
             y_est_cycle_cost_usd =
               (if per_cycle shape = 0 then None
                else map_option (\<lambda>c. c * of_int (per_cycle shape)) per_call),
             y_price_varies_by_time = (peak_windows (rates declared) \<noteq> [])\<rparr>)))"

fun map_result :: "('a \<Rightarrow> 'e + 'b) \<Rightarrow> 'a list \<Rightarrow> 'e + 'b list" where
  "map_result f [] = Inr []"
| "map_result f (x # xs) = and_then (f x) (\<lambda>y. and_then (map_result f xs) (\<lambda>ys. Inr (y # ys)))"

text \<open>The sort key: \<open>None\<close> stands for \<open>Decimal("Infinity")\<close> and sorts after every amount.\<close>

definition candidacy_key :: "Candidacy \<Rightarrow> bool \<times> (bool \<times> rat) \<times> string" where
  "candidacy_key c =
     (\<not> y_eligible c, (y_est_cost_usd c = None, coalesce (y_est_cost_usd c) 0), y_model c)"

definition candidates_for :: "TaskShape \<Rightarrow> instant option \<Rightarrow> Candidacy list result" where
  "candidates_for shape moment =
     and_then (map_result (candidacy shape moment)
                (filter (\<lambda>item. selectable (snd (snd item))) (sort_key fst MODELS)))
       (\<lambda>out. Inr (sort_key candidacy_key out))"

section \<open>Resolution\<close>

type_synonym eligible = "rat \<times> string \<times> string \<times> Model"

text \<open>
  The loop over the candidates: what was eligible, with its price, and what was rejected, each in
  the caller's order. The two assertions of the source are \<open>AssertionError\<close> values.
\<close>

fun judge :: "TaskShape \<Rightarrow> instant option \<Rightarrow> string list \<Rightarrow> (eligible list \<times> string list) result" where
  "judge shape moment [] = Inr ([], [])"
| "judge shape moment (name # names) =
     and_then (rejection shape name (model (Some name)) (provider_of (Some name))) (\<lambda>why.
       if why \<noteq> ''''
       then and_then (judge shape moment names)
              (\<lambda>(el, rj). Inr (el, (name @ '': '' @ why) # rj))
       else (case (provider_of (Some name), model (Some name)) of
               (Some prov, Some declared) \<Rightarrow>
                 and_then (estimate shape name moment) (\<lambda>cost.
                   case cost of
                     None \<Rightarrow> Inl AssertionError
                   | Some c \<Rightarrow>
                       and_then (judge shape moment names)
                         (\<lambda>(el, rj). Inr ((c, name, prov, declared) # el, rj)))
             | _ \<Rightarrow> Inl AssertionError))"

definition resolve_reason ::
  "TaskShape \<Rightarrow> eligible list \<Rightarrow> string list \<Rightarrow> string \<Rightarrow> bool \<Rightarrow> string" where
  "resolve_reason shape el rejected name off_peak =
     (if length (candidates shape) = 1 then ''the only model the caller sanctioned''
      else ''cheapest of '' @ show_nat (length el) @ '' eligible (''
           @ join '', '' (filter (\<lambda>n. n \<noteq> name) (map (\<lambda>(_, n, _, _). n) el))
           @ '') at the time of the call'')
     @ (if off_peak then ''; off-peak rate applies'' else '''')
     @ (if rejected \<noteq> [] then ''; excluded '' @ show_nat (length rejected) else '''')"

definition resolve_override ::
  "TaskShape \<Rightarrow> string \<Rightarrow> instant option \<Rightarrow> route_error + Choice" where
  "resolve_override shape override moment =
     (case rejection shape override (model (Some override)) (provider_of (Some override)) of
        Inl e \<Rightarrow> Inl (Raised e)
      | Inr why \<Rightarrow>
          if why \<noteq> '''' then Inl (NoEligibleModel (override @ '' cannot run this task - '' @ why))
          else (case (provider_of (Some override), model (Some override)) of
                  (Some prov, Some declared) \<Rightarrow>
                    (case estimate shape override moment of
                       Inl e \<Rightarrow> Inl (Raised e)
                     | Inr cost \<Rightarrow> Inr
                         \<lparr>c_provider = prov, c_model = override,
                          c_params = params_for shape declared, c_est_cost_usd = cost,
                          c_off_peak = is_off_peak (rates declared) moment,
                          c_reason =
                            (if override \<in> set (candidates shape) then ''configured override''
                             else ''configured override, outside the models this call site sanctioned''),
                          c_overridden = (override \<notin> set (candidates shape)),
                          c_fallback_from = None\<rparr>)
                | _ \<Rightarrow> Inl (Raised AssertionError)))"

definition resolve_candidates ::
  "TaskShape \<Rightarrow> instant option \<Rightarrow> route_error + Choice" where
  "resolve_candidates shape moment =
     (case judge shape moment (candidates shape) of
        Inl e \<Rightarrow> Inl (Raised e)
      | Inr ([], rejected) \<Rightarrow>
          Inl (NoEligibleModel (''no declared model can run this task - '' @ join ''; '' rejected))
      | Inr (e # es, rejected) \<Rightarrow>
          (case min_by fst e es of (cost, name, prov, declared) \<Rightarrow>
             let off_peak = is_off_peak (rates declared) moment
             in Inr \<lparr>c_provider = prov, c_model = name, c_params = params_for shape declared,
                     c_est_cost_usd = Some cost, c_off_peak = off_peak,
                     c_reason = resolve_reason shape (e # es) rejected name off_peak,
                     c_overridden = False, c_fallback_from = None\<rparr>))"

definition resolve ::
  "TaskShape \<Rightarrow> instant option \<Rightarrow> string option \<Rightarrow> route_error + Choice" where
  "resolve shape moment override =
     (if candidates shape = []
      then Inl (NoEligibleModel ''no candidate models were declared for this task'')
      else if truthy override then resolve_override shape (the override) moment
      else resolve_candidates shape moment)"

section \<open>What routing promises\<close>

text \<open>
  The abstract view the theorems are stated in: which models can run a task at all, what one call
  is estimated to cost, the entry the loop makes of an eligible candidate, and the line the
  configuration screen shows.
\<close>

definition capable :: "TaskShape \<Rightarrow> string \<Rightarrow> bool" where
  "capable shape name \<longleftrightarrow>
     rejection shape name (model (Some name)) (provider_of (Some name)) = Inr ''''"

definition why_not :: "TaskShape \<Rightarrow> string \<Rightarrow> string" where
  "why_not shape name =
     (case rejection shape name (model (Some name)) (provider_of (Some name)) of
        Inr why \<Rightarrow> why | Inl _ \<Rightarrow> '''')"

definition price_of :: "TaskShape \<Rightarrow> instant option \<Rightarrow> string \<Rightarrow> rat" where
  "price_of shape moment name =
     (case estimate shape name moment of Inr (Some c) \<Rightarrow> c | _ \<Rightarrow> 0)"

definition entry :: "TaskShape \<Rightarrow> instant option \<Rightarrow> string \<Rightarrow> eligible" where
  "entry shape moment name =
     (price_of shape moment name, name, the (provider_of (Some name)), the (model (Some name)))"

definition candidacy_of ::
  "TaskShape \<Rightarrow> instant option \<Rightarrow> string \<times> (string \<times> Model) \<Rightarrow> Candidacy" where
  "candidacy_of shape moment item =
     (case item of (name, prov, declared) \<Rightarrow>
        \<lparr>y_model = name, y_provider = prov, y_eligible = capable shape name,
         y_rejection = why_not shape name, y_sanctioned = (name \<in> set (candidates shape)),
         y_est_cost_usd = (if capable shape name then Some (price_of shape moment name) else None),
         y_est_cycle_cost_usd =
           (if capable shape name \<and> per_cycle shape \<noteq> 0
            then Some (price_of shape moment name * of_int (per_cycle shape)) else None),
         y_price_varies_by_time = (peak_windows (rates declared) \<noteq> [])\<rparr>)"

lemma rejection_no_raise: "\<exists>why. rejection shape name d q = Inr why"
  using estimate_no_raise [of "Some name" "Some 1" "Some 1" None False None Unspecified]
  by (auto simp: rejection_def split: option.split)

lemma rejection_eq:
  "rejection shape name (model (Some name)) (provider_of (Some name)) = Inr (why_not shape name)"
  using rejection_no_raise [of shape name "model (Some name)" "provider_of (Some name)"]
  by (auto simp: why_not_def)

lemma capable_iff: "capable shape name \<longleftrightarrow> why_not shape name = ''''"
  using rejection_eq by (simp add: capable_def)

lemma capable_declared:
  assumes "capable shape name"
  obtains prov declared where "provider_of (Some name) = Some prov" "model (Some name) = Some declared"
    "rejection shape name (Some declared) (Some prov) = Inr []"
proof -
  have "model (Some name) \<noteq> None" "provider_of (Some name) \<noteq> None"
    using assms by (auto simp: capable_def rejection_def split: option.splits)
  with assms that show thesis by (auto simp: capable_def)
qed

lemma estimate_priced:
  assumes "model (Some name) \<noteq> None"
  shows "estimate shape name moment = Inr (Some (price_of shape moment name))"
proof -
  obtain v where "estimate shape name moment = Inr (Some v)"
    using reservation_priced_iff [of "Some name" "Some (est_prompt_tokens shape)"
        "Some (t_max_output_tokens shape)" None "t_batched shape" moment] assms
    by (auto simp: estimate_def)
  then show ?thesis by (simp add: price_of_def)
qed

text \<open>The loop neither fails an assertion nor raises: its value in closed form.\<close>

lemma judge_eq:
  "judge shape moment names =
     Inr (map (entry shape moment) (filter (capable shape) names),
          map (\<lambda>n. n @ '': '' @ why_not shape n) (filter (\<lambda>n. \<not> capable shape n) names))"
proof (induction names)
  case Nil
  show ?case by simp
next
  case (Cons name names)
  show ?case
  proof (cases "capable shape name")
    case True
    then obtain prov declared where "provider_of (Some name) = Some prov"
      "model (Some name) = Some declared" "rejection shape name (Some declared) (Some prov) = Inr []"
      by (rule capable_declared)
    then show ?thesis using Cons True by (simp add: estimate_priced entry_def)
  next
    case False
    then show ?thesis using Cons by (simp add: rejection_eq capable_iff)
  qed
qed

section \<open>The chosen candidate\<close>

lemma filter_split:
  "filter P xs = us @ y # vs \<Longrightarrow>
   \<exists>as bs. xs = as @ y # bs \<and> filter P as = us \<and> filter P bs = vs \<and> P y"
proof (induction us arbitrary: xs)
  case Nil
  then obtain as bs where "xs = as @ y # bs" "\<forall>a \<in> set as. \<not> P a" "P y" "vs = filter P bs"
    by (auto simp: filter_eq_Cons_iff)
  then show ?case by (intro exI [of _ as] exI [of _ bs]) auto
next
  case (Cons u us)
  then obtain as rest where xs: "xs = as @ u # rest" "\<forall>a \<in> set as. \<not> P a" "P u"
    "filter P rest = us @ y # vs"
    by (auto simp: filter_eq_Cons_iff)
  with Cons.IH obtain cs bs where "rest = cs @ y # bs" "filter P cs = us" "filter P bs = vs" "P y"
    by blast
  with xs show ?case by (intro exI [of _ "as @ u # cs"] exI [of _ bs]) auto
qed

lemma resolve_candidates_cases:
  assumes "resolve_candidates shape moment = Inr ch"
  obtains us vs where "candidates shape = us @ c_model ch # vs" "capable shape (c_model ch)"
    "c_est_cost_usd ch = Some (price_of shape moment (c_model ch))"
    "provider_of (Some (c_model ch)) = Some (c_provider ch)"
    "\<And>d. model (Some (c_model ch)) = Some d \<Longrightarrow> c_params ch = params_for shape d"
    "\<And>n. n \<in> set us \<Longrightarrow> capable shape n \<Longrightarrow>
        price_of shape moment (c_model ch) < price_of shape moment n"
    "\<And>n. n \<in> set vs \<Longrightarrow> capable shape n \<Longrightarrow>
        price_of shape moment (c_model ch) \<le> price_of shape moment n"
proof -
  let ?el = "map (entry shape moment) (filter (capable shape) (candidates shape))"
  obtain e es where el: "?el = e # es"
    using assms by (cases ?el) (auto simp: resolve_candidates_def judge_eq)
  let ?m = "min_by fst e es"
  obtain xs ys where split: "e # es = xs @ ?m # ys" and lt: "\<forall>x \<in> set xs. fst ?m < fst x"
    using min_by_first [of e es fst] by blast
  have le: "\<forall>y \<in> set ys. fst ?m \<le> fst y"
    using min_by_le [of _ e es fst] split by (metis in_set_conv_decomp append_Cons append_assoc)
  obtain fs n gs where names: "filter (capable shape) (candidates shape) = fs @ n # gs"
    and fs: "map (entry shape moment) fs = xs" and m: "entry shape moment n = ?m"
    and gs: "map (entry shape moment) gs = ys"
    using el split by (auto simp: map_eq_append_conv map_eq_Cons_conv)
  obtain us vs where cand: "candidates shape = us @ n # vs" and us: "filter (capable shape) us = fs"
    and vs: "filter (capable shape) vs = gs" and cap: "capable shape n"
    using filter_split [OF names] by blast
  obtain prov d where pd: "provider_of (Some n) = Some prov" "model (Some n) = Some d"
    using cap by (rule capable_declared)
  have ch: "c_model ch = n" "c_provider ch = prov" "c_params ch = params_for shape d"
    "c_est_cost_usd ch = Some (price_of shape moment n)"
    using assms el m [symmetric] pd by (auto simp: resolve_candidates_def judge_eq entry_def Let_def)
  have price: "fst ?m = price_of shape moment n" using m by (metis entry_def fst_conv)
  show thesis
  proof (rule that)
    show "price_of shape moment (c_model ch) < price_of shape moment x"
      if "x \<in> set us" "capable shape x" for x
    proof -
      have "entry shape moment x \<in> set xs" using that us fs by force
      then show ?thesis using lt price ch(1) by (auto simp: entry_def)
    qed
    show "price_of shape moment (c_model ch) \<le> price_of shape moment x"
      if "x \<in> set vs" "capable shape x" for x
    proof -
      have "entry shape moment x \<in> set ys" using that vs gs by force
      then show ?thesis using le price ch(1) by (auto simp: entry_def)
    qed
  qed (use cand cap ch pd in auto)
qed

lemma resolve_candidates_fails_iff:
  "(\<exists>msg. resolve_candidates shape moment = Inl (NoEligibleModel msg)) \<longleftrightarrow>
   (\<forall>n \<in> set (candidates shape). \<not> capable shape n)"
proof (cases "filter (capable shape) (candidates shape)")
  case Nil
  then show ?thesis by (auto simp: resolve_candidates_def judge_eq filter_empty_conv)
next
  case (Cons x xs)
  then have "x \<in> set (filter (capable shape) (candidates shape))" by simp
  then have "x \<in> set (candidates shape) \<and> capable shape x" by simp
  with Cons show ?thesis
    by (auto simp: resolve_candidates_def judge_eq Let_def split: prod.splits)
qed

lemma resolve_override_cases:
  "resolve_override shape ov moment =
     (if capable shape ov
      then Inr \<lparr>c_provider = the (provider_of (Some ov)), c_model = ov,
                c_params = params_for shape (the (model (Some ov))),
                c_est_cost_usd = Some (price_of shape moment ov),
                c_off_peak = is_off_peak (rates (the (model (Some ov)))) moment,
                c_reason =
                  (if ov \<in> set (candidates shape) then ''configured override''
                   else ''configured override, outside the models this call site sanctioned''),
                c_overridden = (ov \<notin> set (candidates shape)),
                c_fallback_from = None\<rparr>
      else Inl (NoEligibleModel (ov @ '' cannot run this task - '' @ why_not shape ov)))"
proof (cases "capable shape ov")
  case True
  then obtain prov d where "provider_of (Some ov) = Some prov" "model (Some ov) = Some d"
    "rejection shape ov (Some d) (Some prov) = Inr []"
    by (rule capable_declared)
  with True show ?thesis by (simp add: resolve_override_def estimate_priced)
next
  case False
  then show ?thesis by (simp add: resolve_override_def rejection_eq capable_iff)
qed

text \<open>
  The assertions of \<open>resolve\<close> hold and pricing does not raise under it: its only failure is
  \<open>NoEligibleModel\<close>.
\<close>

lemma resolve_no_raise: "resolve shape moment override \<noteq> Inl (Raised e)"
proof -
  have "resolve_candidates shape moment \<noteq> Inl (Raised e)"
    by (auto simp: resolve_candidates_def judge_eq Let_def split: list.splits prod.splits)
  then show ?thesis by (simp add: resolve_def resolve_override_cases)
qed

section \<open>The effort sent\<close>

lemma preferred_effort_accepted:
  assumes "reasoning_ok (reasoning d)" "preferred_effort shape d = Some e"
  shows "e \<in> set (accepts (reasoning d))"
  using assms
  by (auto simp: preferred_effort_def reasoning_ok_def find_Some_iff split: option.splits if_splits)

lemma setdefault_in:
  "(q, x) \<in> set (setdefault k v p) \<Longrightarrow> (q, x) \<in> set p \<or> (k = q \<and> v = x)"
  by (auto simp: setdefault_def split: if_splits)

lemma params_for_effort:
  assumes "(q, PStr e) \<in> set (params_for shape d)" "q \<notin> fst ` set (t_params shape)"
  shows "param (reasoning d) = Some q \<and> str_or (effort shape) (preferred_effort shape d) = Some e"
proof -
  have "(q, PStr e) \<notin> set (t_params shape)" using assms(2) by force
  with assms(1) show ?thesis
    by (auto simp: params_for_def split: option.splits if_splits dest!: setdefault_in)
qed

lemma params_for_accepted:
  assumes "capable shape name" and d: "model (Some name) = Some d"
    and "(q, PStr e) \<in> set (params_for shape d)" "q \<notin> fst ` set (t_params shape)"
  shows "accepts (reasoning d) = [] \<or> e \<in> set (accepts (reasoning d))"
proof -
  have e: "str_or (effort shape) (preferred_effort shape d) = Some e"
    using params_for_effort assms(3,4) by blast
  have ok: "reasoning_ok (reasoning d)" using model_ok_of [OF d] by (simp add: model_ok_def)
  show ?thesis
  proof (cases "effort shape = Some e")
    case True
    have "effort_rejection shape d = ''''"
      using assms(1) d
      by (auto simp: capable_def rejection_def truthy_def split: option.splits if_splits)
    then show ?thesis using True by (auto simp: effort_rejection_def split: if_splits)
  next
    case False
    then have "preferred_effort shape d = Some e"
      using e by (auto simp: str_or_def split: option.splits if_splits)
    then show ?thesis using preferred_effort_accepted ok by blast
  qed
qed

section \<open>The screen's list\<close>

lemma map_result_Inr:
  assumes "\<And>x. x \<in> set xs \<Longrightarrow> f x = Inr (g x)"
  shows "map_result f xs = Inr (map g xs)"
  using assms by (induction xs) auto

lemma candidacy_eq:
  assumes "item \<in> set MODELS"
  shows "candidacy shape moment item = Inr (candidacy_of shape moment item)"
proof -
  obtain name prov declared where item: "item = (name, prov, declared)" by (cases item)
  have md: "model (Some name) = Some declared" "provider_of (Some name) = Some prov"
    using assms item by (auto simp: model_Some_iff provider_of_Some_iff)
  have "rejection shape name (Some declared) (Some prov) = Inr (why_not shape name)"
    using rejection_eq [of shape name] md by simp
  then show ?thesis using md item
    by (auto simp: candidacy_def candidacy_of_def capable_iff estimate_priced)
qed

lemma candidates_for_eq:
  "candidates_for shape moment =
     Inr (sort_key candidacy_key (map (candidacy_of shape moment)
            (filter (\<lambda>item. selectable (snd (snd item))) (sort_key fst MODELS))))"
proof -
  have "map_result (candidacy shape moment)
      (filter (\<lambda>item. selectable (snd (snd item))) (sort_key fst MODELS))
    = Inr (map (candidacy_of shape moment)
        (filter (\<lambda>item. selectable (snd (snd item))) (sort_key fst MODELS)))"
    by (rule map_result_Inr) (auto intro: candidacy_eq)
  then show ?thesis by (simp add: candidates_for_def)
qed

section \<open>Properties of routing\<close>

text \<open>A task one sanctioned model can run, for the witnesses.\<close>

definition sample_shape :: "string list \<Rightarrow> TaskShape" where
  "sample_shape names =
     \<lparr>purpose = ''comp'', structured = JSON_SCHEMA, t_batched = True, t_max_output_tokens = 1500,
      est_prompt_tokens = 6500, candidates = names, effort = Some ''low'', effort_preference = [],
      t_params = [], t_label = '''', per_cycle = 1100, t_notes = '''', on_model_change = MIXES,
      evidence = []\<rparr>"

lemma provider_of_gpt_6_luna: "provider_of (Some ''gpt-6-luna'') = Some ''openai''"
  by (simp add: provider_of_def MODELS_eq entries_def MODULES_def openai_PROVIDER_def
      openai_models_def Model_of_def)

lemma openai_batches: "provider_batch_endpoint ''openai'' = Some ''/v1/responses''"
  by (simp add: provider_batch_endpoint_def PROVIDERS_def MODULES_def openai_PROVIDER_def)

lemma luna_batchable: "unavailable_reason ''gpt-6-luna'' = None"
  by (simp add: unavailable_reason_def vendor_support_def provider_of_gpt_6_luna openai_batches
      model_gpt_6_luna Model_of_def)

lemma luna_capable: "capable (sample_shape names) ''gpt-6-luna''"
  by (simp add: capable_def rejection_def provider_of_gpt_6_luna luna_batchable truthy_def
      sample_shape_def effort_rejection_def output_rejection_def MODE_RANK_def estimate_eval
      del: not_None_eq)

text \<open>
  C8: Without an override, \<open>resolve\<close> returns the cheapest sanctioned model that can do the work,
  and ties keep the caller's order: the choice is a declared candidate that no requirement of the
  task rejects, priced at its estimate, strictly cheaper than every capable candidate named before
  it and no dearer than every capable candidate named after it.
\<close>

theorem resolve_picks_cheapest_capable:
  assumes "resolve shape moment None = Inr ch"
  shows "\<exists>us vs. candidates shape = us @ c_model ch # vs \<and> capable shape (c_model ch)
     \<and> c_est_cost_usd ch = Some (price_of shape moment (c_model ch))
     \<and> provider_of (Some (c_model ch)) = Some (c_provider ch) \<and> \<not> c_overridden ch
     \<and> list_all (\<lambda>n. capable shape n \<longrightarrow>
          price_of shape moment (c_model ch) < price_of shape moment n) us
     \<and> list_all (\<lambda>n. capable shape n \<longrightarrow>
          price_of shape moment (c_model ch) \<le> price_of shape moment n) vs"
proof -
  have rc: "resolve_candidates shape moment = Inr ch"
    using assms by (simp add: resolve_def truthy_def split: if_splits)
  then have "\<not> c_overridden ch"
    by (auto simp: resolve_candidates_def Let_def split: sum.splits list.splits prod.splits)
  from rc obtain us vs where *: "candidates shape = us @ c_model ch # vs"
    "capable shape (c_model ch)" "c_est_cost_usd ch = Some (price_of shape moment (c_model ch))"
    "provider_of (Some (c_model ch)) = Some (c_provider ch)"
    "\<And>n. n \<in> set us \<Longrightarrow> capable shape n \<Longrightarrow>
        price_of shape moment (c_model ch) < price_of shape moment n"
    "\<And>n. n \<in> set vs \<Longrightarrow> capable shape n \<Longrightarrow>
        price_of shape moment (c_model ch) \<le> price_of shape moment n"
    by (rule resolve_candidates_cases) blast
  show ?thesis
    by (intro exI [of _ us] exI [of _ vs]) (use * \<open>\<not> c_overridden ch\<close> in \<open>simp add: list_all_iff\<close>)
qed

lemma resolve_some_capable:
  assumes "n \<in> set (candidates shape)" "capable shape n"
  shows "\<exists>ch. resolve shape moment None = Inr ch"
proof -
  have "candidates shape \<noteq> []" using assms by auto
  then have "resolve shape moment None = resolve_candidates shape moment"
    by (simp add: resolve_def truthy_def)
  moreover have "\<not> (\<exists>msg. resolve_candidates shape moment = Inl (NoEligibleModel msg))"
    using assms resolve_candidates_fails_iff [of shape moment] by blast
  ultimately show ?thesis
    using resolve_no_raise [of shape moment None]
    by (cases "resolve_candidates shape moment") (metis route_error.exhaust)+
qed

theorem resolve_picks_cheapest_capable_witness:
  "\<exists>ch us vs. resolve (sample_shape [''gpt-5.6-luna'', ''gpt-6-luna'']) None None = Inr ch
     \<and> [''gpt-5.6-luna'', ''gpt-6-luna''] = us @ c_model ch # vs"
proof -
  let ?s = "sample_shape [''gpt-5.6-luna'', ''gpt-6-luna'']"
  have "''gpt-6-luna'' \<in> set (candidates ?s)" by (simp add: sample_shape_def)
  then obtain ch where ch: "resolve ?s None None = Inr ch"
    using resolve_some_capable luna_capable by blast
  show ?thesis using resolve_picks_cheapest_capable [OF ch] ch by (auto simp: sample_shape_def)
qed

text \<open>
  \<open>resolve\<close> fails exactly when no declared candidate can do the work; its two assertions
  never fail and pricing never raises under it, so with or without an override the only error it
  ends with is \<open>NoEligibleModel\<close>.
\<close>

theorem resolve_fails_only_without_capable_model:
  "((\<exists>err. resolve shape moment None = Inl err)
      \<longleftrightarrow> list_all (\<lambda>n. \<not> capable shape n) (candidates shape))
   \<and> (\<forall>e. resolve shape moment override \<noteq> Inl (Raised e))"
proof -
  have "(\<exists>err. resolve_candidates shape moment = Inl err)
      \<longleftrightarrow> (\<exists>msg. resolve_candidates shape moment = Inl (NoEligibleModel msg))"
    by (auto simp: resolve_candidates_def judge_eq Let_def split: list.splits prod.splits)
  then have "(\<exists>err. resolve shape moment None = Inl err)
      \<longleftrightarrow> list_all (\<lambda>n. \<not> capable shape n) (candidates shape)"
    using resolve_candidates_fails_iff [of shape moment]
    by (auto simp: resolve_def truthy_def list_all_iff)
  then show ?thesis using resolve_no_raise by blast
qed

text \<open>
  An override replaces the caller's sanction and nothing else. Where the task has candidates,
  an override that can do the work is chosen whatever the candidates are, priced and parameterised
  by the same rules, and flagged as overridden exactly when the caller did not sanction it; one
  that cannot is refused with the reason routing itself would give.
\<close>

theorem override_is_soft_on_sanction_hard_on_capability:
  assumes "candidates shape \<noteq> []" and "ov \<noteq> ''''"
  shows "case resolve shape moment (Some ov) of
           Inr ch \<Rightarrow> capable shape ov \<and> c_model ch = ov
             \<and> provider_of (Some ov) = Some (c_provider ch)
             \<and> c_est_cost_usd ch = Some (price_of shape moment ov)
             \<and> (c_overridden ch \<longleftrightarrow> ov \<notin> set (candidates shape))
         | Inl err \<Rightarrow> \<not> capable shape ov
             \<and> err = NoEligibleModel (ov @ '' cannot run this task - '' @ why_not shape ov)"
proof (cases "capable shape ov")
  case True
  then obtain prov d where "provider_of (Some ov) = Some prov" by (rule capable_declared)
  with True assms show ?thesis by (simp add: resolve_def truthy_def resolve_override_cases)
next
  case False
  with assms show ?thesis by (simp add: resolve_def truthy_def resolve_override_cases)
qed

theorem override_is_soft_on_sanction_hard_on_capability_witness:
  "\<exists>ch. resolve (sample_shape [''gpt-5'']) None (Some ''gpt-6-luna'') = Inr ch
     \<and> c_model ch = ''gpt-6-luna'' \<and> c_overridden ch"
proof -
  let ?s = "sample_shape [''gpt-5'']"
  have c: "candidates ?s = [''gpt-5'']" by (simp add: sample_shape_def)
  have "case resolve ?s None (Some ''gpt-6-luna'') of
           Inr ch \<Rightarrow> capable ?s ''gpt-6-luna'' \<and> c_model ch = ''gpt-6-luna''
             \<and> provider_of (Some ''gpt-6-luna'') = Some (c_provider ch)
             \<and> c_est_cost_usd ch = Some (price_of ?s None ''gpt-6-luna'')
             \<and> (c_overridden ch \<longleftrightarrow> ''gpt-6-luna'' \<notin> set (candidates ?s))
         | Inl err \<Rightarrow> \<not> capable ?s ''gpt-6-luna''
             \<and> err = NoEligibleModel (''gpt-6-luna'' @ '' cannot run this task - ''
                 @ why_not ?s ''gpt-6-luna'')"
    by (rule override_is_soft_on_sanction_hard_on_capability) (simp_all add: c)
  then show ?thesis using luna_capable [of "[''gpt-5'']"] c
    by (cases "resolve ?s None (Some ''gpt-6-luna'')") auto
qed

text \<open>
  Whatever model is resolved, sanctioned or overridden, an effort sent to it is one it
  accepts, wherever its accepted values have been enumerated; the caller's own preset parameters
  are the only exception and are passed through untouched.
\<close>

theorem resolved_effort_is_accepted:
  assumes "resolve shape moment override = Inr ch" and "model (Some (c_model ch)) = Some d"
    and "(q, PStr e) \<in> set (c_params ch)" and "q \<notin> set (map fst (t_params shape))"
  shows "accepts (reasoning d) = [] \<or> e \<in> set (accepts (reasoning d))"
proof -
  have "capable shape (c_model ch) \<and> c_params ch = params_for shape d"
  proof (cases "truthy override")
    case True
    then have "resolve_override shape (the override) moment = Inr ch"
      using assms(1) by (simp add: resolve_def split: if_splits)
    then show ?thesis using assms(2) by (auto simp: resolve_override_cases split: if_splits)
  next
    case False
    then have "resolve_candidates shape moment = Inr ch"
      using assms(1) by (simp add: resolve_def split: if_splits)
    then show ?thesis by (rule resolve_candidates_cases) (simp add: assms(2))
  qed
  then show ?thesis using params_for_accepted [OF _ assms(2), of shape q e] assms(3,4) by auto
qed

theorem resolved_effort_is_accepted_witness:
  "\<exists>ch d. resolve (sample_shape [''gpt-6-luna'']) None None = Inr ch
     \<and> model (Some (c_model ch)) = Some d
     \<and> (''reasoning_effort'', PStr ''low'') \<in> set (c_params ch)
     \<and> (accepts (reasoning d) = [] \<or> ''low'' \<in> set (accepts (reasoning d)))"
proof -
  let ?s = "sample_shape [''gpt-6-luna'']"
  have "''gpt-6-luna'' \<in> set (candidates ?s)" by (simp add: sample_shape_def)
  then obtain ch where ch: "resolve ?s None None = Inr ch"
    using resolve_some_capable luna_capable by blast
  then have rc: "resolve_candidates ?s None = Inr ch"
    by (simp add: resolve_def truthy_def sample_shape_def)
  obtain d where d: "model (Some (c_model ch)) = Some d"
    and params: "c_params ch = params_for ?s d" and luna: "c_model ch = ''gpt-6-luna''"
    using rc by (rule resolve_candidates_cases)
      (auto simp: sample_shape_def model_gpt_6_luna Cons_eq_append_conv)
  have low: "(''reasoning_effort'', PStr ''low'') \<in> set (c_params ch)"
    using d luna params
    by (auto simp: params_for_def model_gpt_6_luna Model_of_def openai_6_GEN_def sample_shape_def
        str_or_def setdefault_def)
  have "accepts (reasoning d) = [] \<or> ''low'' \<in> set (accepts (reasoning d))"
    using ch d low by (rule resolved_effort_is_accepted) (simp add: sample_shape_def)
  with ch d low show ?thesis by blast
qed

text \<open>
  The configuration screen's list never raises, shows every selectable model exactly once,
  eligible ones first and cheapest first among them (then by name), and says of each model what
  \<open>resolve\<close> would: eligible exactly when it is capable, otherwise with the same reason.
\<close>

theorem candidates_for_lists_every_selectable_model:
  "\<exists>out. candidates_for shape moment = Inr out
     \<and> sorted (map candidacy_key out)
     \<and> distinct (map y_model out)
     \<and> set (map y_model out) = set (map fst (filter (\<lambda>(n, p, m). selectable m) MODELS))
     \<and> list_all (\<lambda>c. y_eligible c = capable shape (y_model c)
          \<and> y_rejection c = why_not shape (y_model c)
          \<and> y_est_cost_usd c = (if y_eligible c then Some (price_of shape moment (y_model c))
                                 else None)) out"
proof -
  let ?items = "filter (\<lambda>item. selectable (snd (snd item))) (sort_key fst MODELS)"
  let ?out = "sort_key candidacy_key (map (candidacy_of shape moment) ?items)"
  have name: "y_model (candidacy_of shape moment item) = fst item" for item
    by (cases item) (simp add: candidacy_of_def)
  have "distinct (map fst (sort_key fst MODELS))"
    using MODELS_distinct by (metis distinct_map distinct_sort mset_sort mset_map
        distinct_count_atmost_1 set_mset_mset set_sort)
  then have "distinct (map fst ?items)" by (rule distinct_map_filter)
  then have dist: "distinct (map y_model ?out)"
    by (metis (no_types, lifting) name distinct_map mset_sort mset_map map_map comp_def map_cong
        mset_eq_imp_distinct_iff)
  have "list_all (\<lambda>c. y_eligible c = capable shape (y_model c)
          \<and> y_rejection c = why_not shape (y_model c)
          \<and> y_est_cost_usd c = (if y_eligible c then Some (price_of shape moment (y_model c))
                                 else None)) ?out"
    by (auto simp: list_all_iff candidacy_of_def)
  moreover have "set (map y_model ?out) = set (map fst (filter (\<lambda>(n, p, m). selectable m) MODELS))"
    by (force simp: candidacy_of_def)
  ultimately show ?thesis using dist by (intro exI [of _ ?out]) (simp add: candidates_for_eq)
qed

end
