(* ===== verification/Shapes.thy ===== *)
theory Shapes
  imports Routing
begin

text \<open>
  The task declarations (\<open>core/shapes.py\<close>), transcribed with their notes and evidence. The
  environment variables that move a model are an argument \<open>env\<close>, as is the number of batch
  waves in flight (\<open>core/batch\<close> reads it from the environment).
\<close>

section \<open>Sizes and models\<close>

definition EXTRACT_COMP_PER_CYCLE :: int where "EXTRACT_COMP_PER_CYCLE = 1100"
definition REQUIREMENTS_MAX_OUTPUT_TOKENS :: int where "REQUIREMENTS_MAX_OUTPUT_TOKENS = 2000"
definition EXTRACT_REQUIREMENTS_PER_CYCLE :: int where "EXTRACT_REQUIREMENTS_PER_CYCLE = 2179"
definition CLASSIFY_LOCATIONS_PER_CYCLE :: int where "CLASSIFY_LOCATIONS_PER_CYCLE = 10000"
definition CLASSIFY_MAX_TOKENS :: int where "CLASSIFY_MAX_TOKENS = 400"
definition CLASSIFY_SPEC_EST_TOKENS :: int where "CLASSIFY_SPEC_EST_TOKENS = 2162"
definition BATCH_TOKEN_BUDGET :: int where "BATCH_TOKEN_BUDGET = 1800000"
definition VERIFICATION_MAX_OUTPUT_TOKENS :: int where "VERIFICATION_MAX_OUTPUT_TOKENS = 1000"

definition CLASSIFY_PER_CYCLE :: "int \<Rightarrow> int" where
  "CLASSIFY_PER_CYCLE waves = waves * BATCH_TOKEN_BUDGET div CLASSIFY_SPEC_EST_TOKENS"

definition environ_get :: "(string \<Rightarrow> string option) \<Rightarrow> string \<Rightarrow> string \<Rightarrow> string" where
  "environ_get env name default_value = coalesce (env name) default_value"

definition REQUIREMENTS_MODEL :: "(string \<Rightarrow> string option) \<Rightarrow> string" where
  "REQUIREMENTS_MODEL env = environ_get env ''JOBTRACKER_REQUIREMENTS_MODEL'' ''gpt-5.6-luna''"

definition BACKFILL_MODEL :: "(string \<Rightarrow> string option) \<Rightarrow> string" where
  "BACKFILL_MODEL env = environ_get env ''JOBTRACKER_MAIL_BACKFILL_MODEL'' ''gpt-6-luna''"

definition ONGOING_MODEL :: "(string \<Rightarrow> string option) \<Rightarrow> string" where
  "ONGOING_MODEL env = environ_get env ''JOBTRACKER_MAIL_ONGOING_MODEL'' ''gpt-6-luna''"

definition REQUIREMENTS_EFFORT_PREFERENCE :: "string list" where
  "REQUIREMENTS_EFFORT_PREFERENCE = [''none'', ''minimal'', ''low'']"

definition CLASSIFY_EFFORT_PREFERENCE :: "string list" where
  "CLASSIFY_EFFORT_PREFERENCE = [''none'', ''minimal'', ''low'']"

section \<open>The declarations\<close>

definition COMP_TASK :: "TaskShape" where
  "COMP_TASK =
     \<lparr>purpose = ''comp'',
      structured = JSON_SCHEMA,
      t_batched = True,
      t_max_output_tokens = 1500,
      est_prompt_tokens = 6500,
      candidates = [''gpt-6-luna''],
      effort = Some ''low'',
      effort_preference = [],
      t_params = [],
      t_label = ''Compensation extraction'',
      per_cycle = EXTRACT_COMP_PER_CYCLE,
      t_notes = ''Copies stated compensation from the posting and leaves absent figures ''
       @ ''unknown. The model upgrade preserves low reasoning, the output cap and ''
       @ ''batching. Previously extracted results are retained; comparative quality is ''
       @ ''unmeasured.'',
      on_model_change = MIXES,
      evidence = []\<rparr>"

definition REQUIREMENTS_TASK :: "(string \<Rightarrow> string option) \<Rightarrow> TaskShape" where
  "REQUIREMENTS_TASK env =
     \<lparr>purpose = ''requirements'',
      structured = JSON_SCHEMA,
      t_batched = True,
      t_max_output_tokens = REQUIREMENTS_MAX_OUTPUT_TOKENS,
      est_prompt_tokens = 2270,
      candidates = [REQUIREMENTS_MODEL env],
      effort = None,
      effort_preference = REQUIREMENTS_EFFORT_PREFERENCE,
      t_params = [],
      t_label = ''Requirements extraction'',
      per_cycle = EXTRACT_REQUIREMENTS_PER_CYCLE,
      t_notes = ''Not nano, on measured quality: over 60 real postings it invented a clearance ''
       @ ''level for 12 of 55 that never mention clearance, and at minimal effort filled ''
       @ ''0 and ''
       @ [CHR 0x27]
       @ ''none''
       @ [CHR 0x27]
       @ '' wherever the honest answer was ''
       @ [CHR 0x27]
       @ ''unstated''
       @ [CHR 0x27]
       @ '' - the one distinction this extraction exists to keep. Not mini, on measured ''
       @ ''RELIABILITY: 499 of 31,999 batched requests failed against zero on the other ''
       @ ''two, and a failed line leaves a posting unextracted while looking like a ''
       @ ''batch that worked. luna is the only model with a clean record at volume, and ''
       @ ''its extraction quality here has not been audited the way the other two were. ''
       @ ''This task did NOT move to gpt-6-luna with the rest of the tasks on ''
       @ ''2026-09-22: the model here was chosen on a failure rate measured over 60,000 ''
       @ ''batched requests, and the newer model has no such record. ''
       @ ''JOBTRACKER_REQUIREMENTS_MODEL moves it once one exists.'',
      on_model_change = MIXES,
      evidence = [\<lparr>e_model = ''gpt-5-nano'', e_verdict = ''excluded'',
       e_finding = ''Invented a clearance level for 12 of 55 postings whose page never mentions ''
       @ ''clearance, and at minimal effort filled 0 and ''
       @ [CHR 0x27]
       @ ''none''
       @ [CHR 0x27]
       @ '' wherever the honest answer was ''
       @ [CHR 0x27]
       @ ''unstated''
       @ [CHR 0x27]
       @ '' - which is the distinction this extraction exists to keep.'',
       e_sample_size = 60, e_measured_on = (2026, 9, 2)\<rparr>, \<lparr>e_model = ''gpt-5-mini'', e_verdict = ''excluded'',
       e_finding = ''Extracts well - over the same postings it invented one degree, one ''
       @ ''years-of-experience figure and no clearances, and truncated nothing. Excluded ''
       @ ''on RELIABILITY rather than quality: 499 of its 31,999 batched requests ''
       @ ''failed, against 0 of 19,971 on nano and 0 of 60,000 on luna. A failed line ''
       @ ''leaves a posting unextracted and looks like a batch that worked, so nothing ''
       @ ''was watching.'',
       e_sample_size = 31999, e_measured_on = (2026, 9, 2)\<rparr>, \<lparr>e_model = ''gpt-5.6-luna'', e_verdict = ''chosen'',
       e_finding = ''Zero failures across 60,000 batched requests, the only model with a clean ''
       @ ''record at that volume. Chosen for reliability; its extraction quality on this ''
       @ ''task has NOT been audited the way nano and mini were, and that gap is the ''
       @ ''reason this entry exists rather than a note.'',
       e_sample_size = 60000, e_measured_on = (2026, 9, 2)\<rparr>]\<rparr>"

definition LOCATIONS_TASK :: "TaskShape" where
  "LOCATIONS_TASK =
     \<lparr>purpose = ''locations'',
      structured = JSON_SCHEMA,
      t_batched = True,
      t_max_output_tokens = 2048,
      est_prompt_tokens = 260,
      candidates = [''gpt-6-luna''],
      effort = None,
      effort_preference = [''minimal'', ''low''],
      t_params = [],
      t_label = ''Location classification'',
      per_cycle = CLASSIFY_LOCATIONS_PER_CYCLE,
      t_notes = ''Naming the country, state and city a short string refers to is a lookup, not ''
       @ ''a judgment about silence. A string that names no single place is left empty, ''
       @ ''which excludes nothing, so the cost of a wrong answer is one visible posting.'',
      on_model_change = MIXES,
      evidence = []\<rparr>"

definition VERIFY_TASK :: "TaskShape" where
  "VERIFY_TASK =
     \<lparr>purpose = ''verify'',
      structured = JSON_SCHEMA,
      t_batched = True,
      t_max_output_tokens = VERIFICATION_MAX_OUTPUT_TOKENS,
      est_prompt_tokens = 5500,
      candidates = [''gpt-6-luna''],
      effort = Some ''low'',
      effort_preference = [],
      t_params = [],
      t_label = ''Closed and clearance verification'',
      per_cycle = 0,
      t_notes = ''A yes/no read of whether a posting is still open and whether it demands a ''
       @ ''clearance. The model upgrade preserves low reasoning, batching and the ''
       @ ''existing eligibility and re-verification schedule. Existing paid batches keep ''
       @ ''their original model provenance.'',
      on_model_change = MIXES,
      evidence = []\<rparr>"

definition classify_task :: "int \<Rightarrow> string \<Rightarrow> string \<Rightarrow> string \<Rightarrow> TaskShape" where
  "classify_task waves mdl purp lbl =
     \<lparr>purpose = purp,
      structured = JSON_SCHEMA,
      t_batched = True,
      t_max_output_tokens = CLASSIFY_MAX_TOKENS,
      est_prompt_tokens = 2580,
      candidates = [mdl],
      effort = None,
      effort_preference = CLASSIFY_EFFORT_PREFERENCE,
      t_params = [],
      t_label = lbl,
      per_cycle = CLASSIFY_PER_CYCLE waves,
      t_notes = ''gpt-5-nano is excluded on evidence rather than price: measured on ''
       @ ''extraction-shaped work it fabricates, inventing 12 clearances across 55 ''
       @ ''postings and filling 0/''
       @ [CHR 0x27]
       @ ''none''
       @ [CHR 0x27]
       @ '' wherever the true answer is ''
       @ [CHR 0x27]
       @ ''unstated''
       @ [CHR 0x27]
       @ ''. The same shape applies here - a deadline that was never stated must not ''
       @ ''become a guessed date, and silence must not become a fabricated rejection. ''
       @ ''Backfill and ongoing are priced differently enough to be different models: ''
       @ ''over the 38,685-message mailbox, batched, luna is $10.44 and mini $14.99, ''
       @ ''while ongoing at ~80/day is $11.31/yr on mini where per-message quality ''
       @ ''matters more.'',
      on_model_change = MIXES,
      evidence = [\<lparr>e_model = ''gpt-5-nano'', e_verdict = ''excluded'',
       e_finding = ''Invented a clearance level for 12 of 55 postings whose page never mentions ''
       @ ''clearance, and at minimal effort filled 0 and ''
       @ [CHR 0x27]
       @ ''none''
       @ [CHR 0x27]
       @ '' wherever the honest answer was ''
       @ [CHR 0x27]
       @ ''unstated''
       @ [CHR 0x27]
       @ '' - which is the distinction this extraction exists to keep.'',
       e_sample_size = 60, e_measured_on = (2026, 9, 2)\<rparr>]\<rparr>"

definition BACKFILL_TASK :: "(string \<Rightarrow> string option) \<Rightarrow> int \<Rightarrow> TaskShape" where
  "BACKFILL_TASK env waves =
     classify_task waves (BACKFILL_MODEL env) ''mail_classify_backfill'' ''Mail classification (backfill)''"

definition ONGOING_TASK :: "(string \<Rightarrow> string option) \<Rightarrow> int \<Rightarrow> TaskShape" where
  "ONGOING_TASK env waves =
     classify_task waves (ONGOING_MODEL env) ''mail_classify'' ''Mail classification (ongoing)''"

definition APPLICATION_TASK :: "TaskShape" where
  "APPLICATION_TASK =
     \<lparr>purpose = ''application'',
      structured = JSON_SCHEMA,
      t_batched = True,
      t_max_output_tokens = 1200,
      est_prompt_tokens = 3500,
      candidates = [''gpt-6-luna''],
      effort = None,
      effort_preference = [''none'', ''minimal'', ''low''],
      t_params = [],
      t_label = ''Application answers'',
      per_cycle = 0,
      t_notes = ''Prose a recruiter reads, written from a resume the model must not embroider. ''
       @ ''Measured 2026-09-06 over four live questions: gpt-5.6-luna without reasoning ''
       @ ''picked the resume facts that fit the role and stayed inside them; gpt-5-nano ''
       @ ''padded with generic openers and loosened one claim. Both cost under a tenth ''
       @ ''of a cent an answer, so the better writer is the choice. The default moved to ''
       @ ''gpt-6-luna on 2026-09-22 for price; that comparison is of its predecessor and ''
       @ ''has not been repeated.'',
      on_model_change = MIXES,
      evidence = []\<rparr>"

definition JOB_PROFILE_TASK :: "TaskShape" where
  "JOB_PROFILE_TASK =
     \<lparr>purpose = ''job_profile'',
      structured = JSON_SCHEMA,
      t_batched = True,
      t_max_output_tokens = 1000,
      est_prompt_tokens = 3200,
      candidates = [''gpt-6-luna''],
      effort = None,
      effort_preference = [''none''],
      t_params = [],
      t_label = ''Job profile shadow classification'',
      per_cycle = 500,
      t_notes = ''A shadow-only compact taxonomy used to compare general job classifications. ''
       @ ''It does not participate in filtering or visibility.'',
      on_model_change = MIXES,
      evidence = []\<rparr>"

text \<open>The dictionary keyed by each shape's own purpose.\<close>

definition SHAPES :: "(string \<Rightarrow> string option) \<Rightarrow> int \<Rightarrow> (string \<times> TaskShape) list" where
  "SHAPES env waves =
     map (\<lambda>s. (purpose s, s))
       [COMP_TASK, REQUIREMENTS_TASK env, LOCATIONS_TASK, VERIFY_TASK, BACKFILL_TASK env waves,
        ONGOING_TASK env waves, APPLICATION_TASK, JOB_PROFILE_TASK]"

lemmas shape_defs =
  COMP_TASK_def REQUIREMENTS_TASK_def LOCATIONS_TASK_def VERIFY_TASK_def BACKFILL_TASK_def
  ONGOING_TASK_def APPLICATION_TASK_def JOB_PROFILE_TASK_def classify_task_def

lemmas shape_sizes =
  EXTRACT_COMP_PER_CYCLE_def REQUIREMENTS_MAX_OUTPUT_TOKENS_def EXTRACT_REQUIREMENTS_PER_CYCLE_def
  CLASSIFY_LOCATIONS_PER_CYCLE_def CLASSIFY_MAX_TOKENS_def CLASSIFY_SPEC_EST_TOKENS_def
  BATCH_TOKEN_BUDGET_def VERIFICATION_MAX_OUTPUT_TOKENS_def CLASSIFY_PER_CYCLE_def
  REQUIREMENTS_EFFORT_PREFERENCE_def CLASSIFY_EFFORT_PREFERENCE_def

end
