(* ===== verification/Batch_Wire.thy ===== *)
theory Batch_Wire
  imports Shapes Json
begin

text \<open>
  What is sent to a provider: the requests of a batch and their size (\<open>core/batch/specs.py\<close>),
  their split into waves (\<open>_chunk_specs\<close> of \<open>core/batch/__init__.py\<close>) and the two wire forms,
  the OpenAI request line and the Anthropic message parameters
  (\<open>core/batch/anthropic_batches.py\<close>). The digest of a prompt and the SDK's schema
  transformation are arguments.
\<close>

section \<open>Requests and their size\<close>

record BatchSpec =
  s_custom_id :: string
  s_instructions :: string
  s_input :: string
  s_schema_name :: string
  s_schema :: json
  s_context :: "object option"
  s_endpoint :: string
  s_inputs :: "string list option"

definition RESPONSES :: string where "RESPONSES = ''/v1/responses''"
definition EMBEDDINGS :: string where "EMBEDDINGS = ''/v1/embeddings''"

definition BATCH_MAX_REQUESTS :: int where "BATCH_MAX_REQUESTS = 50000"
definition BATCH_CHARS_PER_TOKEN :: int where "BATCH_CHARS_PER_TOKEN = 4"

definition estimate_tokens :: "BatchSpec \<Rightarrow> int \<Rightarrow> int" where
  "estimate_tokens spec max_out =
     (let chars = int (length (s_instructions spec))
        + (case s_inputs spec of
             Some texts \<Rightarrow> sum_list (map (\<lambda>s. int (length s)) texts)
           | None \<Rightarrow> int (length (s_input spec))) in
      chars div BATCH_CHARS_PER_TOKEN
      + (if s_endpoint spec = RESPONSES then max_out else 0))"

definition input_count :: "BatchSpec \<Rightarrow> int" where
  "input_count spec = (case s_inputs spec of Some texts \<Rightarrow> int (length texts) | None \<Rightarrow> 1)"

section \<open>Waves\<close>

text \<open>
  The loop of \<open>_chunk_specs\<close>: the finished waves, the open wave with its running token and
  input totals, and the requests still to place.
\<close>

fun chunk_loop ::
  "int \<Rightarrow> BatchSpec list list \<Rightarrow> BatchSpec list \<Rightarrow> int \<Rightarrow> int \<Rightarrow> BatchSpec list
   \<Rightarrow> BatchSpec list list result" where
  "chunk_loop max_out chunks current running inputs [] =
     Inr (if current = [] then chunks else chunks @ [current])"
| "chunk_loop max_out chunks current running inputs (spec # specs) =
     (let count = input_count spec; cost = estimate_tokens spec max_out in
      if count > BATCH_MAX_REQUESTS
      then Inl (ValueError ''one request exceeds the provider embedding input limit'')
      else if current \<noteq> [] \<and> (running + cost > BATCH_TOKEN_BUDGET
                \<or> int (length current) \<ge> BATCH_MAX_REQUESTS
                \<or> inputs + count > BATCH_MAX_REQUESTS)
      then chunk_loop max_out (chunks @ [current]) [spec] cost count specs
      else chunk_loop max_out chunks (current @ [spec]) (running + cost) (inputs + count) specs)"

definition chunk_specs :: "BatchSpec list \<Rightarrow> int \<Rightarrow> BatchSpec list list result" where
  "chunk_specs specs max_out = chunk_loop max_out [] [] 0 0 specs"

definition wave_tokens :: "int \<Rightarrow> BatchSpec list \<Rightarrow> int" where
  "wave_tokens max_out wave = sum_list (map (\<lambda>s. estimate_tokens s max_out) wave)"

definition wave_inputs :: "BatchSpec list \<Rightarrow> int" where
  "wave_inputs wave = sum_list (map input_count wave)"

text \<open>What the provider takes in one batch, or the smallest wave there is.\<close>

definition wave_ok :: "int \<Rightarrow> BatchSpec list \<Rightarrow> bool" where
  "wave_ok max_out wave \<longleftrightarrow>
     wave \<noteq> [] \<and> int (length wave) \<le> BATCH_MAX_REQUESTS \<and> wave_inputs wave \<le> BATCH_MAX_REQUESTS
     \<and> (wave_tokens max_out wave \<le> BATCH_TOKEN_BUDGET \<or> length wave = 1)"

text \<open>A wave was closed only because the next wave's first request did not fit in it.\<close>

definition closed_by :: "int \<Rightarrow> BatchSpec list \<Rightarrow> BatchSpec list \<Rightarrow> bool" where
  "closed_by max_out wave after \<longleftrightarrow>
     (case after of [] \<Rightarrow> False | spec # _ \<Rightarrow> \<not> wave_ok max_out (wave @ [spec]))"

lemma chunk_loop_fails_iff:
  "(\<exists>e. chunk_loop m chunks current running inputs specs = Inl e)
   \<longleftrightarrow> (\<exists>s \<in> set specs. input_count s > BATCH_MAX_REQUESTS)"
  by (induction m chunks current running inputs specs rule: chunk_loop.induct)
    (auto simp: Let_def)

lemma wave_totals_append [simp]:
  "wave_tokens m (xs @ [s]) = wave_tokens m xs + estimate_tokens s m"
  "wave_inputs (xs @ [s]) = wave_inputs xs + input_count s"
  by (simp_all add: wave_tokens_def wave_inputs_def)

lemma wave_ok_single: "input_count s \<le> BATCH_MAX_REQUESTS \<Longrightarrow> wave_ok m [s]"
  by (simp add: wave_ok_def wave_inputs_def BATCH_MAX_REQUESTS_def)

definition chained :: "int \<Rightarrow> BatchSpec list list \<Rightarrow> bool" where
  "chained m waves \<longleftrightarrow> (\<forall>i. Suc i < length waves \<longrightarrow> closed_by m (waves ! i) (waves ! Suc i))"

lemma chained_snoc:
  "chained m (ws @ [w, v]) \<longleftrightarrow> chained m (ws @ [w]) \<and> closed_by m w v"
proof -
  have "closed_by m ((ws @ [w, v]) ! i) ((ws @ [w, v]) ! Suc i)
      = (if i = length ws then closed_by m w v
         else closed_by m ((ws @ [w]) ! i) ((ws @ [w]) ! Suc i))"
    if "Suc i < length (ws @ [w, v])" for i
    using that by (auto simp: nth_append less_Suc_eq)
  then show ?thesis by (auto simp: chained_def less_Suc_eq)
qed

lemma chained_single [simp]: "chained m [w]" "chained m []"
  by (simp_all add: chained_def)

lemma closed_by_grow: "closed_by m v w \<Longrightarrow> closed_by m v (w @ [s])"
  by (cases w) (simp_all add: closed_by_def)

lemma chained_grow: "chained m (ws @ [w]) \<Longrightarrow> chained m (ws @ [w @ [s]])"
  by (cases ws rule: rev_cases) (auto simp: chained_snoc closed_by_grow)

lemma chunk_loop_Inr:
  assumes "chunk_loop m chunks current running inputs specs = Inr waves"
    and "current \<noteq> [] \<or> chunks = []"
    and "running = wave_tokens m current" "inputs = wave_inputs current"
    and "list_all (wave_ok m) (if current = [] then chunks else chunks @ [current])"
    and "chained m (if current = [] then chunks else chunks @ [current])"
  shows "concat waves = concat chunks @ current @ specs \<and> list_all (wave_ok m) waves
    \<and> chained m waves"
  using assms
proof (induction m chunks current running inputs specs rule: chunk_loop.induct)
  case (1 m chunks current running inputs)
  then show ?case by (auto split: if_splits)
next
  case (2 m chunks current running inputs spec specs)
  let ?count = "input_count spec" and ?cost = "estimate_tokens spec m"
  let ?full = "current \<noteq> [] \<and> (running + ?cost > BATCH_TOKEN_BUDGET
      \<or> int (length current) \<ge> BATCH_MAX_REQUESTS \<or> inputs + ?count > BATCH_MAX_REQUESTS)"
  have count: "\<not> ?count > BATCH_MAX_REQUESTS" using "2.prems"(1) by (auto simp: Let_def)
  then have single: "wave_ok m [spec]" by (simp add: wave_ok_single)
  show ?case
  proof (cases ?full)
    case True
    then have "\<not> wave_ok m (current @ [spec])" using "2.prems"(3,4) by (auto simp: wave_ok_def)
    then have "chained m (chunks @ [current, [spec]])"
      using True "2.prems"(6) by (simp add: chained_snoc closed_by_def)
    then have "concat waves = concat (chunks @ [current]) @ [spec] @ specs
        \<and> list_all (wave_ok m) waves \<and> chained m waves"
      using True count single "2.prems"
      by (intro "2.IH"(1)) (auto simp: Let_def wave_tokens_def wave_inputs_def)
    then show ?thesis by simp
  next
    case False
    have "wave_ok m (current @ [spec])"
      using False single "2.prems"(3,4,5) by (cases "current = []") (auto simp: wave_ok_def)
    moreover have "chained m (chunks @ [current @ [spec]])"
      using "2.prems"(2,6) chained_grow by (cases "current = []") auto
    ultimately have "concat waves = concat chunks @ (current @ [spec]) @ specs
        \<and> list_all (wave_ok m) waves \<and> chained m waves"
      using False count "2.prems"
      by (intro "2.IH"(2)) (auto simp: Let_def split: if_splits)
    then show ?thesis by simp
  qed
qed

text \<open>
  C33: Splitting a submission into waves loses and repeats nothing: the waves, in order, are
  exactly the requests; each is non-empty, within the provider's request and input limits and
  within the token budget, unless it is a single request; and no wave closes early, since the
  first request of the next would not have fitted. It fails exactly when one request alone has
  more inputs than a batch may hold.
\<close>

theorem waves_partition_the_requests:
  "case chunk_specs specs max_out of
     Inl e \<Rightarrow> \<not> list_all (\<lambda>s. input_count s \<le> BATCH_MAX_REQUESTS) specs
   | Inr waves \<Rightarrow> concat waves = specs \<and> list_all (wave_ok max_out) waves
       \<and> list_all (\<lambda>i. closed_by max_out (waves ! i) (waves ! Suc i)) [0..<length waves - 1]
       \<and> list_all (\<lambda>s. input_count s \<le> BATCH_MAX_REQUESTS) specs"
proof (cases "chunk_specs specs max_out")
  case (Inl e)
  then have "\<exists>e. chunk_loop max_out [] [] 0 0 specs = Inl e" by (auto simp: chunk_specs_def)
  then show ?thesis using Inl by (auto simp: chunk_loop_fails_iff list_all_iff not_le)
next
  case (Inr waves)
  then have run: "chunk_loop max_out [] [] 0 0 specs = Inr waves" by (simp add: chunk_specs_def)
  then have "concat waves = specs \<and> list_all (wave_ok max_out) waves \<and> chained max_out waves"
    using chunk_loop_Inr [OF run] by (simp add: wave_tokens_def wave_inputs_def)
  moreover have "\<not> (\<exists>s \<in> set specs. input_count s > BATCH_MAX_REQUESTS)"
    using run chunk_loop_fails_iff [of max_out "[]" "[]" 0 0 specs] by simp
  ultimately show ?thesis using Inr by (auto simp: list_all_iff chained_def)
qed


section \<open>Request lines\<close>

text \<open>\<open>digest\<close> is the hex SHA-256 of a text, \<open>transform_schema\<close> the Anthropic SDK's function.\<close>

definition prompt_cache_key :: "(string \<Rightarrow> string) \<Rightarrow> string \<Rightarrow> string" where
  "prompt_cache_key digest instr = ''jt-'' @ take 32 (digest instr)"

definition explicit_cache :: "string \<Rightarrow> bool" where
  "explicit_cache mdl =
     (case model (Some mdl) of
        None \<Rightarrow> False
      | Some known \<Rightarrow> supports_explicit_prompt_cache known = Some True)"

definition text_block :: "string \<Rightarrow> json" where
  "text_block s = JObj [(''type'', JStr ''input_text''), (''text'', JStr s)]"

definition message :: "string \<Rightarrow> json \<Rightarrow> json" where
  "message role block = JObj [(''role'', JStr role), (''content'', JArr [block])]"

definition explicit_mode :: json where
  "explicit_mode = JObj [(''mode'', JStr ''explicit'')]"

definition cached_prompt ::
  "string \<Rightarrow> string \<Rightarrow> string \<Rightarrow> json option \<Rightarrow> object result" where
  "cached_prompt mdl instr inp policy =
     (let explicit = explicit_cache mdl;
          plain = [(''instructions'', JStr instr), (''input'', JStr inp)] in
      if policy \<noteq> None \<and> (policy \<noteq> Some (JStr ''no_cache'') \<or> \<not> explicit)
      then Inl (ValueError ''unsupported prompt cache policy for this model'')
      else if \<not> explicit \<or> instr = '''' \<and> policy = None then Inr plain
      else if policy = Some (JStr ''no_cache'')
      then Inr (plain @ [(''prompt_cache_options'', explicit_mode)])
      else Inr
        [(''input'',
          JArr (message ''developer''
                  (JObj [(''type'', JStr ''input_text''), (''text'', JStr instr),
                         (''prompt_cache_breakpoint'', explicit_mode)])
                # (if inp = '''' then [] else [message ''user'' (text_block inp)]))),
         (''prompt_cache_options'', explicit_mode)])"

text \<open>\<open>(spec.context or {}).get("prompt_cache_policy")\<close>.\<close>

definition cache_policy :: "BatchSpec \<Rightarrow> json option" where
  "cache_policy spec =
     (case get (coalesce (s_context spec) []) ''prompt_cache_policy'' of
        Some JNull \<Rightarrow> None
      | v \<Rightarrow> v)"

definition build_line ::
  "(string \<Rightarrow> string) \<Rightarrow> BatchSpec \<Rightarrow> string \<Rightarrow> string \<Rightarrow> int \<Rightarrow> object result" where
  "build_line digest spec mdl eff max_out =
     (let line = (\<lambda>body. [(''custom_id'', JStr (s_custom_id spec)), (''method'', JStr ''POST''),
            (''url'', JStr (s_endpoint spec)), (''body'', JObj body)]) in
      if s_endpoint spec = EMBEDDINGS
      then Inr (line [(''model'', JStr mdl),
             (''input'', case s_inputs spec of Some texts \<Rightarrow> JStrs texts
                                            | None \<Rightarrow> JStr (s_input spec)),
             (''encoding_format'', JStr ''float'')])
      else if s_endpoint spec \<noteq> RESPONSES
      then Inl (ValueError (''unsupported batch endpoint: '' @ s_endpoint spec))
      else and_then (cached_prompt mdl (s_instructions spec) (s_input spec) (cache_policy spec))
        (\<lambda>prompt. Inr (line ((''model'', JStr mdl) # prompt
           @ [(''reasoning'', JObj [(''effort'', JStr eff)]),
              (''max_output_tokens'', JNum max_out),
              (''store'', JBool False),
              (''prompt_cache_key'', JStr (prompt_cache_key digest (s_instructions spec))),
              (''text'', JObj [(''format'', JObj [(''type'', JStr ''json_schema''),
                  (''name'', JStr (s_schema_name spec)), (''strict'', JBool True),
                  (''schema'', s_schema spec)])])]))))"

definition CACHE_CONTROL :: json where
  "CACHE_CONTROL = JObj [(''type'', JStr ''ephemeral''), (''ttl'', JStr ''1h'')]"

definition request_params ::
  "(json \<Rightarrow> json) \<Rightarrow> BatchSpec \<Rightarrow> string \<Rightarrow> string \<Rightarrow> int \<Rightarrow> object result" where
  "request_params transform_schema spec mdl eff max_out =
     (if s_endpoint spec \<noteq> RESPONSES
      then Inl (ValueError (mdl @ '' has no batch transport for '' @ s_endpoint spec))
      else if s_input spec = '''' then Inl (ValueError ''a Messages request needs input text'')
      else case model (Some mdl) of
        None \<Rightarrow> Inl (ValueError (mdl @ '' is not declared''))
      | Some declared \<Rightarrow>
          if eff \<noteq> '''' \<and> (param (reasoning declared) \<noteq> Some ''effort''
                          \<or> eff \<notin> set (accepts (reasoning declared)))
          then Inl (ValueError (mdl @ '' does not accept effort '' @ quoted eff))
          else Inr
            ([(''model'', JStr mdl), (''max_tokens'', JNum max_out),
              (''messages'', JArr [JObj [(''role'', JStr ''user''), (''content'', JStr (s_input spec))]]),
              (''output_config'', JObj
                 ((''format'', JObj [(''type'', JStr ''json_schema''),
                                     (''schema'', transform_schema (s_schema spec))])
                  # (if eff = '''' then [] else [(''effort'', JStr eff)])))]
             @ (if s_instructions spec = '''' then []
                else [(''system'', JArr [JObj
                  ([(''type'', JStr ''text''), (''text'', JStr (s_instructions spec))]
                   @ (if cache_policy spec = Some (JStr ''no_cache'') then []
                      else [(''cache_control'', CACHE_CONTROL)]))])])))"

section \<open>Reading a request back\<close>

text \<open>
  What a provider reads out of a request: the instructions and the input, wherever the form
  puts them.
\<close>

definition obj_get :: "json \<Rightarrow> string \<Rightarrow> json option" where
  "obj_get v k = (case v of JObj kvs \<Rightarrow> get kvs k | _ \<Rightarrow> None)"

definition text_in :: "json option \<Rightarrow> string" where
  "text_in v = (case v of Some (JStr s) \<Rightarrow> s | _ \<Rightarrow> '''')"

definition message_text :: "json \<Rightarrow> string" where
  "message_text msg =
     (case obj_get msg ''content'' of Some (JArr [block]) \<Rightarrow> text_in (obj_get block ''text'')
                                   | _ \<Rightarrow> '''')"

definition responses_prompt :: "object \<Rightarrow> string \<times> string" where
  "responses_prompt line =
     (let body = coalesce (get line ''body'') JNull in
      case obj_get body ''input'' of
        Some (JArr msgs) \<Rightarrow>
          (concat (map message_text (filter (\<lambda>m. obj_get m ''role'' = Some (JStr ''developer'')) msgs)),
           concat (map message_text (filter (\<lambda>m. obj_get m ''role'' = Some (JStr ''user'')) msgs)))
      | inp \<Rightarrow> (text_in (obj_get body ''instructions''), text_in inp))"

definition messages_prompt :: "object \<Rightarrow> string \<times> string" where
  "messages_prompt params =
     ((case get params ''system'' of Some (JArr [block]) \<Rightarrow> text_in (obj_get block ''text'') | _ \<Rightarrow> ''''),
      (case get params ''messages'' of Some (JArr [msg]) \<Rightarrow> text_in (obj_get msg ''content'') | _ \<Rightarrow> ''''))"

text \<open>
  Both wire forms carry the request's own prompt. Whatever the model's caching and the
  request's cache policy, the instructions and the input a provider reads from a built line or
  from message parameters are the request's, under its custom id; a line is refused exactly for
  a cache policy the model cannot honour.
\<close>

theorem wire_forms_carry_the_prompt:
  "(case build_line digest (spec\<lparr>s_endpoint := RESPONSES\<rparr>) mdl eff max_out of
      Inr line \<Rightarrow> responses_prompt line = (s_instructions spec, s_input spec)
        \<and> get line ''custom_id'' = Some (JStr (s_custom_id spec))
        \<and> (cache_policy spec = None \<or> cache_policy spec = Some (JStr ''no_cache'') \<and> explicit_cache mdl)
    | Inl e \<Rightarrow> \<not> (cache_policy spec = None
                \<or> cache_policy spec = Some (JStr ''no_cache'') \<and> explicit_cache mdl))
   \<and> (case request_params transform spec mdl eff max_out of
        Inr params \<Rightarrow> messages_prompt params = (s_instructions spec, s_input spec)
      | Inl e \<Rightarrow> True)"
proof
  have pol: "cache_policy (spec\<lparr>s_endpoint := e\<rparr>) = cache_policy spec" for e
    by (simp add: cache_policy_def)
  show "case build_line digest (spec\<lparr>s_endpoint := RESPONSES\<rparr>) mdl eff max_out of
      Inr line \<Rightarrow> responses_prompt line = (s_instructions spec, s_input spec)
        \<and> get line ''custom_id'' = Some (JStr (s_custom_id spec))
        \<and> (cache_policy spec = None \<or> cache_policy spec = Some (JStr ''no_cache'') \<and> explicit_cache mdl)
    | Inl e \<Rightarrow> \<not> (cache_policy spec = None
                \<or> cache_policy spec = Some (JStr ''no_cache'') \<and> explicit_cache mdl)"
    by (auto simp: build_line_def pol cached_prompt_def Let_def RESPONSES_def EMBEDDINGS_def
        responses_prompt_def get_def obj_get_def coalesce_def text_in_def message_def
        message_text_def text_block_def)
  show "case request_params transform spec mdl eff max_out of
        Inr params \<Rightarrow> messages_prompt params = (s_instructions spec, s_input spec)
      | Inl e \<Rightarrow> True"
    by (auto simp: request_params_def messages_prompt_def get_def obj_get_def text_in_def
        split: option.split)
qed

end
