(* ===== verification/Fallback.thy ===== *)
theory Fallback
  imports Shapes Json
begin

text \<open>
  Moving work off a provider whose account cannot pay: \<open>core/fallback.py\<close> (what counts as
  exhaustion, the admin's chains, the next model of a chain), \<open>core/verdict_equivalence.py\<close>
  (which models' verdicts count as one model's own) and \<open>api/model_fallback.py\<close> (the open
  alerts that mark a provider, and routing around them). The settings, the alert table, the
  clock and the server's keys are arguments.
\<close>

section \<open>Exhaustion\<close>

definition FILTER_PURPOSE :: string where "FILTER_PURPOSE = ''filter''"
definition MANAGED_BOARD_PURPOSE :: string where "MANAGED_BOARD_PURPOSE = ''managed_board''"
definition FILTER_MAX_OUTPUT_TOKENS :: int where "FILTER_MAX_OUTPUT_TOKENS = 6000"

definition EST_PROMPT_TOKENS :: "string \<Rightarrow> int option" where
  "EST_PROMPT_TOKENS p =
     (if p = FILTER_PURPOSE then Some 2514
      else if p = MANAGED_BOARD_PURPOSE then Some 1598 else None)"

definition custom_filter_shape :: "string \<Rightarrow> string option \<Rightarrow> string \<Rightarrow> TaskShape result" where
  "custom_filter_shape mdl eff purp =
     (case EST_PROMPT_TOKENS purp of
        None \<Rightarrow> Inl (KeyError purp)
      | Some est \<Rightarrow> Inr
          \<lparr>purpose = purp, structured = JSON_SCHEMA, t_batched = True,
           t_max_output_tokens = FILTER_MAX_OUTPUT_TOKENS, est_prompt_tokens = est,
           candidates = [mdl], effort = eff, effort_preference = [], t_params = [],
           t_label = '''', per_cycle = 0, t_notes = '''', on_model_change = MIXES,
           evidence = []\<rparr>)"

text \<open>
  An error as the SDKs give it: its text, and the texts of its \<open>code\<close> and \<open>body\<close> where it
  carries them (a missing or false attribute is \<open>None\<close>).
\<close>

record provider_error =
  pe_text :: string
  pe_code :: "string option"
  pe_body :: "string option"

definition haystack :: "provider_error \<Rightarrow> string" where
  "haystack e =
     py_lower (join '' '' ((if pe_text e = '''' then [] else [pe_text e])
       @ (case pe_code e of None \<Rightarrow> [] | Some s \<Rightarrow> [s])
       @ (case pe_body e of None \<Rightarrow> [] | Some s \<Rightarrow> [s])))"

definition exhaustion_reason :: "string option \<Rightarrow> provider_error \<Rightarrow> string option" where
  "exhaustion_reason prov e =
     (case map_of PROVIDERS (coalesce prov '''') of
        None \<Rightarrow> None
      | Some known \<Rightarrow>
          if \<exists>m \<in> set (exhaustion_markers known). contains m (haystack e)
          then Some (if pe_text e = '''' then haystack e else pe_text e) else None)"

section \<open>Chains\<close>

definition chain_purposes :: "(string \<Rightarrow> string option) \<Rightarrow> int \<Rightarrow> string list" where
  "chain_purposes env waves =
     sort (filter (\<lambda>p. p \<noteq> ''job_profile'') (map fst (SHAPES env waves)))
     @ [FILTER_PURPOSE, MANAGED_BOARD_PURPOSE]"

definition list_repr :: "string list \<Rightarrow> string" where
  "list_repr xs = ''['' @ join '', '' (map quoted xs) @ '']''"

text \<open>\<open>FallbackChains._known\<close>: every purpose known, no chain repeats a model, every model declared.\<close>

definition chain_error :: "string list \<Rightarrow> string \<times> string list \<Rightarrow> py_error option" where
  "chain_error purposes item =
     (case item of (purp, models) \<Rightarrow>
        if purp \<notin> set purposes
        then Some (ValueError (''unknown purpose '' @ quoted purp @ ''; one of ''
                               @ list_repr (sort purposes)))
        else if \<not> distinct models
        then Some (ValueError (purp @ '': a chain repeats a model''))
        else (case find (\<lambda>n. model (Some n) = None) models of
                None \<Rightarrow> None
              | Some n \<Rightarrow> Some (ValueError (purp @ '': unknown model '' @ quoted n))))"

fun FallbackChains ::
  "string list \<Rightarrow> (string \<times> string list) list \<Rightarrow> (string \<times> string list) list result" where
  "FallbackChains purposes [] = Inr []"
| "FallbackChains purposes (e # es) =
     (case chain_error purposes e of
        Some err \<Rightarrow> Inl err
      | None \<Rightarrow> and_then (FallbackChains purposes es) (\<lambda>rest. Inr (e # rest)))"

definition only :: "TaskShape \<Rightarrow> string \<Rightarrow> TaskShape" where
  "only shape name = shape\<lparr>candidates := [name]\<rparr>"

text \<open>Only \<open>NoEligibleModel\<close> moves on to the next entry; anything else would propagate.\<close>

fun next_choice ::
  "TaskShape \<Rightarrow> string list \<Rightarrow> string list \<Rightarrow> string list \<Rightarrow> instant option
   \<Rightarrow> py_error + Choice option" where
  "next_choice shape [] blocked tried moment = Inr None"
| "next_choice shape (name # chain) blocked tried moment =
     (if name \<in> set tried
         \<or> (case provider_of (Some name) of None \<Rightarrow> False | Some p \<Rightarrow> p \<in> set blocked)
      then next_choice shape chain blocked tried moment
      else case resolve (only shape name) moment None of
        Inl (NoEligibleModel _) \<Rightarrow> next_choice shape chain blocked tried moment
      | Inl (Raised e) \<Rightarrow> Inl e
      | Inr choice \<Rightarrow> Inr (Some (choice\<lparr>c_reason := ''fallback chain''\<rparr>)))"

section \<open>Verdict equivalence\<close>

record Group =
  g_kind :: string
  g_models :: "string list"

text \<open>
  \<open>ModelEquivalence._known_and_disjoint\<close>; the kind and the minimum of two models are the
  field constraints of \<open>Group\<close>.
\<close>

definition group_field_error :: "Group \<Rightarrow> py_error option" where
  "group_field_error g =
     (if g_kind g \<noteq> ''custom'' \<and> g_kind g \<noteq> ''verify'' then Some (ValueError ''kind'')
      else if length (g_models g) < 2 then Some (ValueError ''models'')
      else None)"

fun names_error :: "string \<Rightarrow> (string \<times> string) list \<Rightarrow> string list \<Rightarrow> py_error option" where
  "names_error k seen [] = None"
| "names_error k seen (n # ns) =
     (if model (Some n) = None then Some (ValueError (k @ '': unknown model '' @ quoted n))
      else if (k, n) \<in> set seen then Some (ValueError (k @ '': '' @ quoted n @ '' is in two groups''))
      else names_error k ((k, n) # seen) ns)"

fun groups_error :: "(string \<times> string) list \<Rightarrow> Group list \<Rightarrow> py_error option" where
  "groups_error seen [] = None"
| "groups_error seen (g # gs) =
     (if \<not> distinct (g_models g) then Some (ValueError (g_kind g @ '': a group repeats a model''))
      else case names_error (g_kind g) seen (g_models g) of
        Some err \<Rightarrow> Some err
      | None \<Rightarrow> groups_error (map (Pair (g_kind g)) (g_models g) @ seen) gs)"

definition ModelEquivalence :: "Group list \<Rightarrow> Group list result" where
  "ModelEquivalence gs =
     (case find (\<lambda>g. group_field_error g \<noteq> None) gs of
        Some g \<Rightarrow> Inl (the (group_field_error g))
      | None \<Rightarrow> (case groups_error [] gs of Some err \<Rightarrow> Inl err | None \<Rightarrow> Inr gs))"

definition answering :: "Group list \<Rightarrow> string \<Rightarrow> string \<Rightarrow> string list" where
  "answering groups k mdl =
     (case find (\<lambda>g. g_kind g = k \<and> mdl \<in> set (g_models g)) groups of
        Some g \<Rightarrow> sort (g_models g)
      | None \<Rightarrow> [mdl])"

section \<open>Routing around an exhausted provider\<close>

definition VERDICT_KIND :: "string \<Rightarrow> string option" where
  "VERDICT_KIND p =
     (if p = FILTER_PURPOSE \<or> p = MANAGED_BOARD_PURPOSE then Some ''custom''
      else if p = ''verify'' then Some ''verify'' else None)"

definition ALERT_KIND :: string where "ALERT_KIND = ''provider_exhausted''"

record HealthAlert =
  al_kind :: string
  al_subject :: string
  al_severity :: string
  al_message :: string
  al_detail :: object
  al_first_seen :: instant
  al_last_seen :: instant
  al_resolved_at :: "instant option"

text \<open>
  The settings and the deployment a routing decision reads: the chains, the equivalence groups,
  the scheduler's cycle in minutes and which providers this host holds a key for.
\<close>

record fallback_env =
  fb_chains :: "(string \<times> string list) list"
  fb_groups :: "Group list"
  fb_cycle_minutes :: int
  fb_keyed :: "string list"

definition chain_for :: "fallback_env \<Rightarrow> string \<Rightarrow> string list" where
  "chain_for env p = coalesce (map_of (fb_chains env) p) []"

definition equivalent_models :: "fallback_env \<Rightarrow> string \<Rightarrow> string \<Rightarrow> string list option" where
  "equivalent_models env p primary =
     map_option (\<lambda>k. answering (fb_groups env) k primary) (VERDICT_KIND p)"

definition usable :: "fallback_env \<Rightarrow> string \<Rightarrow> string \<Rightarrow> string list \<Rightarrow> string list" where
  "usable env p primary models =
     (case equivalent_models env p primary of
        None \<Rightarrow> models
      | Some g \<Rightarrow> filter (\<lambda>m. m \<in> set g) models)"

definition open_alert :: "HealthAlert \<Rightarrow> bool" where
  "open_alert a \<longleftrightarrow> al_kind a = ALERT_KIND \<and> al_resolved_at a = None"

definition exhausted_rows :: "instant \<Rightarrow> int \<Rightarrow> HealthAlert list \<Rightarrow> (HealthAlert \<times> bool) list" where
  "exhausted_rows now cycle alerts =
     sort_key (al_subject \<circ> fst)
       (map (\<lambda>a. (a, al_last_seen a > now - cycle * 60 * usec_per_second)) (filter open_alert alerts))"

definition blocked_providers :: "instant \<Rightarrow> int \<Rightarrow> HealthAlert list \<Rightarrow> string list" where
  "blocked_providers now cycle alerts =
     map (al_subject \<circ> fst) (filter snd (exhausted_rows now cycle alerts))"

definition mark_message :: "string \<Rightarrow> string \<Rightarrow> string" where
  "mark_message prov reason =
     prov @ '' refused work because the account cannot pay: '' @ reason
     @ ''. Purposes with a fallback chain (model_fallback_chains) run on its next model; ''
     @ ''the rest fail until the account is paid. The provider is tried again every ''
     @ ''scheduler cycle.''"

definition optional :: "string option \<Rightarrow> json" where
  "optional s = (case s of None \<Rightarrow> JNull | Some v \<Rightarrow> JStr v)"

definition mark ::
  "instant \<Rightarrow> string \<Rightarrow> string \<Rightarrow> string option \<Rightarrow> string option \<Rightarrow> HealthAlert list
   \<Rightarrow> HealthAlert list" where
  "mark now prov reason mdl purp alerts =
     (if \<exists>a \<in> set alerts. open_alert a \<and> al_subject a = prov
      then update_where (\<lambda>a. open_alert a \<and> al_subject a = prov)
             (\<lambda>a. a\<lparr>al_last_seen := now\<rparr>) alerts
      else alerts @ [\<lparr>al_kind = ALERT_KIND, al_subject = prov, al_severity = ''critical'',
             al_message = mark_message prov reason,
             al_detail = [(''reason'', JStr reason), (''model'', optional mdl),
                          (''purpose'', optional purp)],
             al_first_seen = now, al_last_seen = now, al_resolved_at = None\<rparr>])"

definition clear :: "instant \<Rightarrow> string \<Rightarrow> HealthAlert list \<Rightarrow> HealthAlert list" where
  "clear now prov alerts =
     update_where (\<lambda>a. open_alert a \<and> al_subject a = prov)
       (\<lambda>a. a\<lparr>al_resolved_at := Some now\<rparr>) alerts"

definition unkeyed :: "fallback_env \<Rightarrow> string list" where
  "unkeyed env = filter (\<lambda>p. p \<notin> set (fb_keyed env)) (map fst PROVIDERS)"

definition next_for ::
  "fallback_env \<Rightarrow> TaskShape \<Rightarrow> string \<Rightarrow> string list \<Rightarrow> string list \<Rightarrow> py_error + Choice option" where
  "next_for env shape primary tried blocked =
     (let models = usable env (purpose shape) primary (chain_for env (purpose shape)) in
      if models = [] then Inr None
      else and_then (next_choice shape models (blocked @ unkeyed env) tried None) (\<lambda>choice.
        Inr (map_option (\<lambda>ch. ch\<lparr>c_fallback_from := Some primary,
               c_reason := (case provider_of (Some primary) of None \<Rightarrow> ''None'' | Some p \<Rightarrow> p)
                 @ '' is out of credit; fallback from '' @ primary\<rparr>) choice)))"

definition route ::
  "instant \<Rightarrow> fallback_env \<Rightarrow> HealthAlert list \<Rightarrow> TaskShape \<Rightarrow> string option \<Rightarrow> route_error + Choice" where
  "route now env alerts shape override =
     and_then (resolve shape None override) (\<lambda>chosen.
       let blocked = blocked_providers now (fb_cycle_minutes env) alerts in
       if c_provider chosen \<notin> set blocked then Inr chosen
       else case next_for env shape (c_model chosen) [c_model chosen] blocked of
         Inl e \<Rightarrow> Inl (Raised e)
       | Inr None \<Rightarrow> Inr chosen
       | Inr (Some ch) \<Rightarrow> Inr ch)"

section \<open>What a fallback can be\<close>

text \<open>An entry of a chain that the walk passes over.\<close>

definition skipped :: "TaskShape \<Rightarrow> string list \<Rightarrow> string list \<Rightarrow> string \<Rightarrow> bool" where
  "skipped shape blocked tried name \<longleftrightarrow>
     name \<in> set tried
     \<or> (case provider_of (Some name) of None \<Rightarrow> False | Some p \<Rightarrow> p \<in> set blocked)
     \<or> \<not> capable (only shape name) name"

lemma resolve_only:
  "resolve (only shape name) moment None = resolve_candidates (only shape name) moment"
  by (simp add: resolve_def only_def truthy_def)

lemma resolve_only_Inl:
  assumes "\<not> capable (only shape name) name"
  obtains msg where "resolve (only shape name) moment None = Inl (NoEligibleModel msg)"
proof -
  have "candidates (only shape name) = [name]" by (simp add: only_def)
  then have "\<exists>msg. resolve_candidates (only shape name) moment = Inl (NoEligibleModel msg)"
    using resolve_candidates_fails_iff [of "only shape name" moment] assms by simp
  then show thesis using that resolve_only by metis
qed

lemma resolve_only_Inr:
  assumes "capable (only shape name) name"
  obtains ch where "resolve (only shape name) moment None = Inr ch" "c_model ch = name"
    "provider_of (Some name) = Some (c_provider ch)"
proof -
  obtain ch where ch: "resolve (only shape name) moment None = Inr ch"
    using resolve_some_capable [of name "only shape name" moment] assms by (auto simp: only_def)
  then have "resolve_candidates (only shape name) moment = Inr ch" by (simp add: resolve_only)
  then obtain us vs where "candidates (only shape name) = us @ c_model ch # vs"
      "provider_of (Some (c_model ch)) = Some (c_provider ch)"
    by (rule resolve_candidates_cases)
  then show thesis using that [OF ch] by (auto simp: only_def Cons_eq_append_conv)
qed

lemma next_choice_spec:
  "(\<exists>ch pre post. next_choice shape chain blocked tried moment = Inr (Some ch)
      \<and> chain = pre @ c_model ch # post \<and> \<not> skipped shape blocked tried (c_model ch)
      \<and> provider_of (Some (c_model ch)) = Some (c_provider ch)
      \<and> (\<forall>n \<in> set pre. skipped shape blocked tried n))
   \<or> (next_choice shape chain blocked tried moment = Inr None
      \<and> (\<forall>n \<in> set chain. skipped shape blocked tried n))"
proof (induction chain)
  case (Cons name chain)
  show ?case
  proof (cases "skipped shape blocked tried name")
    case True
    then have "next_choice shape (name # chain) blocked tried moment
        = next_choice shape chain blocked tried moment"
      using resolve_only_Inl [of shape name moment] by (fastforce simp: skipped_def)
    then show ?thesis
      using Cons.IH True by (metis (no_types, lifting) append_Cons set_ConsD)
  next
    case False
    then obtain ch where "resolve (only shape name) moment None = Inr ch" "c_model ch = name"
        "provider_of (Some name) = Some (c_provider ch)"
      using resolve_only_Inr [of shape name moment] by (auto simp: skipped_def)
    then have "next_choice shape (name # chain) blocked tried moment
          = Inr (Some (ch\<lparr>c_reason := ''fallback chain''\<rparr>))"
      using False by (auto simp: skipped_def)
    moreover have "c_model (ch\<lparr>c_reason := ''fallback chain''\<rparr>) = name"
      "provider_of (Some name) = Some (c_provider (ch\<lparr>c_reason := ''fallback chain''\<rparr>))"
      using \<open>c_model ch = name\<close> \<open>provider_of (Some name) = Some (c_provider ch)\<close> by simp_all
    ultimately show ?thesis
      using False by (metis append_Nil empty_iff empty_set)
  qed
qed simp

text \<open>
  The next model of a chain is the first entry that can run the task now. The walk returns
  an entry that was not tried, whose provider is not blocked and that routing accepts for the
  task, and every entry before it fails one of the three; it returns nothing exactly when
  every entry fails one, and it never raises.
\<close>

theorem next_choice_is_first_usable_entry:
  "case next_choice shape chain blocked tried moment of
     Inl e \<Rightarrow> False
   | Inr None \<Rightarrow> list_all (skipped shape blocked tried) chain
   | Inr (Some ch) \<Rightarrow> \<exists>pre post. chain = pre @ c_model ch # post
       \<and> \<not> skipped shape blocked tried (c_model ch) \<and> list_all (skipped shape blocked tried) pre"
  using next_choice_spec [of shape chain blocked tried moment]
  by (elim disjE exE conjE; simp only: sum.case option.case list_all_iff) blast+

lemma usable_subset: "set (usable env p primary models) \<subseteq> set models"
  by (auto simp: usable_def split: option.split)

lemma next_for_fresh:
  assumes "next_for env shape primary tried blocked = Inr (Some ch)"
  shows "c_model ch \<in> set (usable env (purpose shape) primary (chain_for env (purpose shape)))"
    "c_model ch \<notin> set tried" "c_provider ch \<notin> set (blocked @ unkeyed env)"
    "capable (only shape (c_model ch)) (c_model ch)" "c_fallback_from ch = Some primary"
proof -
  let ?ms = "usable env (purpose shape) primary (chain_for env (purpose shape))"
  obtain ch' where n: "next_choice shape ?ms (blocked @ unkeyed env) tried None = Inr (Some ch')"
      and ch: "c_model ch = c_model ch'" "c_provider ch = c_provider ch'"
        "c_fallback_from ch = Some primary"
    using assms by (auto simp: next_for_def Let_def and_then_Inr_iff split: if_splits)
  from next_choice_spec [of shape ?ms "blocked @ unkeyed env" tried None] n
  have "c_model ch' \<in> set ?ms" "\<not> skipped shape (blocked @ unkeyed env) tried (c_model ch')"
    "provider_of (Some (c_model ch')) = Some (c_provider ch')"
    by auto
  then show "c_model ch \<in> set ?ms" "c_model ch \<notin> set tried"
    "c_provider ch \<notin> set (blocked @ unkeyed env)"
    "capable (only shape (c_model ch)) (c_model ch)" "c_fallback_from ch = Some primary"
    using ch by (auto simp: skipped_def)
qed

lemma next_for_no_raise: "next_for env shape primary tried blocked \<noteq> Inl e"
  using next_choice_spec [of shape "usable env (purpose shape) primary (chain_for env (purpose shape))"
      "blocked @ unkeyed env" tried None]
  by (auto simp: next_for_def Let_def and_then_Inl_iff)

text \<open>
  C34: Work leaves its routed model only when that model's provider is out of credit, and goes
  only where it can run: to an entry of the purpose's chain, on a provider that is neither out
  of credit nor without a key, that meets the task's declared needs, and, for a purpose whose
  answers are verdicts, in the routed model's equivalence group. Routing with fallback fails
  exactly as routing without it does.
\<close>

theorem fallback_goes_only_where_work_can_run:
  "case route now env alerts shape override of
     Inl err \<Rightarrow> resolve shape None override = Inl err
   | Inr ch \<Rightarrow> \<exists>chosen. resolve shape None override = Inr chosen
       \<and> (ch = chosen
          \<or> (c_provider chosen \<in> set (blocked_providers now (fb_cycle_minutes env) alerts)
             \<and> c_model ch \<in> set (chain_for env (purpose shape)) \<and> c_model ch \<noteq> c_model chosen
             \<and> c_provider ch \<notin> set (blocked_providers now (fb_cycle_minutes env) alerts)
             \<and> c_provider ch \<notin> set (unkeyed env)
             \<and> capable (only shape (c_model ch)) (c_model ch)
             \<and> c_fallback_from ch = Some (c_model chosen)
             \<and> (case VERDICT_KIND (purpose shape) of
                    None \<Rightarrow> True
                  | Some k \<Rightarrow> c_model ch \<in> set (answering (fb_groups env) k (c_model chosen)))))"
proof (cases "resolve shape None override")
  case (Inr chosen)
  let ?blocked = "blocked_providers now (fb_cycle_minutes env) alerts"
  let ?next = "next_for env shape (c_model chosen) [c_model chosen] ?blocked"
  show ?thesis
  proof (cases "c_provider chosen \<in> set ?blocked \<and> (\<exists>ch. ?next = Inr (Some ch))")
    case True
    then obtain ch where n: "?next = Inr (Some ch)" by blast
    have "route now env alerts shape override = Inr ch"
      using True n Inr by (simp add: route_def Let_def)
    then show ?thesis
      using True Inr next_for_fresh [OF n] usable_subset
      by (auto simp: usable_def equivalent_models_def split: option.splits)
  next
    case False
    then have "route now env alerts shape override = Inr chosen"
      using Inr next_for_no_raise [of env shape "c_model chosen" "[c_model chosen]" ?blocked]
      by (auto simp: route_def Let_def split: sum.splits option.splits)
    then show ?thesis using Inr by simp
  qed
qed (simp add: route_def)


section \<open>The alert that marks a provider\<close>

lemma blocked_iff:
  "p \<in> set (blocked_providers t cycle alerts)
   \<longleftrightarrow> (\<exists>a \<in> set alerts. open_alert a \<and> al_subject a = p
        \<and> al_last_seen a > t - cycle * 60 * usec_per_second)"
  by (auto simp: blocked_providers_def exhausted_rows_def image_iff)

lemma Bex_update_where:
  "(\<exists>a \<in> set (update_where P f rows). Q a) \<longleftrightarrow> (\<exists>a \<in> set rows. Q (if P a then f a else a))"
  by (auto simp: update_where_def)

lemma open_alert_update [simp]:
  "open_alert (a\<lparr>al_last_seen := t\<rparr>) = open_alert a" "\<not> open_alert (a\<lparr>al_resolved_at := Some t\<rparr>)"
  by (simp_all add: open_alert_def)

text \<open>
  A refusal blocks exactly the refusing provider, for exactly one scheduler cycle: after it
  is marked, routing skips the provider at the moments less than a cycle later and tries it
  again from then on, whatever its alert was before; after it is cleared routing never skips
  it. Neither changes what routing skips among the other providers.
\<close>

theorem refusal_blocks_for_one_cycle:
  "(prov \<in> set (blocked_providers t cycle (mark now prov reason mdl purp alerts))
      \<longleftrightarrow> t < now + cycle * 60 * usec_per_second)
   \<and> prov \<notin> set (blocked_providers t cycle (clear now prov alerts))
   \<and> set (blocked_providers t cycle (mark now prov reason mdl purp alerts)) - {prov}
       = set (blocked_providers t cycle alerts) - {prov}
   \<and> set (blocked_providers t cycle (clear now prov alerts)) - {prov}
       = set (blocked_providers t cycle alerts) - {prov}"
proof -
  note sees = blocked_iff mark_def clear_def Bex_update_where
  have new: "open_alert \<lparr>al_kind = ALERT_KIND, al_subject = p, al_severity = s, al_message = m,
      al_detail = d, al_first_seen = f, al_last_seen = l, al_resolved_at = None\<rparr>" for p s m d f l
    by (simp add: open_alert_def)
  have marked: "prov \<in> set (blocked_providers t cycle (mark now prov reason mdl purp alerts))
      \<longleftrightarrow> t < now + cycle * 60 * usec_per_second"
    by (cases "\<exists>a \<in> set alerts. open_alert a \<and> al_subject a = prov") (auto simp: sees new)
  have rest: "q \<in> set (blocked_providers t cycle (mark now prov reason mdl purp alerts))
      \<longleftrightarrow> q \<in> set (blocked_providers t cycle alerts)"
      "q \<in> set (blocked_providers t cycle (clear now prov alerts))
      \<longleftrightarrow> q \<in> set (blocked_providers t cycle alerts)" if "q \<noteq> prov" for q
    using that by (auto simp: sees)
  have cleared: "prov \<notin> set (blocked_providers t cycle (clear now prov alerts))"
    by (auto simp: sees)
  show ?thesis using marked cleared rest by blast
qed

section \<open>Equivalence of verdicts\<close>

definition disjoint_groups :: "Group list \<Rightarrow> bool" where
  "disjoint_groups gs \<longleftrightarrow>
     sorted_wrt (\<lambda>g h. g_kind g = g_kind h \<longrightarrow> set (g_models g) \<inter> set (g_models h) = {}) gs"

lemma names_error_None:
  "names_error k seen ns = None \<Longrightarrow> n \<in> set ns \<Longrightarrow> (k, n) \<notin> set seen"
  by (induction k seen ns rule: names_error.induct) (auto split: if_splits)

lemma groups_error_None:
  "groups_error seen gs = None \<Longrightarrow>
     disjoint_groups gs \<and> (\<forall>g \<in> set gs. \<forall>n \<in> set (g_models g). (g_kind g, n) \<notin> set seen)"
proof (induction seen gs rule: groups_error.induct)
  case (2 seen g gs)
  then have names: "names_error (g_kind g) seen (g_models g) = None"
    and rest: "disjoint_groups gs"
      "\<forall>h \<in> set gs. \<forall>n \<in> set (g_models h).
         (g_kind h, n) \<notin> set (map (Pair (g_kind g)) (g_models g) @ seen)"
    by (auto split: if_splits option.splits)
  have "\<forall>n \<in> set (g_models g). (g_kind g, n) \<notin> set seen"
    using names_error_None [OF names] by blast
  moreover have "g_kind g = g_kind h \<Longrightarrow> set (g_models g) \<inter> set (g_models h) = {}"
    if "h \<in> set gs" for h
    using rest(2) that by fastforce
  ultimately show ?case using rest by (simp add: disjoint_groups_def)
qed (simp add: disjoint_groups_def)

lemma disjoint_groups_unique:
  assumes "disjoint_groups gs" "g \<in> set gs" "h \<in> set gs" "g_kind g = g_kind h"
    "n \<in> set (g_models g)" "n \<in> set (g_models h)"
  shows "g = h"
  using assms by (induction gs) (auto simp: disjoint_groups_def)

lemma answering_of_group:
  assumes "disjoint_groups gs" "g \<in> set gs" "m \<in> set (g_models g)"
  shows "answering gs (g_kind g) m = sort (g_models g)"
proof -
  obtain h where h: "find (\<lambda>h. g_kind h = g_kind g \<and> m \<in> set (g_models h)) gs = Some h"
    using assms(2,3) by (cases "find (\<lambda>h. g_kind h = g_kind g \<and> m \<in> set (g_models h)) gs")
      (auto simp: find_None_iff)
  then have "h \<in> set gs" "g_kind h = g_kind g" "m \<in> set (g_models h)"
    by (auto simp: find_Some_iff)
  then have "h = g" using disjoint_groups_unique assms by metis
  then show ?thesis using h by (simp add: answering_def)
qed

text \<open>
  A setting the validator accepts makes every kind's \<open>answering\<close> an equivalence of models:
  a model answers for itself, and if one model answers for another then the two are answered
  for by exactly the same models, in the same order. So a fallback inside the group never
  writes a verdict its readers would not read.
\<close>

theorem accepted_groups_are_equivalences:
  assumes "ModelEquivalence gs = Inr groups"
  shows "m \<in> set (answering groups k m)
     \<and> (n \<in> set (answering groups k m) \<longrightarrow> answering groups k n = answering groups k m)"
proof -
  have gs: "groups = gs" "disjoint_groups gs"
    using assms groups_error_None [of "[]" gs]
    by (auto simp: ModelEquivalence_def split: option.splits)
  show ?thesis
  proof (cases "find (\<lambda>g. g_kind g = k \<and> m \<in> set (g_models g)) gs")
    case None
    then show ?thesis by (simp add: gs answering_def)
  next
    case (Some g)
    then have g: "g \<in> set gs" "g_kind g = k" "m \<in> set (g_models g)"
      by (auto simp: find_Some_iff)
    then show ?thesis using answering_of_group [OF gs(2) g(1)] gs(1) by auto
  qed
qed

theorem accepted_groups_are_equivalences_witness:
  "ModelEquivalence [\<lparr>g_kind = ''custom'', g_models = [''gpt-5-nano'', ''gpt-5-mini'']\<rparr>]
     = Inr [\<lparr>g_kind = ''custom'', g_models = [''gpt-5-nano'', ''gpt-5-mini'']\<rparr>]
   \<and> answering [\<lparr>g_kind = ''custom'', g_models = [''gpt-5-nano'', ''gpt-5-mini'']\<rparr>] ''custom''
       ''gpt-5-mini''
     = answering [\<lparr>g_kind = ''custom'', g_models = [''gpt-5-nano'', ''gpt-5-mini'']\<rparr>] ''custom''
       ''gpt-5-nano''"
proof -
  let ?gs = "[\<lparr>g_kind = ''custom'', g_models = [''gpt-5-nano'', ''gpt-5-mini'']\<rparr>]"
  have "model (Some ''gpt-5-nano'') \<noteq> None" "model (Some ''gpt-5-mini'') \<noteq> None"
    by (simp_all add: model_None_iff_provider_of provider_of_def MODELS_eq entries_def MODULES_def
        openai_PROVIDER_def openai_models_def Model_of_def)
  then have ok: "ModelEquivalence ?gs = Inr ?gs"
    by (simp add: ModelEquivalence_def group_field_error_def)
  have "''gpt-5-mini'' \<in> set (answering ?gs ''custom'' ''gpt-5-nano'')"
    by (simp add: answering_def)
  then show ?thesis
    using ok accepted_groups_are_equivalences [OF ok, of "''gpt-5-nano''" "''custom''" "''gpt-5-mini''"]
    by blast
qed

end
