(* ===== verification/Fleet_Spend.thy ===== *)
theory Fleet_Spend
  imports Shapes
begin

text \<open>
  The fleet's weekly ceiling: the shape and model a person configured for a task
  (\<open>api/task_config.py\<close>), what one sweep of every task costs at those models, what the fleet
  spent this week and the check every paid submission passes (\<open>api/budget/fleet.py\<close>). The
  settings, the override and call tables and the clock are arguments.
\<close>

section \<open>Configured tasks\<close>

definition PER_CYCLE_KEYS :: "(string \<times> string) list" where
  "PER_CYCLE_KEYS =
     [(''comp'', ''comp_extract_per_cycle''),
      (''requirements'', ''requirements_extract_per_cycle''),
      (''locations'', ''classify_locations_per_cycle''),
      (''mail_classify'', ''mail_classify_per_cycle''),
      (''mail_classify_backfill'', ''mail_classify_per_cycle''),
      (''job_profile'', ''job_profiles_per_cycle'')]"

definition configured_shape :: "(string \<Rightarrow> int) \<Rightarrow> TaskShape \<Rightarrow> TaskShape" where
  "configured_shape get_config shape =
     (let sized = (case map_of PER_CYCLE_KEYS (purpose shape) of
                     None \<Rightarrow> shape
                   | Some k \<Rightarrow> shape\<lparr>per_cycle := get_config k\<rparr>) in
      if purpose sized = ''locations''
      then sized\<lparr>t_max_output_tokens := get_config ''classify_locations_max_output_tokens''\<rparr>
      else sized)"

text \<open>
  The rows of \<open>task_model_overrides\<close> in the order of their ids; \<open>None\<close> when they cannot be read.
\<close>

type_synonym overrides = "(string \<times> string option) list option"

definition configured_model :: "overrides \<Rightarrow> string \<Rightarrow> string option" where
  "configured_model rows purp =
     (case rows of
        None \<Rightarrow> None
      | Some table \<Rightarrow>
          (case rev (filter (\<lambda>(p, _). p = purp) table) of
             [] \<Rightarrow> None
           | (_, m) # _ \<Rightarrow> (if truthy m then m else None)))"

section \<open>What a week may cost\<close>

record fleet_env =
  fe_config :: "string \<Rightarrow> int"
  fe_overrides :: overrides
  fe_shapes :: "(string \<times> TaskShape) list"

text \<open>One task's addition to the total; a task no model can run adds nothing.\<close>

fun cycle_cost :: "fleet_env \<Rightarrow> (string \<times> TaskShape) list \<Rightarrow> rat \<Rightarrow> rat result" where
  "cycle_cost env [] acc = Inr acc"
| "cycle_cost env ((purp, declared) # rest) acc =
     (let shape = configured_shape (fe_config env) declared in
      case resolve shape None (configured_model (fe_overrides env) purp) of
        Inl (NoEligibleModel _) \<Rightarrow> cycle_cost env rest acc
      | Inl (Raised e) \<Rightarrow> Inl e
      | Inr chosen \<Rightarrow>
          cycle_cost env rest
            (case c_est_cost_usd chosen of
               None \<Rightarrow> acc
             | Some cost \<Rightarrow> acc + cost * of_int (per_cycle shape)))"

definition fleet_cycle_cost_usd :: "fleet_env \<Rightarrow> rat result" where
  "fleet_cycle_cost_usd env = cycle_cost env (fe_shapes env) 0"

record ModelCall =
  mc_user_id :: "int option"
  mc_cost_usd :: "rat option"
  mc_created_at :: instant

text \<open>\<open>date_trunc('week', ...)\<close> in UTC: Monday midnight. The epoch was a Thursday.\<close>

definition usec_per_day :: int where "usec_per_day = 86400 * usec_per_second"

definition week_start :: "instant \<Rightarrow> instant" where
  "week_start now = (let day = now div usec_per_day in (day - (day + 3) mod 7) * usec_per_day)"

definition fleet_spend_this_week :: "instant \<Rightarrow> ModelCall list \<Rightarrow> rat" where
  "fleet_spend_this_week now calls =
     sum_list (map (\<lambda>c. coalesce (mc_cost_usd c) 0)
       (filter (\<lambda>c. mc_user_id c = None \<and> mc_created_at c \<ge> week_start now) calls))"

section \<open>The check\<close>

record fleet_status =
  fs_enabled :: bool
  fs_spent :: rat
  fs_ceiling :: rat
  fs_cycles :: int
  fs_cycle_cost :: rat
  fs_headroom :: "rat option"
  fs_used_fraction :: "rat option"
  fs_projected :: "rat option"
  fs_projected_exceeds :: bool

definition fleet_budget_status ::
  "instant \<Rightarrow> fleet_env \<Rightarrow> ModelCall list \<Rightarrow> rat option \<Rightarrow> fleet_status result" where
  "fleet_budget_status now env calls projected_usd =
     and_then (fleet_cycle_cost_usd env) (\<lambda>cycle.
       let cycles = fe_config env ''fleet_weekly_cycles'';
           ceiling = (if cycles > 0 then cycle * of_int cycles else 0);
           spent = fleet_spend_this_week now calls;
           projected = spent + coalesce projected_usd 0 in
       Inr \<lparr>fs_enabled = (cycles > 0 \<and> ceiling > 0), fs_spent = spent, fs_ceiling = ceiling,
            fs_cycles = cycles, fs_cycle_cost = cycle,
            fs_headroom = (if ceiling > 0 then Some (ceiling - spent) else None),
            fs_used_fraction = (if ceiling > 0 then Some (spent / ceiling) else None),
            fs_projected = map_option (\<lambda>_. projected) projected_usd,
            fs_projected_exceeds = (ceiling > 0 \<and> projected > ceiling)\<rparr>)"

text \<open>
  The refusal carries the amounts its message prints: the spend, what the submission would add
  where it adds something, the ceiling and the number of sweeps.
\<close>

datatype budget_error =
    FleetBudgetExceeded rat "rat option" rat int
  | BudgetRaised py_error

definition check_fleet_budget ::
  "instant \<Rightarrow> fleet_env \<Rightarrow> ModelCall list \<Rightarrow> rat option \<Rightarrow> budget_error + unit" where
  "check_fleet_budget now env calls projected_usd =
     (case fleet_budget_status now env calls projected_usd of
        Inl e \<Rightarrow> Inl (BudgetRaised e)
      | Inr st \<Rightarrow>
          if \<not> fs_enabled st then Inr ()
          else if fs_projected_exceeds st \<or> fs_spent st \<ge> fs_ceiling st
          then Inl (FleetBudgetExceeded (fs_spent st)
                 (case fs_projected st of
                    Some p \<Rightarrow> if p > fs_spent st then Some (p - fs_spent st) else None
                  | None \<Rightarrow> None)
                 (fs_ceiling st) (fs_cycles st))
          else Inr ())"

section \<open>The ceiling\<close>

text \<open>What the sweep of one task is priced at, at the model it would run on now.\<close>

definition sweep_price :: "fleet_env \<Rightarrow> string \<times> TaskShape \<Rightarrow> rat" where
  "sweep_price env item =
     (case item of (purp, declared) \<Rightarrow>
        let shape = configured_shape (fe_config env) declared in
        case resolve shape None (configured_model (fe_overrides env) purp) of
          Inl _ \<Rightarrow> 0
        | Inr ch \<Rightarrow> coalesce (c_est_cost_usd ch) 0 * of_int (per_cycle shape))"

definition weekly_ceiling :: "fleet_env \<Rightarrow> rat" where
  "weekly_ceiling env =
     sum_list (map (sweep_price env) (fe_shapes env)) * of_int (max 0 (fe_config env ''fleet_weekly_cycles''))"

lemma cycle_cost_eq: "cycle_cost env items acc = Inr (acc + sum_list (map (sweep_price env) items))"
  by (induction env items acc rule: cycle_cost.induct)
    (auto simp: Let_def sweep_price_def coalesce_def resolve_no_raise
       split: sum.split route_error.split option.split)

lemma check_fleet_budget_eq:
  "check_fleet_budget now env calls projected =
     (let spent = fleet_spend_this_week now calls; ceiling = weekly_ceiling env in
      if ceiling > 0 \<and> (spent + coalesce projected 0 > ceiling \<or> spent \<ge> ceiling)
      then Inl (FleetBudgetExceeded spent
             (case projected of Some p \<Rightarrow> if p > 0 then Some p else None | None \<Rightarrow> None)
             ceiling (fe_config env ''fleet_weekly_cycles''))
      else Inr ())"
  by (auto simp: check_fleet_budget_def fleet_budget_status_def fleet_cycle_cost_usd_def
      cycle_cost_eq weekly_ceiling_def Let_def coalesce_def max_def split: option.split)


text \<open>
  The check refuses exactly the submissions the week cannot pay for. With a positive ceiling
  a submission passes if and only if the week is not used up and its projected cost fits in what
  is left; the ceiling is the configured number of sweeps times the price of one sweep of every
  task at the model it would run on now, and a ceiling of zero lets everything pass. The check
  never raises anything but its refusal, which names the spend, the addition and the ceiling.
\<close>

theorem fleet_check_is_the_ceiling:
  "check_fleet_budget now env calls projected =
     (let spent = fleet_spend_this_week now calls; ceiling = weekly_ceiling env in
      if ceiling > 0 \<and> (spent + coalesce projected 0 > ceiling \<or> spent \<ge> ceiling)
      then Inl (FleetBudgetExceeded spent
             (case projected of Some p \<Rightarrow> if p > 0 then Some p else None | None \<Rightarrow> None)
             ceiling (fe_config env ''fleet_weekly_cycles''))
      else Inr ())"
  by (rule check_fleet_budget_eq)

text \<open>
  A week of submissions, each checked against the calls recorded so far, billed when it passed
  and recorded before the next is checked.
\<close>

fun bill_in_turn ::
  "instant \<Rightarrow> fleet_env \<Rightarrow> (rat \<times> ModelCall list) list \<Rightarrow> ModelCall list \<Rightarrow> ModelCall list" where
  "bill_in_turn now env [] calls = calls"
| "bill_in_turn now env ((projected, bills) # rest) calls =
     (case check_fleet_budget now env calls (Some projected) of
        Inl _ \<Rightarrow> bill_in_turn now env rest calls
      | Inr _ \<Rightarrow> bill_in_turn now env rest (calls @ bills))"

lemma spend_append [simp]:
  "fleet_spend_this_week now (xs @ ys) = fleet_spend_this_week now xs + fleet_spend_this_week now ys"
  by (simp add: fleet_spend_this_week_def)

text \<open>
  Submissions that are billed before the next one is checked never take the week over its
  ceiling: if every bill is at most its projection, the week's spend after any number of them is
  at most the ceiling, or what it was before the first.
\<close>

theorem billed_submissions_keep_the_ceiling:
  assumes "weekly_ceiling env > 0"
    and "list_all (\<lambda>(projected, bills). fleet_spend_this_week now bills \<le> projected) subs"
  shows "fleet_spend_this_week now (bill_in_turn now env subs calls)
     \<le> max (fleet_spend_this_week now calls) (weekly_ceiling env)"
  using assms
proof (induction now env subs calls rule: bill_in_turn.induct)
  case (2 now env projected bills rest calls)
  show ?case
  proof (cases "check_fleet_budget now env calls (Some projected)")
    case (Inl e)
    then show ?thesis using 2 by simp
  next
    case (Inr u)
    then have "fleet_spend_this_week now (bill_in_turn now env rest (calls @ bills))
        \<le> max (fleet_spend_this_week now calls + fleet_spend_this_week now bills) (weekly_ceiling env)"
      using 2 by simp
    moreover have "fleet_spend_this_week now calls + projected \<le> weekly_ceiling env
        \<or> weekly_ceiling env \<le> 0"
      using Inr by (auto simp: check_fleet_budget_eq Let_def coalesce_def split: if_splits)
    ultimately show ?thesis using Inr 2(3,4) by (auto simp: max_def split: if_splits)
  qed
qed simp

text \<open>A fleet of one task, priced at its declared model, for the witnesses.\<close>

definition sample_fleet :: "int \<Rightarrow> fleet_env" where
  "sample_fleet cycles =
     \<lparr>fe_config = (\<lambda>k. if k = ''fleet_weekly_cycles'' then cycles else 1000),
      fe_overrides = Some [], fe_shapes = [(''comp'', COMP_TASK)]\<rparr>"

lemma luna_capable_comp: "capable (COMP_TASK\<lparr>per_cycle := n\<rparr>) ''gpt-6-luna''"
  by (simp add: capable_def rejection_def provider_of_gpt_6_luna luna_batchable truthy_def
      COMP_TASK_def effort_rejection_def output_rejection_def MODE_RANK_def estimate_eval
      del: not_None_eq)

lemma comp_price: "price_of (COMP_TASK\<lparr>per_cycle := n\<rparr>) None ''gpt-6-luna'' = 1 / 1280"
  by (simp add: price_of_def estimate_def COMP_TASK_def estimate_eval)
    (rule exI [of _ "1 / 8"], simp)

lemma sample_ceiling: "weekly_ceiling (sample_fleet cycles) = 25 / 32 * of_int (max 0 cycles)"
proof -
  let ?s = "COMP_TASK\<lparr>per_cycle := 1000\<rparr>"
  have shape: "configured_shape (fe_config (sample_fleet cycles)) COMP_TASK = ?s"
    by (simp add: configured_shape_def PER_CYCLE_KEYS_def sample_fleet_def COMP_TASK_def Let_def)
  have cands: "candidates ?s = [''gpt-6-luna'']" by (simp add: COMP_TASK_def)
  then obtain ch where ch: "resolve ?s None None = Inr ch"
    using resolve_some_capable [of "''gpt-6-luna''" ?s None] luna_capable_comp by auto
  then have rc: "resolve_candidates ?s None = Inr ch"
    using cands by (simp add: resolve_def truthy_def)
  have "c_est_cost_usd ch = Some (1 / 1280)"
    using rc by (rule resolve_candidates_cases)
      (use cands comp_price [of 1000] in \<open>auto simp: Cons_eq_append_conv\<close>)
  then have "sweep_price (sample_fleet cycles) (''comp'', COMP_TASK) = 25 / 32"
    using ch shape by (simp add: sweep_price_def configured_model_def sample_fleet_def Let_def
        coalesce_def)
  then show ?thesis by (simp add: weekly_ceiling_def sample_fleet_def)
qed



definition sample_bill :: ModelCall where
  "sample_bill = \<lparr>mc_user_id = None, mc_cost_usd = Some (1 / 2), mc_created_at = 0\<rparr>"

lemma sample_spend: "fleet_spend_this_week 0 [sample_bill] = 1 / 2"
  by (simp add: fleet_spend_this_week_def sample_bill_def week_start_def Let_def coalesce_def
      usec_per_day_def)

theorem billed_submissions_keep_the_ceiling_witness:
  "weekly_ceiling (sample_fleet 1) = 25 / 32
   \<and> fleet_spend_this_week 0
       (bill_in_turn 0 (sample_fleet 1) [(1 / 2, [sample_bill]), (1 / 2, [sample_bill])] [])
     \<le> 25 / 32"
  using billed_submissions_keep_the_ceiling [of "sample_fleet 1" 0
      "[(1 / 2, [sample_bill]), (1 / 2, [sample_bill])]" "[]"]
  by (simp add: sample_ceiling sample_spend) (simp add: fleet_spend_this_week_def)

text \<open>
  The check counts what was recorded, not what was submitted. A batch is billed in the call
  table when it is collected, hours after it was submitted, so until then the next submission is
  checked as if it had not been made: at a week with nothing recorded, two submissions that each
  cost more than half of the ceiling both pass, and so would any number of them.
\<close>

theorem uncollected_submissions_are_not_counted:
  "\<exists>env projected.
     (\<forall>k::nat. list_all (\<lambda>p. check_fleet_budget now env [] (Some p) = Inr ()) (replicate k projected))
     \<and> 0 < weekly_ceiling env \<and> weekly_ceiling env < sum_list (replicate 2 projected)"
proof -
  have "check_fleet_budget now (sample_fleet 1) [] (Some (1 / 2)) = Inr ()"
    by (simp add: check_fleet_budget_eq sample_ceiling Let_def coalesce_def fleet_spend_this_week_def)
  then show ?thesis
    by (intro exI [of _ "sample_fleet 1"] exI [of _ "1 / 2"])
      (simp add: sample_ceiling numeral_2_eq_2 list_all_iff)
qed

end
