(* ===== verification/Submission.thy ===== *)
theory Submission
  imports Batch_Wire Fallback Fleet_Spend Batching
begin

text \<open>
  Sending a task's requests to a provider: the waves of one submission
  (\<open>submit_batches\<close> of \<open>core/batch/__init__.py\<close>, \<open>_submit_chunk\<close> of \<open>core/batch/transport.py\<close>
  and \<open>submit_chunk\<close> of \<open>core/batch/anthropic_batches.py\<close>), and the task's side of it
  (\<open>snapshot_specs\<close> of \<open>api/ai/batch_results.py\<close>; \<open>run_batched\<close>, \<open>submit_or_collect\<close> and
  \<open>_submit\<close> of \<open>tasks/runtime/batching.py\<close>): freezing the requests, the switch and the ceiling
  that stop new spend, moving what a provider refuses along the fallback chain, and parking.

  The providers are arguments: whether this host holds their key, and what they answer to the
  k-th wave sent to a model. An answer is the SDK's error or the new batch's id with its
  progress. Settings do not change during a submission.
\<close>

section \<open>State\<close>

text \<open>
  The tables a submission reads and writes, and in \<open>d_accepted\<close> the batches the providers
  accepted, in order: what the account owes for, whether or not a row says so.
\<close>

record submit_db =
  d_tasks :: "Task list"
  d_ledger :: "AiBatch list"
  d_alerts :: "HealthAlert list"
  d_requests :: "((int \<times> string) \<times> BatchSpec) list"
  d_accepted :: "string list"

record transport =
  tr_keyed :: "string \<Rightarrow> bool"
  tr_reply :: "string \<Rightarrow> nat \<Rightarrow> provider_error + (string \<times> BatchProgress)"
  tr_hook_ok :: "string \<Rightarrow> bool"
  tr_digest :: "string \<Rightarrow> string"
  tr_schema :: "json \<Rightarrow> json"

type_synonym payer = "string \<times> int option"

definition FLEET :: payer where "FLEET = (''fleet'', None)"

section \<open>One wave\<close>

text \<open>
  \<open>_notify\<close>: the hook's transaction commits or is rolled back whole, and its failure is only
  logged. \<open>tr_hook_ok\<close> says for which batches it commits.
\<close>

definition notify ::
  "transport \<Rightarrow> instant \<Rightarrow> batch_hook \<Rightarrow> string \<Rightarrow> string \<Rightarrow> event_counts \<Rightarrow> submit_db \<Rightarrow> submit_db" where
  "notify tr now hk bid st n db =
     (if tr_hook_ok tr bid
      then (case on_event now hk bid st n (d_tasks db, d_ledger db) of
              (tbl, ledger) \<Rightarrow> db\<lparr>d_tasks := tbl, d_ledger := ledger\<rparr>)
      else db)"

definition emit_progress ::
  "transport \<Rightarrow> instant \<Rightarrow> batch_hook \<Rightarrow> string \<Rightarrow> BatchProgress \<Rightarrow> submit_db \<Rightarrow> submit_db" where
  "emit_progress tr now hk bid p =
     notify tr now hk bid (p_status p)
       \<lparr>n_requests = p_total p, n_completed = p_completed p, n_failed = p_failed p,
        n_est_tokens = 0\<rparr>"

definition emit_submitted ::
  "transport \<Rightarrow> instant \<Rightarrow> batch_hook \<Rightarrow> string \<Rightarrow> string \<Rightarrow> BatchSpec list \<Rightarrow> int
   \<Rightarrow> submit_db \<Rightarrow> submit_db" where
  "emit_submitted tr now hk bid st specs max_out =
     notify tr now hk bid st
       \<lparr>n_requests = int (length specs), n_completed = 0, n_failed = 0,
        n_est_tokens = wave_tokens max_out specs\<rparr>"

fun py_message :: "py_error \<Rightarrow> string" where
  "py_message (ValueError s) = s"
| "py_message (RuntimeError s) = s"
| "py_message (KeyError s) = quoted s"
| "py_message IndexError = ''list index out of range''"
| "py_message AssertionError = ''''"

definition as_error :: "py_error \<Rightarrow> provider_error" where
  "as_error e = \<lparr>pe_text = py_message e, pe_code = None, pe_body = None\<rparr>"

fun first_error :: "('a \<Rightarrow> 'b result) \<Rightarrow> 'a list \<Rightarrow> py_error option" where
  "first_error f [] = None"
| "first_error f (x # xs) = (case f x of Inl e \<Rightarrow> Some e | Inr _ \<Rightarrow> first_error f xs)"

text \<open>The vendor's rule for a custom id; Python's \<open>$\<close> also matches before a last newline.\<close>

definition id_char :: "char \<Rightarrow> bool" where
  "id_char c \<longleftrightarrow>
     (let n = (of_char c :: nat) in
      97 \<le> n \<and> n \<le> 122 \<or> 65 \<le> n \<and> n \<le> 90 \<or> 48 \<le> n \<and> n \<le> 57 \<or> n = 95 \<or> n = 45)"

definition CUSTOM_ID :: "string \<Rightarrow> bool" where
  "CUSTOM_ID s \<longleftrightarrow>
     (let core = (if s \<noteq> [] \<and> last s = CHR 0x0A then butlast s else s) in
      1 \<le> length core \<and> length core \<le> 64 \<and> list_all id_char core)"

definition wire_id :: "(string \<Rightarrow> string) \<Rightarrow> string \<Rightarrow> string" where
  "wire_id digest cid = (if CUSTOM_ID cid then cid else ''h-'' @ take 40 (digest cid))"

definition submit_openai_error :: "transport \<Rightarrow> BatchSpec list \<Rightarrow> string \<Rightarrow> string \<Rightarrow> int \<Rightarrow> py_error option" where
  "submit_openai_error tr specs mdl eff max_out =
     (if length (remdups (map s_endpoint specs)) \<noteq> 1
      then Some (ValueError ''a provider batch must contain exactly one endpoint'')
      else first_error (\<lambda>s. build_line (tr_digest tr) s mdl eff max_out) specs)"

definition submit_anthropic_error :: "transport \<Rightarrow> BatchSpec list \<Rightarrow> string \<Rightarrow> string \<Rightarrow> int \<Rightarrow> py_error option" where
  "submit_anthropic_error tr specs mdl eff max_out =
     (case first_error (\<lambda>s. request_params (tr_schema tr) s mdl eff max_out) specs of
        Some e \<Rightarrow> Some e
      | None \<Rightarrow>
          if \<not> distinct (map (wire_id (tr_digest tr) \<circ> s_custom_id) specs)
          then Some (ValueError ''two requests in one batch share a custom_id'') else None)"

text \<open>
  One wave, the \<open>k\<close>-th sent to \<open>mdl\<close>: refused here, refused by the provider, or accepted, the
  hook then hearing of it twice.
\<close>

definition submit_chunk ::
  "transport \<Rightarrow> instant \<Rightarrow> batch_hook \<Rightarrow> nat \<Rightarrow> BatchSpec list \<Rightarrow> string \<Rightarrow> string \<Rightarrow> int
   \<Rightarrow> submit_db \<Rightarrow> (provider_error + string) \<times> submit_db" where
  "submit_chunk tr now hk k specs mdl eff max_out db =
     (case (if provider_of (Some mdl) = Some ''anthropic''
            then submit_anthropic_error tr specs mdl eff max_out
            else submit_openai_error tr specs mdl eff max_out) of
        Some e \<Rightarrow> (Inl (as_error e), db)
      | None \<Rightarrow>
          (case tr_reply tr mdl k of
             Inl e \<Rightarrow> (Inl e, db)
           | Inr (bid, p) \<Rightarrow>
               (Inr bid,
                emit_submitted tr now hk bid (p_status p) specs max_out
                  (emit_progress tr now hk bid p (db\<lparr>d_accepted := d_accepted db @ [bid]\<rparr>)))))"

section \<open>One submission\<close>

datatype submit_end =
    Accepted "string list"
  | ProviderExhausted string string "string list" "BatchSpec list"
  | SubmitRaised py_error

fun submit_waves ::
  "transport \<Rightarrow> instant \<Rightarrow> batch_hook \<Rightarrow> nat \<Rightarrow> BatchSpec list list \<Rightarrow> string \<Rightarrow> string \<Rightarrow> int
   \<Rightarrow> string list \<Rightarrow> provider_error option \<Rightarrow> submit_db \<Rightarrow> submit_end \<times> submit_db" where
  "submit_waves tr now hk k [] mdl eff max_out ids refusal db =
     (case refusal of
        Some e \<Rightarrow>
          if ids = []
          then (SubmitRaised (RuntimeError (''no batches were accepted by the provider: ''
                  @ pe_text e)), db)
          else (Accepted ids, db)
      | None \<Rightarrow> (Accepted ids, db))"
| "submit_waves tr now hk k (chunk # chunks) mdl eff max_out ids refusal db =
     (case submit_chunk tr now hk k chunk mdl eff max_out db of
        (Inl e, db') \<Rightarrow>
          (case exhaustion_reason (provider_of (Some mdl)) e of
             Some reason \<Rightarrow>
               (case provider_of (Some mdl) of
                  None \<Rightarrow> (SubmitRaised AssertionError, db')
                | Some vendor \<Rightarrow>
                    (ProviderExhausted vendor reason ids (concat (chunk # chunks)), db'))
           | None \<Rightarrow> submit_waves tr now hk (Suc k) chunks mdl eff max_out ids (Some e) db')
      | (Inr bid, db') \<Rightarrow>
          submit_waves tr now hk (Suc k) chunks mdl eff max_out (ids @ [bid]) refusal db')"

definition submit_batches ::
  "transport \<Rightarrow> instant \<Rightarrow> batch_hook \<Rightarrow> BatchSpec list \<Rightarrow> string \<Rightarrow> string \<Rightarrow> int
   \<Rightarrow> submit_db \<Rightarrow> submit_end \<times> submit_db" where
  "submit_batches tr now hk specs mdl eff max_out db =
     (case unavailable_reason mdl of
        Some reason \<Rightarrow>
          (SubmitRaised (ValueError (''BATCH_UNSUPPORTED: '' @ mdl @ '': '' @ reason)), db)
      | None \<Rightarrow>
          let anthropic = (provider_of (Some mdl) = Some ''anthropic'') in
          if \<not> tr_keyed tr (if anthropic then ''anthropic'' else ''openai'') \<or> specs = []
          then (Accepted [], db)
          else if length (remdups (map s_endpoint specs)) \<noteq> 1
          then (SubmitRaised (ValueError
                  ''a provider submission must contain exactly one endpoint''), db)
          else case (if anthropic
                     then first_error (\<lambda>s. request_params (tr_schema tr) s mdl eff max_out) specs
                     else None) of
            Some e \<Rightarrow> (SubmitRaised e, db)
          | None \<Rightarrow>
              (case chunk_specs specs max_out of
                 Inl e \<Rightarrow> (SubmitRaised e, db)
               | Inr chunks \<Rightarrow> submit_waves tr now hk 0 chunks mdl eff max_out [] None db))"


section \<open>Frozen requests\<close>

text \<open>
  \<open>snapshot_specs\<close>: under a custom id the request first stored for the task wins, in the table
  and among the requests given. A stored snapshot reads back as the request it was written from.
\<close>

fun snapshot_specs ::
  "int \<Rightarrow> BatchSpec list \<Rightarrow> ((int \<times> string) \<times> BatchSpec) list
   \<Rightarrow> BatchSpec list \<times> ((int \<times> string) \<times> BatchSpec) list" where
  "snapshot_specs i [] requests = ([], requests)"
| "snapshot_specs i (spec # specs) requests =
     (case map_of requests (i, s_custom_id spec) of
        Some old \<Rightarrow>
          (case snapshot_specs i specs requests of (frozen, after) \<Rightarrow> (old # frozen, after))
      | None \<Rightarrow>
          (case snapshot_specs i specs (requests @ [((i, s_custom_id spec), spec)]) of
             (frozen, after) \<Rightarrow> (spec # frozen, after)))"

section \<open>Submitting along the chain\<close>

datatype submit_failure =
    Failed_with py_error
  | Refused string string "string list" "BatchSpec list"
  | Over_ceiling budget_error
  | No_model route_error
  | AI_paused
  | No_storage

text \<open>What stays the same through a submission of one task.\<close>

record submit_ctx =
  cx_task :: int
  cx_now :: instant
  cx_transport :: transport
  cx_fallback :: fallback_env
  cx_fleet :: fleet_env
  cx_calls :: "ModelCall list"
  cx_shape :: "TaskShape option"
  cx_purpose :: "string option"
  cx_payer :: payer
  cx_primary :: string
  cx_max_out :: int

text \<open>The variables of the loop of \<open>_submit\<close>.\<close>

record submission =
  sub_specs :: "BatchSpec list"
  sub_model :: string
  sub_effort :: string
  sub_hook :: batch_hook
  sub_ids :: "string list"
  sub_tried :: "string list"
  sub_committed :: rat

definition per_call :: "TaskShape option \<Rightarrow> string \<Rightarrow> rat result" where
  "per_call shape mdl =
     (case shape of
        None \<Rightarrow> Inr 0
      | Some sh \<Rightarrow>
          and_then (estimate_cost_usd (Some mdl) (Some (est_prompt_tokens sh))
                      (Some (t_max_output_tokens sh)) None (t_batched sh) None Unspecified)
            (\<lambda>cost. Inr (coalesce cost 0)))"

fun param_text :: "pvalue option \<Rightarrow> string" where
  "param_text (Some (PStr s)) = s"
| "param_text (Some (PInt n)) = (if n = 0 then '''' else show_int n)"
| "param_text None = ''''"

definition fallback_effort :: "Choice \<Rightarrow> string" where
  "fallback_effort choice =
     (case Option.bind (model (Some (c_model choice))) (\<lambda>d. param (reasoning d)) of
        None \<Rightarrow> ''''
      | Some p \<Rightarrow> if p = '''' then '''' else param_text (map_of (c_params choice) p))"

definition refusal_of :: "submit_ctx \<Rightarrow> rat \<Rightarrow> submit_failure option" where
  "refusal_of cx projected =
     (if cx_payer cx \<noteq> FLEET then None
      else case check_fleet_budget (cx_now cx) (cx_fleet cx) (cx_calls cx) (Some projected) of
        Inl e \<Rightarrow> Some (Over_ceiling e)
      | Inr _ \<Rightarrow> None)"

datatype round = Stop "submit_failure + string list" | Again submission

text \<open>After a refusal: the next model and its price against the ceiling, or the end.\<close>

definition next_round ::
  "submit_ctx \<Rightarrow> submission \<Rightarrow> string \<times> string \<Rightarrow> string list \<Rightarrow> BatchSpec list \<Rightarrow> rat
   \<Rightarrow> submit_db \<Rightarrow> round" where
  "next_round cx s refused accepted unsent committed db =
     (let ids = sub_ids s @ accepted;
          blocked = blocked_providers (cx_now cx) (fb_cycle_minutes (cx_fallback cx)) (d_alerts db)
                    @ [fst refused];
          give_up = (\<lambda>failure. Stop (if ids \<noteq> [] then Inr ids else Inl failure)) in
      case (case cx_shape cx of
              None \<Rightarrow> Inr None
            | Some sh \<Rightarrow> next_for (cx_fallback cx) sh (cx_primary cx) (sub_tried s) blocked) of
        Inl e \<Rightarrow> Stop (Inl (Failed_with e))
      | Inr None \<Rightarrow> give_up (Refused (fst refused) (snd refused) accepted unsent)
      | Inr (Some choice) \<Rightarrow>
          (case (if cx_payer cx = FLEET then per_call (cx_shape cx) (c_model choice) else Inr 0) of
             Inl e \<Rightarrow> Stop (Inl (Failed_with e))
           | Inr price \<Rightarrow>
               (case refusal_of cx (committed + price * of_nat (length unsent)) of
                  Some (Over_ceiling (BudgetRaised e)) \<Rightarrow> Stop (Inl (Failed_with e))
                | Some failure \<Rightarrow> give_up failure
                | None \<Rightarrow> Again
                    \<lparr>sub_specs = unsent, sub_model = c_model choice,
                     sub_effort = fallback_effort choice,
                     sub_hook = batch_event_hook (cx_task cx) (coalesce (cx_purpose cx) '''')
                       (Some (c_model choice)) (cx_payer cx) (Some (cx_primary cx))
                       (d_tasks db) (d_ledger db),
                     sub_ids = ids, sub_tried = c_model choice # sub_tried s,
                     sub_committed = committed\<rparr>)))"

definition commit :: "submit_ctx \<Rightarrow> submission \<Rightarrow> string list \<Rightarrow> nat \<Rightarrow> rat result" where
  "commit cx s accepted sent =
     (if accepted = [] \<or> cx_shape cx = None then Inr (sub_committed s)
      else and_then (per_call (cx_shape cx) (sub_model s))
        (\<lambda>price. Inr (sub_committed s + price * of_nat sent)))"

text \<open>One pass of the loop.\<close>

definition submit_round :: "submit_ctx \<Rightarrow> submission \<Rightarrow> submit_db \<Rightarrow> round \<times> submit_db" where
  "submit_round cx s db =
     (case submit_batches (cx_transport cx) (cx_now cx) (sub_hook s) (sub_specs s) (sub_model s)
             (sub_effort s) (cx_max_out cx) db of
        (SubmitRaised e, db1) \<Rightarrow> (Stop (Inl (Failed_with e)), db1)
      | (Accepted accepted, db1) \<Rightarrow>
          (let db2 = (case (if accepted = [] then None else provider_of (Some (sub_model s))) of
                        None \<Rightarrow> db1
                      | Some p \<Rightarrow> db1\<lparr>d_alerts := clear (cx_now cx) p (d_alerts db1)\<rparr>) in
           case commit cx s accepted (length (sub_specs s)) of
             Inl e \<Rightarrow> (Stop (Inl (Failed_with e)), db2)
           | Inr _ \<Rightarrow> (Stop (Inr (sub_ids s @ accepted)), db2))
      | (ProviderExhausted prov reason accepted unsent, db1) \<Rightarrow>
          (let db2 = db1\<lparr>d_alerts := mark (cx_now cx) prov reason (Some (sub_model s))
                             (cx_purpose cx) (d_alerts db1)\<rparr> in
           case commit cx s accepted (length (sub_specs s) - length unsent) of
             Inl e \<Rightarrow> (Stop (Inl (Failed_with e)), db2)
           | Inr committed \<Rightarrow>
               (next_round cx s (prov, reason) accepted unsent committed db2, db2)))"

definition chain_left :: "submit_ctx \<Rightarrow> submission \<Rightarrow> nat" where
  "chain_left cx s =
     (case cx_shape cx of
        None \<Rightarrow> 0
      | Some sh \<Rightarrow> card (set (chain_for (cx_fallback cx) (purpose sh)) - set (sub_tried s)))"

lemma next_round_Again:
  assumes "next_round cx s refused accepted unsent committed db = Again s'"
  obtains sh where "cx_shape cx = Some sh"
    "sub_model s' \<in> set (chain_for (cx_fallback cx) (purpose sh))" "sub_model s' \<notin> set (sub_tried s)"
    "sub_tried s' = sub_model s' # sub_tried s" "sub_ids s' = sub_ids s @ accepted"
    "sub_specs s' = unsent" "capable (only sh (sub_model s')) (sub_model s')"
    "sub_committed s' = committed"
proof -
  let ?blocked = "blocked_providers (cx_now cx) (fb_cycle_minutes (cx_fallback cx)) (d_alerts db)
      @ [fst refused]"
  from assms obtain sh ch where sh: "cx_shape cx = Some sh"
    and ch: "next_for (cx_fallback cx) sh (cx_primary cx) (sub_tried s) ?blocked = Inr (Some ch)"
    and s': "sub_model s' = c_model ch" "sub_tried s' = c_model ch # sub_tried s"
      "sub_ids s' = sub_ids s @ accepted" "sub_specs s' = unsent" "sub_committed s' = committed"
    by (auto simp: next_round_def Let_def
        split: sum.splits option.splits submit_failure.splits budget_error.splits)
  show thesis
    using that [OF sh] next_for_fresh [OF ch] usable_subset s' by fastforce
qed

lemma submit_round_decreases:
  assumes "submit_round cx s db = (Again s', db')"
  shows "chain_left cx s' < chain_left cx s"
proof -
  obtain refused accepted unsent committed d
    where "next_round cx s refused accepted unsent committed d = Again s'"
    using assms by (auto simp: submit_round_def Let_def
        split: prod.splits submit_end.splits sum.splits option.splits if_splits)
  then obtain sh where "cx_shape cx = Some sh"
      "sub_model s' \<in> set (chain_for (cx_fallback cx) (purpose sh))" "sub_model s' \<notin> set (sub_tried s)"
      "sub_tried s' = sub_model s' # sub_tried s"
    by (rule next_round_Again)
  moreover from this have "set (chain_for (cx_fallback cx) (purpose sh)) - set (sub_tried s')
      \<subset> set (chain_for (cx_fallback cx) (purpose sh)) - set (sub_tried s)"
    by auto
  ultimately show ?thesis
    unfolding chain_left_def by (metis (no_types, lifting) List.finite_set finite_Diff
        option.simps(5) psubset_card_mono)
qed

text \<open>The loop ends because every pass tries a model of the chain it has not tried.\<close>

function submit_loop ::
  "submit_ctx \<Rightarrow> submission \<Rightarrow> submit_db \<Rightarrow> (submit_failure + string list) \<times> submit_db" where
  "submit_loop cx s db =
     (case submit_round cx s db of
        (Stop result, db') \<Rightarrow> (result, db')
      | (Again s', db') \<Rightarrow> submit_loop cx s' db')"
  by pat_completeness auto
termination
  by (relation "measure (\<lambda>(cx, s, db). chain_left cx s)") (auto intro: submit_round_decreases [OF sym])

declare submit_loop.simps [simp del]


section \<open>The task's side\<close>

datatype submit_result =
    Collecting
  | Nothing_to_send
  | Parked "string list"
  | Ended submit_failure

text \<open>
  \<open>env\<close> below is what the task runs under: the switch, whether the payload store answers, the
  tasks that hold collected results and the claim of this run.
\<close>

record run_env =
  re_paused :: bool
  re_store_ok :: bool
  re_receipts :: "int list"
  re_claim :: "TaskClaim option"

definition submit_or_collect ::
  "run_env \<Rightarrow> submit_ctx \<Rightarrow> BatchSpec list \<Rightarrow> string \<Rightarrow> string \<Rightarrow> batch_hook \<Rightarrow> string option
   \<Rightarrow> submit_db \<Rightarrow> submit_result \<times> submit_db" where
  "submit_or_collect re cx0 specs mdl eff hk routed db =
     (if has_batch_work (re_receipts re) (cx_task cx0) (d_tasks db) then (Collecting, db)
      else if re_paused re then (Ended AI_paused, db)
      else if specs \<noteq> [] \<and> \<not> re_store_ok re then (Ended No_storage, db)
      else
        case snapshot_specs (cx_task cx0) specs (d_requests db) of (frozen, requests) \<Rightarrow>
        let db1 = db\<lparr>d_requests := requests\<rparr>;
            cx = cx0\<lparr>cx_primary := (if truthy routed then the routed else mdl),
                     cx_purpose := (if truthy (cx_purpose cx0) then cx_purpose cx0
                                    else map_option purpose (cx_shape cx0))\<rparr> in
        if frozen = [] then (Nothing_to_send, db1)
        else case submit_loop cx
               \<lparr>sub_specs = frozen, sub_model = mdl, sub_effort = eff, sub_hook = hk,
                sub_ids = [], sub_tried = [mdl], sub_committed = 0\<rparr> db1 of
          (Inl failure, db2) \<Rightarrow> (Ended failure, db2)
        | (Inr ids, db2) \<Rightarrow>
            if ids = []
            then (Ended (Failed_with (RuntimeError ''no batches were accepted by the provider'')), db2)
            else (case park_awaiting_batch (re_claim re) (cx_task cx) ids (d_tasks db2) of
                    (True, tbl) \<Rightarrow> (Parked ids, db2\<lparr>d_tasks := tbl\<rparr>)
                  | (False, tbl) \<Rightarrow>
                      (Ended (Failed_with (RuntimeError (''submitted '' @ show_nat (length ids)
                         @ '' batch(es) but task '' @ show_int (cx_task cx)
                         @ '' was no longer claimable; ids recorded in ai_batches: ''
                         @ join '', '' ids))),
                       db2\<lparr>d_tasks := tbl\<rparr>)))"

text \<open>
  \<open>run_batched\<close>: the settings' shape and model, routing with fallback where an override is
  allowed, the ceiling for the fleet's own work, then the submission.
\<close>

definition run_batched ::
  "run_env \<Rightarrow> submit_ctx \<Rightarrow> TaskShape \<Rightarrow> bool \<Rightarrow> BatchSpec list \<Rightarrow> submit_db
   \<Rightarrow> submit_result \<times> submit_db" where
  "run_batched re cx declared allow specs0 db0 =
     (if has_batch_work (re_receipts re) (cx_task cx) (d_tasks db0) then (Collecting, db0)
      else if specs0 \<noteq> [] \<and> \<not> re_store_ok re then (Ended No_storage, db0)
      else
        case snapshot_specs (cx_task cx) specs0 (d_requests db0) of (specs, requests) \<Rightarrow>
        let db = db0\<lparr>d_requests := requests\<rparr>;
            shape = configured_shape (fe_config (cx_fleet cx)) declared in
        case (if allow
              then route (cx_now cx) (cx_fallback cx) (d_alerts db) shape
                     (configured_model (fe_overrides (cx_fleet cx)) (purpose declared))
              else resolve shape None None) of
          Inl e \<Rightarrow> (Ended (No_model e), db)
        | Inr chosen \<Rightarrow>
            (case refusal_of cx (coalesce (c_est_cost_usd chosen) 0 * of_nat (length specs)) of
               Some failure \<Rightarrow> (Ended failure, db)
             | None \<Rightarrow>
                 submit_or_collect re
                   (cx\<lparr>cx_shape := (if allow then Some shape else None),
                       cx_purpose := Some (purpose declared),
                       cx_max_out := t_max_output_tokens shape\<rparr>)
                   specs (c_model chosen)
                   (let eff = param_text (map_of (c_params chosen) ''reasoning_effort'') in
                    if eff \<noteq> '''' then eff else coalesce (resolved_effort shape) '''')
                   (batch_event_hook (cx_task cx) (purpose declared) (Some (c_model chosen))
                      (cx_payer cx) (c_fallback_from chosen) (d_tasks db) (d_ledger db))
                   (c_fallback_from chosen) db))"

section \<open>What a submission accepted\<close>

fun end_ids :: "submit_end \<Rightarrow> string list" where
  "end_ids (Accepted ids) = ids"
| "end_ids (ProviderExhausted _ _ ids _) = ids"
| "end_ids (SubmitRaised _) = []"

lemma notify_keeps [simp]:
  "d_accepted (notify tr now hk bid st n db) = d_accepted db"
  "d_alerts (notify tr now hk bid st n db) = d_alerts db"
  "d_requests (notify tr now hk bid st n db) = d_requests db"
  by (simp_all add: notify_def split: prod.split)

lemma emit_keeps [simp]:
  "d_accepted (emit_progress tr now hk bid p db) = d_accepted db"
  "d_accepted (emit_submitted tr now hk bid st specs m db) = d_accepted db"
  by (simp_all add: emit_progress_def emit_submitted_def)

lemma submit_chunk_accepted:
  assumes "submit_chunk tr now hk k specs mdl eff m db = (r, db')"
  shows "d_accepted db' = d_accepted db @ (case r of Inl _ \<Rightarrow> [] | Inr bid \<Rightarrow> [bid])"
  using assms by (auto simp: submit_chunk_def split: option.splits sum.splits)

lemma exhaustion_reason_None [simp]: "exhaustion_reason None e = None"
  by (simp add: exhaustion_reason_def PROVIDERS_def MODULES_def openai_PROVIDER_def
      anthropic_PROVIDER_def xai_PROVIDER_def deepseek_PROVIDER_def)

lemma submit_waves_accepted:
  assumes "submit_waves tr now hk k chunks mdl eff m ids refusal db = (r, db')"
  shows "\<exists>new. d_accepted db' = d_accepted db @ new \<and> end_ids r = ids @ new"
  using assms
proof (induction tr now hk k chunks mdl eff m ids refusal db arbitrary: r db' rule: submit_waves.induct)
  case (1 tr now hk k mdl eff m ids refusal db)
  then show ?case by (auto split: option.splits if_splits)
next
  case (2 tr now hk k chunk chunks mdl eff m ids refusal db)
  obtain c db1 where c: "submit_chunk tr now hk k chunk mdl eff m db = (c, db1)" by fastforce
  note acc = submit_chunk_accepted [OF c]
  show ?case
  proof (cases c)
    case (Inl e)
    show ?thesis
    proof (cases "exhaustion_reason (provider_of (Some mdl)) e")
      case None
      then show ?thesis using 2(1) [OF c [symmetric] Inl None] "2.prems" c Inl acc by auto
    next
      case (Some reason)
      then show ?thesis using "2.prems" c Inl acc by (auto split: option.splits)
    qed
  next
    case (Inr bid)
    then show ?thesis using 2(2) [OF c [symmetric] Inr] "2.prems" c acc by fastforce
  qed
qed

lemma submit_batches_accepted:
  assumes "submit_batches tr now hk specs mdl eff m db = (r, db')"
  shows "d_accepted db' = d_accepted db @ end_ids r"
  using assms submit_waves_accepted [of tr now hk 0 _ mdl eff m "[]" None db r db']
  by (auto simp: submit_batches_def Let_def split: option.splits if_splits sum.splits)

end
