(* ===== verification/Submission_Properties.thy ===== *)
theory Submission_Properties
  imports Submission Claims
begin

text \<open>
  What a submission guarantees: every batch a provider accepted is on the task when it parks,
  requests are sent again only where they were refused, the walk along the chain ends, and a
  retry sends what was frozen the first time.
\<close>

section \<open>One pass of the loop\<close>

lemma per_call_no_raise: "\<exists>price. per_call shape mdl = Inr price"
proof (cases shape)
  case (Some sh)
  obtain v where "estimate_cost_usd (Some mdl) (Some (est_prompt_tokens sh))
      (Some (t_max_output_tokens sh)) None (t_batched sh) None Unspecified = Inr v"
    using estimate_no_raise by blast
  then show ?thesis using Some by (simp add: per_call_def)
qed (simp add: per_call_def)

lemma commit_no_raise: "\<exists>c. commit cx s accepted sent = Inr c"
  using per_call_no_raise [of "cx_shape cx" "sub_model s"] by (auto simp: commit_def)

text \<open>How a pass ends, in terms of what its own submission accepted.\<close>

lemma next_round_cases:
  "(\<exists>s'. next_round cx s rf accepted unsent committed db = Again s')
   \<or> (\<exists>ids. ids = sub_ids s @ accepted \<and> ids \<noteq> []
        \<and> next_round cx s rf accepted unsent committed db = Stop (Inr ids))
   \<or> (\<exists>f. sub_ids s @ accepted = [] \<and> next_round cx s rf accepted unsent committed db = Stop (Inl f))"
proof -
  let ?n = "case cx_shape cx of None \<Rightarrow> Inr None
    | Some sh \<Rightarrow> next_for (cx_fallback cx) sh (cx_primary cx) (sub_tried s)
        (blocked_providers (cx_now cx) (fb_cycle_minutes (cx_fallback cx)) (d_alerts db) @ [fst rf])"
  obtain choice where n: "?n = Inr choice"
    using next_for_no_raise by (cases ?n) (auto split: option.splits)
  show ?thesis
  proof (cases choice)
    case None
    then show ?thesis using n by (auto simp: next_round_def Let_def)
  next
    case (Some ch)
    obtain price where price: "per_call (cx_shape cx) (c_model ch) = Inr price"
      using per_call_no_raise by blast
    have "refusal_of cx x \<noteq> Some (Over_ceiling (BudgetRaised e))" for x e
      by (auto simp: refusal_of_def check_fleet_budget_eq Let_def)
    then show ?thesis
      using n Some price
      by (auto simp: next_round_def Let_def split: option.splits submit_failure.splits
          budget_error.splits)
  qed
qed

text \<open>\<open>round_keeps s new r\<close>: what \<open>r\<close> holds when the pass accepted \<open>new\<close>.\<close>

fun round_keeps :: "submission \<Rightarrow> string list \<Rightarrow> round \<Rightarrow> bool" where
  "round_keeps s new (Stop (Inr ids)) \<longleftrightarrow> ids = sub_ids s @ new"
| "round_keeps s new (Stop (Inl f)) \<longleftrightarrow> new = [] \<and> (sub_ids s = [] \<or> (\<exists>e. f = Failed_with e))"
| "round_keeps s new (Again s') \<longleftrightarrow> sub_ids s' = sub_ids s @ new"

lemma next_round_keeps:
  "round_keeps s accepted (next_round cx s rf accepted unsent committed db)"
  using next_round_cases [of cx s rf accepted unsent committed db]
  by (elim disjE exE conjE) (auto elim: next_round_Again)

lemma submit_round_keeps:
  assumes "submit_round cx s db = (r, db')"
  shows "\<exists>new. d_accepted db' = d_accepted db @ new \<and> round_keeps s new r"
proof -
  obtain e db1 where e: "submit_batches (cx_transport cx) (cx_now cx) (sub_hook s) (sub_specs s)
      (sub_model s) (sub_effort s) (cx_max_out cx) db = (e, db1)"
    by fastforce
  note acc = submit_batches_accepted [OF e]
  show ?thesis
  proof (cases e)
    case (Accepted ids)
    obtain c where "commit cx s ids (length (sub_specs s)) = Inr c" using commit_no_raise by blast
    then show ?thesis
      using assms e acc Accepted
      by (auto simp: submit_round_def Let_def split: option.splits)
  next
    case (ProviderExhausted prov reason ids unsent)
    obtain c where "commit cx s ids (length (sub_specs s) - length unsent) = Inr c"
      using commit_no_raise by blast
    then show ?thesis
      using assms e acc ProviderExhausted next_round_keeps
      by (auto simp: submit_round_def Let_def)
  next
    case (SubmitRaised err)
    then show ?thesis using assms e acc by (auto simp: submit_round_def)
  qed
qed

lemma submit_loop_keeps:
  assumes "submit_loop cx s db = (r, db')"
  shows "\<exists>new. d_accepted db' = d_accepted db @ new
    \<and> (case r of Inr ids \<Rightarrow> ids = sub_ids s @ new
             | Inl f \<Rightarrow> sub_ids s @ new = [] \<or> (\<exists>e. f = Failed_with e))"
  using assms
proof (induction cx s db arbitrary: r db' rule: submit_loop.induct)
  case (1 cx s db)
  obtain d db1 where d: "submit_round cx s db = (d, db1)" by fastforce
  obtain new where new: "d_accepted db1 = d_accepted db @ new" "round_keeps s new d"
    using submit_round_keeps [OF d] by blast
  show ?case
  proof (cases d)
    case (Stop x)
    then show ?thesis
      using "1.prems" d new by (cases x) (auto simp: submit_loop.simps [of cx s db])
  next
    case (Again s')
    then show ?thesis
      using "1.IH" [OF d [symmetric] Again, of r db'] "1.prems" d new
      by (auto simp: submit_loop.simps [of cx s db] split: sum.splits)
  qed
qed


section \<open>Accepted batches\<close>

text \<open>
  C11: A task parks with every batch its submission was billed for. Whatever the providers
  answered, however far the requests moved along the chain and whether or not the event hook
  could write, a parked task's payload names every batch accepted on the way. A run that
  collects instead, has nothing to send, is paused or refused by the provider or the ceiling
  created none.
\<close>

theorem parked_task_names_every_accepted_batch:
  "case submit_or_collect re cx specs mdl eff hk routed db of (result, db') \<Rightarrow>
     \<exists>new. d_accepted db' = d_accepted db @ new
       \<and> (case result of
            Parked ids \<Rightarrow> new = ids \<and> list_all (named (cx_task cx) (d_tasks db')) ids
          | Ended failure \<Rightarrow> new = [] \<or> (\<exists>e. failure = Failed_with e)
          | _ \<Rightarrow> new = [])"
proof -
  let ?cx = "cx\<lparr>cx_primary := (if truthy routed then the routed else mdl),
      cx_purpose := (if truthy (cx_purpose cx) then cx_purpose cx else map_option purpose (cx_shape cx))\<rparr>"
  obtain frozen requests where snap: "snapshot_specs (cx_task cx) specs (d_requests db) = (frozen, requests)"
    by fastforce
  let ?s = "\<lparr>sub_specs = frozen, sub_model = mdl, sub_effort = eff, sub_hook = hk,
      sub_ids = [], sub_tried = [mdl], sub_committed = 0\<rparr>"
  obtain r db2 where loop: "submit_loop ?cx ?s (db\<lparr>d_requests := requests\<rparr>) = (r, db2)" by fastforce
  obtain new where new: "d_accepted db2 = d_accepted db @ new"
      "case r of Inr ids \<Rightarrow> ids = new | Inl f \<Rightarrow> new = [] \<or> (\<exists>e. f = Failed_with e)"
    using submit_loop_keeps [OF loop] by (cases r) auto
  obtain ok tbl where park: "park_awaiting_batch (re_claim re) (cx_task cx) new (d_tasks db2) = (ok, tbl)"
    by fastforce
  then have "list_all (named (cx_task cx) tbl) new"
    using named_park [OF _ park] by (auto simp: list_all_iff)
  then show ?thesis
    using new loop snap park by (cases r)
      (auto simp: submit_or_collect_def Let_def split: bool.splits)
qed


text \<open>The batches accepted since \<open>before\<close> are all named by the task.\<close>

definition owed_named :: "string set \<Rightarrow> int \<Rightarrow> submit_db \<Rightarrow> bool" where
  "owed_named before i db \<longleftrightarrow> (\<forall>b \<in> set (d_accepted db). b \<in> before \<or> named i (d_tasks db) b)"

lemma named_notify:
  assumes "h_task_id hk = i" "tr_hook_ok tr bid" "b = bid \<or> named i (d_tasks db) b"
  shows "named i (d_tasks (notify tr now hk bid st n db)) b"
  using assms named_record [of b "[bid]" i "d_tasks db"]
  by (auto simp: notify_def on_event_def)

lemma owed_named_chunk:
  assumes "owed_named before i db" "h_task_id hk = i" "\<And>b. tr_hook_ok tr b"
    and "submit_chunk tr now hk k specs mdl eff m db = (r, db')"
  shows "owed_named before i db'"
proof -
  have "named i (d_tasks (emit_submitted tr now hk bid st specs m
      (emit_progress tr now hk bid p (db\<lparr>d_accepted := acc\<rparr>)))) b"
    if "b = bid \<or> named i (d_tasks db) b" for bid st p acc b
  proof -
    have "named i (d_tasks (emit_progress tr now hk bid p (db\<lparr>d_accepted := acc\<rparr>))) b"
      unfolding emit_progress_def using that assms(2,3) by (intro named_notify) auto
    then show ?thesis
      unfolding emit_submitted_def using assms(2,3) by (intro named_notify disjI2)
  qed
  then show ?thesis
    using assms(1,4) by (auto simp: submit_chunk_def owed_named_def split: option.splits sum.splits)
qed

lemma owed_named_waves:
  assumes "submit_waves tr now hk k chunks mdl eff m ids refusal db = (r, db')"
    and "owed_named before i db" "h_task_id hk = i" "\<And>b. tr_hook_ok tr b"
  shows "owed_named before i db'"
  using assms
proof (induction tr now hk k chunks mdl eff m ids refusal db arbitrary: r db' rule: submit_waves.induct)
  case (1 tr now hk k mdl eff m ids refusal db)
  then show ?case by (auto split: option.splits if_splits)
next
  case (2 tr now hk k chunk chunks mdl eff m ids refusal db)
  obtain c db1 where c: "submit_chunk tr now hk k chunk mdl eff m db = (c, db1)" by fastforce
  have db1: "owed_named before i db1"
    using owed_named_chunk [OF "2.prems"(2-4) c] .
  show ?case
  proof (cases c)
    case (Inl e)
    then show ?thesis
      using 2(1) [OF c [symmetric] Inl] "2.prems" c db1 by (auto split: option.splits)
  next
    case (Inr bid)
    then show ?thesis using 2(2) [OF c [symmetric] Inr] "2.prems" c db1 by auto
  qed
qed

lemma owed_named_alerts [simp]:
  "owed_named before i (db\<lparr>d_alerts := al\<rparr>) = owed_named before i db"
  "owed_named before i (db\<lparr>d_requests := rq\<rparr>) = owed_named before i db"
  by (simp_all add: owed_named_def)

lemma owed_named_batches:
  assumes "submit_batches tr now hk specs mdl eff m db = (r, db')"
    and "owed_named before i db" "h_task_id hk = i" "\<And>b. tr_hook_ok tr b"
  shows "owed_named before i db'"
  using assms owed_named_waves [OF _ assms(2-4)]
  by (auto simp: submit_batches_def Let_def split: option.splits if_splits sum.splits)

lemma owed_named_round:
  assumes "submit_round cx s db = (r, db')"
    and "owed_named before (cx_task cx) db" "h_task_id (sub_hook s) = cx_task cx"
    and "\<And>b. tr_hook_ok (cx_transport cx) b"
  shows "owed_named before (cx_task cx) db'"
proof -
  obtain e db1 where e: "submit_batches (cx_transport cx) (cx_now cx) (sub_hook s) (sub_specs s)
      (sub_model s) (sub_effort s) (cx_max_out cx) db = (e, db1)"
    by fastforce
  have "owed_named before (cx_task cx) db1" using owed_named_batches [OF e assms(2-4)] .
  then show ?thesis
    using assms(1) e by (auto simp: submit_round_def Let_def split: submit_end.splits sum.splits option.splits)
qed

lemma submit_round_hook:
  assumes "submit_round cx s db = (Again s', db')"
  shows "h_task_id (sub_hook s') = cx_task cx"
  using assms
  by (auto simp: submit_round_def next_round_def Let_def batch_event_hook_def
      split: prod.splits submit_end.splits sum.splits option.splits if_splits submit_failure.splits
        budget_error.splits)

lemma owed_named_loop:
  assumes "submit_loop cx s db = (r, db')"
    and "owed_named before (cx_task cx) db" "h_task_id (sub_hook s) = cx_task cx"
    and "\<And>b. tr_hook_ok (cx_transport cx) b"
  shows "owed_named before (cx_task cx) db'"
  using assms
proof (induction cx s db arbitrary: r db' rule: submit_loop.induct)
  case (1 cx s db)
  obtain d db1 where d: "submit_round cx s db = (d, db1)" by fastforce
  note db1 = owed_named_round [OF d "1.prems"(2-4)]
  show ?case
  proof (cases d)
    case (Stop x)
    then show ?thesis using "1.prems"(1) d db1 by (auto simp: submit_loop.simps [of cx s db])
  next
    case (Again s')
    then show ?thesis
      using "1.IH" [OF d [symmetric] Again] "1.prems" d db1 submit_round_hook
      by (auto simp: submit_loop.simps [of cx s db])
  qed
qed

lemma owed_named_submit:
  assumes "submit_or_collect re cx specs mdl eff hk routed db = (r, db')"
    and "owed_named before (cx_task cx) db" "h_task_id hk = cx_task cx"
    and "\<And>b. tr_hook_ok (cx_transport cx) b"
  shows "owed_named before (cx_task cx) db'"
proof -
  let ?cx = "cx\<lparr>cx_primary := (if truthy routed then the routed else mdl),
      cx_purpose := (if truthy (cx_purpose cx) then cx_purpose cx else map_option purpose (cx_shape cx))\<rparr>"
  have "owed_named before (cx_task cx) db2"
    if "submit_loop ?cx s (db\<lparr>d_requests := rq\<rparr>) = (x, db2)" "sub_hook s = hk" for s rq x db2
    using owed_named_loop [OF that(1), of before] that(2) assms(2-4) by simp
  moreover have "owed_named before (cx_task cx) (db2\<lparr>d_tasks := tbl\<rparr>)"
    if "owed_named before (cx_task cx) db2"
      "park_awaiting_batch cur (cx_task cx) ids (d_tasks db2) = (ok, tbl)" for db2 cur ids ok tbl
    using that named_park [OF _ that(2)] by (auto simp: owed_named_def)
  ultimately show ?thesis
    using assms(1,2) by (auto simp: submit_or_collect_def Let_def
        split: prod.splits if_splits sum.splits bool.splits)
qed


text \<open>
  No paid batch is lost while its task runs. When the event hook writes what it hears, every
  batch a run of \<open>run_batched\<close> got accepted is named by the task's payload when the run ends,
  however it ends: parked, over the ceiling, refused, or with an error after some waves went out.
\<close>

theorem accepted_batches_outlive_a_failing_run:
  assumes "\<forall>b. tr_hook_ok (cx_transport cx) b"
  shows "case run_batched re cx declared allow specs db of (result, db') \<Rightarrow>
    list_all (\<lambda>b. b \<in> set (d_accepted db) \<or> named (cx_task cx) (d_tasks db') b) (d_accepted db')"
proof -
  have start: "owed_named (set (d_accepted db)) (cx_task cx) (db\<lparr>d_requests := rq\<rparr>)" for rq
    by (simp add: owed_named_def)
  have "owed_named (set (d_accepted db)) (cx_task cx) db'"
    if "run_batched re cx declared allow specs db = (result, db')" for result db'
  proof -
    have "owed_named (set (d_accepted db)) (cx_task cx) db2"
      if "submit_or_collect re (cx\<lparr>cx_shape := sh, cx_purpose := p, cx_max_out := m\<rparr>) ss mdl eff
          (batch_event_hook (cx_task cx) pu md pay fb T L) routed (db\<lparr>d_requests := rq\<rparr>) = (x, db2)"
      for sh p m ss mdl eff pu md pay fb T L routed rq x db2
      using owed_named_submit [OF that, of "set (d_accepted db)"] start assms
      by (simp add: batch_event_hook_def Let_def)
    then show ?thesis
      using that start [of "d_requests db"] start
      by (auto simp: run_batched_def Let_def
          split: if_splits prod.splits sum.splits option.splits)
  qed
  then show ?thesis by (auto simp: owed_named_def list_all_iff split: prod.split)
qed

section \<open>The walk along the chain\<close>

text \<open>The submissions a run of the loop makes.\<close>

function submit_trace :: "submit_ctx \<Rightarrow> submission \<Rightarrow> submit_db \<Rightarrow> submission list" where
  "submit_trace cx s db =
     s # (case submit_round cx s db of
            (Stop _, _) \<Rightarrow> []
          | (Again s', db') \<Rightarrow> submit_trace cx s' db')"
  by pat_completeness auto
termination
  by (relation "measure (\<lambda>(cx, s, db). chain_left cx s)")
    (auto intro: submit_round_decreases [OF sym])

declare submit_trace.simps [simp del]

definition after_part :: "'a list \<Rightarrow> 'a list \<Rightarrow> bool" where
  "after_part all rest \<longleftrightarrow> (\<exists>sent. all = sent @ rest)"

lemma after_part_refl [simp]: "after_part xs xs"
  by (simp add: after_part_def)

lemma after_part_trans: "after_part xs ys \<Longrightarrow> after_part ys zs \<Longrightarrow> after_part xs zs"
  by (auto simp: after_part_def)

lemma submit_waves_unsent:
  assumes "submit_waves tr now hk k chunks mdl eff m ids refusal db = (ProviderExhausted v why acc unsent, db')"
  shows "after_part (concat chunks) unsent"
  using assms
proof (induction tr now hk k chunks mdl eff m ids refusal db arbitrary: db' rule: submit_waves.induct)
  case (1 tr now hk k mdl eff m ids refusal db)
  then show ?case by (auto split: option.splits if_splits)
next
  case (2 tr now hk k chunk chunks mdl eff m ids refusal db)
  obtain c db1 where c: "submit_chunk tr now hk k chunk mdl eff m db = (c, db1)" by fastforce
  have step: "after_part (concat chunks) unsent \<Longrightarrow> after_part (concat (chunk # chunks)) unsent"
    by (auto simp: after_part_def)
  show ?case
  proof (cases c)
    case (Inl e)
    then show ?thesis
      using 2(1) [OF c [symmetric] Inl] "2.prems" c step by (auto split: option.splits)
  next
    case (Inr bid)
    then show ?thesis using 2(2) [OF c [symmetric] Inr] "2.prems" c step by auto
  qed
qed

lemma chunk_specs_concat: "chunk_specs specs m = Inr chunks \<Longrightarrow> concat chunks = specs"
  using chunk_loop_Inr [of m "[]" "[]" 0 0 specs chunks]
  by (simp add: chunk_specs_def wave_tokens_def wave_inputs_def)

lemma submit_batches_unsent:
  assumes "submit_batches tr now hk specs mdl eff m db = (ProviderExhausted v why acc unsent, db')"
  shows "after_part specs unsent"
  using assms submit_waves_unsent chunk_specs_concat
  by (auto simp: submit_batches_def Let_def split: option.splits if_splits sum.splits) fastforce+

definition retry_of :: "submit_ctx \<Rightarrow> submission \<Rightarrow> submission \<Rightarrow> bool" where
  "retry_of cx s s' \<longleftrightarrow>
     after_part (sub_specs s) (sub_specs s')
     \<and> (\<exists>sh. cx_shape cx = Some sh \<and> sub_model s' \<in> set (chain_for (cx_fallback cx) (purpose sh))
          \<and> capable (only sh (sub_model s')) (sub_model s'))"

lemma submit_round_retry:
  assumes "submit_round cx s db = (Again s', db')"
  shows "retry_of cx s s' \<and> sub_model s' \<notin> set (sub_tried s)
    \<and> sub_tried s' = sub_model s' # sub_tried s"
proof -
  obtain v why acc unsent db1 c db2 where
    e: "submit_batches (cx_transport cx) (cx_now cx) (sub_hook s) (sub_specs s) (sub_model s)
      (sub_effort s) (cx_max_out cx) db = (ProviderExhausted v why acc unsent, db1)"
    and n: "next_round cx s (v, why) acc unsent c db2 = Again s'"
    using assms by (auto simp: submit_round_def Let_def
        split: prod.splits submit_end.splits sum.splits option.splits)
  show ?thesis
    using n by (rule next_round_Again) (use submit_batches_unsent [OF e] in \<open>auto simp: retry_of_def\<close>)
qed

lemma submit_trace_walk:
  assumes "sub_model s \<in> set (sub_tried s)"
  shows "distinct (map sub_model (submit_trace cx s db))
    \<and> length (submit_trace cx s db) \<le> Suc (chain_left cx s)
    \<and> list_all (\<lambda>s'. retry_of cx s s' \<and> sub_model s' \<notin> set (sub_tried s)) (tl (submit_trace cx s db))
    \<and> sorted_wrt (\<lambda>a b. after_part (sub_specs a) (sub_specs b)) (submit_trace cx s db)"
  using assms
proof (induction cx s db rule: submit_trace.induct)
  case (1 cx s db)
  obtain d db1 where d: "submit_round cx s db = (d, db1)" by fastforce
  show ?case
  proof (cases d)
    case (Stop x)
    then have "submit_trace cx s db = [s]" using d by (simp add: submit_trace.simps [of cx s db])
    then show ?thesis by simp
  next
    case (Again s')
    note r = submit_round_retry [OF d [unfolded Again]]
    have t: "submit_trace cx s db = s # submit_trace cx s' db1"
      using d Again by (simp add: submit_trace.simps [of cx s db])
    have hd: "submit_trace cx s' db1 = s' # tl (submit_trace cx s' db1)"
      by (subst (1 2) submit_trace.simps) simp
    let ?tr = "submit_trace cx s' db1"
    have IH: "distinct (map sub_model ?tr)" "length ?tr \<le> Suc (chain_left cx s')"
      "list_all (\<lambda>x. retry_of cx s' x \<and> sub_model x \<notin> set (sub_tried s')) (tl ?tr)"
      "sorted_wrt (\<lambda>a b. after_part (sub_specs a) (sub_specs b)) ?tr"
      using "1.IH" [OF d [symmetric] Again] r by auto
    have later: "retry_of cx s x \<and> sub_model x \<notin> set (sub_tried s)" if "x \<in> set ?tr" for x
    proof (cases "x = s'")
      case False
      then have "x \<in> set (tl ?tr)" using that hd by (metis set_ConsD)
      then show ?thesis
        using IH(3) r by (auto simp: list_all_iff retry_of_def intro: after_part_trans)
    qed (use r in simp)
    then have "sub_model s \<notin> sub_model ` set ?tr" using "1.prems" by auto
    then show ?thesis
      using t IH later submit_round_decreases [OF d [unfolded Again]]
      by (auto simp: list_all_iff retry_of_def)
  qed
qed

text \<open>
  C14: Moving refused work along the fallback chain ends and repeats nothing. The submissions one
  run makes go to different models, at most one more than the chain has entries; each one after
  the first goes to a chain entry that can run the task and sends only a rest of what the one
  before it was to send: the requests from the refused wave on.
\<close>

theorem fallback_walk_ends_and_repeats_nothing:
  "case submit_trace cx \<lparr>sub_specs = specs, sub_model = mdl, sub_effort = eff, sub_hook = hk,
       sub_ids = [], sub_tried = [mdl], sub_committed = 0\<rparr> db of
     trace \<Rightarrow> distinct (map sub_model trace)
       \<and> length trace \<le> Suc (case cx_shape cx of
           None \<Rightarrow> 0 | Some sh \<Rightarrow> length (chain_for (cx_fallback cx) (purpose sh)))
       \<and> sorted_wrt (\<lambda>a b. after_part (sub_specs a) (sub_specs b)) trace
       \<and> list_all (\<lambda>s. \<exists>sh. cx_shape cx = Some sh
            \<and> sub_model s \<in> set (chain_for (cx_fallback cx) (purpose sh))
            \<and> capable (only sh (sub_model s)) (sub_model s)) (tl trace)"
proof -
  let ?s = "\<lparr>sub_specs = specs, sub_model = mdl, sub_effort = eff, sub_hook = hk,
      sub_ids = [], sub_tried = [mdl], sub_committed = 0\<rparr>"
  have "card (set xs - A) \<le> length xs" for xs :: "string list" and A
    by (meson Diff_subset List.finite_set card_length card_mono dual_order.trans)
  then have "chain_left cx ?s \<le> (case cx_shape cx of
      None \<Rightarrow> 0 | Some sh \<Rightarrow> length (chain_for (cx_fallback cx) (purpose sh)))"
    by (simp add: chain_left_def split: option.split)
  then show ?thesis
    using submit_trace_walk [of ?s cx db] by (auto simp: retry_of_def list_all_iff)
qed


section \<open>Frozen requests\<close>

lemma snapshot_keeps:
  assumes "snapshot_specs i specs requests = (frozen, after)" "map_of requests key = Some v"
  shows "map_of after key = Some v"
  using assms
proof (induction i specs requests arbitrary: frozen after rule: snapshot_specs.induct)
  case (2 i spec specs requests)
  then show ?case
    by (cases "map_of requests (i, s_custom_id spec)")
      (auto split: prod.splits simp: map_add_def)
qed simp

lemma snapshot_again:
  assumes "snapshot_specs i specs requests = (frozen, after)"
    and "map s_custom_id specs' = map s_custom_id specs"
    and "\<And>key v. map_of after key = Some v \<Longrightarrow> map_of later key = Some v"
  shows "snapshot_specs i specs' later = (frozen, later)"
  using assms
proof (induction i specs requests arbitrary: frozen specs' rule: snapshot_specs.induct)
  case (1 i requests)
  then show ?case by simp
next
  case (2 i spec specs requests)
  obtain spec' rest where s': "specs' = spec' # rest" "s_custom_id spec' = s_custom_id spec"
      "map s_custom_id rest = map s_custom_id specs"
    using "2.prems"(2) by (cases specs') auto
  show ?case
  proof (cases "map_of requests (i, s_custom_id spec)")
    case None
    let ?r = "requests @ [((i, s_custom_id spec), spec)]"
    obtain fs where fs: "snapshot_specs i specs ?r = (fs, after)" "frozen = spec # fs"
      using "2.prems"(1) None by (auto split: prod.splits)
    have "map_of ?r (i, s_custom_id spec) = Some spec" using None by (simp add: map_add_def)
    then have "map_of later (i, s_custom_id spec) = Some spec"
      using snapshot_keeps [OF fs(1)] "2.prems"(3) by blast
    then show ?thesis
      using "2.IH"(1) [OF None fs(1) s'(3) "2.prems"(3)] s' fs(2) by simp
  next
    case (Some old)
    obtain fs where fs: "snapshot_specs i specs requests = (fs, after)" "frozen = old # fs"
      using "2.prems"(1) Some by (auto split: prod.splits)
    have "map_of later (i, s_custom_id spec) = Some old"
      using snapshot_keeps [OF fs(1) Some] "2.prems"(3) by blast
    then show ?thesis
      using "2.IH"(2) [OF Some fs(1) s'(3) "2.prems"(3)] s' fs(2) by simp
  qed
qed

text \<open>
  A retry sends what was frozen the first time. Once a task's requests were frozen, freezing
  requests with the same custom ids again, whatever their texts have become, gives back the
  requests of the first time and writes nothing.
\<close>

theorem retry_sends_the_frozen_requests:
  assumes "map s_custom_id specs' = map s_custom_id specs"
  shows "case snapshot_specs i specs requests of
    (frozen, after) \<Rightarrow> snapshot_specs i specs' after = (frozen, after)"
  using snapshot_again [OF _ assms] by (auto split: prod.split)

definition sample_spec :: "string \<Rightarrow> string \<Rightarrow> BatchSpec" where
  "sample_spec cid page =
     \<lparr>s_custom_id = cid, s_instructions = ''Extract the pay.'', s_input = page,
      s_schema_name = ''Pay'', s_schema = JObj [], s_context = None, s_endpoint = RESPONSES,
      s_inputs = None\<rparr>"

theorem retry_sends_the_frozen_requests_witness:
  "snapshot_specs 7 [sample_spec ''a'' ''new page'']
     [((7, ''a''), sample_spec ''a'' ''old page'')]
   = ([sample_spec ''a'' ''old page''], [((7, ''a''), sample_spec ''a'' ''old page'')])"
  using retry_sends_the_frozen_requests [of "[sample_spec ''a'' ''new page'']"
      "[sample_spec ''a'' ''old page'']" 7 "[]"]
  by (simp add: sample_spec_def)

section \<open>A failing fallback\<close>

lemma provider_of_opus: "provider_of (Some ''claude-opus-5'') = Some ''anthropic''"
  by (simp add: provider_of_def MODELS_eq entries_def MODULES_def openai_PROVIDER_def
      openai_models_def anthropic_PROVIDER_def anthropic_models_def Model_of_def)

lemma model_opus:
  "model (Some ''claude-opus-5'') =
     Some ((Model_of ''claude-opus-5'' ''Previous Opus generation; existing default preserved''
        (Some 1000000) anthropic_SCHEMA (anthropic_rates 5.00 25.00 0.500 anthropic_PRICES)
        anthropic_EFFORT anthropic_OUTPUT)
        \<lparr>batch_supported := Some True, cache_write_5m_per_mtok := Some 6.25,
         cache_write_1h_per_mtok := Some 10\<rparr>)"
  by (simp add: model_def MODELS_eq entries_def MODULES_def openai_PROVIDER_def
      openai_models_def anthropic_PROVIDER_def anthropic_models_def Model_of_def)

lemma opus_batchable: "unavailable_reason ''claude-opus-5'' = None"
proof -
  have "provider_batch_endpoint ''anthropic'' = Some ''/v1/messages/batches''"
    by (simp add: provider_batch_endpoint_def PROVIDERS_def MODULES_def openai_PROVIDER_def
        anthropic_PROVIDER_def)
  then show ?thesis
    by (simp add: unavailable_reason_def vendor_support_def provider_of_opus model_opus Model_of_def)
qed

lemma opus_capable: "capable (only COMP_TASK ''claude-opus-5'') ''claude-opus-5''"
proof -
  obtain v where "estimate_cost_usd (Some ''claude-opus-5'') (Some 1) (Some 1) None False None Unspecified
      = Inr (Some v)"
    using reservation_priced_iff [of "Some ''claude-opus-5''" "Some 1" "Some 1" None False None]
      model_opus by auto
  then show ?thesis
    by (simp add: capable_def rejection_def provider_of_opus opus_batchable truthy_def model_opus
        COMP_TASK_def only_def effort_rejection_def output_rejection_def MODE_RANK_def
        anthropic_entry_defs spec_defs)
qed


text \<open>
  A task of the fleet that sends two requests, each a wave of its own: the first is accepted by
  OpenAI, the second refused for the account, and Anthropic, next in the chain, is overloaded.
\<close>

definition overloaded_reply :: "string \<Rightarrow> nat \<Rightarrow> provider_error + (string \<times> BatchProgress)" where
  "overloaded_reply mdl k =
     (if mdl = ''gpt-6-luna''
      then if k = 0
           then Inr (''batch_1'', \<lparr>p_status = ''validating'', p_total = 1, p_completed = 0, p_failed = 0\<rparr>)
           else Inl \<lparr>pe_text = ''You exceeded your quota'', pe_code = Some ''insufficient_quota'', pe_body = None\<rparr>
      else Inl \<lparr>pe_text = ''overloaded'', pe_code = None, pe_body = None\<rparr>)"

definition overloaded_transport :: transport where
  "overloaded_transport =
     \<lparr>tr_keyed = (\<lambda>_. True), tr_reply = overloaded_reply, tr_hook_ok = (\<lambda>_. True),
      tr_digest = id, tr_schema = id\<rparr>"

definition overloaded_ctx :: submit_ctx where
  "overloaded_ctx =
     \<lparr>cx_task = 7, cx_now = 0, cx_transport = overloaded_transport,
      cx_fallback = \<lparr>fb_chains = [(''comp'', [''claude-opus-5''])], fb_groups = [],
                     fb_cycle_minutes = 60, fb_keyed = [''openai'', ''anthropic'']\<rparr>,
      cx_fleet = sample_fleet 0, cx_calls = [], cx_shape = Some COMP_TASK,
      cx_purpose = Some ''comp'', cx_payer = FLEET, cx_primary = ''gpt-6-luna'',
      cx_max_out = 1000000\<rparr>"

definition overloaded_row :: Task where
  "overloaded_row = claim_row 0 ''oci'' (new_task 0 7 ''extract_comp'' [] None None)"

definition overloaded_db :: submit_db where
  "overloaded_db =
     \<lparr>d_tasks = [overloaded_row], d_ledger = [], d_alerts = [], d_requests = [], d_accepted = []\<rparr>"


definition overloaded_specs :: "BatchSpec list" where
  "overloaded_specs = [sample_spec ''a'' ''page a'', sample_spec ''b'' ''page b'']"

lemma overloaded_chunks:
  "chunk_specs overloaded_specs 1000000 = Inr [[sample_spec ''a'' ''page a''], [sample_spec ''b'' ''page b'']]"
  by (simp add: chunk_specs_def overloaded_specs_def sample_spec_def estimate_tokens_def
      input_count_def BATCH_MAX_REQUESTS_def BATCH_CHARS_PER_TOKEN_def BATCH_TOKEN_BUDGET_def
      RESPONSES_def Let_def)

lemma build_line_sample: "\<exists>line. build_line digest (sample_spec cid page) ''gpt-6-luna'' eff m = Inr line"
  by (auto simp: build_line_def sample_spec_def RESPONSES_def EMBEDDINGS_def cached_prompt_def
      cache_policy_def get_def coalesce_def Let_def)

lemma luna_exhausted:
  "exhaustion_reason (Some ''openai'')
     \<lparr>pe_text = ''You exceeded your quota'', pe_code = Some ''insufficient_quota'', pe_body = None\<rparr>
   = Some ''You exceeded your quota''"
  by (simp add: exhaustion_reason_def PROVIDERS_def MODULES_def openai_PROVIDER_def coalesce_def
      haystack_def py_lower_def lower_char_def Let_def) 

lemma opus_not_exhausted:
  "exhaustion_reason (Some ''anthropic'') \<lparr>pe_text = ''overloaded'', pe_code = None, pe_body = None\<rparr> = None"
  by (simp add: exhaustion_reason_def PROVIDERS_def MODULES_def openai_PROVIDER_def coalesce_def
      anthropic_PROVIDER_def haystack_def py_lower_def lower_char_def Let_def)

lemma overloaded_first:
  "\<exists>db1. submit_batches overloaded_transport 0 hk overloaded_specs ''gpt-6-luna'' eff 1000000 db
     = (ProviderExhausted ''openai'' ''You exceeded your quota'' [''batch_1''] [sample_spec ''b'' ''page b''], db1)"
proof -
  let ?tr = overloaded_transport
  have tr: "tr_keyed ?tr v" "tr_reply ?tr = overloaded_reply" for v
    by (simp_all add: overloaded_transport_def)
  have line: "submit_openai_error ?tr [sample_spec cid page] ''gpt-6-luna'' eff 1000000 = None" for cid page
    using build_line_sample [of "tr_digest ?tr" cid page eff 1000000]
    by (auto simp: submit_openai_error_def)
  have a: "\<exists>db1. submit_chunk ?tr 0 hk 0 [sample_spec ''a'' ''page a''] ''gpt-6-luna'' eff 1000000 d
      = (Inr ''batch_1'', db1)" for d
    using line by (simp add: submit_chunk_def provider_of_gpt_6_luna tr overloaded_reply_def)
  have b: "submit_chunk ?tr 0 hk (Suc 0) [sample_spec ''b'' ''page b''] ''gpt-6-luna'' eff 1000000 d
      = (Inl \<lparr>pe_text = ''You exceeded your quota'', pe_code = Some ''insufficient_quota'', pe_body = None\<rparr>, d)" for d
    using line by (simp add: submit_chunk_def provider_of_gpt_6_luna tr overloaded_reply_def)
  obtain db1 where db1: "submit_chunk ?tr 0 hk 0 [sample_spec ''a'' ''page a''] ''gpt-6-luna'' eff 1000000 db
      = (Inr ''batch_1'', db1)"
    using a by blast
  have "submit_batches ?tr 0 hk overloaded_specs ''gpt-6-luna'' eff 1000000 db
      = submit_waves ?tr 0 hk 0 [[sample_spec ''a'' ''page a''], [sample_spec ''b'' ''page b'']]
          ''gpt-6-luna'' eff 1000000 [] None db"
    unfolding submit_batches_def luna_batchable provider_of_gpt_6_luna overloaded_chunks
    by (simp add: tr) (simp add: overloaded_specs_def sample_spec_def)
  also have "\<dots> = (ProviderExhausted ''openai'' ''You exceeded your quota'' [''batch_1'']
      [sample_spec ''b'' ''page b''], db1)"
    using db1 b luna_exhausted by (simp add: provider_of_gpt_6_luna)
  finally show ?thesis by blast
qed

text \<open>Whatever effort it is asked for, the overloaded provider accepts no wave.\<close>

lemma overloaded_second:
  "\<exists>e db1. submit_batches overloaded_transport 0 hk [sample_spec ''b'' ''page b''] ''claude-opus-5'' eff 1000000 db
     = (SubmitRaised e, db1)"
proof -
  let ?tr = overloaded_transport
  have tr: "tr_keyed ?tr v" "tr_reply ?tr = overloaded_reply" for v
    by (simp_all add: overloaded_transport_def)
  have chunk: "chunk_specs [sample_spec ''b'' ''page b''] 1000000 = Inr [[sample_spec ''b'' ''page b'']]"
    by (simp add: chunk_specs_def sample_spec_def estimate_tokens_def
      input_count_def BATCH_MAX_REQUESTS_def Let_def)
  show ?thesis
  proof (cases "request_params (tr_schema ?tr) (sample_spec ''b'' ''page b'') ''claude-opus-5'' eff 1000000")
    case (Inl e)
    then show ?thesis
      unfolding submit_batches_def opus_batchable provider_of_opus by (simp add: tr)
  next
    case (Inr params)
    then have "submit_chunk ?tr 0 hk 0 [sample_spec ''b'' ''page b''] ''claude-opus-5'' eff 1000000 db
        = (Inl \<lparr>pe_text = ''overloaded'', pe_code = None, pe_body = None\<rparr>, db)"
      by (simp add: submit_chunk_def provider_of_opus submit_anthropic_error_def tr overloaded_reply_def)
    then have "submit_waves ?tr 0 hk 0 [[sample_spec ''b'' ''page b'']] ''claude-opus-5'' eff 1000000 [] None db
        = (SubmitRaised (RuntimeError ''no batches were accepted by the provider: overloaded''), db)"
      using opus_not_exhausted by (simp add: provider_of_opus)
    then show ?thesis
      using Inr unfolding submit_batches_def opus_batchable provider_of_opus chunk by (simp add: tr)
  qed
qed


lemma submit_chunk_alerts:
  "submit_chunk tr now hk k specs mdl eff m db = (r, db') \<Longrightarrow> d_alerts db' = d_alerts db"
  by (auto simp: submit_chunk_def emit_submitted_def emit_progress_def split: option.splits sum.splits)

lemma submit_waves_alerts:
  "submit_waves tr now hk k chunks mdl eff m ids refusal db = (r, db') \<Longrightarrow> d_alerts db' = d_alerts db"
proof (induction tr now hk k chunks mdl eff m ids refusal db arbitrary: r db' rule: submit_waves.induct)
  case (1 tr now hk k mdl eff m ids refusal db)
  then show ?case by (auto split: option.splits if_splits)
next
  case (2 tr now hk k chunk chunks mdl eff m ids refusal db)
  obtain c db1 where c: "submit_chunk tr now hk k chunk mdl eff m db = (c, db1)" by fastforce
  note al = submit_chunk_alerts [OF c]
  show ?case
  proof (cases c)
    case (Inl e)
    then show ?thesis
      using 2(1) [OF c [symmetric] Inl] "2.prems" c al by (auto split: option.splits)
  next
    case (Inr bid)
    then show ?thesis using 2(2) [OF c [symmetric] Inr] "2.prems" c al by auto
  qed
qed

lemma submit_batches_alerts:
  "submit_batches tr now hk specs mdl eff m db = (r, db') \<Longrightarrow> d_alerts db' = d_alerts db"
  using submit_waves_alerts
  by (auto simp: submit_batches_def Let_def split: option.splits if_splits sum.splits)

lemma overloaded_next:
  "\<exists>ch. next_for (cx_fallback overloaded_ctx) COMP_TASK ''gpt-6-luna'' [''gpt-6-luna'']
       (blocked_providers 0 60 (mark 0 ''openai'' why m p []) @ [''openai'']) = Inr (Some ch)
     \<and> c_model ch = ''claude-opus-5''"
proof -
  let ?env = "cx_fallback overloaded_ctx"
  let ?b = "(blocked_providers 0 60 (mark 0 ''openai'' why m p []) @ [''openai'']) @ unkeyed ?env"
  have models: "usable ?env (purpose COMP_TASK) ''gpt-6-luna'' (chain_for ?env (purpose COMP_TASK))
      = [''claude-opus-5'']"
    by (simp add: usable_def equivalent_models_def VERDICT_KIND_def FILTER_PURPOSE_def coalesce_def
        MANAGED_BOARD_PURPOSE_def COMP_TASK_def chain_for_def overloaded_ctx_def)
  have "''anthropic'' \<notin> set ?b"
    by (auto simp: blocked_iff mark_def open_alert_def unkeyed_def overloaded_ctx_def)
  then have "\<not> skipped COMP_TASK ?b [''gpt-6-luna''] ''claude-opus-5''"
    using opus_capable by (simp add: skipped_def provider_of_opus)
  then obtain ch where "next_choice COMP_TASK [''claude-opus-5''] ?b [''gpt-6-luna''] None = Inr (Some ch)"
      "c_model ch = ''claude-opus-5''"
    using next_choice_spec [of COMP_TASK "[''claude-opus-5'']" ?b "[''gpt-6-luna'']" None]
    by (auto simp: Cons_eq_append_conv)
  then show ?thesis by (simp add: next_for_def models Let_def)
qed

lemma overloaded_loop:
  assumes "d_alerts db = []" "d_accepted db = []"
  shows "\<exists>e db'. submit_loop overloaded_ctx
      \<lparr>sub_specs = overloaded_specs, sub_model = ''gpt-6-luna'', sub_effort = eff, sub_hook = hk,
       sub_ids = [], sub_tried = [''gpt-6-luna''], sub_committed = 0\<rparr> db = (Inl (Failed_with e), db')
     \<and> d_accepted db' = [''batch_1'']"
proof -
  let ?cx = overloaded_ctx
  let ?s = "\<lparr>sub_specs = overloaded_specs, sub_model = ''gpt-6-luna'', sub_effort = eff, sub_hook = hk,
       sub_ids = [], sub_tried = [''gpt-6-luna''], sub_committed = 0\<rparr>"
  let ?why = "''You exceeded your quota''" and ?rest = "[sample_spec ''b'' ''page b'']"
  have cx: "cx_transport ?cx = overloaded_transport" "cx_now ?cx = 0" "cx_max_out ?cx = 1000000"
      "cx_shape ?cx = Some COMP_TASK" "cx_primary ?cx = ''gpt-6-luna''"
      "fb_cycle_minutes (cx_fallback ?cx) = 60" "cx_payer ?cx = FLEET"
    by (simp_all add: overloaded_ctx_def)
  obtain db1 where one: "submit_batches overloaded_transport 0 hk overloaded_specs ''gpt-6-luna'' eff 1000000 db
      = (ProviderExhausted ''openai'' ?why [''batch_1''] ?rest, db1)"
    using overloaded_first by blast
  have al: "d_alerts db1 = []" using submit_batches_alerts [OF one] assms(1) by simp
  let ?db2 = "db1\<lparr>d_alerts := mark 0 ''openai'' ?why (Some ''gpt-6-luna'') (cx_purpose ?cx) (d_alerts db1)\<rparr>"
  obtain c where c: "commit ?cx ?s [''batch_1''] (length overloaded_specs - length ?rest) = Inr c"
    using commit_no_raise by blast
  obtain ch where ch: "next_for (cx_fallback ?cx) COMP_TASK ''gpt-6-luna'' [''gpt-6-luna'']
       (blocked_providers 0 60 (d_alerts ?db2) @ [''openai'']) = Inr (Some ch)"
      "c_model ch = ''claude-opus-5''"
    using overloaded_next [of ?why "Some ''gpt-6-luna''" "cx_purpose ?cx"] al by auto
  obtain price where price: "per_call (Some COMP_TASK) ''claude-opus-5'' = Inr price"
    using per_call_no_raise by blast
  have free: "refusal_of ?cx x = None" for x
    by (simp add: refusal_of_def check_fleet_budget_eq overloaded_ctx_def sample_ceiling Let_def)
  obtain s' where n: "next_round ?cx ?s (''openai'', ?why) [''batch_1''] ?rest c ?db2 = Again s'"
      and s': "sub_specs s' = ?rest" "sub_model s' = ''claude-opus-5''"
    using ch price free by (simp add: next_round_def Let_def cx)
  have r1: "submit_round ?cx ?s db = (Again s', ?db2)"
    using one c n by (simp add: submit_round_def cx Let_def)
  obtain e db3 where two: "submit_batches overloaded_transport 0 (sub_hook s') ?rest ''claude-opus-5''
      (sub_effort s') 1000000 ?db2 = (SubmitRaised e, db3)"
    using overloaded_second by blast
  have r2: "submit_round ?cx s' ?db2 = (Stop (Inl (Failed_with e)), db3)"
    using two s' by (simp add: submit_round_def cx)
  have "submit_loop ?cx ?s db = (Inl (Failed_with e), db3)"
    using r1 r2 by (simp add: submit_loop.simps [of ?cx ?s db] submit_loop.simps [of ?cx s' ?db2])
  moreover have "d_accepted db3 = [''batch_1'']"
    using submit_batches_accepted [OF one] submit_batches_accepted [OF two] assms(2) by simp
  ultimately show ?thesis by blast
qed



theorem accepted_batches_outlive_a_failing_run_witness:
  "tr_hook_ok (cx_transport overloaded_ctx) ''batch_1''
   \<and> (case run_batched \<lparr>re_paused = False, re_store_ok = True, re_receipts = [],
          re_claim = Some (claim_of overloaded_row)\<rparr>
          overloaded_ctx COMP_TASK True overloaded_specs overloaded_db of
        (result, db') \<Rightarrow> list_all (\<lambda>b. b \<in> set (d_accepted overloaded_db) \<or> named 7 (d_tasks db') b)
          (d_accepted db'))"
proof -
  have ok: "\<forall>b. tr_hook_ok (cx_transport overloaded_ctx) b" and "cx_task overloaded_ctx = 7"
    by (simp_all add: overloaded_ctx_def overloaded_transport_def)
  then show ?thesis
    using accepted_batches_outlive_a_failing_run [OF ok, where re = "\<lparr>re_paused = False,
        re_store_ok = True, re_receipts = [], re_claim = Some (claim_of overloaded_row)\<rparr>"
        and declared = COMP_TASK and allow = True and specs = overloaded_specs and db = overloaded_db]
    by simp
qed

end
