(* ===== verification/Collection.thy ===== *)
theory Collection
  imports Batch_Wire Batching
begin

text \<open>
  Reading a finished batch (\<open>core/batch/collection.py\<close>, \<open>collect\<close> of
  \<open>core/batch/anthropic_batches.py\<close> and \<open>collect_finished_batches\<close> of
  \<open>core/batch/__init__.py\<close>). A result file is the list of its decoded lines. What the
  providers answer to a retrieve and the content of their files are arguments.
\<close>

section \<open>Results\<close>

record BatchResult =
  r_custom_id :: string
  r_text :: "string option"
  r_usage :: "json option"
  r_error :: "string option"
  r_batch_id :: "string option"
  r_model :: "string option"
  r_finish_reason :: "string option"
  r_vectors :: "json list option"

definition BatchResult_of :: "string \<Rightarrow> BatchResult" where
  "BatchResult_of cid =
     \<lparr>r_custom_id = cid, r_text = None, r_usage = None, r_error = None, r_batch_id = None,
      r_model = None, r_finish_reason = None, r_vectors = None\<rparr>"

text \<open>
  \<open>.get\<close> of a decoded object, where a missing key and a null are both \<open>None\<close>; a value that is no
  object has no keys. \<open>py_str\<close> is \<open>str\<close> of a decoded value, without escapes in strings.
\<close>

definition field :: "json \<Rightarrow> string \<Rightarrow> json option" where
  "field v k =
     (case v of
        JObj kvs \<Rightarrow> (case get kvs k of Some JNull \<Rightarrow> None | x \<Rightarrow> x)
      | _ \<Rightarrow> None)"

definition text_field :: "json \<Rightarrow> string \<Rightarrow> string option" where
  "text_field v k = (case field v k of Some (JStr s) \<Rightarrow> Some s | _ \<Rightarrow> None)"

fun py_repr :: "json \<Rightarrow> string" where
  "py_repr JNull = ''None''"
| "py_repr (JBool b) = (if b then ''True'' else ''False'')"
| "py_repr (JNum n) = show_int n"
| "py_repr (JStr s) = quoted s"
| "py_repr (JArr vs) = ''['' @ join '', '' (map py_repr vs) @ '']''"
| "py_repr (JObj kvs) = ''{'' @ join '', '' (map (\<lambda>(k, v). quoted k @ '': '' @ py_repr v) kvs) @ ''}''"

definition py_str :: "json \<Rightarrow> string" where
  "py_str v = (case v of JStr s \<Rightarrow> s | _ \<Rightarrow> py_repr v)"

definition truthy_field :: "json \<Rightarrow> string \<Rightarrow> bool" where
  "truthy_field v k = (case field v k of None \<Rightarrow> False | Some x \<Rightarrow> truthy_json x)"

definition elems :: "json option \<Rightarrow> json list" where
  "elems v = (case v of Some (JArr vs) \<Rightarrow> vs | _ \<Rightarrow> [])"

definition extract_output_text :: "json \<Rightarrow> string option" where
  "extract_output_text body =
     (let texts = concat (map (\<lambda>item.
            if field item ''type'' = Some (JStr ''message'')
            then filter (\<lambda>c. field c ''type'' = Some (JStr ''output_text'')) (elems (field item ''content''))
            else []) (elems (field body ''output''))) in
      case texts of [] \<Rightarrow> None | c # _ \<Rightarrow> text_field c ''text'')"

definition line_error :: "json \<Rightarrow> string option" where
  "line_error obj =
     (if truthy_field obj ''error'' then map_option py_str (field obj ''error'')
      else
        let resp = coalesce (field obj ''response'') (JObj []);
            code = field resp ''status_code'' in
        if code = Some (JNum 200) then None
        else
          let detail = Option.bind (field resp ''body'') (\<lambda>body. field body ''error'');
              message = (case detail of
                           Some (JObj kvs) \<Rightarrow> field (JObj kvs) ''message''
                         | d \<Rightarrow> d) in
          case message of
            Some msg \<Rightarrow>
              if truthy_json msg
              then Some (case code of
                     Some st \<Rightarrow> if truthy_json st then py_str st @ '': '' @ py_str msg else py_str msg
                   | None \<Rightarrow> py_str msg)
              else (case code of Some st \<Rightarrow> if truthy_json st then Some (py_str st) else None
                                 | None \<Rightarrow> None)
          | None \<Rightarrow> (case code of Some st \<Rightarrow> if truthy_json st then Some (py_str st) else None
                                 | None \<Rightarrow> None))"

definition unanswered :: "BatchResult \<Rightarrow> bool" where
  "unanswered r \<longleftrightarrow> r_text r = None \<and> r_vectors r = None"

section \<open>The results of a batch, by custom id\<close>

text \<open>A dictionary of results in insertion order.\<close>

type_synonym results = "(string \<times> BatchResult) list"

fun upd :: "string \<Rightarrow> (BatchResult \<Rightarrow> BatchResult) \<Rightarrow> results \<Rightarrow> results" where
  "upd cid f [] = []"
| "upd cid f ((k, r) # rest) = (if k = cid then (k, f r) # rest else (k, r) # upd cid f rest)"

text \<open>The result a line answers, created when the caller asked for unknown ids: its id and the dictionary.\<close>

definition result_for :: "results \<Rightarrow> string option \<Rightarrow> bool \<Rightarrow> (string \<times> results) option" where
  "result_for results custom_id create_missing =
     (case custom_id of
        None \<Rightarrow> None
      | Some cid \<Rightarrow>
          if map_of results cid \<noteq> None then Some (cid, results)
          else if create_missing \<and> cid \<noteq> '''' then Some (cid, results @ [(cid, BatchResult_of cid)])
          else None)"

text \<open>The vectors in index order, or \<open>None\<close> unless the indices are exactly \<open>0..n-1\<close>.\<close>

definition index_of :: "json \<Rightarrow> int option" where
  "index_of item = (case field item ''index'' of Some (JNum n) \<Rightarrow> Some n | _ \<Rightarrow> None)"

definition ordered_vectors :: "json list \<Rightarrow> json list option" where
  "ordered_vectors data =
     (if data = [] then None
      else if \<not> list_all (\<lambda>item. index_of item \<noteq> None) data then None
      else if set (map (the \<circ> index_of) data) \<noteq> set (map int [0..<length data]) then None
      else
        let vectors = map (\<lambda>item. field item ''embedding'') (sort_key (the \<circ> index_of) data) in
        if list_all (\<lambda>v. case v of Some (JArr _) \<Rightarrow> True | _ \<Rightarrow> False) vectors
        then Some (map the vectors) else None)"

definition token_field :: "json \<Rightarrow> string \<Rightarrow> json" where
  "token_field v k = (case v of JObj kvs \<Rightarrow> coalesce (get kvs k) (JNum 0) | _ \<Rightarrow> JNum 0)"

definition read_embedding :: "json \<Rightarrow> BatchResult \<Rightarrow> BatchResult" where
  "read_embedding body r =
     (let usage = map_option (\<lambda>u. JObj [(''input_tokens'', token_field u ''prompt_tokens''),
                    (''output_tokens'', JNum 0), (''total_tokens'', token_field u ''total_tokens'')])
                    (field body ''usage'');
          vectors = (case ordered_vectors (elems (field body ''data'')) of
                       Some vs \<Rightarrow> Some vs | None \<Rightarrow> r_vectors r) in
      r\<lparr>r_usage := usage, r_vectors := vectors,
        r_error := (if vectors = None then Some ''invalid embedding vector indices'' else r_error r)\<rparr>)"

definition read_response :: "json \<Rightarrow> BatchResult \<Rightarrow> BatchResult" where
  "read_response body r =
     (let txt = extract_output_text body;
          incomplete = coalesce (field body ''incomplete_details'') (JObj []) in
      r\<lparr>r_usage := field body ''usage'', r_text := txt,
        r_finish_reason := (if truthy (text_field incomplete ''reason'')
                            then text_field incomplete ''reason'' else text_field body ''status''),
        r_error := (if txt = None then Some ''no output text'' else r_error r)\<rparr>)"

section \<open>An OpenAI batch\<close>

text \<open>
  A retrieved batch with its files: \<open>None\<close> for a file it does not have, \<open>Inl\<close> for one that cannot
  be read. A failing error file is only logged; a failing output file ends the collection.
\<close>

record openai_batch =
  ob_id :: string
  ob_status :: string
  ob_endpoint :: string
  ob_output :: "(string + json list) option"
  ob_errors_file :: "(string + json list) option"
  ob_messages :: "string list"
  ob_progress :: BatchProgress

definition answer_with ::
  "results \<Rightarrow> json \<Rightarrow> bool \<Rightarrow> (BatchResult \<Rightarrow> BatchResult) \<Rightarrow> results" where
  "answer_with results obj create_missing f =
     (case result_for results (text_field obj ''custom_id'') create_missing of
        None \<Rightarrow> results
      | Some (cid, results') \<Rightarrow> upd cid f results')"

definition output_line :: "bool \<Rightarrow> json \<Rightarrow> BatchResult \<Rightarrow> BatchResult" where
  "output_line embeddings obj r =
     (let resp = coalesce (field obj ''response'') JNull;
          body = coalesce (field resp ''body'') (JObj []) in
      if truthy_field obj ''error'' \<or> \<not> truthy_field obj ''response''
         \<or> field resp ''status_code'' \<noteq> Some (JNum 200)
      then r\<lparr>r_error := Some (if truthy (line_error obj) then the (line_error obj) else ''unknown'')\<rparr>
      else if embeddings then read_embedding body r else read_response body r)"

definition error_line :: "json \<Rightarrow> BatchResult \<Rightarrow> BatchResult" where
  "error_line obj r =
     (if unanswered r
      then r\<lparr>r_error := Some (if truthy (line_error obj) then the (line_error obj) else ''batch error'')\<rparr>
      else r)"

fun read_output :: "bool \<Rightarrow> bool \<Rightarrow> json list \<Rightarrow> results \<Rightarrow> results" where
  "read_output embeddings create_missing [] results = results"
| "read_output embeddings create_missing (obj # objs) results =
     read_output embeddings create_missing objs
       (answer_with results obj create_missing (output_line embeddings obj))"

fun read_errors :: "bool \<Rightarrow> json list \<Rightarrow> results \<Rightarrow> results" where
  "read_errors create_missing [] results = results"
| "read_errors create_missing (obj # objs) results =
     read_errors create_missing objs (answer_with results obj create_missing (error_line obj))"

definition mark_unfinished :: "string \<Rightarrow> BatchResult \<Rightarrow> BatchResult" where
  "mark_unfinished st r =
     (if st \<noteq> ''completed'' \<and> unanswered r \<and> r_error r = None
      then r\<lparr>r_error := Some (''batch '' @ st)\<rparr> else r)"

definition name_batch :: "string \<Rightarrow> BatchResult \<Rightarrow> BatchResult" where
  "name_batch bid r = (if r_batch_id r = None then r\<lparr>r_batch_id := Some bid\<rparr> else r)"

text \<open>\<open>_record_errors\<close>: the batch's own reason onto its results, and the rows stored for it.\<close>

definition blame :: "openai_batch \<Rightarrow> BatchResult \<Rightarrow> BatchResult" where
  "blame b r =
     (if unanswered r \<and> ob_messages b \<noteq> []
         \<and> (r_error r = None \<or> r_error r = Some '''' \<or> r_error r = Some (''batch '' @ ob_status b))
      then r\<lparr>r_error := Some (join ''; '' (ob_messages b))\<rparr> else r)"

definition batch_errors :: "openai_batch \<Rightarrow> results \<Rightarrow> (string \<times> string) list" where
  "batch_errors b results =
     (let errors = map (\<lambda>(cid, r). (cid, the (r_error r)))
            (filter (\<lambda>(_, r). truthy (r_error r) \<and> r_batch_id r = Some (ob_id b)) results) in
      if ob_messages b \<noteq> [] \<and> errors = [] then [('''', join ''; '' (ob_messages b))] else errors)"

definition map_results :: "(BatchResult \<Rightarrow> BatchResult) \<Rightarrow> results \<Rightarrow> results" where
  "map_results f results = map (\<lambda>(k, r). (k, f r)) results"

definition after_output ::
  "openai_batch \<Rightarrow> results \<Rightarrow> bool \<Rightarrow> results \<times> (string \<times> string) list" where
  "after_output b out create_missing =
     (let err = (case ob_errors_file b of
                   Some (Inr lines) \<Rightarrow> read_errors create_missing lines out
                 | _ \<Rightarrow> out);
          named = map_results (name_batch (ob_id b)) (map_results (mark_unfinished (ob_status b)) err);
          blamed = map_results (blame b) named in
      (blamed, batch_errors b blamed))"

definition collect_batch ::
  "openai_batch \<Rightarrow> results \<Rightarrow> bool \<Rightarrow> string + results \<times> (string \<times> string) list" where
  "collect_batch b results create_missing =
     (case ob_output b of
        None \<Rightarrow> Inr (after_output b results create_missing)
      | Some (Inl e) \<Rightarrow> Inl e
      | Some (Inr lines) \<Rightarrow>
          Inr (after_output b (read_output (ob_endpoint b = EMBEDDINGS) create_missing lines results)
                 create_missing))"


section \<open>An Anthropic batch\<close>

record message_usage =
  mu_input :: "int option"
  mu_output :: "int option"
  mu_cache_read :: "int option"
  mu_cache_creation :: "int option"

datatype message_outcome =
    Succeeded message_usage "string option" "string list"
  | Unsuccessful string "string option" "string option"

record message_line =
  ml_custom_id :: string
  ml_outcome :: message_outcome

record message_batch =
  mb_id :: string
  mb_processing_status :: string
  mb_lines :: "string + message_line list"
  mb_succeeded :: int
  mb_errored :: int
  mb_canceled :: int
  mb_expired :: int
  mb_processing :: int

definition BATCH_ID_PREFIX :: string where "BATCH_ID_PREFIX = ''msgbatch_''"

definition holds :: "string \<Rightarrow> bool" where
  "holds bid = starts_with BATCH_ID_PREFIX bid"

definition anthropic_status :: "message_batch \<Rightarrow> string" where
  "anthropic_status b =
     (if mb_processing_status b = ''ended'' then ''completed''
      else if mb_processing_status b = ''canceling'' then ''cancelling''
      else ''in_progress'')"

definition anthropic_progress :: "message_batch \<Rightarrow> BatchProgress" where
  "anthropic_progress b =
     \<lparr>p_status = anthropic_status b,
      p_total = mb_processing b + mb_succeeded b + mb_errored b + mb_canceled b + mb_expired b,
      p_completed = mb_succeeded b,
      p_failed = mb_errored b + mb_canceled b + mb_expired b\<rparr>"

definition receipt_usage :: "message_usage \<Rightarrow> json" where
  "receipt_usage u =
     (let read = coalesce (mu_cache_read u) 0;
          written = coalesce (mu_cache_creation u) 0;
          prompt = coalesce (mu_input u) 0 + read + written in
      JObj [(''input_tokens'', JNum prompt),
            (''output_tokens'', JNum (coalesce (mu_output u) 0)),
            (''total_tokens'', JNum (prompt + coalesce (mu_output u) 0)),
            (''input_tokens_details'',
             JObj [(''cached_tokens'', JNum read), (''cache_write_tokens'', JNum written)])])"

definition read_message :: "message_outcome \<Rightarrow> BatchResult \<Rightarrow> BatchResult" where
  "read_message outcome r =
     (case outcome of
        Unsuccessful typ knd msg \<Rightarrow>
          r\<lparr>r_error := Some
              (let said = (if truthy knd \<and> truthy msg then Some (the knd @ '': '' @ the msg)
                           else msg) in
               if truthy said then the said else ''request '' @ typ)\<rparr>
      | Succeeded usage stop texts \<Rightarrow>
          (let txt = (if texts = [] then None else Some (concat texts)) in
           r\<lparr>r_usage := Some (receipt_usage usage), r_finish_reason := stop, r_text := txt,
             r_error := (if txt = None then Some ''no output text'' else r_error r)\<rparr>))"

text \<open>
  \<open>known\<close> maps the id a request was sent under to the caller's id. A line of no known request
  is kept under the sent id with an error.
\<close>

fun read_messages ::
  "(string \<times> string) list \<Rightarrow> bool \<Rightarrow> message_line list \<Rightarrow> results \<Rightarrow> results" where
  "read_messages known create_missing [] results = results"
| "read_messages known create_missing (line # lines) results =
     read_messages known create_missing lines
       (let custom_id = map_of known (ml_custom_id line);
            name = (if truthy custom_id then the custom_id else ml_custom_id line);
            found = truthy custom_id \<and> map_of results (the custom_id) \<noteq> None;
            results' = (if map_of results name = None then results @ [(name, BatchResult_of name)]
                        else results) in
        if found then upd name (read_message (ml_outcome line)) results
        else if \<not> create_missing then results
        else if custom_id = None
        then upd name (\<lambda>r. r\<lparr>r_error := Some ''result names no submitted request''\<rparr>) results'
        else upd name (read_message (ml_outcome line)) results')"

definition anthropic_collect ::
  "message_batch \<Rightarrow> message_line list \<Rightarrow> results \<Rightarrow> (string \<times> string) list \<Rightarrow> bool
   \<Rightarrow> results \<times> (string \<times> string) list" where
  "anthropic_collect b lines results known create_missing =
     (let named = map_results (name_batch (mb_id b)) (read_messages known create_missing lines results) in
      (named, map (\<lambda>(cid, r). (cid, the (r_error r)))
         (filter (\<lambda>(_, r). truthy (r_error r) \<and> r_batch_id r = Some (mb_id b)) named)))"

section \<open>Every finished batch of a task\<close>

text \<open>
  What the two providers answer for an id, and which of them this host holds a key for.
  \<open>sent_under\<close> is the map of sent ids of a batch's stored requests.
\<close>

record providers_view =
  pv_openai :: bool
  pv_anthropic :: bool
  pv_openai_batch :: "string \<Rightarrow> string + openai_batch"
  pv_message_batch :: "string \<Rightarrow> string + message_batch"
  pv_sent_under :: "string \<Rightarrow> (string \<times> string) list"

record collected =
  co_results :: "BatchResult list"
  co_unfinished :: "string list"
  co_errors :: "(string \<times> (string \<times> string) list) list"

definition progress_counts :: "BatchProgress \<Rightarrow> event_counts" where
  "progress_counts p =
     \<lparr>n_requests = p_total p, n_completed = p_completed p, n_failed = p_failed p, n_est_tokens = 0\<rparr>"

text \<open>What becomes of one id, and what the hook is told.\<close>

datatype got =
    Finished results "(string \<times> string) list"
  | Unfinished
  | Broke string

definition collect_message :: "providers_view \<Rightarrow> string \<Rightarrow> got \<times> BatchProgress option" where
  "collect_message pv bid =
     (case pv_message_batch pv bid of
        Inl _ \<Rightarrow> (Unfinished, None)
      | Inr b \<Rightarrow>
          (if mb_processing_status b \<noteq> ''ended'' then Unfinished
           else case mb_lines b of
             Inl _ \<Rightarrow> Unfinished
           | Inr lines \<Rightarrow>
               (case anthropic_collect b lines [] (pv_sent_under pv bid) True of
                  (rs, errors) \<Rightarrow> Finished rs errors),
           Some (anthropic_progress b)))"

definition collect_openai :: "providers_view \<Rightarrow> string \<Rightarrow> got \<times> BatchProgress option" where
  "collect_openai pv bid =
     (case pv_openai_batch pv bid of
        Inl _ \<Rightarrow> (Unfinished, None)
      | Inr b \<Rightarrow>
          (if \<not> is_terminal (ob_status b) then Unfinished
           else case collect_batch b [] True of
             Inl e \<Rightarrow> Broke e
           | Inr (rs, errors) \<Rightarrow> Finished rs errors,
           Some (ob_progress b)))"

fun collect_each ::
  "(string \<Rightarrow> got \<times> BatchProgress option) \<Rightarrow> instant \<Rightarrow> batch_hook \<Rightarrow> string list
   \<Rightarrow> collected \<Rightarrow> Task list \<times> AiBatch list \<Rightarrow> (string + collected) \<times> (Task list \<times> AiBatch list)" where
  "collect_each one now hk [] acc db = (Inr acc, db)"
| "collect_each one now hk (bid # bids) acc db =
     (case one bid of (what, heard) \<Rightarrow>
      let db1 = (case heard of
                   None \<Rightarrow> db
                 | Some p \<Rightarrow> on_event now hk bid (p_status p) (progress_counts p) db) in
      case what of
        Broke e \<Rightarrow> (Inl e, db1)
      | Unfinished \<Rightarrow>
          collect_each one now hk bids (acc\<lparr>co_unfinished := co_unfinished acc @ [bid]\<rparr>) db1
      | Finished rs errors \<Rightarrow>
          collect_each one now hk bids
            (acc\<lparr>co_results := co_results acc @ map snd rs,
                 co_errors := co_errors acc @ (if errors = [] then [] else [(bid, errors)])\<rparr>) db1)"

definition collect_finished_batches ::
  "providers_view \<Rightarrow> instant \<Rightarrow> batch_hook \<Rightarrow> string list \<Rightarrow> Task list \<times> AiBatch list
   \<Rightarrow> (string + collected) \<times> (Task list \<times> AiBatch list)" where
  "collect_finished_batches pv now hk ids db =
     (let theirs = filter holds ids; ours = filter (\<lambda>b. \<not> holds b) ids;
          empty = \<lparr>co_results = [], co_unfinished = [], co_errors = []\<rparr> in
      case (if pv_anthropic pv then collect_each (collect_message pv) now hk theirs empty db
            else (Inr (empty\<lparr>co_unfinished := theirs\<rparr>), db)) of
        (Inl e, db1) \<Rightarrow> (Inl e, db1)
      | (Inr acc, db1) \<Rightarrow>
          if pv_openai pv then collect_each (collect_openai pv) now hk ours acc db1
          else (Inr (acc\<lparr>co_unfinished := co_unfinished acc @ ours\<rparr>), db1))"


section \<open>What a collected batch gives\<close>

text \<open>A result under its own id, of the batch \<open>bid\<close>, that was answered or says why not.\<close>

definition told :: "string option \<Rightarrow> string \<times> BatchResult \<Rightarrow> bool" where
  "told bid item \<longleftrightarrow>
     (case item of (k, r) \<Rightarrow>
        r_custom_id r = k \<and> r_batch_id r = bid \<and> (unanswered r \<longrightarrow> r_error r \<noteq> None))"

text \<open>A change of a result that leaves its identity and settles it.\<close>

definition settles :: "(BatchResult \<Rightarrow> BatchResult) \<Rightarrow> bool" where
  "settles f \<longleftrightarrow>
     (\<forall>r. r_custom_id (f r) = r_custom_id r \<and> r_batch_id (f r) = r_batch_id r
        \<and> (unanswered (f r) \<longrightarrow> r_error (f r) \<noteq> None))"

lemma upd_fst [simp]: "map fst (upd cid f results) = map fst results"
  by (induction cid f results rule: upd.induct) auto

lemma told_upd:
  "settles f \<Longrightarrow> list_all (told bid) results \<Longrightarrow> list_all (told bid) (upd cid f results)"
  by (induction cid f results rule: upd.induct) (auto simp: told_def settles_def)

lemma told_upd_new:
  assumes "settles f" "map_of results cid = None"
  shows "list_all (told None) results
    \<Longrightarrow> list_all (told None) (upd cid f (results @ [(cid, BatchResult_of cid)]))"
  using assms
  by (induction results) (auto simp: told_def settles_def BatchResult_of_def split: if_splits)

lemma told_answer_with:
  assumes "list_all (told None) results \<and> distinct (map fst results)" "settles f"
  shows "list_all (told None) (answer_with results obj create f)
    \<and> distinct (map fst (answer_with results obj create f))"
  using assms told_upd told_upd_new
  by (auto simp: answer_with_def result_for_def map_of_eq_None_iff split: option.split)

lemma settles_lines:
  "settles (output_line emb obj)" "settles (error_line obj)" "settles (read_message outcome)"
  "settles (\<lambda>r. r\<lparr>r_error := Some why\<rparr>)"
  by (auto simp: settles_def unanswered_def output_line_def read_embedding_def read_response_def
      error_line_def read_message_def Let_def split: message_outcome.split)

lemma told_read_output:
  "list_all (told None) results \<and> distinct (map fst results)
   \<Longrightarrow> list_all (told None) (read_output emb create lines results)
     \<and> distinct (map fst (read_output emb create lines results))"
proof (induction emb create lines results rule: read_output.induct)
  case (2 emb create obj objs results)
  then show ?case using told_answer_with [OF "2.prems" settles_lines(1)] by simp
qed simp

lemma told_read_errors:
  "list_all (told None) results \<and> distinct (map fst results)
   \<Longrightarrow> list_all (told None) (read_errors create lines results)
     \<and> distinct (map fst (read_errors create lines results))"
proof (induction create lines results rule: read_errors.induct)
  case (2 create obj objs results)
  then show ?case using told_answer_with [OF "2.prems" settles_lines(2)] by simp
qed simp

lemma told_read_messages:
  "list_all (told None) results \<and> distinct (map fst results)
   \<Longrightarrow> list_all (told None) (read_messages known create lines results)
     \<and> distinct (map fst (read_messages known create lines results))"
proof (induction known create lines results rule: read_messages.induct)
  case (2 known create line lines results)
  let ?name = "if truthy (map_of known (ml_custom_id line)) then the (map_of known (ml_custom_id line))
      else ml_custom_id line"
  have upd: "list_all (told None) (upd ?name f (if map_of results ?name = None
        then results @ [(?name, BatchResult_of ?name)] else results))
      \<and> distinct (map fst (upd ?name f (if map_of results ?name = None
        then results @ [(?name, BatchResult_of ?name)] else results)))" if "settles f" for f
    using "2.prems" that told_upd told_upd_new by (auto simp: map_of_eq_None_iff)
  have found: "list_all (told None) (upd ?name (read_message (ml_outcome line)) results)"
    using "2.prems" told_upd settles_lines(3) by blast
  show ?case
    unfolding read_messages.simps
    by (rule "2.IH") (use upd settles_lines found "2.prems" in \<open>auto simp: Let_def\<close>)
qed simp

lemma fst_map_results [simp]: "map fst (map_results f results) = map fst results"
  by (induction results) (auto simp: map_results_def)

lemma told_map_results:
  assumes "\<And>k r. told a (k, r) \<Longrightarrow> told b (k, f r)"
  shows "list_all (told a) results \<Longrightarrow> list_all (told b) (map_results f results)"
  using assms by (induction results) (auto simp: map_results_def)

lemma told_named:
  "list_all (told None) results \<Longrightarrow> list_all (told (Some bid)) (map_results (name_batch bid) results)"
  by (rule told_map_results) (auto simp: told_def unanswered_def name_batch_def)

lemma told_marked:
  "list_all (told bid) results \<Longrightarrow> list_all (told bid) (map_results (mark_unfinished st) results)"
  by (rule told_map_results) (auto simp: told_def unanswered_def mark_unfinished_def)

lemma told_blame: "list_all (told bid) results \<Longrightarrow> list_all (told bid) (map_results (blame b) results)"
  by (rule told_map_results) (auto simp: told_def unanswered_def blame_def)

lemma told_after_output:
  assumes "list_all (told None) out \<and> distinct (map fst out)" "after_output b out create = (rs, errors)"
  shows "list_all (told (Some (ob_id b))) rs \<and> distinct (map fst rs)"
  using assms told_read_errors [OF assms(1)]
  by (auto simp: after_output_def Let_def told_named told_marked told_blame split: option.splits sum.splits)

text \<open>
  Collecting a finished batch leaves no request in doubt. Every result either vendor's
  reader gives is filed once under its own custom id, names the batch it came from, and holds an
  answer or an error, whichever of the result lines, the error file, the batch's own reason or
  its status supplied it. Only an OpenAI output file that cannot be read gives none.
\<close>

theorem collected_results_are_settled:
  "(case collect_batch b [] True of
      Inl e \<Rightarrow> ob_output b = Some (Inl e)
    | Inr (rs, errors) \<Rightarrow> list_all (told (Some (ob_id b))) rs \<and> distinct (map fst rs))
   \<and> (case anthropic_collect mb lines [] known True of
        (rs, errors) \<Rightarrow> list_all (told (Some (mb_id mb))) rs \<and> distinct (map fst rs))"
proof
  have start: "list_all (told None) [] \<and> distinct (map fst ([] :: results))" by simp
  note out = told_read_output [OF start]
  show "case collect_batch b [] True of
      Inl e \<Rightarrow> ob_output b = Some (Inl e)
    | Inr (rs, errors) \<Rightarrow> list_all (told (Some (ob_id b))) rs \<and> distinct (map fst rs)"
    using told_after_output [OF start] told_after_output [OF out]
    by (auto simp: collect_batch_def split: option.split sum.split prod.split)
  show "case anthropic_collect mb lines [] known True of
        (rs, errors) \<Rightarrow> list_all (told (Some (mb_id mb))) rs \<and> distinct (map fst rs)"
    using told_read_messages [OF start, of known True lines]
    by (simp add: anthropic_collect_def Let_def told_named)
qed

section \<open>What is left unfinished\<close>

definition results_of :: "got \<Rightarrow> BatchResult list" where
  "results_of what = (case what of Finished rs _ \<Rightarrow> map snd rs | _ \<Rightarrow> [])"

lemma collect_each_Inr:
  assumes "collect_each one now hk bids acc db = (Inr co, db')"
  shows "co_unfinished co = co_unfinished acc @ filter (\<lambda>b. fst (one b) = Unfinished) bids
    \<and> co_results co = co_results acc @ concat (map (results_of \<circ> fst \<circ> one) bids)"
  using assms
  by (induction one now hk bids acc db rule: collect_each.induct)
    (auto simp: Let_def results_of_def split: prod.splits got.splits)

end
