(* ===== verification/Receipts.thy ===== *)
theory Receipts
  imports Collection Fallback Fleet_Spend
begin

text \<open>
  What a task keeps of a collected batch: the receipts of its results, the calls they are billed
  as, and their consumption (\<open>api/ai/batch_results.py\<close>, \<open>api/model_calls.py\<close>, and
  \<open>collect_pending\<close> of \<open>tasks/runtime/batching.py\<close>). The payload store is an argument that
  answers or does not; a vector object reads back as it was written.
\<close>

section \<open>Receipts\<close>

record receipt =
  rc_batch_id :: string
  rc_custom_id :: string
  rc_task_id :: int
  rc_text :: "string option"
  rc_usage :: "json option"
  rc_error :: "string option"
  rc_finish_reason :: "string option"
  rc_vectors :: "json list option"
  rc_model :: "string option"
  rc_outcome :: "string option"
  rc_consumed_at :: "instant option"

definition receipt_of :: "int \<Rightarrow> BatchResult \<Rightarrow> receipt" where
  "receipt_of i r =
     \<lparr>rc_batch_id = coalesce (r_batch_id r) '''', rc_custom_id = r_custom_id r, rc_task_id = i,
      rc_text = r_text r, rc_usage = r_usage r, rc_error = r_error r,
      rc_finish_reason = r_finish_reason r, rc_vectors = r_vectors r, rc_model = r_model r,
      rc_outcome = None, rc_consumed_at = None\<rparr>"

definition receipt_key :: "receipt \<Rightarrow> string \<times> string" where
  "receipt_key rc = (rc_batch_id rc, rc_custom_id rc)"

definition receipt_at :: "receipt list \<Rightarrow> string \<times> string \<Rightarrow> receipt option" where
  "receipt_at receipts key = find (\<lambda>rc. receipt_key rc = key) receipts"

definition result_key :: "BatchResult \<Rightarrow> string \<times> string" where
  "result_key r = (coalesce (r_batch_id r) '''', r_custom_id r)"

section \<open>Billed calls\<close>

record Call =
  ca_purpose :: string
  ca_model :: "string option"
  ca_payer :: string
  ca_user_id :: "int option"
  ca_managed_board_id :: "int option"
  ca_key_source :: string
  ca_task_id :: "int option"
  ca_batch_id :: "string option"
  ca_custom_id :: "string option"
  ca_prompt :: int
  ca_completion :: int
  ca_total :: int
  ca_cached :: int
  ca_cache_write :: "int option"
  ca_reasoning :: int
  ca_cost :: "rat option"
  ca_created_at :: instant

record usage_tuple =
  ut_prompt :: int
  ut_completion :: int
  ut_total :: int
  ut_cached :: int
  ut_cache_write :: "int option"
  ut_reasoning :: int

definition number :: "json option \<Rightarrow> int" where
  "number v = (case v of Some (JNum n) \<Rightarrow> n | _ \<Rightarrow> 0)"

definition batch_usage :: "json \<Rightarrow> usage_tuple option" where
  "batch_usage usage =
     (if \<not> truthy_json usage then None
      else
        let details = coalesce (field usage ''input_tokens_details'') (JObj []);
            prompt = number (field usage ''input_tokens'');
            completion = number (field usage ''output_tokens'');
            total = number (field usage ''total_tokens'') in
        Some \<lparr>ut_prompt = prompt, ut_completion = completion,
              ut_total = (if total \<noteq> 0 then total else prompt + completion),
              ut_cached = number (field details ''cached_tokens''),
              ut_cache_write = (case field details ''cache_write_tokens'' of
                                  Some (JNum n) \<Rightarrow> Some n | _ \<Rightarrow> None),
              ut_reasoning = number (field (coalesce (field usage ''output_tokens_details'') (JObj []))
                               ''reasoning_tokens'')\<rparr>)"

text \<open>
  The row of one batch item, or \<open>None\<close> when its provider reported no tokens or its batch has no
  payer; pricing does not raise (lemma \<open>estimate_no_raise\<close>).
\<close>

definition call_row :: "instant \<Rightarrow> AiBatch \<Rightarrow> BatchResult \<Rightarrow> usage_tuple \<Rightarrow> Call result" where
  "call_row now b r u =
     and_then (estimate_cost_usd (b_model b) (Some (ut_prompt u)) (Some (ut_completion u))
                 (Some (ut_cached u)) True None (Receipt (ut_cache_write u)))
       (\<lambda>cost. Inr
         \<lparr>ca_purpose = b_purpose b, ca_model = b_model b, ca_payer =
            (if b_payer b = Some ''user'' \<and> b_payer_id b \<noteq> None then ''user''
             else if b_payer b = Some ''managed_board'' \<and> b_payer_id b \<noteq> None then ''managed_board''
             else ''fleet''),
          ca_user_id = (if b_payer b = Some ''user'' then b_payer_id b else None),
          ca_managed_board_id = (if b_payer b = Some ''managed_board'' then b_payer_id b else None),
          ca_key_source =
            (if (b_payer b = Some ''user'' \<or> b_payer b = Some ''managed_board'') \<and> b_payer_id b \<noteq> None
             then ''owner'' else ''server''),
          ca_task_id = Some (b_task_id b), ca_batch_id = r_batch_id r,
          ca_custom_id = Some (r_custom_id r),
          ca_prompt = ut_prompt u, ca_completion = ut_completion u, ca_total = ut_total u,
          ca_cached = ut_cached u, ca_cache_write = ut_cache_write u,
          ca_reasoning = ut_reasoning u, ca_cost = cost, ca_created_at = now\<rparr>)"

definition paying_batch :: "AiBatch list \<Rightarrow> string \<Rightarrow> AiBatch option" where
  "paying_batch ledger bid =
     find (\<lambda>b. provider_batch_id b = bid \<and> b_payer b \<noteq> None) ledger"

text \<open>\<open>ON CONFLICT (provider_batch_id, custom_id) DO NOTHING\<close>; a NULL key never conflicts.\<close>

definition insert_call :: "Call \<Rightarrow> Call list \<Rightarrow> Call list" where
  "insert_call c calls =
     (if ca_batch_id c \<noteq> None \<and> ca_custom_id c \<noteq> None
         \<and> (\<exists>d \<in> set calls. ca_batch_id d = ca_batch_id c \<and> ca_custom_id d = ca_custom_id c)
      then calls else calls @ [c])"

definition item_call :: "instant \<Rightarrow> AiBatch list \<Rightarrow> BatchResult \<Rightarrow> Call option result" where
  "item_call now ledger r =
     (case (r_batch_id r, r_usage r) of
        (Some bid, Some usage) \<Rightarrow>
          (case (paying_batch ledger bid, batch_usage usage) of
             (Some b, Some u) \<Rightarrow>
               if bid = '''' \<or> ut_total u = 0 then Inr None
               else and_then (call_row now b r u) (\<lambda>c. Inr (Some c))
           | _ \<Rightarrow> Inr None)
      | _ \<Rightarrow> Inr None)"

fun record_batch_items ::
  "instant \<Rightarrow> AiBatch list \<Rightarrow> BatchResult list \<Rightarrow> Call list \<Rightarrow> Call list result" where
  "record_batch_items now ledger [] calls = Inr calls"
| "record_batch_items now ledger (r # rs) calls =
     and_then (item_call now ledger r)
       (\<lambda>row. record_batch_items now ledger rs
          (case row of None \<Rightarrow> calls | Some c \<Rightarrow> insert_call c calls))"

text \<open>A call as the fleet's weekly sum reads it.\<close>

definition as_model_call :: "Call \<Rightarrow> ModelCall" where
  "as_model_call c =
     \<lparr>mc_user_id = ca_user_id c, mc_cost_usd = ca_cost c, mc_created_at = ca_created_at c\<rparr>"

section \<open>The checkpoint\<close>

record collect_db =
  k_tasks :: "Task list"
  k_ledger :: "AiBatch list"
  k_receipts :: "receipt list"
  k_calls :: "Call list"
  k_alerts :: "HealthAlert list"

datatype checkpoint_error = Bad_result py_error | Store_unavailable

text \<open>The receipts of a transaction, one insert and ownership check per result.\<close>

fun store_receipts :: "int \<Rightarrow> BatchResult list \<Rightarrow> receipt list \<Rightarrow> receipt list result" where
  "store_receipts i [] receipts = Inr receipts"
| "store_receipts i (r # rs) receipts =
     (let receipts' = (case receipt_at receipts (result_key r) of
                         None \<Rightarrow> receipts @ [receipt_of i r]
                       | Some _ \<Rightarrow> receipts) in
      case receipt_at receipts' (result_key r) of
        None \<Rightarrow> Inl (ValueError ''batch result receipt belongs to another task'')
      | Some rc \<Rightarrow>
          if rc_task_id rc \<noteq> i
          then Inl (ValueError ''batch result receipt belongs to another task'')
          else store_receipts i rs receipts')"

definition checkpoint_results ::
  "instant \<Rightarrow> bool \<Rightarrow> int \<Rightarrow> BatchResult list \<Rightarrow> string list \<Rightarrow> collect_db
   \<Rightarrow> checkpoint_error + collect_db" where
  "checkpoint_results now store_ok i results unfinished db =
     (if \<exists>r \<in> set results. \<not> truthy (r_batch_id r)
      then Inl (Bad_result (ValueError ''a collected result must identify its provider batch''))
      else if (\<exists>r \<in> set results. r_vectors r \<noteq> None) \<and> \<not> store_ok then Inl Store_unavailable
      else case store_receipts i results (k_receipts db) of
        Inl e \<Rightarrow> Inl (Bad_result e)
      | Inr receipts \<Rightarrow>
          (case record_batch_items now (k_ledger db) results (k_calls db) of
             Inl e \<Rightarrow> Inl (Bad_result e)
           | Inr calls \<Rightarrow> Inr (db\<lparr>k_receipts := receipts, k_calls := calls,
               k_tasks := merge_payload i (collected_data unfinished) [] (k_tasks db)\<rparr>)))"

definition unconsumed :: "int \<Rightarrow> receipt list \<Rightarrow> receipt list" where
  "unconsumed i receipts =
     sort_key receipt_key (filter (\<lambda>rc. rc_task_id rc = i \<and> rc_consumed_at rc = None) receipts)"

section \<open>Collecting what a task waits on\<close>

fun mark_exhausted_results ::
  "instant \<Rightarrow> string list \<Rightarrow> BatchResult list \<Rightarrow> HealthAlert list \<Rightarrow> HealthAlert list" where
  "mark_exhausted_results now seen [] alerts = alerts"
| "mark_exhausted_results now seen (r # rs) alerts =
     (case (r_error r, provider_of (r_model r)) of
        (Some err, Some prov) \<Rightarrow>
          if err = '''' \<or> prov \<in> set seen then mark_exhausted_results now seen rs alerts
          else
            (case exhaustion_reason (Some prov) \<lparr>pe_text = err, pe_code = None, pe_body = None\<rparr> of
               Some reason \<Rightarrow>
                 if reason = '''' then mark_exhausted_results now seen rs alerts
                 else mark_exhausted_results now (prov # seen) rs
                        (mark now prov reason (r_model r) None alerts)
             | None \<Rightarrow> mark_exhausted_results now seen rs alerts)
      | _ \<Rightarrow> mark_exhausted_results now seen rs alerts)"

datatype collect_error = Output_unreadable string | Not_checkpointed checkpoint_error

definition collect_pending ::
  "providers_view \<Rightarrow> instant \<Rightarrow> bool \<Rightarrow> batch_hook \<Rightarrow> int \<Rightarrow> collect_db
   \<Rightarrow> (collect_error + receipt list) \<times> collect_db" where
  "collect_pending pv now store_ok hk i db =
     (let existing = pending_batch_ids i (k_tasks db) in
      if existing = [] then (Inr (unconsumed i (k_receipts db)), db)
      else
        let metadata = batch_metadata i existing (k_ledger db) in
        case collect_finished_batches pv now hk existing (k_tasks db, k_ledger db) of
          (Inl e, (tbl, ledger)) \<Rightarrow>
            (Inl (Output_unreadable e), db\<lparr>k_tasks := tbl, k_ledger := ledger\<rparr>)
        | (Inr co, (tbl, ledger)) \<Rightarrow>
            let db1 = db\<lparr>k_tasks := tbl, k_ledger := ledger\<rparr>;
                results = map (\<lambda>r. r\<lparr>r_model := (case r_batch_id r of
                                 None \<Rightarrow> None
                               | Some bid \<Rightarrow> Option.bind (map_of metadata bid) id)\<rparr>) (co_results co) in
            case checkpoint_results now store_ok i results (co_unfinished co) db1 of
              Inl e \<Rightarrow> (Inl (Not_checkpointed e), db1)
            | Inr db2 \<Rightarrow>
                let db3 = db2\<lparr>k_alerts := mark_exhausted_results now [] results (k_alerts db2)\<rparr> in
                (Inr (unconsumed i (k_receipts db3)), db3))"

section \<open>Consuming a result\<close>

text \<open>
  \<open>consume_result\<close>: the handler's writes between the two statements run only when the receipt
  is pending; \<open>outcome\<close> is what it says of them.
\<close>

definition consume_result ::
  "instant \<Rightarrow> int \<Rightarrow> string \<times> string \<Rightarrow> string \<Rightarrow> receipt list \<Rightarrow> (bool \<times> receipt list) result" where
  "consume_result now i key said receipts =
     (case find (\<lambda>rc. receipt_key rc = key \<and> rc_task_id rc = i) receipts of
        None \<Rightarrow> Inl (RuntimeError ''result must be checkpointed before consumption'')
      | Some rc \<Rightarrow>
          if rc_outcome rc = None
          then Inr (True, update_where (\<lambda>x. receipt_key x = key \<and> rc_task_id x = i)
                      (\<lambda>x. x\<lparr>rc_outcome := Some said, rc_consumed_at := Some now\<rparr>) receipts)
          else Inr (False, receipts))"


section \<open>Receipts before ids\<close>

lemma receipt_at_append:
  "receipt_at (xs @ ys) key = (case receipt_at xs key of None \<Rightarrow> receipt_at ys key | Some rc \<Rightarrow> Some rc)"
  by (induction xs) (auto simp: receipt_at_def)

lemma receipt_at_new [simp]: "receipt_at [receipt_of i r] (result_key r) = Some (receipt_of i r)"
  by (simp add: receipt_at_def receipt_key_def result_key_def receipt_of_def)

definition has_receipt :: "int \<Rightarrow> receipt list \<Rightarrow> BatchResult \<Rightarrow> bool" where
  "has_receipt i receipts r \<longleftrightarrow>
     (case receipt_at receipts (result_key r) of None \<Rightarrow> False | Some rc \<Rightarrow> rc_task_id rc = i)"

lemma has_receipt_append: "has_receipt i receipts r \<Longrightarrow> has_receipt i (receipts @ later) r"
  by (auto simp: has_receipt_def receipt_at_append split: option.splits)

lemma store_receipts_Inr:
  assumes "store_receipts i rs receipts = Inr receipts'"
  shows "(\<exists>new. receipts' = receipts @ new) \<and> list_all (has_receipt i receipts') rs"
  using assms
proof (induction i rs receipts rule: store_receipts.induct)
  case (2 i r rs receipts)
  let ?r = "case receipt_at receipts (result_key r) of None \<Rightarrow> receipts @ [receipt_of i r] | Some _ \<Rightarrow> receipts"
  have now: "has_receipt i ?r r" and rest: "store_receipts i rs ?r = Inr receipts'"
    using "2.prems" by (auto simp: Let_def has_receipt_def split: option.splits if_splits)
  obtain new where new: "receipts' = ?r @ new" "list_all (has_receipt i receipts') rs"
    using "2.IH" [OF refl _ _ rest] "2.prems" by (auto simp: Let_def split: option.splits if_splits)
  then show ?case using has_receipt_append [OF now] by (auto split: option.splits)
qed simp

lemma row_update:
  assumes "\<And>t. tid (f t) = tid t"
  shows "row (update_where (\<lambda>t. tid t = j) f tbl) i
    = map_option (\<lambda>t. if tid t = j then f t else t) (row tbl i)"
  using assms by (induction tbl) (auto simp: row_def update_where_def)

lemma pending_merge:
  assumes "row tbl i \<noteq> None"
  shows "pending_batch_ids i (merge_payload i (collected_data u) [] tbl) = u"
proof -
  obtain t where t: "row tbl i = Some t" "tid t = i"
    using assms by (auto simp: row_def find_Some_iff)
  have "strings (payload (merge_payload_row (collected_data u) [] t)) ''batch_ids'' = u"
    by (simp add: merge_payload_row_def strings_merge_strs collected_data_def get_def)
  then show ?thesis
    using t by (simp add: pending_batch_ids_def merge_payload_def row_update merge_payload_row_def)
qed

lemma row_on_event:
  "on_event now hk bid st n (tbl, ledger) = (tbl', ledger') \<Longrightarrow> row tbl' i = None \<longleftrightarrow> row tbl i = None"
  by (auto simp: on_event_def record_batch_ids_def row_update record_batch_ids_row_def)

lemma row_collect_each:
  "collect_each one now hk bids acc db = (r, db') \<Longrightarrow> row (fst db') i = None \<longleftrightarrow> row (fst db) i = None"
proof (induction one now hk bids acc db rule: collect_each.induct)
  case (2 one now hk bid bids acc db)
  obtain what heard where one: "one bid = (what, heard)" by fastforce
  let ?db1 = "case heard of None \<Rightarrow> db | Some p \<Rightarrow> on_event now hk bid (p_status p) (progress_counts p) db"
  have "row (fst ?db1) i = None \<longleftrightarrow> row (fst db) i = None"
    using row_on_event [of now hk bid _ _ "fst db" "snd db"] by (auto split: option.split) (metis prod.collapse)+
  then show ?case
    using 2 one by (cases what) (auto simp: Let_def)
qed simp

text \<open>What the providers give for one id of the task.\<close>

definition got_of :: "providers_view \<Rightarrow> string \<Rightarrow> got" where
  "got_of pv bid =
     (if holds bid then if pv_anthropic pv then fst (collect_message pv bid) else Unfinished
      else if pv_openai pv then fst (collect_openai pv bid) else Unfinished)"

text \<open>A provider without a key leaves every id unfinished.\<close>

lemma collect_each_unkeyed:
  "collect_each (\<lambda>_. (Unfinished, None)) now hk bids acc db
   = (Inr (acc\<lparr>co_unfinished := co_unfinished acc @ bids\<rparr>), db)"
  by (induction bids arbitrary: acc) auto

definition one_message :: "providers_view \<Rightarrow> string \<Rightarrow> got \<times> BatchProgress option" where
  "one_message pv bid = (if pv_anthropic pv then collect_message pv bid else (Unfinished, None))"

definition one_openai :: "providers_view \<Rightarrow> string \<Rightarrow> got \<times> BatchProgress option" where
  "one_openai pv bid = (if pv_openai pv then collect_openai pv bid else (Unfinished, None))"

lemma one_eq:
  "one_message pv = (if pv_anthropic pv then collect_message pv else (\<lambda>_. (Unfinished, None)))"
  "one_openai pv = (if pv_openai pv then collect_openai pv else (\<lambda>_. (Unfinished, None)))"
  by (auto simp: one_message_def one_openai_def)

lemma got_of_eq: "got_of pv b = (if holds b then fst (one_message pv b) else fst (one_openai pv b))"
  by (simp add: got_of_def one_message_def one_openai_def)

lemma collect_finished_eq:
  "collect_finished_batches pv now hk ids db =
     (case collect_each (one_message pv) now hk (filter holds ids)
             \<lparr>co_results = [], co_unfinished = [], co_errors = []\<rparr> db of
        (Inl e, db1) \<Rightarrow> (Inl e, db1)
      | (Inr acc, db1) \<Rightarrow> collect_each (one_openai pv) now hk (filter (\<lambda>b. \<not> holds b) ids) acc db1)"
  unfolding one_eq
  by (cases "pv_anthropic pv"; cases "pv_openai pv")
    (simp_all add: collect_finished_batches_def collect_each_unkeyed Let_def
      split: prod.split sum.split)

lemma collect_finished_row:
  assumes "collect_finished_batches pv now hk ids db = (r, db')"
  shows "row (fst db') i = None \<longleftrightarrow> row (fst db) i = None"
  using assms by (auto simp: collect_finished_eq row_collect_each split: prod.splits sum.splits)

lemma collect_finished_Inr:
  assumes "collect_finished_batches pv now hk ids db = (Inr co, db')"
  shows "set (co_unfinished co) = {b \<in> set ids. got_of pv b = Unfinished}"
    "set (co_results co) = (\<Union>b \<in> set ids. set (results_of (got_of pv b)))"
proof -
  obtain acc db1 where
    a: "collect_each (one_message pv) now hk (filter holds ids)
          \<lparr>co_results = [], co_unfinished = [], co_errors = []\<rparr> db = (Inr acc, db1)"
    and b: "collect_each (one_openai pv) now hk (filter (\<lambda>b. \<not> holds b) ids) acc db1 = (Inr co, db')"
    using assms by (auto simp: collect_finished_eq split: prod.splits sum.splits)
  from collect_each_Inr [OF a] collect_each_Inr [OF b]
  have "co_unfinished co = filter (\<lambda>b. fst (one_message pv b) = Unfinished) (filter holds ids)
        @ filter (\<lambda>b. fst (one_openai pv b) = Unfinished) (filter (\<lambda>b. \<not> holds b) ids)"
    "co_results co = concat (map (results_of \<circ> fst \<circ> one_message pv) (filter holds ids))
        @ concat (map (results_of \<circ> fst \<circ> one_openai pv) (filter (\<lambda>b. \<not> holds b) ids))"
    by simp_all
  then show "set (co_unfinished co) = {b \<in> set ids. got_of pv b = Unfinished}"
    "set (co_results co) = (\<Union>b \<in> set ids. set (results_of (got_of pv b)))"
    by (auto simp: got_of_eq split: if_splits)
qed

lemma collect_each_named:
  "collect_each one now hk bids acc db = (r, db') \<Longrightarrow> named i (fst db) b \<Longrightarrow> named i (fst db') b"
proof (induction one now hk bids acc db rule: collect_each.induct)
  case (2 one now hk bid bids acc db)
  obtain what heard where one: "one bid = (what, heard)" by fastforce
  let ?db1 = "case heard of None \<Rightarrow> db | Some p \<Rightarrow> on_event now hk bid (p_status p) (progress_counts p) db"
  have "named i (fst ?db1) b"
    using "2.prems"(2) named_on_event [of i "fst db" b now hk bid _ _ "snd db"]
    by (auto split: option.split) (metis prod.collapse)
  then show ?case
    using 2 one by (cases what) (auto simp: Let_def)
qed simp


lemma collect_finished_named:
  assumes "collect_finished_batches pv now hk ids db = (r, db')" "named i (fst db) b"
  shows "named i (fst db') b"
  using assms collect_each_named
  by (auto simp: collect_finished_eq split: prod.splits sum.splits)

lemma checkpoint_Inr:
  assumes "checkpoint_results now ok i results unfinished db = Inr db'"
  shows "list_all (has_receipt i (k_receipts db')) results
    \<and> k_tasks db' = merge_payload i (collected_data unfinished) [] (k_tasks db)"
  using assms store_receipts_Inr
  by (auto simp: checkpoint_results_def split: if_splits sum.splits)

lemma has_receipt_model [simp]: "has_receipt i receipts (r\<lparr>r_model := m\<rparr>) = has_receipt i receipts r"
  by (simp add: has_receipt_def result_key_def)

lemma pending_named:
  assumes "b \<in> set (pending_batch_ids i tbl)" "distinct (map tid tbl)"
  shows "named i tbl b"
proof -
  obtain t where t: "row tbl i = Some t" "b \<in> set (strings (payload t) ''batch_ids'')"
    using assms(1) by (cases "row tbl i") (auto simp: pending_batch_ids_def)
  then have "t \<in> set tbl" "tid t = i" by (auto simp: row_def find_Some_iff)
  then have "u = t" if "u \<in> set tbl" "tid u = i" for u
    using assms(2) that by (auto simp: distinct_map inj_on_def)
  then show ?thesis using t(2) by (auto simp: named_def)
qed


definition finished_batch :: openai_batch where
  "finished_batch =
     \<lparr>ob_id = ''batch_1'', ob_status = ''completed'', ob_endpoint = RESPONSES,
      ob_output = Some (Inr [JObj [(''custom_id'', JStr ''a''), (''error'', JStr ''overloaded'')]]),
      ob_errors_file = None, ob_messages = [],
      ob_progress = \<lparr>p_status = ''completed'', p_total = 1, p_completed = 0, p_failed = 1\<rparr>\<rparr>"

definition finished_view :: providers_view where
  "finished_view =
     \<lparr>pv_openai = True, pv_anthropic = False, pv_openai_batch = (\<lambda>_. Inr finished_batch),
      pv_message_batch = (\<lambda>_. Inl ''no key''), pv_sent_under = (\<lambda>_. [])\<rparr>"

definition finished_hook :: batch_hook where
  "finished_hook =
     \<lparr>h_task_id = 7, h_purpose = ''comp'', h_model = Some ''gpt-6-luna'', h_payer = ''fleet'',
      h_payer_id = None, h_fallback_from = None, h_resumed = [''batch_1''],
      h_metadata = [(''batch_1'', Some ''gpt-6-luna'')]\<rparr>"

definition finished_db :: collect_db where
  "finished_db =
     \<lparr>k_tasks = [new_task 0 7 ''extract_comp'' [(''batch_ids'', JArr [JStr ''batch_1''])] None None],
      k_ledger = [], k_receipts = [], k_calls = [], k_alerts = []\<rparr>"


section \<open>An output that cannot be read\<close>

lemma collect_each_broke:
  assumes "bid \<in> set bids" "fst (one bid) = Broke e"
  shows "\<exists>e'. fst (collect_each one now hk bids acc db) = Inl e'"
  using assms
proof (induction bids arbitrary: acc db)
  case (Cons b bids)
  obtain what heard where one: "one b = (what, heard)" by fastforce
  show ?case
  proof (cases what)
    case (Broke e')
    then show ?thesis using one by (simp add: Let_def)
  qed (use Cons one in \<open>auto simp: Let_def intro: Cons.IH\<close>)
qed simp

text \<open>
  An OpenAI batch whose status can be read and whose output file cannot ends the whole collection,
  the batches after it included; an Anthropic batch whose results cannot be read is unfinished.
\<close>

lemma unreadable_output_ends_the_collection:
  assumes "bid \<in> set ids" "\<not> holds bid" "pv_openai pv" "pv_openai_batch pv bid = Inr b"
    "is_terminal (ob_status b)" "ob_output b = Some (Inl e)"
  shows "\<exists>e'. fst (collect_finished_batches pv now hk ids db) = Inl e'"
proof -
  have "fst (one_openai pv bid) = Broke e"
    using assms by (simp add: one_openai_def collect_openai_def collect_batch_def)
  moreover have "bid \<in> set (filter (\<lambda>b. \<not> holds b) ids)" using assms(1,2) by simp
  ultimately have "\<exists>e'. fst (collect_each (one_openai pv) now hk (filter (\<lambda>b. \<not> holds b) ids) acc db1) = Inl e'"
    for acc db1 by (rule collect_each_broke [rotated])
  then show ?thesis by (auto simp: collect_finished_eq split: sum.split prod.split)
qed

lemma unreadable_results_are_unfinished:
  assumes "pv_message_batch pv bid = Inr b" "mb_lines b = Inl e"
  shows "fst (collect_message pv bid) = Unfinished"
  using assms by (simp add: collect_message_def)

section \<open>Billing\<close>

definition billed_keys :: "Call list \<Rightarrow> (string \<times> string) list" where
  "billed_keys calls =
     map (\<lambda>c. (the (ca_batch_id c), the (ca_custom_id c)))
       (filter (\<lambda>c. ca_batch_id c \<noteq> None \<and> ca_custom_id c \<noteq> None) calls)"

lemma billed_keys_insert:
  "distinct (billed_keys (insert_call c calls)) = distinct (billed_keys calls)"
  by (auto simp: billed_keys_def insert_call_def)

lemma insert_call_prefix: "\<exists>new. insert_call c calls = calls @ new"
  by (simp add: insert_call_def)

text \<open>An item that cost something: its usage has tokens and its batch a payer.\<close>

definition paid_item :: "AiBatch list \<Rightarrow> BatchResult \<Rightarrow> bool" where
  "paid_item ledger r \<longleftrightarrow>
     (case (r_batch_id r, r_usage r) of
        (Some bid, Some usage) \<Rightarrow> bid \<noteq> '''' \<and> paying_batch ledger bid \<noteq> None
          \<and> (case batch_usage usage of None \<Rightarrow> False | Some u \<Rightarrow> ut_total u \<noteq> 0)
      | _ \<Rightarrow> False)"

text \<open>An item is a call or is none, whenever it is recorded; its call is under its own key.\<close>

lemma item_call_cases:
  obtains (none) "\<not> paid_item ledger r" "\<And>now. item_call now ledger r = Inr None"
  | (call) bid where "r_batch_id r = Some bid"
      "\<And>now. \<exists>c. item_call now ledger r = Inr (Some c) \<and> ca_batch_id c = Some bid
         \<and> ca_custom_id c = Some (r_custom_id r)"
proof (cases "\<exists>bid usage b u. r_batch_id r = Some bid \<and> r_usage r = Some usage
    \<and> paying_batch ledger bid = Some b \<and> batch_usage usage = Some u \<and> bid \<noteq> '''' \<and> ut_total u \<noteq> 0")
  case True
  then obtain bid usage b u where f: "r_batch_id r = Some bid" "r_usage r = Some usage"
      "paying_batch ledger bid = Some b" "batch_usage usage = Some u" "bid \<noteq> ''''" "ut_total u \<noteq> 0"
    by blast
  obtain v where v: "estimate_cost_usd (b_model b) (Some (ut_prompt u)) (Some (ut_completion u))
      (Some (ut_cached u)) True None (Receipt (ut_cache_write u)) = Inr v"
    using estimate_no_raise by blast
  show thesis by (rule call [OF f(1)]) (simp add: item_call_def f call_row_def v)
next
  case False
  show thesis
    by (rule none) (use False in \<open>auto simp: item_call_def paid_item_def split: option.splits\<close>)
qed

definition billed :: "Call list \<Rightarrow> string option \<Rightarrow> string \<Rightarrow> bool" where
  "billed calls bid cid \<longleftrightarrow> (\<exists>d \<in> set calls. ca_batch_id d = bid \<and> ca_custom_id d = Some cid)"

lemma insert_call_billed:
  assumes "ca_batch_id c = Some bid" "ca_custom_id c = Some cid"
  shows "insert_call c calls = (if billed calls (Some bid) cid then calls else calls @ [c])"
  using assms by (auto simp: insert_call_def billed_def)

lemma billed_append: "billed calls bid cid \<Longrightarrow> billed (calls @ later) bid cid"
  by (auto simp: billed_def)

definition records :: "instant \<Rightarrow> AiBatch list \<Rightarrow> BatchResult list \<Rightarrow> Call list \<Rightarrow> Call list \<Rightarrow> bool" where
  "records now ledger rs calls new \<longleftrightarrow>
     record_batch_items now ledger rs calls = Inr (calls @ new)
     \<and> distinct (billed_keys (calls @ new)) = distinct (billed_keys calls)
     \<and> list_all (\<lambda>c. list_ex (\<lambda>r. item_call now ledger r = Inr (Some c)) rs) new
     \<and> list_all (\<lambda>r. billed (calls @ new) (r_batch_id r) (r_custom_id r)) (filter (paid_item ledger) rs)"

lemma records_Cons:
  assumes "item_call now ledger r = Inr (Some c)" "ca_batch_id c = r_batch_id r"
    "ca_custom_id c = Some (r_custom_id r)" "insert_call c calls = calls @ added"
    "records now ledger rs (calls @ added) new"
    "billed (calls @ added) (r_batch_id r) (r_custom_id r)"
  shows "records now ledger (r # rs) calls (added @ new)"
proof -
  have "set added \<subseteq> {c}" using assms(4) by (auto simp: insert_call_def split: if_splits)
  moreover have "distinct (billed_keys (calls @ added)) = distinct (billed_keys calls)"
    using billed_keys_insert [of c calls] assms(4) by simp
  ultimately show ?thesis
    using assms billed_append [OF assms(6), of new] by (auto simp: records_def list_all_iff)
qed

lemma record_batch_items_once:
  "\<exists>new. records now ledger rs calls new
     \<and> (\<forall>later rest. record_batch_items later ledger rs ((calls @ new) @ rest) = Inr ((calls @ new) @ rest))"
proof (induction rs arbitrary: calls)
  case (Cons r rs)
  show ?case
  proof (cases rule: item_call_cases [of ledger r])
    case none
    then show ?thesis using Cons.IH [of calls] by (auto simp: records_def list_all_iff)
  next
    case (call bid)
    obtain c where c: "item_call now ledger r = Inr (Some c)" "ca_batch_id c = Some bid"
        "ca_custom_id c = Some (r_custom_id r)"
      using call(2) by blast
    let ?calls = "insert_call c calls"
    have here: "billed ?calls (Some bid) (r_custom_id r)"
      using c(2,3) by (auto simp: insert_call_billed [OF c(2,3)]) (auto simp: billed_def)
    obtain added where added: "?calls = calls @ added" using insert_call_prefix by blast
    obtain new where new: "records now ledger rs ?calls new"
        "\<forall>later rest. record_batch_items later ledger rs ((?calls @ new) @ rest) = Inr ((?calls @ new) @ rest)"
      using Cons.IH [of ?calls] by blast
    have again: "record_batch_items later ledger (r # rs) ((?calls @ new) @ rest) = Inr ((?calls @ new) @ rest)"
      for later rest
    proof -
      obtain d where d: "item_call later ledger r = Inr (Some d)" "ca_batch_id d = Some bid"
          "ca_custom_id d = Some (r_custom_id r)"
        using call(2) by blast
      have "insert_call d ((?calls @ new) @ rest) = (?calls @ new) @ rest"
        using insert_call_billed [OF d(2,3)] billed_append [OF billed_append [OF here]] by simp
      then show ?thesis using d(1) new(2) by simp
    qed
    have "records now ledger (r # rs) calls (added @ new)"
      by (rule records_Cons [OF c(1)]) (use c call(1) added new(1) here in simp_all)
    then show ?thesis using again added by (metis append.assoc)
  qed
qed (auto simp: records_def)

text \<open>
  C13: Every paid item is billed once. Recording a batch's results never raises and never changes
  or removes a call; it adds only calls of the given items, so that every item with tokens and a
  payer has one afterwards; two calls never share a batch and a custom id if none did before; and
  recording the same results again, at any later time and after any other calls, adds nothing.
\<close>

theorem items_are_billed_once:
  "\<exists>new. record_batch_items now ledger rs calls = Inr (calls @ new)
     \<and> list_all (\<lambda>c. list_ex (\<lambda>r. item_call now ledger r = Inr (Some c)) rs) new
     \<and> list_all (\<lambda>r. billed (calls @ new) (r_batch_id r) (r_custom_id r)) (filter (paid_item ledger) rs)
     \<and> distinct (billed_keys (calls @ new)) = distinct (billed_keys calls)
     \<and> record_batch_items later ledger rs ((calls @ new) @ others) = Inr ((calls @ new) @ others)"
  using record_batch_items_once [of now ledger rs calls] unfolding records_def by blast

section \<open>Consuming a chunk of results\<close>

text \<open>
  \<open>consume_results\<close>: one read of the receipts, then one write. \<open>keys\<close> are the results' keys and
  \<open>said\<close> what the handler says of each.
\<close>

definition own_receipt :: "int \<Rightarrow> string \<times> string \<Rightarrow> receipt list \<Rightarrow> receipt option" where
  "own_receipt i key receipts = find (\<lambda>rc. receipt_key rc = key \<and> rc_task_id rc = i) receipts"

fun pending_flags ::
  "int \<Rightarrow> receipt list \<Rightarrow> (string \<times> string) list \<Rightarrow> (string \<times> string) list \<Rightarrow> bool list result" where
  "pending_flags i receipts seen [] = Inr []"
| "pending_flags i receipts seen (key # keys) =
     (case own_receipt i key receipts of
        None \<Rightarrow> Inl (RuntimeError ''result must be checkpointed before consumption'')
      | Some rc \<Rightarrow>
          and_then (pending_flags i receipts (key # seen) keys)
            (\<lambda>flags. Inr ((rc_outcome rc = None \<and> key \<notin> set seen) # flags)))"

definition acknowledge ::
  "instant \<Rightarrow> int \<Rightarrow> ((string \<times> string) \<times> string) list \<Rightarrow> receipt list \<Rightarrow> receipt list" where
  "acknowledge now i acks =
     update_where (\<lambda>x. rc_task_id x = i \<and> map_of acks (receipt_key x) \<noteq> None)
       (\<lambda>x. x\<lparr>rc_outcome := map_of acks (receipt_key x), rc_consumed_at := Some now\<rparr>)"

definition acks_of :: "bool list \<Rightarrow> ((string \<times> string) \<times> string) list \<Rightarrow> ((string \<times> string) \<times> string) list" where
  "acks_of flags items = map snd (filter fst (zip flags items))"

definition consume_results ::
  "instant \<Rightarrow> int \<Rightarrow> ((string \<times> string) \<times> string) list \<Rightarrow> receipt list \<Rightarrow> (bool list \<times> receipt list) result" where
  "consume_results now i items receipts =
     and_then (pending_flags i receipts [] (map fst items))
       (\<lambda>flags. Inr (flags, acknowledge now i (acks_of flags items) receipts))"

text \<open>The reference: the same results one by one.\<close>

fun consume_each ::
  "instant \<Rightarrow> int \<Rightarrow> ((string \<times> string) \<times> string) list \<Rightarrow> receipt list \<Rightarrow> (bool list \<times> receipt list) result" where
  "consume_each now i [] receipts = Inr ([], receipts)"
| "consume_each now i ((key, said) # items) receipts =
     and_then (consume_result now i key said receipts)
       (\<lambda>(flag, receipts'). and_then (consume_each now i items receipts')
          (\<lambda>(flags, receipts''). Inr (flag # flags, receipts'')))"

definition consumed :: "instant \<Rightarrow> int \<Rightarrow> string \<times> string \<Rightarrow> string \<Rightarrow> receipt list \<Rightarrow> receipt list" where
  "consumed now i key said =
     update_where (\<lambda>x. receipt_key x = key \<and> rc_task_id x = i)
       (\<lambda>x. x\<lparr>rc_outcome := Some said, rc_consumed_at := Some now\<rparr>)"

lemma receipt_key_update [simp]:
  "receipt_key (x\<lparr>rc_outcome := o', rc_consumed_at := t\<rparr>) = receipt_key x"
  by (simp add: receipt_key_def)

lemma own_receipt_consumed:
  "own_receipt i k (consumed now i key said receipts)
   = map_option (\<lambda>x. if k = key then x\<lparr>rc_outcome := Some said, rc_consumed_at := Some now\<rparr> else x)
       (own_receipt i k receipts)"
  by (induction receipts) (auto simp: own_receipt_def consumed_def update_where_def)

lemma own_receipt_key: "own_receipt i k receipts = Some rc \<Longrightarrow> receipt_key rc = k"
  by (auto simp: own_receipt_def find_Some_iff)

lemma pending_flags_cong:
  "set seen = set seen' \<Longrightarrow> pending_flags i receipts seen keys = pending_flags i receipts seen' keys"
proof (induction keys arbitrary: seen seen')
  case (Cons k keys)
  have "pending_flags i receipts (k # seen) keys = pending_flags i receipts (k # seen') keys"
    by (rule Cons.IH) (simp add: Cons.prems)
  then show ?case using Cons.prems by (simp split: option.split)
qed simp

text \<open>Seeing a key in the chunk is what finding its receipt consumed is in sequence.\<close>

lemma pending_flags_consumed:
  "pending_flags i (consumed now i key said receipts) seen keys
   = pending_flags i receipts (key # seen) keys"
proof (induction keys arbitrary: seen)
  case (Cons k keys)
  have "pending_flags i (consumed now i key said receipts) (k # seen) keys
      = pending_flags i receipts (k # key # seen) keys"
    using Cons.IH [of "k # seen"] pending_flags_cong [of "key # k # seen" "k # key # seen" i receipts keys]
    by auto
  then show ?case
    by (auto simp: own_receipt_consumed split: option.split)
qed simp

lemma pending_flags_done:
  assumes "own_receipt i key receipts = Some rc" "rc_outcome rc \<noteq> None"
  shows "pending_flags i receipts (key # seen) keys = pending_flags i receipts seen keys"
proof (induction keys arbitrary: seen)
  case (Cons k keys)
  have "pending_flags i receipts (k # key # seen) keys = pending_flags i receipts (key # k # seen) keys"
    by (rule pending_flags_cong) auto
  also have "\<dots> = pending_flags i receipts (k # seen) keys" by (rule Cons.IH)
  finally have "pending_flags i receipts (k # key # seen) keys = pending_flags i receipts (k # seen) keys" .
  then show ?case using assms by (cases "k = key") (auto split: option.split)
qed simp

lemma acks_unseen:
  assumes "pending_flags i receipts seen (map fst items) = Inr flags" "k \<in> set seen"
  shows "map_of (acks_of flags items) k = None"
  using assms
proof (induction items arbitrary: seen flags)
  case (Cons item items)
  obtain fl flags' where fl: "flags = fl # flags'" "fl \<longrightarrow> fst item \<notin> set seen"
      "pending_flags i receipts (fst item # seen) (map fst items) = Inr flags'"
    using Cons.prems(1) by (auto simp: and_then_Inr_iff split: option.splits)
  have "map_of (acks_of flags' items) k = None"
    using Cons.IH [OF fl(3)] Cons.prems(2) by simp
  then show ?case using fl(1,2) Cons.prems(2) by (cases item) (auto simp: acks_of_def)
qed (simp add: acks_of_def)

lemma acknowledge_consumed:
  assumes "map_of acks key = None"
  shows "acknowledge now i acks (consumed now i key said receipts)
    = acknowledge now i ((key, said) # acks) receipts"
proof (induction receipts)
  case (Cons x receipts)
  have tail: "acknowledge now i acks (consumed now i key said receipts)
      = acknowledge now i ((key, said) # acks) receipts" by (rule Cons.IH)
  consider "rc_task_id x \<noteq> i" | "rc_task_id x = i" "receipt_key x = key"
    | "rc_task_id x = i" "receipt_key x \<noteq> key" by blast
  then have "acknowledge now i acks (consumed now i key said [x])
      = acknowledge now i ((key, said) # acks) [x]"
  proof cases
    case 1
    then show ?thesis by (simp add: acknowledge_def consumed_def update_where_def)
  next
    case 2
    then show ?thesis using assms by (simp add: acknowledge_def consumed_def update_where_def)
  next
    case 3
    then show ?thesis by (simp add: acknowledge_def consumed_def update_where_def)
  qed
  with tail show ?case by (simp add: acknowledge_def consumed_def update_where_def)
qed (simp add: acknowledge_def consumed_def update_where_def)

text \<open>
  Consuming a chunk is consuming its results in sequence. The one read and one write of a
  chunk give the same pending flags, the same receipts and the same error as consuming the
  results one after the other, a result that occurs twice included: so of all consumptions of
  one receipt exactly the first is pending, and a handler never writes a result twice.
\<close>

theorem chunk_is_consumed_as_in_sequence:
  "consume_results now i items receipts = consume_each now i items receipts"
proof (induction items arbitrary: receipts)
  case Nil
  show ?case by (simp add: consume_results_def acknowledge_def acks_of_def update_where_none)
next
  case (Cons item items)
  obtain key said where item: "item = (key, said)" by fastforce
  show ?case
  proof (cases "own_receipt i key receipts")
    case None
    then show ?thesis
      by (simp add: item consume_results_def consume_result_def own_receipt_def)
  next
    case (Some rc)
    show ?thesis
    proof (cases "rc_outcome rc")
      case None
      have step: "consume_result now i key said receipts = Inr (True, consumed now i key said receipts)"
        using Some None by (simp add: consume_result_def own_receipt_def consumed_def)
      have "acknowledge now i (acks_of flags items) (consumed now i key said receipts)
          = acknowledge now i (acks_of (True # flags) (item # items)) receipts"
        if "pending_flags i receipts [key] (map fst items) = Inr flags" for flags
        using acknowledge_consumed [OF acks_unseen [OF that, of key]] by (simp add: acks_of_def item)
      then show ?thesis
        using step Some None Cons.IH [of "consumed now i key said receipts", symmetric]
        by (cases "pending_flags i receipts [key] (map fst items)")
          (simp_all add: item consume_results_def pending_flags_consumed)
    next
      case used: (Some o')
      have step: "consume_result now i key said receipts = Inr (False, receipts)"
        using Some used by (simp add: consume_result_def own_receipt_def)
      have same: "pending_flags i receipts [key] (map fst items) = pending_flags i receipts [] (map fst items)"
        using pending_flags_done [OF Some] used by simp
      show ?thesis
        using step Some used same Cons.IH [of receipts, symmetric]
        by (cases "pending_flags i receipts [] (map fst items)")
          (simp_all add: item consume_results_def acks_of_def)
    qed
  qed
qed

end
