(* ===== verification/Slots.thy ===== *)
theory Slots
  imports Claims
begin

text \<open>
  How much work one worker runs at once: the adaptive limit and the memory reading of
  \<open>tasks/runtime/limits.py\<close> and the slots of \<open>api/worker.py\<close>. The monotonic clock and the
  memory reading are arguments, one reading of the clock per operation; rates are rationals. A thread
  is its task id and the slots it took, from its start until it reports its end.
\<close>

section \<open>The adaptive limit\<close>

record AdaptiveLimiter =
  lim_limit :: int
  lim_min_c :: int
  lim_max_c :: int
  lim_window :: int
  lim_count :: int
  lim_errors :: int
  lim_win_start :: rat
  lim_prev_rate :: "rat option"

definition AdaptiveLimiter_of :: "rat \<Rightarrow> int \<Rightarrow> int \<Rightarrow> int \<Rightarrow> AdaptiveLimiter" where
  "AdaptiveLimiter_of clock min_c max_c window =
     \<lparr>lim_limit = min 3 max_c, lim_min_c = min_c, lim_max_c = max_c, lim_window = window,
      lim_count = 0, lim_errors = 0, lim_win_start = clock, lim_prev_rate = None\<rparr>"

definition limiter_reset :: "rat \<Rightarrow> AdaptiveLimiter \<Rightarrow> AdaptiveLimiter" where
  "limiter_reset clock l = l\<lparr>lim_count := 0, lim_errors := 0, lim_win_start := clock\<rparr>"

text \<open>The limit after a whole window: down on errors, else by the rate against the last one.\<close>

definition next_limit :: "rat \<Rightarrow> AdaptiveLimiter \<Rightarrow> int" where
  "next_limit rate l =
     (let grow = min (lim_max_c l) (lim_limit l + 1);
          shrink = max (lim_min_c l) (lim_limit l - 1) in
      if lim_errors l \<noteq> 0 then shrink
      else case lim_prev_rate l of
        None \<Rightarrow> grow
      | Some prev \<Rightarrow>
          if rate \<ge> prev * 1.05 then grow
          else if rate < prev * 0.9 then shrink
          else lim_limit l)"

definition limiter_record :: "rat \<Rightarrow> bool \<Rightarrow> bool \<Rightarrow> AdaptiveLimiter \<Rightarrow> AdaptiveLimiter" where
  "limiter_record clock error rate_limited l =
     (if rate_limited
      then limiter_reset clock (l\<lparr>lim_limit := max (lim_min_c l) (lim_limit l div 2)\<rparr>)
      else
        let l1 = l\<lparr>lim_errors := (if error then lim_errors l + 1 else lim_errors l),
                   lim_count := lim_count l + 1\<rparr> in
        if lim_count l1 < lim_window l1 then l1
        else
          let elapsed = clock - lim_win_start l1;
              rate = (if elapsed > 0 then of_int (lim_count l1) / elapsed else 0) in
          limiter_reset clock (l1\<lparr>lim_limit := next_limit rate l1, lim_prev_rate := Some rate\<rparr>))"

section \<open>Free memory\<close>

text \<open>
  \<open>available_memory_mb\<close> on the texts of the files it reads, \<open>None\<close> for one that cannot be read.
  \<open>str.split\<close> and \<open>splitlines\<close> on ASCII text; \<open>int\<close> on a decimal literal, with single
  underscores between its digits. A value that is no integer ends its block, as a missing file
  does; a \<open>MemAvailable:\<close> line without a value raises.
\<close>

definition is_space :: "char \<Rightarrow> bool" where
  "is_space c \<longleftrightarrow> (let n = (of_char c :: nat) in n = 32 \<or> 9 \<le> n \<and> n \<le> 13 \<or> 28 \<le> n \<and> n \<le> 31)"

definition is_break :: "char \<Rightarrow> bool" where
  "is_break c \<longleftrightarrow> (let n = (of_char c :: nat) in 10 \<le> n \<and> n \<le> 13 \<or> 28 \<le> n \<and> n \<le> 30)"

fun cut :: "(char \<Rightarrow> bool) \<Rightarrow> string \<Rightarrow> string \<Rightarrow> string list" where
  "cut p word [] = (if word = [] then [] else [word])"
| "cut p word (c # cs) = (if p c then (if word = [] then [] else [word]) @ cut p [] cs else cut p (word @ [c]) cs)"

definition py_split :: "string \<Rightarrow> string list" where
  "py_split = cut is_space []"

fun splitlines :: "string \<Rightarrow> string \<Rightarrow> string list" where
  "splitlines line [] = (if line = [] then [] else [line])"
| "splitlines line (c # cs) =
     (if is_break c
      then line # splitlines [] (if c = CHR 0x0D \<and> cs \<noteq> [] \<and> hd cs = CHR 0x0A then tl cs else cs)
      else splitlines (line @ [c]) cs)"

definition py_strip :: "string \<Rightarrow> string" where
  "py_strip s = rev (dropWhile is_space (rev (dropWhile is_space s)))"

fun digits_value :: "int \<Rightarrow> bool \<Rightarrow> string \<Rightarrow> int option" where
  "digits_value acc seen [] = (if seen then Some acc else None)"
| "digits_value acc seen (c # cs) =
     (let n = (of_char c :: nat) in
      if 48 \<le> n \<and> n \<le> 57 then digits_value (acc * 10 + int (n - 48)) True cs
      else if c = CHR ''_'' \<and> seen then digits_value acc False cs
      else None)"

definition py_int :: "string \<Rightarrow> int option" where
  "py_int s =
     (case py_strip s of
        [] \<Rightarrow> None
      | c # cs \<Rightarrow>
          if c = CHR ''-'' then map_option uminus (digits_value 0 False cs)
          else if c = CHR ''+'' then digits_value 0 False cs
          else digits_value 0 False (c # cs))"

fun host_readings :: "string list \<Rightarrow> rat list result" where
  "host_readings [] = Inr []"
| "host_readings (line # rest) =
     (if starts_with ''MemAvailable:'' line
      then (case py_split line of
              _ # v # _ \<Rightarrow>
                (case py_int v of
                   None \<Rightarrow> Inr []
                 | Some n \<Rightarrow> and_then (host_readings rest) (\<lambda>more. Inr (of_int n / 1024 # more)))
            | _ \<Rightarrow> Inl IndexError)
      else host_readings rest)"

definition stat_of :: "string \<Rightarrow> (string \<times> string) list option" where
  "stat_of txt =
     (let rows = map py_split (splitlines [] txt) in
      if list_all (\<lambda>r. length r = 2) rows then Some (rev (map (\<lambda>r. (r ! 0, r ! 1)) rows)) else None)"

definition cgroup_reading :: "string option \<Rightarrow> string option \<Rightarrow> string option \<Rightarrow> rat list" where
  "cgroup_reading memory_max memory_current memory_stat =
     (case memory_max of
        None \<Rightarrow> []
      | Some m \<Rightarrow>
          if py_strip m = ''max'' then []
          else
            (case (Option.bind memory_current py_int, Option.bind memory_stat stat_of, py_int (py_strip m)) of
               (Some used, Some stat, Some limit) \<Rightarrow>
                 (case (case map_of stat ''inactive_file'' of None \<Rightarrow> Some 0 | Some v \<Rightarrow> py_int v) of
                    None \<Rightarrow> []
                  | Some reclaimable \<Rightarrow> [of_int (limit - used + reclaimable) / 2 ^ 20])
             | _ \<Rightarrow> []))"

definition available_memory_mb ::
  "string option \<Rightarrow> string option \<Rightarrow> string option \<Rightarrow> string option \<Rightarrow> rat option result" where
  "available_memory_mb meminfo memory_max memory_current memory_stat =
     and_then (case meminfo of None \<Rightarrow> Inr [] | Some txt \<Rightarrow> host_readings (splitlines [] txt))
       (\<lambda>host. Inr (case host @ cgroup_reading memory_max memory_current memory_stat of
                      [] \<Rightarrow> None
                    | r # rs \<Rightarrow> Some (foldr min rs r)))"

text \<open>
  The reading never exceeds what the container's limit leaves: with a limit and its counters
  readable, no more than the limit less what is used and cannot be reclaimed.
\<close>

lemma memory_within_container:
  assumes "available_memory_mb meminfo memory_max memory_current memory_stat = Inr free"
    "cgroup_reading memory_max memory_current memory_stat = [r]"
  shows "\<exists>mb. free = Some mb \<and> mb \<le> r"
proof -
  have least: "foldr min xs x \<le> y" if "y \<in> set (x # xs)" for xs and x y :: rat
    using that by (induction xs) (auto simp: min_le_iff_disj)
  obtain host where free: "free = (case host @ [r] of [] \<Rightarrow> None | r # rs \<Rightarrow> Some (foldr min rs r))"
    using assms by (auto simp: available_memory_mb_def and_then_Inr_iff)
  obtain x xs where xs: "host @ [r] = x # xs" by (cases "host @ [r]") auto
  then have "r \<in> set (x # xs)" by (metis in_set_conv_decomp)
  then show ?thesis using free xs least by simp
qed

section \<open>Slots\<close>

record slots =
  sl_limiter :: AdaptiveLimiter
  sl_weights :: "(string \<times> int) list"
  sl_reserve_mb :: int
  sl_held :: "(int \<times> int) list"
  sl_ended :: "(int \<times> bool) list"

definition Slots_of :: "rat \<Rightarrow> int \<Rightarrow> slots" where
  "Slots_of clock start =
     \<lparr>sl_limiter = (AdaptiveLimiter_of clock 1 start 8)\<lparr>lim_limit := start\<rparr>,
      sl_weights = [], sl_reserve_mb = 0, sl_held = [], sl_ended = []\<rparr>"

definition configure :: "int \<Rightarrow> (string \<times> int) list \<Rightarrow> int \<Rightarrow> slots \<Rightarrow> slots" where
  "configure cap weights reserve_mb s =
     s\<lparr>sl_limiter := (sl_limiter s)\<lparr>lim_max_c := cap,
                                   lim_limit := min (lim_limit (sl_limiter s)) cap\<rparr>,
       sl_weights := weights, sl_reserve_mb := reserve_mb\<rparr>"

definition unhold :: "int \<Rightarrow> (int \<times> int) list \<Rightarrow> (int \<times> int) list" where
  "unhold i held = filter (\<lambda>h. fst h \<noteq> i) held"

definition held_slots :: "(int \<times> int) list \<Rightarrow> int" where
  "held_slots held = sum_list (map snd held)"

definition slots_record :: "rat \<Rightarrow> bool \<Rightarrow> slots \<Rightarrow> slots" where
  "slots_record clock exhausted s =
     s\<lparr>sl_limiter := limiter_record clock False exhausted (sl_limiter s)\<rparr>"

definition settle_one :: "rat \<Rightarrow> int \<times> bool \<Rightarrow> slots \<Rightarrow> slots" where
  "settle_one clock e s = slots_record clock (snd e) (s\<lparr>sl_held := unhold (fst e) (sl_held s)\<rparr>)"

definition settle_ended :: "rat \<Rightarrow> slots \<Rightarrow> slots" where
  "settle_ended clock s = (fold (settle_one clock) (sl_ended s) s)\<lparr>sl_ended := []\<rparr>"

definition THREADED_KINDS :: "string list" where
  "THREADED_KINDS = [''ingest_source'']"

text \<open>The claim a pass makes: the worker's environment and what it reads of the database.\<close>

record claim_call =
  cc_now :: instant
  cc_env :: claim_env
  cc_worker :: string
  cc_sources :: "Source_row list"
  cc_budgets :: "HostBudget list"
  cc_locked :: "int list"

definition worker_claim :: "claim_call \<Rightarrow> string list \<Rightarrow> Task list \<Rightarrow> Task option \<times> Task list" where
  "worker_claim cc too_heavy =
     claim_task (cc_now cc) (cc_env cc) (cc_worker cc) too_heavy (cc_sources cc) (cc_budgets cc)
       (cc_locked cc)"

datatype pass_end = Waited | Ran_inline Task | Started Task

definition kind_weight :: "(string \<times> int) list \<Rightarrow> string \<Rightarrow> int" where
  "kind_weight weights k = coalesce (map_of weights k) 1"

text \<open>What a pass does before it claims: settle the ended tasks, back off when memory is short.\<close>

definition short_of_memory :: "rat option \<Rightarrow> slots \<Rightarrow> bool" where
  "short_of_memory free s =
     (case free of None \<Rightarrow> False | Some mb \<Rightarrow> mb < of_int (sl_reserve_mb s))"

definition prepare :: "rat \<Rightarrow> rat option \<Rightarrow> slots \<Rightarrow> slots" where
  "prepare clock free s =
     (let s1 = settle_ended clock s in
      if short_of_memory free s1 \<and> sl_held s1 \<noteq> [] then slots_record clock True s1 else s1)"

text \<open>\<open>exhausted\<close> is what \<open>run_task\<close> says of a task run here; the table is the one after the claim.\<close>

definition slots_step ::
  "rat \<Rightarrow> rat option \<Rightarrow> claim_call \<Rightarrow> bool \<Rightarrow> slots \<Rightarrow> Task list \<Rightarrow> pass_end \<times> slots \<times> Task list" where
  "slots_step clock free cc exhausted s0 tbl =
     (let s = prepare clock free s0;
          room = lim_limit (sl_limiter s) - held_slots (sl_held s);
          (task, tbl') =
            (if sl_held s = [] then worker_claim cc [] tbl
             else if room > 0 \<and> \<not> short_of_memory free s
             then worker_claim cc (map fst (filter (\<lambda>(k, w). w > room) (sl_weights s))) tbl
             else (None, tbl)) in
      case task of
        None \<Rightarrow> (Waited, s, tbl')
      | Some t \<Rightarrow>
          if kind t \<notin> set THREADED_KINDS then (Ran_inline t, slots_record clock exhausted s, tbl')
          else (Started t,
                s\<lparr>sl_held := (tid t, kind_weight (sl_weights s) (kind t)) # unhold (tid t) (sl_held s)\<rparr>,
                tbl'))"

text \<open>A thread's last act: its end goes on the queue the next pass reads.\<close>

definition thread_ends :: "int \<Rightarrow> bool \<Rightarrow> slots \<Rightarrow> slots" where
  "thread_ends i exhausted s = s\<lparr>sl_ended := sl_ended s @ [(i, exhausted)]\<rparr>"

section \<open>The ceiling and the loop\<close>

definition task_ceiling ::
  "int option \<Rightarrow> (string \<times> int) list option \<Rightarrow> string \<Rightarrow> int \<Rightarrow> int" where
  "task_ceiling TASK_SLOTS config worker_name max_size =
     (let named = map_of (coalesce config []) (py_lower worker_name);
          given = (case TASK_SLOTS of None \<Rightarrow> [] | Some v \<Rightarrow> [v])
                  @ (case named of None \<Rightarrow> [] | Some v \<Rightarrow> [v]) in
      max 1 (min (case given of [] \<Rightarrow> 1 | v # vs \<Rightarrow> foldr min vs v) (max_size div 2)))"

definition refresh_slots ::
  "rat \<Rightarrow> int option \<Rightarrow> int \<Rightarrow> (string \<times> int) list option \<Rightarrow> int \<Rightarrow> slots option \<Rightarrow> slots option" where
  "refresh_slots clock TASK_SLOTS cap weights reserve_mb slots =
     (let s1 = (if slots = None \<and> cap > 1
                then Some (Slots_of clock (if TASK_SLOTS \<noteq> None then cap else 1)) else slots) in
      map_option (configure cap (coalesce weights []) reserve_mb) s1)"

text \<open>
  The two ways of the main loop: one task at a time, or a pass over the slots. A worker switched
  back to one task first drains what it holds.
\<close>

datatype loop_turn = One_at_a_time | Pass slots

definition loop_turn_of :: "int \<Rightarrow> slots option \<Rightarrow> loop_turn" where
  "loop_turn_of cap slots =
     (case slots of
        None \<Rightarrow> One_at_a_time
      | Some s \<Rightarrow> if cap \<le> 1 \<and> sl_held s = [] then One_at_a_time else Pass s)"

section \<open>The limit stays in its bounds\<close>

definition limiter_ok :: "AdaptiveLimiter \<Rightarrow> bool" where
  "limiter_ok l \<longleftrightarrow> 1 \<le> lim_min_c l \<and> lim_min_c l \<le> lim_limit l \<and> lim_limit l \<le> lim_max_c l
     \<and> 0 \<le> lim_count l \<and> lim_count l < lim_window l"

text \<open>The outcomes a limiter hears, each with the clock's reading.\<close>

type_synonym heard = "rat \<times> bool \<times> bool"

definition limiter_run :: "heard list \<Rightarrow> AdaptiveLimiter \<Rightarrow> AdaptiveLimiter" where
  "limiter_run = fold (\<lambda>(clock, error, rate_limited). limiter_record clock error rate_limited)"

lemma limiter_record_keeps:
  "lim_min_c (limiter_record clock e r l) = lim_min_c l"
  "lim_max_c (limiter_record clock e r l) = lim_max_c l"
  "lim_window (limiter_record clock e r l) = lim_window l"
  by (simp_all add: limiter_record_def limiter_reset_def Let_def)

lemma next_limit_bounds:
  assumes "lim_min_c l \<le> lim_limit l" "lim_limit l \<le> lim_max_c l"
  shows "lim_min_c l \<le> next_limit rate l" "next_limit rate l \<le> lim_max_c l"
    "next_limit rate l \<le> lim_limit l + 1"
  using assms by (simp_all add: next_limit_def Let_def split: option.split)

text \<open>The three things an outcome does to the limit and the count of the window.\<close>

lemma limiter_record_cases:
  assumes "limiter_ok l"
  obtains (counted) "lim_limit (limiter_record clock e r l) = lim_limit l"
      "lim_count (limiter_record clock e r l) = lim_count l + 1" "lim_count l + 1 < lim_window l"
  | (halved) "lim_limit (limiter_record clock e r l) = max (lim_min_c l) (lim_limit l div 2)"
      "lim_count (limiter_record clock e r l) = 0"
  | (window) "lim_min_c l \<le> lim_limit (limiter_record clock e r l)"
      "lim_limit (limiter_record clock e r l) \<le> lim_max_c l"
      "lim_limit (limiter_record clock e r l) \<le> lim_limit l + 1"
      "lim_count (limiter_record clock e r l) = 0" "lim_count l + 1 = lim_window l"
proof -
  let ?l1 = "l\<lparr>lim_errors := (if e then lim_errors l + 1 else lim_errors l), lim_count := lim_count l + 1\<rparr>"
  have b: "lim_min_c ?l1 \<le> lim_limit ?l1" "lim_limit ?l1 \<le> lim_max_c ?l1"
    using assms by (simp_all add: limiter_ok_def)
  consider "r" | "\<not> r" "lim_count l + 1 < lim_window l" | "\<not> r" "\<not> lim_count l + 1 < lim_window l" by blast
  then show thesis
  proof cases
    case 1
    show thesis by (rule halved) (use 1 in \<open>simp_all add: limiter_record_def limiter_reset_def\<close>)
  next
    case 2
    show thesis by (rule counted) (use 2 in \<open>simp_all add: limiter_record_def Let_def\<close>)
  next
    case 3
    show thesis
      by (rule window) (use 3 assms next_limit_bounds [OF b] in
          \<open>simp_all add: limiter_record_def limiter_reset_def Let_def limiter_ok_def\<close>)
  qed
qed

lemma half_le: "limiter_ok l \<Longrightarrow> max (lim_min_c l) (lim_limit l div 2) \<le> lim_limit l"
  unfolding limiter_ok_def by (auto simp: max_def)

lemma limiter_record_ok:
  assumes "limiter_ok l"
  shows "limiter_ok (limiter_record clock e r l)"
proof (cases rule: limiter_record_cases [OF assms, of clock e r, case_names counted halved window])
  case halved
  then show ?thesis using half_le [OF assms] assms by (simp add: limiter_ok_def limiter_record_keeps)
qed (use assms in \<open>simp_all add: limiter_ok_def limiter_record_keeps\<close>)

text \<open>A step up costs a window of completions.\<close>

lemma limiter_record_pays:
  assumes "limiter_ok l"
  shows "lim_window l * lim_limit (limiter_record clock e r l) + lim_count (limiter_record clock e r l)
    \<le> lim_window l * lim_limit l + lim_count l + 1"
proof (cases rule: limiter_record_cases [OF assms, of clock e r, case_names counted halved window])
  case halved
  have "lim_window l * max (lim_min_c l) (lim_limit l div 2) \<le> lim_window l * lim_limit l"
    using assms by (intro mult_left_mono half_le) (simp_all add: limiter_ok_def)
  then show ?thesis using assms unfolding halved limiter_ok_def by linarith
next
  case window
  then have "lim_window l * lim_limit (limiter_record clock e r l) \<le> lim_window l * (lim_limit l + 1)"
    using assms by (intro mult_left_mono) (simp_all add: limiter_ok_def)
  then show ?thesis using window by (simp add: algebra_simps)
qed simp

lemma limiter_run_ok:
  assumes "limiter_ok l"
  shows "limiter_ok (limiter_run heard l)
    \<and> lim_window (limiter_run heard l) = lim_window l
    \<and> lim_window l * lim_limit (limiter_run heard l) + lim_count (limiter_run heard l)
      \<le> lim_window l * lim_limit l + lim_count l + int (length heard)"
  using assms
proof (induction heard arbitrary: l)
  case (Cons h heard)
  obtain clock e r where h: "h = (clock, e, r)" by (cases h)
  have ok: "limiter_ok (limiter_record clock e r l)" by (rule limiter_record_ok [OF Cons.prems])
  show ?case
    using Cons.IH [OF ok] limiter_record_pays [OF Cons.prems, of clock e r]
    by (simp add: h limiter_run_def limiter_record_keeps)
qed (simp add: limiter_run_def)

lemma int_div_le: "(0 :: int) < w \<Longrightarrow> w * d \<le> n \<Longrightarrow> d \<le> n div w"
  using zdiv_mono1 [of "w * d" n w] by simp

text \<open>
  The adaptive limit never leaves its bounds and climbs one window at a time. Whatever a
  limiter hears, its limit stays between its least and its greatest value, and it has grown by at
  most one for each whole window of completions, counting the window it was in.
\<close>

theorem limit_is_bounded_and_climbs_slowly:
  assumes "limiter_ok l"
  shows "lim_min_c l \<le> lim_limit (limiter_run heard l)
    \<and> lim_limit (limiter_run heard l) \<le> lim_max_c l
    \<and> lim_limit (limiter_run heard l) \<le> lim_limit l + (lim_count l + int (length heard)) div lim_window l"
proof -
  note run = limiter_run_ok [OF assms, of heard]
  have keeps: "lim_min_c (limiter_run heard l) = lim_min_c l" "lim_max_c (limiter_run heard l) = lim_max_c l"
    by (induction heard arbitrary: l) (auto simp: limiter_run_def limiter_record_keeps)
  have "lim_window l * (lim_limit (limiter_run heard l) - lim_limit l) \<le> lim_count l + int (length heard)"
    using run by (simp add: limiter_ok_def algebra_simps)
  then have "lim_limit (limiter_run heard l) - lim_limit l \<le> (lim_count l + int (length heard)) div lim_window l"
    using assms by (simp add: limiter_ok_def int_div_le mult.commute)
  then show ?thesis using run keeps by (simp add: limiter_ok_def)
qed

theorem limit_is_bounded_and_climbs_slowly_witness:
  "limiter_ok (AdaptiveLimiter_of 0 1 6 2)
   \<and> 1 \<le> lim_limit (limiter_run [(1, False, False), (2, False, False)] (AdaptiveLimiter_of 0 1 6 2))
   \<and> lim_limit (limiter_run [(1, False, False), (2, False, False)] (AdaptiveLimiter_of 0 1 6 2)) \<le> 4"
proof -
  have ok: "limiter_ok (AdaptiveLimiter_of 0 1 6 2)"
    by (simp add: limiter_ok_def AdaptiveLimiter_of_def)
  show ?thesis
    using ok limit_is_bounded_and_climbs_slowly [OF ok, of "[(1, False, False), (2, False, False)]"]
    by (simp add: AdaptiveLimiter_of_def)
qed


section \<open>No more work than slots\<close>

text \<open>
  The passes of one worker, with the threads it runs. \<open>C\<close> bounds every ceiling it reads. A pass
  starts a task whose id it does not count already: a worker claims no task again while it
  still runs it.
\<close>

inductive slots_reach :: "int \<Rightarrow> slots \<Rightarrow> (int \<times> int) list \<Rightarrow> bool" for C where
  start: "1 \<le> n \<Longrightarrow> n \<le> C \<Longrightarrow> slots_reach C (Slots_of clock n) []"
| configured: "slots_reach C s threads \<Longrightarrow> 1 \<le> cap \<Longrightarrow> cap \<le> C \<Longrightarrow> list_all (\<lambda>kw. 1 \<le> snd kw) weights
    \<Longrightarrow> slots_reach C (configure cap weights mb s) threads"
| ended: "slots_reach C s threads \<Longrightarrow> i \<in> set (map fst threads)
    \<Longrightarrow> slots_reach C (thread_ends i exhausted s) (unhold i threads)"
| waited: "slots_reach C s threads \<Longrightarrow> slots_step clock free cc exhausted s tbl = (Waited, s', tbl')
    \<Longrightarrow> slots_reach C s' threads"
| ran: "slots_reach C s threads \<Longrightarrow> slots_step clock free cc exhausted s tbl = (Ran_inline t, s', tbl')
    \<Longrightarrow> slots_reach C s' threads"
| started: "slots_reach C s threads \<Longrightarrow> slots_step clock free cc exhausted s tbl = (Started t, s', tbl')
    \<Longrightarrow> tid t \<notin> set (map fst (sl_held (prepare clock free s)))
    \<Longrightarrow> slots_reach C s' ((tid t, kind_weight (sl_weights s) (kind t)) # threads)"

definition slots_ok :: "int \<Rightarrow> slots \<Rightarrow> (int \<times> int) list \<Rightarrow> bool" where
  "slots_ok C s threads \<longleftrightarrow>
     limiter_ok (sl_limiter s) \<and> lim_min_c (sl_limiter s) = 1 \<and> lim_max_c (sl_limiter s) \<le> C
     \<and> list_all (\<lambda>kw. 1 \<le> snd kw) (sl_weights s)
     \<and> list_all (\<lambda>h. 1 \<le> snd h) (sl_held s) \<and> distinct (map fst threads)
     \<and> set threads \<subseteq> set (sl_held s) \<and> fst ` set (sl_ended s) \<inter> fst ` set threads = {}
     \<and> (length (sl_held s) \<le> 1 \<or> held_slots (sl_held s) \<le> C)"

lemma held_slots_unhold:
  "list_all (\<lambda>h. 1 \<le> snd h) held \<Longrightarrow> held_slots (unhold i held) \<le> held_slots held"
  by (induction held) (auto simp: held_slots_def unhold_def)

lemma length_held_slots:
  "list_all (\<lambda>h. 1 \<le> snd h) held \<Longrightarrow> int (length held) \<le> held_slots held"
  by (induction held) (auto simp: held_slots_def)

lemma unhold_absent: "i \<notin> set (map fst held) \<Longrightarrow> unhold i held = held"
  by (induction held) (auto simp: unhold_def)

lemma slots_ok_record:
  "slots_ok C s threads \<Longrightarrow> slots_ok C (slots_record clock x s) threads"
  by (simp add: slots_ok_def slots_record_def limiter_record_ok limiter_record_keeps)

lemma slots_ok_unhold:
  assumes "slots_ok C s threads" "i \<notin> fst ` set threads"
  shows "slots_ok C (s\<lparr>sl_held := unhold i (sl_held s)\<rparr>) threads"
proof -
  have held: "list_all (\<lambda>h. 1 \<le> snd h) (sl_held s)" using assms(1) by (simp add: slots_ok_def)
  have less: "length (unhold i (sl_held s)) \<le> length (sl_held s)" by (simp add: unhold_def)
  have "length (unhold i (sl_held s)) \<le> 1 \<or> held_slots (unhold i (sl_held s)) \<le> C"
    using assms(1) held_slots_unhold [OF held, of i] less by (auto simp: slots_ok_def)
  moreover have "set threads \<subseteq> set (unhold i (sl_held s))"
    using assms by (force simp: slots_ok_def unhold_def)
  ultimately show ?thesis using assms(1) by (auto simp: slots_ok_def unhold_def list_all_iff)
qed

lemma slots_ok_settle:
  assumes "slots_ok C s threads"
  shows "slots_ok C (settle_ended clock s) threads"
proof -
  have "slots_ok C (fold (settle_one clock) ended s) threads"
    if "slots_ok C s threads" "fst ` set ended \<inter> fst ` set threads = {}" for ended s
    using that
  proof (induction ended arbitrary: s)
    case (Cons e ended)
    then have "slots_ok C (settle_one clock e s) threads"
      unfolding settle_one_def by (intro slots_ok_record slots_ok_unhold) auto
    then show ?case using Cons by simp
  qed simp
  then have "slots_ok C (fold (settle_one clock) (sl_ended s) s) threads"
    using assms by (simp add: slots_ok_def)
  then show ?thesis by (simp add: slots_ok_def settle_ended_def)
qed

lemma slots_ok_prepare: "slots_ok C s threads \<Longrightarrow> slots_ok C (prepare clock free s) threads"
  by (simp add: prepare_def Let_def slots_ok_settle slots_ok_record)

lemma settled_weights: "sl_weights (prepare clock free s) = sl_weights s"
proof -
  have "sl_weights (fold (settle_one clock) ended s) = sl_weights s" for ended
    by (induction ended arbitrary: s) (simp_all add: settle_one_def slots_record_def)
  then show ?thesis by (simp add: prepare_def Let_def settle_ended_def slots_record_def)
qed


lemma worker_claim_kind:
  assumes "worker_claim cc heavy tbl = (Some t, tbl')"
  shows "kind t \<notin> set heavy"
proof -
  let ?E = "eligible (cc_now cc) (cc_env cc) heavy (cc_budgets cc) (cc_locked cc)"
  obtain x xs where xs: "filter ?E tbl = x # xs"
    using assms by (cases "filter ?E tbl") (simp_all add: worker_claim_def claim_task_def)
  let ?first = "min_by (CLAIM_ORDER (cc_sources cc)) x xs"
  have "?first \<in> set (filter ?E tbl)" using min_by_in [of _ x xs] xs by simp
  then have "eligible (cc_now cc) (cc_env cc) heavy (cc_budgets cc) (cc_locked cc) ?first" by simp
  moreover have "t = claim_row (cc_now cc) (cc_worker cc) ?first"
    using assms xs by (simp add: worker_claim_def claim_task_def Let_def)
  ultimately show ?thesis by (cases heavy) (simp_all add: eligible_def kinds_clause_def claim_row_def)
qed

text \<open>A pass that takes a task had the slots for it, or held nothing.\<close>

lemma slots_step_cases:
  assumes "slots_step clock free cc exhausted s tbl = (e, s', tbl')"
  obtains (waited) "e = Waited" "s' = prepare clock free s"
  | (ran) t where "e = Ran_inline t" "s' = slots_record clock exhausted (prepare clock free s)"
      "sl_held (prepare clock free s) = [] \<or> held_slots (sl_held (prepare clock free s)) + kind_weight (sl_weights s) (kind t)
         \<le> lim_limit (sl_limiter (prepare clock free s))"
  | (started) t where "e = Started t" "s' = (prepare clock free s)\<lparr>sl_held :=
        (tid t, kind_weight (sl_weights s) (kind t)) # unhold (tid t) (sl_held (prepare clock free s))\<rparr>"
      "sl_held (prepare clock free s) = [] \<or> held_slots (sl_held (prepare clock free s)) + kind_weight (sl_weights s) (kind t)
         \<le> lim_limit (sl_limiter (prepare clock free s))"
proof -
  let ?s = "prepare clock free s"
  let ?room = "lim_limit (sl_limiter ?s) - held_slots (sl_held ?s)"
  let ?heavy = "map fst (filter (\<lambda>(k, w). w > ?room) (sl_weights ?s))"
  let ?claim = "if sl_held ?s = [] then worker_claim cc [] tbl
      else if ?room > 0 \<and> \<not> short_of_memory free ?s then worker_claim cc ?heavy tbl else (None, tbl)"
  obtain task tbl1 where claim: "?claim = (task, tbl1)" by fastforce
  have fits: "sl_held ?s = [] \<or> held_slots (sl_held ?s) + kind_weight (sl_weights s) (kind t)
      \<le> lim_limit (sl_limiter ?s)" if "task = Some t" for t
  proof (cases "sl_held ?s = []")
    case False
    have room: "?room > 0" and claimed: "worker_claim cc ?heavy tbl = (Some t, tbl1)"
      using claim that False by (simp_all split: if_splits)
    note light = worker_claim_kind [OF claimed]
    have "w \<le> ?room" if "map_of (sl_weights ?s) (kind t) = Some w" for w
      using map_of_SomeD [OF that] light by force
    then show ?thesis using room
      by (auto simp: kind_weight_def coalesce_def settled_weights split: option.split)
  qed simp
  have step: "slots_step clock free cc exhausted s tbl =
      (case task of
        None \<Rightarrow> (Waited, ?s, tbl1)
      | Some t \<Rightarrow>
          if kind t \<notin> set THREADED_KINDS then (Ran_inline t, slots_record clock exhausted ?s, tbl1)
          else (Started t,
                ?s\<lparr>sl_held := (tid t, kind_weight (sl_weights s) (kind t)) # unhold (tid t) (sl_held ?s)\<rparr>,
                tbl1))"
    unfolding slots_step_def Let_def claim by (simp add: settled_weights split: option.split)
  show thesis
    using assms fits waited ran started unfolding step by (auto split: option.splits if_splits)
qed

lemma slots_ok_reach: "slots_reach C s threads \<Longrightarrow> slots_ok C s threads"
proof (induction rule: slots_reach.induct)
  case (start n clock)
  then show ?case
    by (simp add: slots_ok_def Slots_of_def AdaptiveLimiter_of_def limiter_ok_def held_slots_def)
next
  case (configured s threads cap weights mb)
  then show ?case by (auto simp: slots_ok_def configure_def limiter_ok_def)
next
  case (ended s threads i exhausted)
  then show ?case
    by (auto simp: slots_ok_def thread_ends_def unhold_def distinct_map_filter)
next
  case (waited s threads clock free cc exhausted tbl s' tbl')
  then show ?case by (auto elim!: slots_step_cases intro: slots_ok_prepare)
next
  case (ran s threads clock free cc exhausted tbl t s' tbl')
  then show ?case by (auto elim!: slots_step_cases intro: slots_ok_prepare slots_ok_record)
next
  case (started s threads clock free cc exhausted tbl t s' tbl')
  let ?s = "prepare clock free s" and ?w = "kind_weight (sl_weights s) (kind t)"
  have ok: "slots_ok C ?s threads" using started by (blast intro: slots_ok_prepare)
  have s': "s' = ?s\<lparr>sl_held := (tid t, ?w) # sl_held ?s\<rparr>"
    and room: "sl_held ?s = [] \<or> held_slots (sl_held ?s) + ?w \<le> lim_limit (sl_limiter ?s)"
    using started.hyps unhold_absent [OF started.hyps(3)] by (auto elim!: slots_step_cases)
  have "1 \<le> ?w"
    using ok by (auto simp: slots_ok_def kind_weight_def coalesce_def settled_weights list_all_iff
        split: option.split dest!: map_of_SomeD)
  moreover have "tid t \<notin> fst ` set (sl_ended ?s)"
    by (simp add: prepare_def Let_def settle_ended_def slots_record_def)
  ultimately show ?case
    using ok room started.hyps(3)
    by (auto simp: slots_ok_def s' held_slots_def limiter_ok_def)
qed


lemma held_slots_subset:
  assumes "distinct threads" "set threads \<subseteq> set held" "list_all (\<lambda>h. 1 \<le> snd h) held"
  shows "held_slots threads \<le> held_slots held"
proof -
  have "sum snd (set hs) \<le> sum_list (map snd hs)" if "list_all (\<lambda>h. 1 \<le> snd h) hs" for hs :: "(int \<times> int) list"
    using that by (induction hs) (auto simp: sum.insert_if)
  moreover have "sum snd (set threads) \<le> sum snd (set held)"
    using assms by (intro sum_mono2) (auto simp: list_all_iff)
  ultimately show ?thesis
    using assms(1,3) by (fastforce simp: held_slots_def sum_list_distinct_conv_sum_set)
qed

lemma task_ceiling_bounds:
  "1 \<le> task_ceiling ts config w max_size" "task_ceiling ts config w max_size \<le> max 1 (max_size div 2)"
  by (simp_all add: task_ceiling_def Let_def)


definition sample_call :: claim_call where
  "sample_call =
     \<lparr>cc_now = 5, cc_env = \<lparr>known_kinds = [''ingest_source''], worker_kinds = [], exclude_kinds = [],
      egress = ''oci''\<rparr>, cc_worker = ''oci'', cc_sources = [], cc_budgets = [], cc_locked = []\<rparr>"

definition sample_pull :: Task where
  "sample_pull = new_task 0 7 ''ingest_source'' [] None None"


end
