(* ===== verification/Entitlements.thy ===== *)
theory Entitlements
  imports Receipts Submission
begin

text \<open>
  Who may spend on models and where it is counted (\<open>api/budget/__init__.py\<close>,
  \<open>api/budget/booking.py\<close>), with the catalogue \<open>api/ai/__init__.py\<close> projects from the registry
  and the settings rows of \<open>api/user_settings.py\<close> it reads. The server's environment is an
  argument, as is decryption of a stored key.
\<close>

section \<open>The server's models\<close>

record server =
  sv_environ :: "string \<Rightarrow> string option"
  sv_owner_key_models :: "string list"
  sv_decrypt :: "string \<Rightarrow> string"

definition server_key :: "server \<Rightarrow> string \<Rightarrow> string" where
  "server_key sv prov =
     (case map_of PROVIDERS prov of
        None \<Rightarrow> ''''
      | Some p \<Rightarrow> coalesce (sv_environ sv (api_key_env p)) '''')"

definition DEFAULT_MODELS :: "(string \<times> string option) list" where
  "DEFAULT_MODELS =
     map (\<lambda>(name, p). (name, case p_models p of [] \<Rightarrow> None | m # _ \<Rightarrow> Some (m_name m))) PROVIDERS
     @ [(''openai_compatible'', None)]"

definition default_model :: "string \<Rightarrow> string option" where
  "default_model prov = Option.bind (map_of DEFAULT_MODELS prov) id"

definition catalog_of :: "Provider \<Rightarrow> string list" where
  "catalog_of p = map m_name (filter selectable (p_models p))"

definition MODEL_CATALOG :: "(string \<times> string list) list" where
  "MODEL_CATALOG = map (\<lambda>(name, p). (name, catalog_of p)) PROVIDERS @ [(''openai_compatible'', [])]"

definition keyed_models :: "server \<Rightarrow> string list" where
  "keyed_models sv = concat (map snd (filter (\<lambda>(prov, ms). server_key sv prov \<noteq> '''') MODEL_CATALOG))"

definition owner_models :: "server \<Rightarrow> bool \<Rightarrow> string list" where
  "owner_models sv unlimited =
     sort (concat (map (\<lambda>(name, p).
       if server_key sv name = '''' then []
       else filter (\<lambda>m. unlimited \<or> m \<in> set (sv_owner_key_models sv)) (catalog_of p)) PROVIDERS))"

section \<open>Entitlement\<close>

record GroupBudget =
  group_name :: string
  weekly_token_budget :: "int option"
  allowed_models :: "string list option"

record Credentials =
  cr_api_key_enc :: "string option"
  cr_provider :: string
  cr_base_url :: "string option"
  cr_model :: "string option"
  cr_params :: object

record Entitlement =
  en_owner_key :: bool
  en_weekly_token_budget :: "int option"
  en_spent_this_week :: int
  en_has_byo_key :: bool
  en_groups :: "string list"

definition budget_exhausted :: "Entitlement \<Rightarrow> bool" where
  "budget_exhausted e =
     (case en_weekly_token_budget e of None \<Rightarrow> False | Some cap \<Rightarrow> en_spent_this_week e \<ge> cap)"

definition entitlement_key_source :: "Entitlement \<Rightarrow> string option" where
  "entitlement_key_source e =
     (if en_has_byo_key e then Some ''byo''
      else if en_owner_key e \<and> \<not> budget_exhausted e then Some ''owner'' else None)"

definition group_rows :: "string list \<Rightarrow> GroupBudget list \<Rightarrow> GroupBudget list" where
  "group_rows groups rows = filter (\<lambda>r. group_name r \<in> set groups) rows"

definition owner_budget :: "string list \<Rightarrow> GroupBudget list \<Rightarrow> bool \<times> int option" where
  "owner_budget groups rows =
     (if groups = [] then (False, None)
      else case map weekly_token_budget (group_rows groups rows) of
        [] \<Rightarrow> (False, None)
      | b # bs \<Rightarrow>
          if list_ex (\<lambda>x. x = None) (b # bs) then (True, None)
          else (True, Some (foldr max (map the bs) (the b))))"

text \<open>Seven days of the calls a person made on the owner's key.\<close>

definition in_week :: "instant \<Rightarrow> Call \<Rightarrow> bool" where
  "in_week now c \<longleftrightarrow> ca_created_at c \<ge> now - 7 * 86400 * usec_per_second"

definition spent_this_week :: "instant \<Rightarrow> Call list \<Rightarrow> int \<Rightarrow> int" where
  "spent_this_week now calls uid =
     sum_list (map ca_total (filter (\<lambda>c. ca_user_id c = Some uid \<and> ca_key_source c = ''owner''
       \<and> in_week now c) calls))"

definition has_own_key :: "Credentials \<Rightarrow> bool" where
  "has_own_key cr \<longleftrightarrow> cr_api_key_enc cr \<noteq> None"

definition get_entitlement ::
  "instant \<Rightarrow> GroupBudget list \<Rightarrow> Call list \<Rightarrow> Credentials \<Rightarrow> int \<Rightarrow> string list \<Rightarrow> Entitlement" where
  "get_entitlement now rows calls cr uid groups =
     (case owner_budget groups rows of (owner, weekly) \<Rightarrow>
        \<lparr>en_owner_key = owner, en_weekly_token_budget = weekly,
         en_spent_this_week = (if owner then spent_this_week now calls uid else 0),
         en_has_byo_key = has_own_key cr, en_groups = groups\<rparr>)"

definition owner_allowed_models :: "server \<Rightarrow> GroupBudget list \<Rightarrow> string list \<Rightarrow> string list" where
  "owner_allowed_models sv rows groups =
     (if groups = [] then []
      else
        let allowed = concat (map (\<lambda>r. case allowed_models r of
                          Some ms \<Rightarrow> ms
                        | None \<Rightarrow> owner_models sv (weekly_token_budget r = None)) (group_rows groups rows)) in
        sort (remdups (filter (\<lambda>m. m \<in> set (keyed_models sv)) allowed)))"

section \<open>Resolving a configuration\<close>

datatype access_reason = NO_API_KEY | NO_MODEL | BUDGET_EXCEEDED

text \<open>The format \<open>{:,}\<close> of an integer: groups of three digits.\<close>

fun group_digits :: "string \<Rightarrow> string" where
  "group_digits (a # b # c # d # rest) = a # b # c # CHR '','' # group_digits (d # rest)"
| "group_digits s = s"

definition commas :: "int \<Rightarrow> string" where
  "commas n = (if n < 0 then ''-'' else '''') @ rev (group_digits (rev (show_int (abs n))))"

definition access_message :: "access_reason \<Rightarrow> Entitlement \<Rightarrow> string" where
  "access_message reason e =
     (case reason of
        NO_MODEL \<Rightarrow> ''Choose a model for your provider under AI & keys.''
      | NO_API_KEY \<Rightarrow> ''There is no available key to run on. Add your own API key under AI & keys.''
      | BUDGET_EXCEEDED \<Rightarrow>
          ''The shared weekly AI budget is used up: '' @ commas (en_spent_this_week e) @ '' of ''
          @ commas (coalesce (en_weekly_token_budget e) 0) @ '' tokens ''
          @ ''counted over the last seven days. Tokens free up as older use passes seven days. ''
          @ ''To keep going now, add your own API key under AI & keys; your own key has no cap ''
          @ ''and is billed to you.'')"

record AIConfig =
  cf_provider :: string
  cf_api_key :: string
  cf_key_source :: string
  cf_model :: string
  cf_base_url :: "string option"
  cf_params :: object
  cf_substituted_from :: "string option"
  cf_substitution_reason :: "string option"
  cf_fallback_from :: "string option"

definition owner_choice :: "string list \<Rightarrow> string option \<Rightarrow> string option" where
  "owner_choice allowed chosen =
     (if chosen \<noteq> None \<and> the chosen \<in> set allowed then chosen
      else if default_model ''openai'' \<noteq> None \<and> the (default_model ''openai'') \<in> set allowed
      then default_model ''openai''
      else case allowed of [] \<Rightarrow> None | a # _ \<Rightarrow> Some a)"

definition resolve_ai_config ::
  "server \<Rightarrow> GroupBudget list \<Rightarrow> Credentials \<Rightarrow> Entitlement \<Rightarrow> access_reason + AIConfig" where
  "resolve_ai_config sv rows cr e =
     (if en_has_byo_key e \<and> truthy (cr_api_key_enc cr)
      then
        (case (if truthy (cr_model cr) then cr_model cr else default_model (cr_provider cr)) of
           None \<Rightarrow> Inl NO_MODEL
         | Some m \<Rightarrow>
             if m = '''' then Inl NO_MODEL
             else Inr \<lparr>cf_provider = cr_provider cr, cf_api_key = sv_decrypt sv (the (cr_api_key_enc cr)),
                       cf_key_source = ''byo'', cf_model = m, cf_base_url = cr_base_url cr,
                       cf_params = cr_params cr, cf_substituted_from = None,
                       cf_substitution_reason = None, cf_fallback_from = None\<rparr>)
      else if \<not> en_owner_key e then Inl NO_API_KEY
      else if budget_exhausted e then Inl BUDGET_EXCEEDED
      else
        let allowed = owner_allowed_models sv rows (en_groups e);
            chosen = cr_model cr;
            substituted = truthy chosen \<and> the chosen \<notin> set allowed in
        case owner_choice allowed chosen of
          None \<Rightarrow> Inl NO_API_KEY
        | Some m \<Rightarrow>
            if m = '''' then Inl NO_API_KEY
            else
              let prov = coalesce (provider_of (Some m)) ''openai'' in
              Inr \<lparr>cf_provider = prov, cf_api_key = server_key sv prov, cf_key_source = ''owner'',
                   cf_model = m, cf_base_url = None,
                   cf_params = filter (\<lambda>kv. fst kv \<noteq> ''temperature'') (cr_params cr),
                   cf_substituted_from = (if substituted then chosen else None),
                   cf_substitution_reason =
                     (if substituted
                      then Some (the chosen @ '' is not available on shared credits; '' @ m
                             @ '' was used instead. Add your own API key to choose freely.'')
                      else None),
                   cf_fallback_from = None\<rparr>)"

text \<open>\<open>load_config\<close> of a known user; with \<open>ignore_budget\<close> the shared cap is lifted.\<close>

definition load_config ::
  "server \<Rightarrow> instant \<Rightarrow> GroupBudget list \<Rightarrow> Call list \<Rightarrow> Credentials \<Rightarrow> int \<Rightarrow> string list \<Rightarrow> bool
   \<Rightarrow> access_reason + Entitlement \<times> AIConfig" where
  "load_config sv now rows calls cr uid groups ignore_budget =
     (let e0 = get_entitlement now rows calls cr uid groups;
          e = (if ignore_budget \<and> en_owner_key e0 then e0\<lparr>en_weekly_token_budget := None\<rparr> else e0) in
      and_then (resolve_ai_config sv rows cr e) (\<lambda>cfg. Inr (e, cfg)))"

section \<open>Booking\<close>

record Booking =
  bk_payer :: payer
  bk_key_source :: string
  bk_purpose :: string

text \<open>A live call's row; \<open>None\<close> when its provider reported no tokens.\<close>

definition live_row ::
  "instant \<Rightarrow> Booking \<Rightarrow> string option \<Rightarrow> usage_tuple option \<Rightarrow> Call option result" where
  "live_row now bk mdl usage =
     (case usage of
        None \<Rightarrow> Inr None
      | Some u \<Rightarrow>
          if ut_total u = 0 then Inr None
          else and_then (estimate_cost_usd mdl (Some (ut_prompt u)) (Some (ut_completion u))
                 (Some (ut_cached u)) False None (Receipt (ut_cache_write u)))
            (\<lambda>cost. Inr (Some
              \<lparr>ca_purpose = bk_purpose bk, ca_model = mdl, ca_payer = fst (bk_payer bk),
               ca_user_id = (if fst (bk_payer bk) = ''user'' then snd (bk_payer bk) else None),
               ca_managed_board_id = (if fst (bk_payer bk) = ''managed_board'' then snd (bk_payer bk) else None),
               ca_key_source = bk_key_source bk, ca_task_id = None, ca_batch_id = None,
               ca_custom_id = None, ca_prompt = ut_prompt u, ca_completion = ut_completion u,
               ca_total = ut_total u, ca_cached = ut_cached u, ca_cache_write = ut_cache_write u,
               ca_reasoning = ut_reasoning u, ca_cost = cost, ca_created_at = now\<rparr>)))"

definition book ::
  "instant \<Rightarrow> Booking \<Rightarrow> string option \<Rightarrow> usage_tuple option \<Rightarrow> bool \<Rightarrow> Call list \<Rightarrow> Call list result" where
  "book now bk mdl usage batched calls =
     (if batched then Inr calls
      else and_then (live_row now bk mdl usage)
        (\<lambda>row. Inr (case row of None \<Rightarrow> calls | Some c \<Rightarrow> insert_call c calls)))"

definition record_tokens ::
  "instant \<Rightarrow> int \<Rightarrow> string \<Rightarrow> string \<Rightarrow> string option \<Rightarrow> usage_tuple option \<Rightarrow> bool \<Rightarrow> Call list \<Rightarrow> Call list result" where
  "record_tokens now uid source purp mdl usage batched =
     book now \<lparr>bk_payer = (''user'', Some uid), bk_key_source = source, bk_purpose = purp\<rparr> mdl usage batched"

definition record_managed_board_tokens ::
  "instant \<Rightarrow> int \<Rightarrow> string \<Rightarrow> string option \<Rightarrow> usage_tuple option \<Rightarrow> bool \<Rightarrow> Call list \<Rightarrow> Call list result" where
  "record_managed_board_tokens now board purp mdl usage batched =
     book now \<lparr>bk_payer = (''managed_board'', Some board), bk_key_source = ''owner'', bk_purpose = purp\<rparr>
       mdl usage batched"

section \<open>Access\<close>

lemma server_key_declared: "(prov, p) \<in> set PROVIDERS \<Longrightarrow> p \<in> set MODULES \<and> p_name p = prov"
  by (auto simp: PROVIDERS_def)

text \<open>A keyed model's provider is one the server has a key for.\<close>

lemma keyed_model_provider:
  assumes "m \<in> set (keyed_models sv)"
  obtains prov where "provider_of (Some m) = Some prov" "server_key sv prov \<noteq> ''''"
proof -
  obtain prov p where p: "(prov, p) \<in> set PROVIDERS" "server_key sv prov \<noteq> ''''" "m \<in> set (catalog_of p)"
    using assms by (auto simp: keyed_models_def MODEL_CATALOG_def split: if_splits)
  then obtain d where d: "d \<in> set (p_models p)" "m_name d = m" by (auto simp: catalog_of_def)
  have "(m, (prov, d)) \<in> set MODELS"
    using server_key_declared [OF p(1)] d by (force simp: MODELS_eq entries_def)
  then show thesis using that p(2) provider_of_Some_iff by blast
qed

lemma owner_choice_allowed: "owner_choice allowed chosen = Some m \<Longrightarrow> m \<in> set allowed"
  by (auto simp: owner_choice_def split: if_splits list.splits)

lemma owner_choice_None: "owner_choice allowed chosen = None \<longleftrightarrow> allowed = []"
  by (auto simp: owner_choice_def split: list.splits)

lemma owner_choice_kept:
  "owner_choice allowed chosen = Some m \<Longrightarrow> chosen = Some m \<longleftrightarrow> (\<exists>c. chosen = Some c \<and> c \<in> set allowed)"
  using owner_choice_allowed [of allowed chosen m] by (auto simp: owner_choice_def split: if_splits)

lemma allowed_keyed: "m \<in> set (owner_allowed_models sv rows groups) \<Longrightarrow> m \<in> set (keyed_models sv)"
  by (auto simp: owner_allowed_models_def Let_def split: if_splits)

lemma keyed_not_empty: "'''' \<notin> set (keyed_models sv)"
proof
  assume "'''' \<in> set (keyed_models sv)"
  then obtain prov where "provider_of (Some '''') = Some prov" by (rule keyed_model_provider)
  then obtain m where "('''', (prov, m)) \<in> set MODELS" by (auto simp: provider_of_Some_iff)
  then show False using MODELS_keys MODELS_models_ok by (force simp: model_ok_def)
qed

definition own_key :: "Credentials \<Rightarrow> Entitlement \<Rightarrow> bool" where
  "own_key cr e \<longleftrightarrow> en_has_byo_key e \<and> truthy (cr_api_key_enc cr)"

lemma resolve_shared:
  assumes "\<not> own_key cr e" "en_owner_key e" "\<not> budget_exhausted e"
  shows "resolve_ai_config sv rows cr e =
    (let allowed = owner_allowed_models sv rows (en_groups e);
         substituted = truthy (cr_model cr) \<and> the (cr_model cr) \<notin> set allowed in
     case owner_choice allowed (cr_model cr) of
       None \<Rightarrow> Inl NO_API_KEY
     | Some m \<Rightarrow>
         if m = '''' then Inl NO_API_KEY
         else
           let prov = coalesce (provider_of (Some m)) ''openai'' in
           Inr \<lparr>cf_provider = prov, cf_api_key = server_key sv prov, cf_key_source = ''owner'',
                cf_model = m, cf_base_url = None,
                cf_params = filter (\<lambda>kv. fst kv \<noteq> ''temperature'') (cr_params cr),
                cf_substituted_from = (if substituted then cr_model cr else None),
                cf_substitution_reason =
                  (if substituted
                   then Some (the (cr_model cr) @ '' is not available on shared credits; '' @ m
                          @ '' was used instead. Add your own API key to choose freely.'')
                   else None),
                cf_fallback_from = None\<rparr>)"
  using assms unfolding resolve_ai_config_def own_key_def [symmetric] Let_def by simp

lemma resolve_refused:
  assumes "\<not> own_key cr e"
  shows "\<not> en_owner_key e \<Longrightarrow> resolve_ai_config sv rows cr e = Inl NO_API_KEY"
    "en_owner_key e \<Longrightarrow> budget_exhausted e \<Longrightarrow> resolve_ai_config sv rows cr e = Inl BUDGET_EXCEEDED"
  using assms unfolding resolve_ai_config_def own_key_def [symmetric] Let_def by simp_all

lemma own_key_config:
  "own_key cr e \<Longrightarrow> resolve_ai_config sv rows cr e = Inr cfg \<Longrightarrow> cf_key_source cfg = ''byo''"
  by (auto simp: resolve_ai_config_def own_key_def split: option.splits if_splits)

lemma shared_grant:
  assumes "resolve_ai_config sv rows cr e = Inr cfg" "cf_key_source cfg = ''owner''"
  shows "en_owner_key e" "\<not> budget_exhausted e"
proof -
  have own: "\<not> own_key cr e" using own_key_config [OF _ assms(1)] assms(2) by auto
  show "en_owner_key e" "\<not> budget_exhausted e"
    using resolve_refused [OF own, of sv rows] assms(1) by auto
qed

text \<open>
  Access to a model is decided by the person's key, the shared budget and the server's keys.
  A person with a key of their own runs on it, refused only when no model is named or default;
  without one, a refusal means no group grants credits or no allowed model has a server key, or
  the shared week is used up. A configuration on the shared key is granted only inside the budget,
  names a model the person's groups allow and the server holds a key for, carries that key and
  that model's provider, never a temperature, and reports a substitution exactly when the person
  chose another model.
\<close>

theorem access_is_decided_by_key_budget_and_models:
  "case resolve_ai_config sv rows cr e of
     Inl NO_MODEL \<Rightarrow> own_key cr e \<and> \<not> truthy (cr_model cr) \<and> \<not> truthy (default_model (cr_provider cr))
   | Inl NO_API_KEY \<Rightarrow> \<not> own_key cr e
       \<and> (if en_owner_key e then \<not> budget_exhausted e \<and> owner_allowed_models sv rows (en_groups e) = []
          else True)
   | Inl BUDGET_EXCEEDED \<Rightarrow> \<not> own_key cr e \<and> en_owner_key e \<and> budget_exhausted e
   | Inr cfg \<Rightarrow> cf_model cfg \<noteq> ''''
       \<and> (if own_key cr e then cf_key_source cfg = ''byo'' \<and> cf_substituted_from cfg = None
          else cf_key_source cfg = ''owner'' \<and> en_owner_key e \<and> \<not> budget_exhausted e
            \<and> cf_model cfg \<in> set (owner_allowed_models sv rows (en_groups e))
            \<and> provider_of (Some (cf_model cfg)) = Some (cf_provider cfg)
            \<and> cf_api_key cfg = server_key sv (cf_provider cfg) \<and> cf_api_key cfg \<noteq> ''''
            \<and> get (cf_params cfg) ''temperature'' = None
            \<and> cf_substituted_from cfg =
                (if truthy (cr_model cr) \<and> cr_model cr \<noteq> Some (cf_model cfg) then cr_model cr else None))"
proof (cases "own_key cr e")
  case True
  then show ?thesis
    by (auto simp: resolve_ai_config_def own_key_def truthy_def split: option.split sum.split if_splits)
next
  case own: False
  let ?allowed = "owner_allowed_models sv rows (en_groups e)"
  show ?thesis
  proof (cases "en_owner_key e \<and> \<not> budget_exhausted e")
    case False
    then show ?thesis using own resolve_refused [OF own] by (cases "en_owner_key e") simp_all
  next
    case granted: True
    show ?thesis
    proof (cases "owner_choice ?allowed (cr_model cr)")
      case None
      then show ?thesis
        using own granted owner_choice_None [of ?allowed "cr_model cr"] by (simp add: resolve_shared Let_def)
    next
      case (Some m)
      have m: "m \<in> set ?allowed" by (rule owner_choice_allowed [OF Some])
      obtain prov where prov: "provider_of (Some m) = Some prov" "server_key sv prov \<noteq> ''''"
        using keyed_model_provider [OF allowed_keyed [OF m]] .
      have "m \<noteq> ''''" using keyed_not_empty allowed_keyed [OF m] by blast
      moreover have "(truthy (cr_model cr) \<and> the (cr_model cr) \<notin> set ?allowed)
          = (truthy (cr_model cr) \<and> cr_model cr \<noteq> Some m)"
        using owner_choice_kept [OF Some] by (auto simp: truthy_def)
      moreover have "get (filter (\<lambda>kv. fst kv \<noteq> ''temperature'') kvs) ''temperature'' = None" for kvs :: object
        by (auto simp: get_def map_of_eq_None_iff)
      ultimately show ?thesis
        using own granted Some m prov
        by (simp add: resolve_shared Let_def coalesce_def)
    qed
  qed
qed


section \<open>Counting what was spent\<close>

definition tokens_of :: "usage_tuple option \<Rightarrow> int" where
  "tokens_of usage = (case usage of None \<Rightarrow> 0 | Some u \<Rightarrow> ut_total u)"

lemma insert_live_call: "ca_batch_id c = None \<Longrightarrow> insert_call c calls = calls @ [c]"
  by (simp add: insert_call_def)

lemma spent_append:
  "spent_this_week now (calls @ calls') uid = spent_this_week now calls uid + spent_this_week now calls' uid"
  by (simp add: spent_this_week_def)

text \<open>Booking a live call counts its tokens once; a batched one was counted at its checkpoint.\<close>

lemma record_tokens_counts:
  "\<exists>new. record_tokens now uid source purp mdl usage batched calls = Inr (calls @ new)
     \<and> spent_this_week now new u =
         (if u = uid \<and> source = ''owner'' \<and> \<not> batched then tokens_of usage else 0)
     \<and> list_all (\<lambda>c. ca_user_id c = Some uid \<and> ca_created_at c = now) new"
proof -
  let ?bk = "\<lparr>bk_payer = (''user'', Some uid), bk_key_source = source, bk_purpose = purp\<rparr>"
  consider (batched) "batched" | (zero) "\<not> batched" "tokens_of usage = 0"
    | (live) v where "\<not> batched" "usage = Some v" "ut_total v \<noteq> 0"
    by (cases usage) (auto simp: tokens_of_def)
  then show ?thesis
  proof cases
    case batched
    then show ?thesis by (auto simp: record_tokens_def book_def spent_this_week_def)
  next
    case zero
    then have "record_tokens now uid source purp mdl usage batched calls = Inr (calls @ [])"
      by (auto simp: record_tokens_def book_def live_row_def tokens_of_def split: option.splits)
    then show ?thesis using zero(2) by (intro exI [of _ "[]"]) (simp add: spent_this_week_def)
  next
    case (live v)
    obtain cost where cost: "estimate_cost_usd mdl (Some (ut_prompt v)) (Some (ut_completion v))
        (Some (ut_cached v)) False None (Receipt (ut_cache_write v)) = Inr cost"
      using estimate_no_raise by blast
    obtain c where c: "live_row now ?bk mdl usage = Inr (Some c)" "ca_batch_id c = None"
        "ca_user_id c = Some uid" "ca_key_source c = source" "ca_total c = ut_total v" "ca_created_at c = now"
      using live cost by (simp add: live_row_def)
    have "record_tokens now uid source purp mdl usage batched calls = Inr (calls @ [c])"
      using live c(1) insert_live_call [OF c(2)] by (simp add: record_tokens_def book_def)
    moreover have "in_week now c" using c(6) by (simp add: in_week_def)
    ultimately show ?thesis
      using c live by (auto simp: spent_this_week_def tokens_of_def)
  qed
qed


definition sample_server :: server where
  "sample_server =
     \<lparr>sv_environ = (\<lambda>v. if v = ''OPENAI_API_KEY'' then Some ''sk'' else None),
      sv_owner_key_models = [''gpt-6-luna''], sv_decrypt = id\<rparr>"

definition sample_credentials :: Credentials where
  "sample_credentials =
     \<lparr>cr_api_key_enc = None, cr_provider = ''openai'', cr_base_url = None, cr_model = None, cr_params = []\<rparr>"

definition sample_groups :: "GroupBudget list" where
  "sample_groups =
     [\<lparr>group_name = ''members'', weekly_token_budget = Some 1000, allowed_models = Some [''gpt-6-luna'']\<rparr>]"


lemma sample_access:
  "\<exists>e cfg. load_config sample_server 10 sample_groups [] sample_credentials 3 [''members''] False = Inr (e, cfg)
     \<and> cf_key_source cfg = ''owner''"
proof -
  let ?e = "get_entitlement 10 sample_groups [] sample_credentials 3 [''members'']"
  have owner: "owner_budget [''members''] sample_groups = (True, Some 1000)"
    by (simp add: owner_budget_def group_rows_def sample_groups_def)
  have own: "\<not> own_key sample_credentials ?e" by (simp add: own_key_def sample_credentials_def truthy_def)
  have ok: "en_owner_key ?e" "\<not> budget_exhausted ?e"
    by (simp_all add: get_entitlement_def owner budget_exhausted_def spent_this_week_def)
  have "server_key sample_server ''openai'' = ''sk''"
    by (simp add: server_key_def PROVIDERS_def MODULES_def openai_PROVIDER_def sample_server_def coalesce_def)
  then have "''gpt-6-luna'' \<in> set (keyed_models sample_server)"
    by (simp add: keyed_models_def MODEL_CATALOG_def PROVIDERS_def MODULES_def openai_PROVIDER_def catalog_of_def
        openai_models_def Model_of_def)
  then have "owner_allowed_models sample_server sample_groups (en_groups ?e) = [''gpt-6-luna'']"
    by (simp add: owner_allowed_models_def Let_def group_rows_def sample_groups_def get_entitlement_def
        split: prod.split)
  then obtain m where m: "owner_choice (owner_allowed_models sample_server sample_groups (en_groups ?e))
      (cr_model sample_credentials) = Some m" "m = ''gpt-6-luna''"
    using owner_choice_allowed owner_choice_None by (metis list.distinct(1) list.set_intros(1) not_Some_eq
        set_ConsD set_empty empty_iff list.set(1))
  show ?thesis
    using m by (simp add: load_config_def resolve_shared [OF own ok] Let_def)
qed


end
