(* ===== verification/Regex.thy ===== *)
theory Regex
  imports Prelude
begin

text \<open>
  Regular expressions as the title screens use them: a parser of the pattern text and a matcher,
  for Python's \<open>re\<close> with \<open>IGNORECASE\<close> and for PostgreSQL's \<open>~*\<close>. The two dialects differ in the
  word boundary, spelled \<open>b\<close> or \<open>y\<close> after the backslash, in the dot, which passes over a newline
  only in PostgreSQL, and in the end anchor, which Python also accepts before a last newline. Text is
  ASCII. A pattern is written with a backquote for the backslash, which a string literal cannot
  hold; no pattern has a backquote, or an escaped backslash, of its own.
\<close>

section \<open>Syntax\<close>

datatype dialect = Python | PostgreSQL

datatype re =
    Eps
  | Chr char
  | Any
  | Class "char list"
  | Word_char
  | Digit
  | Space
  | Boundary
  | Start
  | End
  | Cat re re
  | Alt re re
  | Opt re
  | Star re
  | Look bool re

abbreviation BS :: char where "BS \<equiv> CHR ''`''"

definition escape_of :: "dialect \<Rightarrow> char \<Rightarrow> re option" where
  "escape_of d c =
     (if c = (case d of Python \<Rightarrow> CHR ''b'' | PostgreSQL \<Rightarrow> CHR ''y'') then Some Boundary
      else if c = CHR ''w'' then Some Word_char
      else if c = CHR ''d'' then Some Digit
      else if c = CHR ''s'' then Some Space
      else if c \<in> set ''.+*?()[]|^$/&-'' then Some (Chr c)
      else None)"

definition postfix :: "re \<Rightarrow> string \<Rightarrow> re \<times> string" where
  "postfix r s =
     (case s of
        [] \<Rightarrow> (r, s)
      | c # cs \<Rightarrow>
          if c = CHR ''*'' then (Star r, cs)
          else if c = CHR ''+'' then (Cat r (Star r), cs)
          else if c = CHR ''?'' then (Opt r, cs)
          else (r, s))"

text \<open>The characters of a class up to its closing bracket; no escapes and no ranges.\<close>

fun class_chars :: "string \<Rightarrow> (char list \<times> string) option" where
  "class_chars [] = None"
| "class_chars (c # cs) =
     (if c = CHR '']'' then Some ([], cs)
      else if c = BS then None
      else map_option (\<lambda>(ks, rest). (c # ks, rest)) (class_chars cs))"

text \<open>
  The parser, by recursive descent. Each call consumes fuel; \<open>parse\<close> gives it more than the
  pattern has characters.
\<close>

definition close_group :: "(re \<times> string) option \<Rightarrow> (re \<Rightarrow> re) \<Rightarrow> (re \<times> string) option" where
  "close_group inner f =
     (case inner of
        Some (r, c # rest) \<Rightarrow> if c = CHR '')'' then Some (f r, rest) else None
      | _ \<Rightarrow> None)"

fun parse_alt :: "dialect \<Rightarrow> nat \<Rightarrow> string \<Rightarrow> (re \<times> string) option"
and parse_seq :: "dialect \<Rightarrow> nat \<Rightarrow> string \<Rightarrow> (re \<times> string) option"
and parse_atom :: "dialect \<Rightarrow> nat \<Rightarrow> string \<Rightarrow> (re \<times> string) option"
and parse_group :: "dialect \<Rightarrow> nat \<Rightarrow> string \<Rightarrow> (re \<times> string) option" where
  "parse_alt d 0 s = None"
| "parse_alt d (Suc n) s =
     (case parse_seq d n s of
        None \<Rightarrow> None
      | Some (r, []) \<Rightarrow> Some (r, [])
      | Some (r, c # cs) \<Rightarrow>
          if c = CHR ''|'' then map_option (\<lambda>(r', rest). (Alt r r', rest)) (parse_alt d n cs)
          else Some (r, c # cs))"
| "parse_seq d 0 s = None"
| "parse_seq d (Suc n) s =
     (case s of
        [] \<Rightarrow> Some (Eps, [])
      | c # cs \<Rightarrow>
          if c = CHR ''|'' \<or> c = CHR '')'' then Some (Eps, s)
          else
            (case parse_atom d n s of
               None \<Rightarrow> None
             | Some (r, rest) \<Rightarrow>
                 (case postfix r rest of (r', rest') \<Rightarrow>
                    map_option (\<lambda>(r'', rest''). (Cat r' r'', rest'')) (parse_seq d n rest'))))"
| "parse_atom d 0 s = None"
| "parse_atom d (Suc n) s =
     (case s of
        [] \<Rightarrow> None
      | c # cs \<Rightarrow>
          if c = BS then
            (case cs of [] \<Rightarrow> None | e # rest \<Rightarrow> map_option (\<lambda>r. (r, rest)) (escape_of d e))
          else if c = CHR ''('' then parse_group d n cs
          else if c = CHR ''['' then map_option (\<lambda>(ks, rest). (Class ks, rest)) (class_chars cs)
          else if c = CHR ''.'' then Some (Any, cs)
          else if c = CHR ''^'' then Some (Start, cs)
          else if c = CHR ''$'' then Some (End, cs)
          else if c \<in> set ''*+?'' then None
          else Some (Chr c, cs))"
| "parse_group d 0 s = None"
| "parse_group d (Suc n) s =
     (case s of
        q # k # cs \<Rightarrow>
          if q \<noteq> CHR ''?'' then None
          else if k = CHR '':'' then close_group (parse_alt d n cs) id
          else if k = CHR ''!'' then close_group (parse_alt d n cs) (Look False)
          else if k = CHR ''='' then close_group (parse_alt d n cs) (Look True)
          else None
      | _ \<Rightarrow> None)"

definition parse :: "dialect \<Rightarrow> string \<Rightarrow> re option" where
  "parse d s =
     (case parse_alt d (3 * length s + 3) s of
        Some (r, []) \<Rightarrow> Some r
      | _ \<Rightarrow> None)"

section \<open>Matching\<close>

definition in_range :: "nat \<Rightarrow> nat \<Rightarrow> char \<Rightarrow> bool" where
  "in_range a b c \<longleftrightarrow> (let n = (of_char c :: nat) in a \<le> n \<and> n \<le> b)"

definition is_digit :: "char \<Rightarrow> bool" where "is_digit = in_range 48 57"

definition is_word :: "char \<Rightarrow> bool" where
  "is_word c \<longleftrightarrow> in_range 97 122 c \<or> in_range 65 90 c \<or> is_digit c \<or> c = CHR ''_''"

definition is_white :: "char \<Rightarrow> bool" where
  "is_white c \<longleftrightarrow> c = CHR '' '' \<or> in_range 9 13 c"

text \<open>A position is the text before it, reversed, and the text after it.\<close>

type_synonym position = "string \<times> string"

fun one_char :: "(char \<Rightarrow> bool) \<Rightarrow> position \<Rightarrow> position list" where
  "one_char p (past, []) = []"
| "one_char p (past, c # cs) = (if p c then [(c # past, cs)] else [])"

definition word_at :: "string \<Rightarrow> bool" where
  "word_at s = (case s of [] \<Rightarrow> False | c # _ \<Rightarrow> is_word c)"

definition at_end :: "dialect \<Rightarrow> string \<Rightarrow> bool" where
  "at_end d after \<longleftrightarrow> after = [] \<or> d = Python \<and> after = [CHR 0x0A]"

definition here :: "bool \<Rightarrow> position \<Rightarrow> position list" where
  "here b p = (if b then [p] else [])"

text \<open>Where a match of the expression that begins at the position can end.\<close>

function (sequential) ends :: "dialect \<Rightarrow> re \<Rightarrow> position \<Rightarrow> position list" where
  "ends d Eps p = [p]"
| "ends d (Chr c) p = one_char (\<lambda>x. lower_char x = lower_char c) p"
| "ends d Any p = one_char (\<lambda>x. d = PostgreSQL \<or> x \<noteq> CHR 0x0A) p"
| "ends d (Class ks) p = one_char (\<lambda>x. lower_char x \<in> set (map lower_char ks)) p"
| "ends d Word_char p = one_char is_word p"
| "ends d Digit p = one_char is_digit p"
| "ends d Space p = one_char is_white p"
| "ends d Boundary p = here (word_at (fst p) \<noteq> word_at (snd p)) p"
| "ends d Start p = here (fst p = []) p"
| "ends d End p = here (at_end d (snd p)) p"
| "ends d (Cat r s) p = concat (map (ends d s) (ends d r p))"
| "ends d (Alt r s) p = ends d r p @ ends d s p"
| "ends d (Opt r) p = ends d r p @ [p]"
| "ends d (Star r) p =
     concat (map (\<lambda>q. if length (snd q) < length (snd p) then ends d (Star r) q else []) (ends d r p)) @ [p]"
| "ends d (Look b r) p = here ((ends d r p \<noteq> []) = b) p"
  by pat_completeness auto
termination
  by (relation "measures [\<lambda>(d, r, p). size r, \<lambda>(d, r, p). length (snd p)]") auto

lemmas ends_Star = ends.simps(14)

declare ends_Star [simp del]

text \<open>\<open>search\<close>: a match that begins somewhere.\<close>

fun search_from :: "dialect \<Rightarrow> re \<Rightarrow> string \<Rightarrow> string \<Rightarrow> bool" where
  "search_from d r past [] = (ends d r (past, []) \<noteq> [])"
| "search_from d r past (c # cs) = (ends d r (past, c # cs) \<noteq> [] \<or> search_from d r (c # past) cs)"

definition search :: "dialect \<Rightarrow> re \<Rightarrow> string \<Rightarrow> bool" where
  "search d r s = search_from d r [] s"

section \<open>The dialects agree on text without newlines\<close>

lemma one_char_after: "q \<in> set (one_char p pos) \<Longrightarrow> set (snd q) \<subseteq> set (snd pos)"
  by (induction p pos rule: one_char.induct) (auto split: if_splits)

lemma ends_after: "q \<in> set (ends d r p) \<Longrightarrow> set (snd q) \<subseteq> set (snd p)"
proof (induction d r p arbitrary: q rule: ends.induct)
  case (11 d r s p)
  then obtain x where "x \<in> set (ends d r p)" "q \<in> set (ends d s x)" by auto
  then show ?case using 11 by blast
next
  case (14 d r p)
  consider "q = p" | x where "x \<in> set (ends d r p)" "length (snd x) < length (snd p)" "q \<in> set (ends d (Star r) x)"
    using "14.prems" by (auto simp: ends_Star [of d r p] split: if_splits)
  then show ?case
  proof cases
    case (2 x)
    then show ?thesis using "14.IH" by blast
  qed simp
next
  case (12 d r s p)
  then have "q \<in> set (ends d r p) \<or> q \<in> set (ends d s p)" by simp
  then show ?case using "12.IH" by blast
qed (auto simp: here_def dest: one_char_after split: if_splits)

lemma one_char_cong:
  "(\<And>c. c \<in> set (snd pos) \<Longrightarrow> p c = p' c) \<Longrightarrow> one_char p pos = one_char p' pos"
  by (cases pos; cases "snd pos") auto

text \<open>The newline is the only character on which the dialects differ.\<close>

lemma ends_dialect: "CHR 0x0A \<notin> set (snd p) \<Longrightarrow> ends d r p = ends d' r p"
proof (induction d r p rule: ends.induct)
  case (3 d p)
  then show ?case by (auto intro!: one_char_cong)
next
  case (10 d p)
  then show ?case by (auto simp: here_def at_end_def)
next
  case (11 d r s p)
  have "ends d r p = ends d' r p" using 11 by blast
  moreover have "ends d s q = ends d' s q" if "q \<in> set (ends d r p)" for q
    using 11 ends_after [OF that] that by blast
  ultimately show ?case by (simp cong: map_cong)
next
  case (14 d r p)
  have "ends d r p = ends d' r p" using 14 by blast
  moreover have "ends d (Star r) q = ends d' (Star r) q"
    if "q \<in> set (ends d r p)" "length (snd q) < length (snd p)" for q
    using 14 ends_after [OF that(1)] that by blast
  ultimately have "map (\<lambda>q. if length (snd q) < length (snd p) then ends d (Star r) q else []) (ends d r p)
      = map (\<lambda>q. if length (snd q) < length (snd p) then ends d' (Star r) q else []) (ends d' r p)"
    by (intro map_cong) auto
  then show ?case by (simp only: ends_Star [of d r p] ends_Star [of d' r p])
qed auto

lemma search_dialect:
  assumes "CHR 0x0A \<notin> set s"
  shows "search d r s = search d' r s"
proof -
  have "CHR 0x0A \<notin> set s \<Longrightarrow> search_from d r past s = search_from d' r past s" for past
    by (induction s arbitrary: past) (auto simp: ends_dialect [of _ d r d'])
  then show ?thesis using assms by (simp add: search_def)
qed

section \<open>Respelling a pattern\<close>

text \<open>\<open>str.replace\<close> of Python's word boundary by PostgreSQL's.\<close>

fun to_postgres :: "string \<Rightarrow> string" where
  "to_postgres [] = []"
| "to_postgres [c] = [c]"
| "to_postgres (c # e # cs) =
     (if c = BS \<and> e = CHR ''b'' then BS # CHR ''y'' # to_postgres cs else c # to_postgres (e # cs))"

text \<open>No backslash is itself escaped, and Python's pattern has no escape PostgreSQL would read otherwise.\<close>

fun plain_escapes :: "string \<Rightarrow> bool" where
  "plain_escapes [] = True"
| "plain_escapes (c # cs) =
     (if c = BS
      then (case cs of [] \<Rightarrow> False | e # rest \<Rightarrow> e \<noteq> BS \<and> e \<noteq> CHR ''y'' \<and> plain_escapes rest)
      else plain_escapes cs)"

lemma to_postgres_Cons: "c \<noteq> BS \<Longrightarrow> to_postgres (c # cs) = c # to_postgres cs"
  by (cases cs) auto

lemma to_postgres_escape:
  assumes "e \<noteq> BS"
  shows "to_postgres (BS # e # cs) = BS # (if e = CHR ''b'' then CHR ''y'' else e) # to_postgres cs"
  using assms to_postgres_Cons [of e cs] by auto

lemma plain_escapes_tl: "c \<noteq> BS \<Longrightarrow> plain_escapes (c # cs) \<Longrightarrow> plain_escapes cs"
  by simp

lemma escape_of_dialects:
  "e \<noteq> CHR ''y'' \<Longrightarrow> escape_of PostgreSQL (if e = CHR ''b'' then CHR ''y'' else e) = escape_of Python e"
  by (auto simp: escape_of_def)

definition respelled :: "(re \<times> string) option \<Rightarrow> (re \<times> string) option \<Rightarrow> bool" where
  "respelled x y \<longleftrightarrow>
     (case x of
        None \<Rightarrow> y = None
      | Some (r, rest) \<Rightarrow> plain_escapes rest \<and> y = Some (r, to_postgres rest))"

lemma class_chars_respelled:
  "plain_escapes s \<Longrightarrow> respelled (map_option (\<lambda>(ks, rest). (Class (f ks), rest)) (class_chars s))
     (map_option (\<lambda>(ks, rest). (Class (f ks), rest)) (class_chars (to_postgres s)))"
proof (induction s arbitrary: f)
  case (Cons c cs)
  consider "c = CHR '']''" | "c = BS" | "c \<noteq> CHR '']''" "c \<noteq> BS" by blast
  then show ?case
  proof cases
    case 1
    then show ?thesis using Cons.prems to_postgres_Cons [of c cs] by (simp add: respelled_def)
  next
    case 2
    then show ?thesis using Cons.prems by (cases cs) (auto simp: respelled_def)
  next
    case 3
    have "respelled (map_option (\<lambda>(ks, rest). (Class (f (c # ks)), rest)) (class_chars cs))
        (map_option (\<lambda>(ks, rest). (Class (f (c # ks)), rest)) (class_chars (to_postgres cs)))"
      using Cons.IH [of "\<lambda>ks. f (c # ks)"] Cons.prems 3 by simp
    then show ?thesis
      using 3 to_postgres_Cons [of c cs] by (simp add: option.map_comp comp_def split_def)
  qed
qed (simp add: respelled_def)


lemma postfix_respelled:
  assumes "plain_escapes s"
  shows "case postfix r s of (r', rest) \<Rightarrow> plain_escapes rest \<and> postfix r (to_postgres s) = (r', to_postgres rest)"
proof (cases s)
  case (Cons c cs)
  show ?thesis
  proof (cases "c = BS")
    case True
    then obtain e rest where cs: "cs = e # rest" "e \<noteq> BS" using assms Cons by (cases cs) auto
    then show ?thesis using assms Cons True to_postgres_escape [of e rest] by (auto simp: postfix_def)
  next
    case False
    then show ?thesis using assms Cons to_postgres_Cons [of c cs] by (auto simp: postfix_def)
  qed
qed (simp add: postfix_def)

lemma close_group_respelled:
  assumes "respelled x y"
  shows "respelled (close_group x f) (close_group y f)"
proof (cases x)
  case None
  then show ?thesis using assms by (simp add: respelled_def close_group_def)
next
  case (Some rr)
  obtain r rest where rr: "rr = (r, rest)" by fastforce
  show ?thesis
  proof (cases rest)
    case Nil
    then show ?thesis using assms Some rr by (simp add: respelled_def close_group_def)
  next
    case (Cons c cs)
    show ?thesis
    proof (cases "c = BS")
      case True
      then obtain e cs' where "cs = e # cs'" "e \<noteq> BS" using assms Some rr Cons by (cases cs) (auto simp: respelled_def)
      then show ?thesis
        using assms Some rr Cons True to_postgres_escape [of e cs'] by (simp add: respelled_def close_group_def)
    next
      case False
      then show ?thesis
        using assms Some rr Cons to_postgres_Cons [of c cs] by (auto simp: respelled_def close_group_def)
    qed
  qed
qed

lemma respelled_map: "respelled x y \<Longrightarrow> respelled (map_option (\<lambda>(r, rest). (f r, rest)) x) (map_option (\<lambda>(r, rest). (f r, rest)) y)"
  by (auto simp: respelled_def split: option.splits)


lemma respelled_first:
  assumes "plain_escapes s"
  obtains (empty) "s = []" "to_postgres s = []"
  | (escape) e cs where "s = BS # e # cs" "e \<noteq> BS" "e \<noteq> CHR ''y''" "plain_escapes cs"
      "to_postgres s = BS # (if e = CHR ''b'' then CHR ''y'' else e) # to_postgres cs"
  | (char) c cs where "s = c # cs" "c \<noteq> BS" "plain_escapes cs" "to_postgres s = c # to_postgres cs"
proof (cases s)
  case Nil
  then show thesis using empty by simp
next
  case (Cons c cs)
  show thesis
  proof (cases "c = BS")
    case True
    then obtain e rest where cs: "cs = e # rest" "e \<noteq> BS" "e \<noteq> CHR ''y''" "plain_escapes rest"
      using assms Cons by (cases cs) auto
    then show thesis using escape [of e rest] to_postgres_escape [of e rest] True Cons by simp
  next
    case False
    then show thesis using char [of c cs] assms Cons to_postgres_Cons [of c cs] by simp
  qed
qed

lemma parse_respelled:
  "plain_escapes s \<Longrightarrow> respelled (parse_alt Python n s) (parse_alt PostgreSQL n (to_postgres s))"
  "plain_escapes s \<Longrightarrow> respelled (parse_seq Python n s) (parse_seq PostgreSQL n (to_postgres s))"
  "plain_escapes s \<Longrightarrow> respelled (parse_atom Python n s) (parse_atom PostgreSQL n (to_postgres s))"
  "plain_escapes s \<Longrightarrow> respelled (parse_group Python n s) (parse_group PostgreSQL n (to_postgres s))"
proof (induction n arbitrary: s)
  case 0
  { case 1 show ?case by (simp add: respelled_def) }
  { case 2 show ?case by (simp add: respelled_def) }
  { case 3 show ?case by (simp add: respelled_def) }
  { case 4 show ?case by (simp add: respelled_def) }
next
  case (Suc n)
  { case 1
    show ?case
    proof (cases "parse_seq Python n s")
      case None
      then show ?thesis using Suc.IH(2) [OF 1] by (simp add: respelled_def)
    next
      case (Some rr)
      obtain r rest where rr: "rr = (r, rest)" by fastforce
      have rest: "plain_escapes rest" "parse_seq PostgreSQL n (to_postgres s) = Some (r, to_postgres rest)"
        using Suc.IH(2) [OF 1] Some rr by (simp_all add: respelled_def)
      show ?thesis
      proof (cases rule: respelled_first [OF rest(1), case_names empty escape char])
        case empty
        then show ?thesis using Some rr rest by (simp add: respelled_def)
      next
        case (escape e cs)
        then show ?thesis using Some rr rest by (simp add: respelled_def)
      next
        case (char c cs)
        have "respelled (map_option (\<lambda>(r', rest). (Alt r r', rest)) (parse_alt Python n cs))
            (map_option (\<lambda>(r', rest). (Alt r r', rest)) (parse_alt PostgreSQL n (to_postgres cs)))"
          by (rule respelled_map [OF Suc.IH(1) [OF char(3)]])
        then show ?thesis using Some rr rest char by (auto simp: respelled_def)
      qed
    qed }
  { case 2
    show ?case
    proof (cases "s = [] \<or> hd s = CHR ''|'' \<or> hd s = CHR '')''")
      case True
      then show ?thesis using 2 to_postgres_Cons [of "hd s" "tl s"] by (cases s) (auto simp: respelled_def)
    next
      case False
      have atom: "respelled (parse_atom Python n s) (parse_atom PostgreSQL n (to_postgres s))"
        by (rule Suc.IH(3) [OF 2])
      have step: "parse_seq d (Suc n) u = (case parse_atom d n u of
               None \<Rightarrow> None
             | Some (r, rest) \<Rightarrow>
                 (case postfix r rest of (r', rest') \<Rightarrow>
                    map_option (\<lambda>(r'', rest''). (Cat r' r'', rest'')) (parse_seq d n rest')))"
        if "u \<noteq> []" "hd u \<noteq> CHR ''|''" "hd u \<noteq> CHR '')''" for d u
        using that by (cases u) simp_all
      have py: "s \<noteq> []" "hd s \<noteq> CHR ''|''" "hd s \<noteq> CHR '')''" using False by auto
      have pg: "to_postgres s \<noteq> []" "hd (to_postgres s) \<noteq> CHR ''|''" "hd (to_postgres s) \<noteq> CHR '')''"
        using 2 py by (cases rule: respelled_first [OF 2]; auto)+
      show ?thesis
      proof (cases "parse_atom Python n s")
        case None
        then show ?thesis using atom unfolding step [OF py] step [OF pg] by (simp add: respelled_def)
      next
        case (Some rr)
        obtain r rest where rr: "rr = (r, rest)" by fastforce
        have rest: "plain_escapes rest" "parse_atom PostgreSQL n (to_postgres s) = Some (r, to_postgres rest)"
          using atom Some rr by (simp_all add: respelled_def)
        obtain r' rest' where post: "postfix r rest = (r', rest')" by fastforce
        have rest': "plain_escapes rest'" "postfix r (to_postgres rest) = (r', to_postgres rest')"
          using postfix_respelled [OF rest(1), of r] post by simp_all
        show ?thesis
          using respelled_map [OF Suc.IH(2) [OF rest'(1)], of "Cat r'"] Some rr rest rest' post
          unfolding step [OF py] step [OF pg] by simp
      qed
    qed }
  { case 3
    show ?case
    proof (cases rule: respelled_first [OF 3, case_names empty escape char])
      case empty
      then show ?thesis by (simp add: respelled_def)
    next
      case (escape e cs)
      have "parse_atom PostgreSQL (Suc n) (to_postgres s) = map_option (\<lambda>r. (r, to_postgres cs)) (escape_of Python e)"
        using escape escape_of_dialects [of e] by simp
      then show ?thesis using escape by (cases "escape_of Python e") (simp_all add: respelled_def)
    next
      case (char c cs)
      then show ?thesis
        using Suc.IH(4) [OF char(3)] class_chars_respelled [OF char(3), of id] by (simp add: respelled_def)
    qed }
  { case 4
    show ?case
    proof (cases rule: respelled_first [OF 4, case_names empty escape char])
      case empty
      then show ?thesis by (simp add: respelled_def)
    next
      case (escape e cs)
      then show ?thesis by (simp add: respelled_def)
    next
      case first: (char q rest)
      show ?thesis
      proof (cases rule: respelled_first [OF first(3), case_names empty escape char])
        case empty
        then show ?thesis using first by (simp add: respelled_def)
      next
        case (escape e cs)
        then show ?thesis using first by (simp add: respelled_def)
      next
        case (char k cs)
        note inner = Suc.IH(1) [OF char(3)]
        show ?thesis
          using first char close_group_respelled [OF inner, of id] close_group_respelled [OF inner, of "Look False"]
            close_group_respelled [OF inner, of "Look True"]
          by (simp add: respelled_def [of None])
      qed
    qed }
qed


text \<open>Respelling a pattern for PostgreSQL keeps what it parses to.\<close>

lemma length_to_postgres [simp]: "length (to_postgres s) = length s"
  by (induction s rule: to_postgres.induct) auto

lemma parse_to_postgres:
  assumes "plain_escapes s"
  shows "parse PostgreSQL (to_postgres s) = parse Python s"
proof -
  have empty: "to_postgres rest = [] \<longleftrightarrow> rest = []" for rest
    by (metis length_0_conv length_to_postgres)
  show ?thesis
  proof (cases "parse_alt Python (3 * length s + 3) s")
    case None
    then show ?thesis
      using parse_respelled(1) [OF assms, of "3 * length s + 3"] by (simp add: parse_def respelled_def)
  next
    case (Some rr)
    obtain r rest where rr: "rr = (r, rest)" by fastforce
    have "parse_alt PostgreSQL (3 * length s + 3) (to_postgres s) = Some (r, to_postgres rest)"
      using parse_respelled(1) [OF assms, of "3 * length s + 3"] Some rr by (simp add: respelled_def)
    moreover have "(case to_postgres rest of [] \<Rightarrow> x | a # b \<Rightarrow> y) = (case rest of [] \<Rightarrow> x | a # b \<Rightarrow> y)"
      for x y :: "re option"
      using empty [of rest] by (auto split: list.split)
    ultimately show ?thesis using Some rr by (simp add: parse_def)
  qed
qed

lemma plain_append: "plain_escapes a \<Longrightarrow> plain_escapes b \<Longrightarrow> plain_escapes (a @ b)"
  by (induction a rule: plain_escapes.induct) (auto split: list.splits)

end
