(* ===== verification/Screening.thy ===== *)
theory Screening
  imports Regex
begin

text \<open>
  Title screens (\<open>core/screening.py\<close>): named recipes that decide from a posting's title and
  source, read in Python by \<open>screen\<close> and written as a SQL \<open>CASE\<close> by \<open>skips_sql\<close>. Every recipe is
  transcribed with its patterns. The SQL text is a syntax tree with its parameters by name.
\<close>

section \<open>Rules\<close>

record Screen =
  skip :: bool
  reason :: string

record Rule =
  decides :: Screen
  ru_title :: "string option"
  ru_sources :: "string list"

definition title_rule :: "bool \<Rightarrow> string \<Rightarrow> string \<Rightarrow> Rule" where
  "title_rule b why pattern =
     \<lparr>decides = \<lparr>skip = b, reason = why\<rparr>, ru_title = Some pattern, ru_sources = []\<rparr>"

definition source_rule :: "bool \<Rightarrow> string \<Rightarrow> string list \<Rightarrow> Rule" where
  "source_rule b why sources =
     \<lparr>decides = \<lparr>skip = b, reason = why\<rparr>, ru_title = None, ru_sources = sources\<rparr>"

section \<open>Patterns\<close>

definition TECHNICAL :: string where
  "TECHNICAL =
     ''`b(?:engineer`w*|software|developer`w*|data|analyst`w*|product|program|technical|''
     @ ''technology|computer|computing|systems?|infrastructure|platform|automation|robot`w*|''
     @ ''firmware|embedded|machine learning|artificial intelligence|research|scientist|''
     @ ''science|cyber`w*|devops|sre|it|ux|ui|solutions?|consult`w*|quant`w*|ai|ml)`b''"

definition CURATED_INTERNSHIP_SOURCES :: "string list" where
  "CURATED_INTERNSHIP_SOURCES =
     [''internships'', ''speedyapply_intern'', ''speedyapply_ai_intern'', ''internships_ouckah'']"

definition INTERNSHIP_SIGNAL :: string where
  "INTERNSHIP_SIGNAL =
     ''`b(?:intern(?:ship)?s?|co[ -]?op|student|university|summer (?:analyst|associate)|''
     @ ''intensive program)`b''"

definition EXPLICIT_INTERNSHIP :: string where
  "EXPLICIT_INTERNSHIP =
     ''`b(?:intern(?:ship)?s?|co[ -]?op|summer (?:analyst|associate)|intensive program)`b''"

definition EXPERIENCED :: string where
  "EXPERIENCED =
     ''`b(?:senior|sr`.?|principal|lead|director|head|vice president|vp|chief)`b''"

definition AERO_MAJOR_SIGNAL :: string where
  "AERO_MAJOR_SIGNAL =
     ''`b(?:aero`w*|astro`w*|avionics?|propulsion|spacecraft|satellites?|launch|rockets?|''
     @ ''flight|gn&?c|guidance|aircraft|airframes?|orbital|mechanical|structur(?:al|es)|''
     @ ''stress|thermal|fluids?|cfd|aerodynamics?|controls?|dynamics|mechatronics?|''
     @ ''composites?|materials|reliability|(?:systems?|test|manufacturing|integration|design|''
     @ ''hardware|quality|process|industrial|mission) engineer`w*)`b''"

definition OCCUPATION_WORDS :: "string list" where
  "OCCUPATION_WORDS =
     [''accountant'', ''accounting'', ''aide'', ''auditor'', ''baker'', ''bakery'', ''behavioral'', ''beverage'',
      ''billing'', ''cardiology'', ''cdl'', ''chef'', ''cleaner'', ''clinician'', ''cook'', ''diesel'',
      ''expeditor'', ''forklift'', ''icu'', ''infusion'', ''inpatient'', ''janitorial'', ''kitchen'', ''loader'',
      ''lpn'', ''neurology'', ''nurse'', ''pathologist'', ''patient'', ''payroll'', ''pediatrics'', ''pharmacist'',
      ''physician'', ''picker'', ''porter'', ''practitioner'', ''recruiting'', ''respiratory'', ''secretary'', ''sous'',
      ''speech'', ''teacher'', ''teller'', ''therapist'', ''therapy'', ''underwriter'', ''urology'']"

definition INTERNSHIP_ROLE :: string where
  "INTERNSHIP_ROLE =
     ''`b(?:intern(?:ship)?s?|co[ -]?op|apprentice(?:ship)?)`b''"

definition REJECTED_LEVEL_ONLY :: string where
  "REJECTED_LEVEL_ONLY =
     ''^(?!.*(?:/|&|`+|`bor`b|`band`b|`bentry`b|`bjunior`b|`bjr`b|`bintermediate`b|`bmid`b|''
     @ ''`bnew grad|`bearly career|`bgraduate`b|`b(?:i|ii|iii|1|2|3)`b|`bmember of`b|''
     @ ''`btechnical staff`b|`bstaff`s*:|`bstaff`s*$|`bstaff (?:accountant|nurse|''
     @ ''pharmacist)`b)).*`b(?:senior|sr`.?|principal|staff|lead)`b''"

definition CLINICAL_CARE_TITLE :: string where
  "CLINICAL_CARE_TITLE =
     ''`b(?:registered nurse|licensed (?:practical|vocational) nurse|nursing assistant|''
     @ ''nurse practitioner|phlebotomist|pharmacist|dental hygienist|physical therapist|''
     @ ''occupational therapist|radiologic technologist)`b''"

definition RETAIL_SERVICE_TITLE :: string where
  "RETAIL_SERVICE_TITLE =
     ''`b(?:cashier|retail sales associate|store manager|''
     @ ''customer service rep(?:resentative)?|deli clerk|night crew stocker|''
     @ ''in-store shopper)`b''"

definition DRIVING_TITLE :: string where
  "DRIVING_TITLE =
     ''`b(?:delivery driver|commercial driver|truck driver)`b''"

definition HOSPITALITY_CLEANING_TITLE :: string where
  "HOSPITALITY_CLEANING_TITLE =
     ''`b(?:janitorial cleaner|custodial cleaner|custodian|housekeeper|dishwasher|''
     @ ''bartender|line cook|prep cook|restaurant server)`b''"

definition UNRELATED_OCCUPATION_TITLE :: string where
  "UNRELATED_OCCUPATION_TITLE =
     ''`b(?:''
     @ join ''|'' OCCUPATION_WORDS
     @ '')`b''"

definition ACCEPTED_WORK :: string where
  "ACCEPTED_WORK =
     ''`b(?:engineer`w*|software|developer`w*|programmer|data|scien`w*|machine learning|ml|''
     @ ''ai|cloud|platform|infrastructure|devops|sre|backend|frontend|full[- ]?stack|''
     @ ''architect|quant`w*|research`w*|product|analyst)`b''"

definition REJECTED_ROLE_ONLY :: string where
  "REJECTED_ROLE_ONLY =
     ''^(?!.*''
     @ ACCEPTED_WORK
     @ '').*(?:`btechnicians?`b|`btech`b(?! lead)|`bfield (?:service|technician|''
     @ ''representative|rep|operations|support)`b|`boperations? (?:associate|specialist|''
     @ ''coordinator|assistant|representative|agent|clerk)`b|`boperator`b|`b(?:hourly|''
     @ ''part[- ]time|per diem|seasonal|temporary|prn)`b)''"

definition EARLY_CAREER :: string where
  "EARLY_CAREER =
     ''`b(?:new grad`w*|graduate|campus|early career|entry[- ]level|university|''
     @ ''analyst program|development program|full[- ]time analyst)`b''"

definition FINANCE_EXPERIENCED :: string where
  "FINANCE_EXPERIENCED =
     ''^(?!.*''
     @ EARLY_CAREER
     @ '').*`b(?:senior|sr`.?|principal|director|vice president|vp|svp|managing director|''
     @ ''executive director|head|chief|lead)`b''"

definition FINANCE_MANAGER :: string where
  "FINANCE_MANAGER =
     ''^(?!.*''
     @ EARLY_CAREER
     @ '')(?!.*`b(?:analyst|associate)s?`b).*`b(?:managers?|partners?)`b''"

definition QUANT :: string where
  "QUANT =
     ''`b(?:quant|quants|quantitative|financial engineer`w*)`b''"

definition NON_QUANT_TECHNICAL :: string where
  "NON_QUANT_TECHNICAL =
     ''^(?!.*''
     @ QUANT
     @ '').*`b(?:software|developer`w*|engineer`w*|programmer|devops|sre|architect|''
     @ ''cyber`w*)`b''"

definition CORE_FINANCE :: string where
  "CORE_FINANCE =
     QUANT
     @ ''|`b(?:investment bank`w*|sales (?:and|&) trading|equity research|private equity|''
     @ ''private credit|asset management|corporate finance|fp&a|leveraged finance|m&a|''
     @ ''fixed income|analyst (?:development )?program)`b''"

definition RETAIL_BANKING :: string where
  "RETAIL_BANKING =
     ''`b(?:bankers?|banking advisor|branch|teller|part[- ]time|`d+ hours?|safe act|mlo|''
     @ ''loan officer|mortgage|client advisor|financial advisor|financial solutions advisor|''
     @ ''planning advisor|advisor development program|collections?)`b''"

definition FINANCE_SIGNAL :: string where
  "FINANCE_SIGNAL =
     ''`b(?:investments?|investing|investor`w*|banking|trader|traders|trading|markets|''
     @ ''wealth|private markets|credit|financ`w*|leveraged|mergers|restructuring|''
     @ ''structured (?:finance|products|credit)|treasury|valuation|portfolio|risk|hedge|''
     @ ''funds?|capital|securities|derivatives|underwrit`w*|equities|commodities|lending|''
     @ ''economist|macro|budget`w*|forecasting|liquidity|fx|full[- ]time analyst)`b''"

definition FINANCE_INTERNSHIP :: string where
  "FINANCE_INTERNSHIP =
     EXPLICIT_INTERNSHIP
     @ ''|`bapprentice(?:ship)?s?`b''"

definition EARLY_CAREER_V2 :: string where
  "EARLY_CAREER_V2 =
     ''`b(?:new grad`w*|graduate|campus|early career|entry[- ]level|university|''
     @ ''analyst program|development program|full[- ]time analyst|rotational|''
     @ ''leadership (?:development )?program)`b''"

definition FINANCE_EXPERIENCED_V2 :: string where
  "FINANCE_EXPERIENCED_V2 =
     ''^(?!.*''
     @ EARLY_CAREER_V2
     @ '').*`b(?:senior|sr`.?|principal|director|vice president|vp|svp|managing (?:director|''
     @ ''consultant)|executive director|head|chief|lead|experienced|associate partner)`b''"

definition FINANCE_MANAGER_V2 :: string where
  "FINANCE_MANAGER_V2 =
     ''^(?!.*''
     @ EARLY_CAREER_V2
     @ '')(?!.*`b(?:analyst|associate)s?`b).*`b(?:managers?|partners?)`b''"

definition CORE_FINANCE_V2 :: string where
  "CORE_FINANCE_V2 =
     CORE_FINANCE
     @ ''|`b(?:management consult`w*|strategy consult`w*|economic consult`w*|''
     @ ''transaction (?:advisory|services)|restructuring|corporate banking|''
     @ ''commercial banking|audit (?:assistant|associate|staff)|tax (?:associate|staff)|''
     @ ''valuation)`b|^(?=.*`b(?:bank`w*|financ`w*)`b).*`bleadership (?:development )?program''"

definition TECH_CONSULTING :: string where
  "TECH_CONSULTING =
     ''`b(?:sap|salesforce|servicenow|workday|oracle|erp|crm|cloud|it|technical|''
     @ ''implementation|integration|functional|technology|data|digital|cyber`w*|network|''
     @ ''security|ai|devops)`b.*`bconsult`w*|`bconsult`w*.*`b(?:sap|salesforce|servicenow|''
     @ ''workday|oracle|erp|crm|cloud|it|technical|implementation|integration|functional|''
     @ ''technology|data|digital|cyber`w*|network|security|ai|devops)`b''"

definition NON_FINANCE_V2 :: string where
  "NON_FINANCE_V2 =
     RETAIL_BANKING
     @ ''|`b(?:sales (?:consultant|associate|representative|rep|specialist)|retail|store|''
     @ ''accounts (?:payable|receivable)|bookkeep`w*|payroll|billing|claims?|call center|''
     @ ''customer (?:service|support|care)|insurance (?:agent|sales)|quality assurance|qa)`b''"

definition FINANCE_SIGNAL_V2 :: string where
  "FINANCE_SIGNAL_V2 =
     FINANCE_SIGNAL
     @ ''|''
     @ EARLY_CAREER_V2
     @ ''.*`bconsult`w*|`bconsult`w*.*''
     @ EARLY_CAREER_V2
     @ ''|`b(?:(?:management|strategy|economic|financial|restructuring|transaction|deals?|''
     @ ''business|risk|valuation) consult`w*|consulting (?:analyst|associate)|(?:advisory|''
     @ ''deals|strategy consulting) (?:analyst|associate|consultant)|(?:audit|assurance|''
     @ ''tax) (?:analyst|associate|assistant|staff|consultant)|internal audit|external audit|''
     @ ''economic analyst|associate consultant)`b''"

section \<open>Recipes\<close>

definition internship_v1 :: "Rule list \<times> Screen" where
  "internship_v1 =
     ([source_rule False ''curated_internship_source'' CURATED_INTERNSHIP_SOURCES,
       title_rule False ''internship_title_signal'' INTERNSHIP_SIGNAL],
      \<lparr>skip = True, reason = ''no_internship_title_signal''\<rparr>)"

definition new_grad_v1 :: "Rule list \<times> Screen" where
  "new_grad_v1 =
     ([title_rule True ''internship_title_signal'' EXPLICIT_INTERNSHIP,
       title_rule True ''experienced_title_signal'' EXPERIENCED],
      \<lparr>skip = False, reason = ''possible_new_grad_title''\<rparr>)"

definition aero_major_v1 :: "Rule list \<times> Screen" where
  "aero_major_v1 =
     ([title_rule False ''aero_major_title_signal'' AERO_MAJOR_SIGNAL],
      \<lparr>skip = True, reason = ''no_aero_major_title_signal''\<rparr>)"

definition nontechnical_occupations_v1 :: "Rule list \<times> Screen" where
  "nontechnical_occupations_v1 =
     ([title_rule False ''technical_title'' TECHNICAL,
       title_rule True ''clinical_care'' CLINICAL_CARE_TITLE,
       title_rule True ''retail_service'' RETAIL_SERVICE_TITLE,
       title_rule True ''driving'' DRIVING_TITLE,
       title_rule True ''hospitality_cleaning'' HOSPITALITY_CLEANING_TITLE],
      \<lparr>skip = False, reason = ''no_listed_occupation''\<rparr>)"

definition occupation_words_v1 :: "Rule list \<times> Screen" where
  "occupation_words_v1 =
     ([title_rule False ''technical_title'' TECHNICAL,
       title_rule True ''unrelated_occupation'' UNRELATED_OCCUPATION_TITLE],
      \<lparr>skip = False, reason = ''no_listed_occupation''\<rparr>)"

definition levels_occupations_v1 :: "Rule list \<times> Screen" where
  "levels_occupations_v1 =
     ([title_rule True ''internship_role'' INTERNSHIP_ROLE,
       title_rule True ''rejected_level_only'' REJECTED_LEVEL_ONLY]
      @ fst nontechnical_occupations_v1,
      snd nontechnical_occupations_v1)"

definition levels_roles_occupations_v1 :: "Rule list \<times> Screen" where
  "levels_roles_occupations_v1 =
     (take 2 (fst levels_occupations_v1)
      @ [title_rule True ''rejected_role_only'' REJECTED_ROLE_ONLY]
      @ drop 2 (fst levels_occupations_v1),
      snd levels_occupations_v1)"

definition finance_new_grad_v1 :: "Rule list \<times> Screen" where
  "finance_new_grad_v1 =
     ([title_rule True ''internship_title_signal'' EXPLICIT_INTERNSHIP,
       title_rule True ''experienced_title_signal'' FINANCE_EXPERIENCED,
       title_rule True ''manager_title_signal'' FINANCE_MANAGER,
       title_rule True ''technical_title'' NON_QUANT_TECHNICAL,
       title_rule False ''core_finance_title'' CORE_FINANCE,
       title_rule True ''retail_banking_title'' RETAIL_BANKING,
       title_rule False ''finance_title_signal'' FINANCE_SIGNAL],
      \<lparr>skip = True, reason = ''no_finance_title_signal''\<rparr>)"

definition finance_new_grad_v2 :: "Rule list \<times> Screen" where
  "finance_new_grad_v2 =
     ([title_rule True ''internship_title_signal'' FINANCE_INTERNSHIP,
       title_rule True ''experienced_title_signal'' FINANCE_EXPERIENCED_V2,
       title_rule True ''manager_title_signal'' FINANCE_MANAGER_V2,
       title_rule True ''technical_title'' NON_QUANT_TECHNICAL,
       title_rule False ''core_finance_title'' CORE_FINANCE_V2,
       title_rule True ''technology_consulting_title'' TECH_CONSULTING,
       title_rule True ''non_finance_title'' NON_FINANCE_V2,
       title_rule False ''finance_title_signal'' FINANCE_SIGNAL_V2],
      \<lparr>skip = True, reason = ''no_finance_title_signal''\<rparr>)"

definition RECIPES :: "(string \<times> (Rule list \<times> Screen)) list" where
  "RECIPES =
     [(''internship_v1'', internship_v1), (''new_grad_v1'', new_grad_v1),
      (''aero_major_v1'', aero_major_v1), (''nontechnical_occupations_v1'', nontechnical_occupations_v1),
      (''occupation_words_v1'', occupation_words_v1), (''levels_occupations_v1'', levels_occupations_v1),
      (''levels_roles_occupations_v1'', levels_roles_occupations_v1),
      (''finance_new_grad_v1'', finance_new_grad_v1), (''finance_new_grad_v2'', finance_new_grad_v2)]"

section \<open>Reading a recipe\<close>

text \<open>A compiled pattern's \<open>search\<close>; every pattern of the recipes compiles.\<close>

definition matches_title :: "dialect \<Rightarrow> string \<Rightarrow> string \<Rightarrow> bool" where
  "matches_title d pattern txt = (case parse d pattern of None \<Rightarrow> False | Some r \<Rightarrow> search d r txt)"

definition rule_applies :: "string option \<Rightarrow> string option \<Rightarrow> Rule \<Rightarrow> bool" where
  "rule_applies title source ru =
     (case ru_title ru of
        Some pattern \<Rightarrow> matches_title Python pattern (coalesce title '''')
      | None \<Rightarrow> (case source of None \<Rightarrow> False | Some s \<Rightarrow> s \<in> set (ru_sources ru)))"

definition screen :: "string \<Rightarrow> string option \<Rightarrow> string option \<Rightarrow> Screen result" where
  "screen recipe title source =
     (case map_of RECIPES recipe of
        None \<Rightarrow> Inl (KeyError recipe)
      | Some (rules, otherwise) \<Rightarrow>
          Inr (case find (rule_applies title source) rules of
                 Some ru \<Rightarrow> decides ru
               | None \<Rightarrow> otherwise))"

section \<open>The same recipe in SQL\<close>

datatype param_value = Pattern string | Names "string list"

definition param_name :: "string \<Rightarrow> nat \<Rightarrow> string" where
  "param_name recipe i = ''screening_'' @ recipe @ ''_'' @ show_nat i"

definition rule_params :: "string \<times> (Rule list \<times> Screen) \<Rightarrow> (string \<times> param_value) list" where
  "rule_params rec =
     (case rec of (name, rules, otherwise) \<Rightarrow>
        map (\<lambda>(i, ru). (param_name name i,
               case ru_title ru of Some p \<Rightarrow> Pattern (to_postgres p) | None \<Rightarrow> Names (sort (ru_sources ru))))
          (enumerate 0 rules))"

definition PARAMS :: "(string \<times> param_value) list" where
  "PARAMS = concat (map rule_params RECIPES)"

datatype sql_when = Title_matches string | Source_any string

record sql_arm =
  arm_recipe :: string
  arm_whens :: "(sql_when \<times> bool) list"
  arm_else :: bool

definition arm_of :: "string \<times> (Rule list \<times> Screen) \<Rightarrow> sql_arm" where
  "arm_of rec =
     (case rec of (name, rules, otherwise) \<Rightarrow>
       \<lparr>arm_recipe = name,
        arm_whens = map (\<lambda>(i, ru).
            ((case ru_title ru of Some _ \<Rightarrow> Title_matches (param_name name i)
                                | None \<Rightarrow> Source_any (param_name name i)), skip (decides ru)))
          (enumerate 0 rules),
        arm_else = skip otherwise\<rparr>)"

definition skips_sql :: "sql_arm list" where
  "skips_sql = map arm_of RECIPES"

text \<open>
  What PostgreSQL makes of it: \<open>COALESCE\<close> of the title, a comparison with a NULL source that is
  not true, the first true \<open>WHEN\<close>, and FALSE for a NULL or unknown recipe.
\<close>

definition when_true :: "(string \<times> param_value) list \<Rightarrow> string option \<Rightarrow> string option \<Rightarrow> sql_when \<Rightarrow> bool" where
  "when_true params title source w =
     (case w of
        Title_matches p \<Rightarrow>
          (case map_of params p of
             Some (Pattern pattern) \<Rightarrow> matches_title PostgreSQL pattern (coalesce title '''')
           | _ \<Rightarrow> False)
      | Source_any p \<Rightarrow>
          (case (map_of params p, source) of
             (Some (Names names), Some s) \<Rightarrow> s \<in> set names
           | _ \<Rightarrow> False))"

definition eval_skips ::
  "sql_arm list \<Rightarrow> (string \<times> param_value) list \<Rightarrow> string option \<Rightarrow> string option \<Rightarrow> string option \<Rightarrow> bool" where
  "eval_skips arms params recipe title source =
     (case recipe of
        None \<Rightarrow> False
      | Some name \<Rightarrow>
          (case find (\<lambda>a. arm_recipe a = name) arms of
             None \<Rightarrow> False
           | Some a \<Rightarrow>
               (case find (\<lambda>wb. when_true params title source (fst wb)) (arm_whens a) of
                  Some wb \<Rightarrow> snd wb
                | None \<Rightarrow> arm_else a)))"

section \<open>The patterns are plain\<close>

lemma plain_TECHNICAL: "plain_escapes TECHNICAL"
  unfolding TECHNICAL_def by ((intro plain_append)?; simp)

lemma plain_INTERNSHIP_SIGNAL: "plain_escapes INTERNSHIP_SIGNAL"
  unfolding INTERNSHIP_SIGNAL_def by ((intro plain_append)?; simp)

lemma plain_EXPLICIT_INTERNSHIP: "plain_escapes EXPLICIT_INTERNSHIP"
  unfolding EXPLICIT_INTERNSHIP_def by ((intro plain_append)?; simp)

lemma plain_EXPERIENCED: "plain_escapes EXPERIENCED"
  unfolding EXPERIENCED_def by ((intro plain_append)?; simp)

lemma plain_AERO_MAJOR_SIGNAL: "plain_escapes AERO_MAJOR_SIGNAL"
  unfolding AERO_MAJOR_SIGNAL_def by ((intro plain_append)?; simp)

lemma plain_INTERNSHIP_ROLE: "plain_escapes INTERNSHIP_ROLE"
  unfolding INTERNSHIP_ROLE_def by ((intro plain_append)?; simp)

lemma plain_REJECTED_LEVEL_ONLY: "plain_escapes REJECTED_LEVEL_ONLY"
  unfolding REJECTED_LEVEL_ONLY_def by ((intro plain_append)?; simp)

lemma plain_CLINICAL_CARE_TITLE: "plain_escapes CLINICAL_CARE_TITLE"
  unfolding CLINICAL_CARE_TITLE_def by ((intro plain_append)?; simp)

lemma plain_RETAIL_SERVICE_TITLE: "plain_escapes RETAIL_SERVICE_TITLE"
  unfolding RETAIL_SERVICE_TITLE_def by ((intro plain_append)?; simp)

lemma plain_DRIVING_TITLE: "plain_escapes DRIVING_TITLE"
  unfolding DRIVING_TITLE_def by ((intro plain_append)?; simp)

lemma plain_HOSPITALITY_CLEANING_TITLE: "plain_escapes HOSPITALITY_CLEANING_TITLE"
  unfolding HOSPITALITY_CLEANING_TITLE_def by ((intro plain_append)?; simp)

lemma plain_UNRELATED_OCCUPATION_TITLE: "plain_escapes UNRELATED_OCCUPATION_TITLE"
  unfolding UNRELATED_OCCUPATION_TITLE_def OCCUPATION_WORDS_def join.simps
  by ((intro plain_append)?; simp)

lemma plain_ACCEPTED_WORK: "plain_escapes ACCEPTED_WORK"
  unfolding ACCEPTED_WORK_def by ((intro plain_append)?; simp)

lemma plain_REJECTED_ROLE_ONLY: "plain_escapes REJECTED_ROLE_ONLY"
  unfolding REJECTED_ROLE_ONLY_def by ((intro plain_append plain_ACCEPTED_WORK)?; simp)

lemma plain_EARLY_CAREER: "plain_escapes EARLY_CAREER"
  unfolding EARLY_CAREER_def by ((intro plain_append)?; simp)

lemma plain_FINANCE_EXPERIENCED: "plain_escapes FINANCE_EXPERIENCED"
  unfolding FINANCE_EXPERIENCED_def by ((intro plain_append plain_EARLY_CAREER)?; simp)

lemma plain_FINANCE_MANAGER: "plain_escapes FINANCE_MANAGER"
  unfolding FINANCE_MANAGER_def by ((intro plain_append plain_EARLY_CAREER)?; simp)

lemma plain_QUANT: "plain_escapes QUANT"
  unfolding QUANT_def by ((intro plain_append)?; simp)

lemma plain_NON_QUANT_TECHNICAL: "plain_escapes NON_QUANT_TECHNICAL"
  unfolding NON_QUANT_TECHNICAL_def by ((intro plain_append plain_QUANT)?; simp)

lemma plain_CORE_FINANCE: "plain_escapes CORE_FINANCE"
  unfolding CORE_FINANCE_def by ((intro plain_append plain_QUANT)?; simp)

lemma plain_RETAIL_BANKING: "plain_escapes RETAIL_BANKING"
  unfolding RETAIL_BANKING_def by ((intro plain_append)?; simp)

lemma plain_FINANCE_SIGNAL: "plain_escapes FINANCE_SIGNAL"
  unfolding FINANCE_SIGNAL_def by ((intro plain_append)?; simp)

lemma plain_FINANCE_INTERNSHIP: "plain_escapes FINANCE_INTERNSHIP"
  unfolding FINANCE_INTERNSHIP_def by ((intro plain_append plain_EXPLICIT_INTERNSHIP)?; simp)

lemma plain_EARLY_CAREER_V2: "plain_escapes EARLY_CAREER_V2"
  unfolding EARLY_CAREER_V2_def by ((intro plain_append)?; simp)

lemma plain_FINANCE_EXPERIENCED_V2: "plain_escapes FINANCE_EXPERIENCED_V2"
  unfolding FINANCE_EXPERIENCED_V2_def by ((intro plain_append plain_EARLY_CAREER_V2)?; simp)

lemma plain_FINANCE_MANAGER_V2: "plain_escapes FINANCE_MANAGER_V2"
  unfolding FINANCE_MANAGER_V2_def by ((intro plain_append plain_EARLY_CAREER_V2)?; simp)

lemma plain_CORE_FINANCE_V2: "plain_escapes CORE_FINANCE_V2"
  unfolding CORE_FINANCE_V2_def by ((intro plain_append plain_CORE_FINANCE)?; simp)

lemma plain_TECH_CONSULTING: "plain_escapes TECH_CONSULTING"
  unfolding TECH_CONSULTING_def by ((intro plain_append)?; simp)

lemma plain_NON_FINANCE_V2: "plain_escapes NON_FINANCE_V2"
  unfolding NON_FINANCE_V2_def by ((intro plain_append plain_RETAIL_BANKING)?; simp)

lemma plain_FINANCE_SIGNAL_V2: "plain_escapes FINANCE_SIGNAL_V2"
  unfolding FINANCE_SIGNAL_V2_def by ((intro plain_append plain_FINANCE_SIGNAL plain_EARLY_CAREER_V2)?; simp)

lemmas plain_patterns = plain_TECHNICAL
  plain_INTERNSHIP_SIGNAL
  plain_EXPLICIT_INTERNSHIP
  plain_EXPERIENCED
  plain_AERO_MAJOR_SIGNAL
  plain_INTERNSHIP_ROLE
  plain_REJECTED_LEVEL_ONLY
  plain_CLINICAL_CARE_TITLE
  plain_RETAIL_SERVICE_TITLE
  plain_DRIVING_TITLE
  plain_HOSPITALITY_CLEANING_TITLE
  plain_UNRELATED_OCCUPATION_TITLE
  plain_ACCEPTED_WORK
  plain_REJECTED_ROLE_ONLY
  plain_EARLY_CAREER
  plain_FINANCE_EXPERIENCED
  plain_FINANCE_MANAGER
  plain_QUANT
  plain_NON_QUANT_TECHNICAL
  plain_CORE_FINANCE
  plain_RETAIL_BANKING
  plain_FINANCE_SIGNAL
  plain_FINANCE_INTERNSHIP
  plain_EARLY_CAREER_V2
  plain_FINANCE_EXPERIENCED_V2
  plain_FINANCE_MANAGER_V2
  plain_CORE_FINANCE_V2
  plain_TECH_CONSULTING
  plain_NON_FINANCE_V2
  plain_FINANCE_SIGNAL_V2


section \<open>The two spellings agree\<close>

lemma recipes_plain:
  assumes "(name, rules, otherwise) \<in> set RECIPES" "ru \<in> set rules" "ru_title ru = Some p"
  shows "plain_escapes p"
proof -
  have "list_all (\<lambda>(n, rs, d). list_all (\<lambda>ru. case ru_title ru of None \<Rightarrow> True | Some p \<Rightarrow> plain_escapes p) rs) RECIPES"
    by (simp add: RECIPES_def internship_v1_def new_grad_v1_def aero_major_v1_def
        nontechnical_occupations_v1_def occupation_words_v1_def levels_occupations_v1_def
        levels_roles_occupations_v1_def finance_new_grad_v1_def finance_new_grad_v2_def
        title_rule_def source_rule_def plain_patterns)
  then show ?thesis using assms by (fastforce simp: list_all_iff)
qed

lemma recipes_short: "(name, rules, otherwise) \<in> set RECIPES \<Longrightarrow> length rules < 10"
proof -
  have "list_all (\<lambda>(n, rs, d). length rs < 10) RECIPES"
    by (simp add: RECIPES_def internship_v1_def new_grad_v1_def aero_major_v1_def
        nontechnical_occupations_v1_def occupation_words_v1_def levels_occupations_v1_def
        levels_roles_occupations_v1_def finance_new_grad_v1_def finance_new_grad_v2_def)
  then show "(name, rules, otherwise) \<in> set RECIPES \<Longrightarrow> length rules < 10"
    by (fastforce simp: list_all_iff)
qed

lemma recipes_distinct: "distinct (map fst RECIPES)"
  by (simp add: RECIPES_def)

lemma param_name_inj:
  assumes "param_name r i = param_name r' j" "i < 10" "j < 10"
  shows "r = r' \<and> i = j"
proof -
  have "show_nat i = [digit_char i]" "show_nat j = [digit_char j]"
    using assms(2,3) by (simp_all add: show_nat.simps [of i] show_nat.simps [of j])
  then have "r = r'" "digit_char i = digit_char j" using assms(1) by (simp_all add: param_name_def)
  then show ?thesis using assms(2,3) by (simp add: digit_char_def)
qed

text \<open>A rule's parameter holds its own pattern or sources, whatever the other recipes bind.\<close>

definition rule_param :: "Rule \<Rightarrow> param_value" where
  "rule_param ru = (case ru_title ru of Some p \<Rightarrow> Pattern (to_postgres p) | None \<Rightarrow> Names (sort (ru_sources ru)))"

lemma PARAMS_iff:
  "(k, v) \<in> set PARAMS \<longleftrightarrow> (\<exists>name rules otherwise i. (name, rules, otherwise) \<in> set RECIPES
     \<and> i < length rules \<and> k = param_name name i \<and> v = rule_param (rules ! i))"
  by (fastforce simp: PARAMS_def rule_params_def rule_param_def in_set_enumerate_eq)

lemma PARAMS_lookup:
  assumes "(name, rules, otherwise) \<in> set RECIPES" "i < length rules"
  shows "map_of PARAMS (param_name name i) = Some (rule_param (rules ! i))"
proof -
  obtain v where v: "map_of PARAMS (param_name name i) = Some v"
    using assms PARAMS_iff weak_map_of_SomeI by metis
  then obtain name' rules' otherwise' j where r: "(name', rules', otherwise') \<in> set RECIPES" "j < length rules'"
      "param_name name i = param_name name' j" "v = rule_param (rules' ! j)"
    using PARAMS_iff map_of_SomeD by metis
  have "name = name' \<and> i = j"
    using param_name_inj [OF r(3)] recipes_short [OF assms(1)] recipes_short [OF r(1)] assms(2) r(2) by simp
  then show ?thesis using r v assms(1) recipes_distinct eq_key_imp_eq_value by fastforce
qed

lemma arm_recipe_arm_of [simp]: "arm_recipe (arm_of rec) = fst rec"
  by (cases rec) (simp add: arm_of_def)

lemma find_arm:
  "find (\<lambda>a. arm_recipe a = name) (map arm_of recs) = map_option (\<lambda>rec. arm_of (name, rec)) (map_of recs name)"
  by (induction recs) auto

lemma find_whens:
  assumes "\<And>i. i < length rules \<Longrightarrow> P (w (k + i) (rules ! i)) = Q (rules ! i)"
  shows "map_option snd (find (\<lambda>wb. P (fst wb)) (map (\<lambda>(i, ru). (w i ru, b ru)) (enumerate k rules)))
    = map_option b (find Q rules)"
  using assms
proof (induction rules arbitrary: k)
  case (Cons ru rules)
  have "P (w k ru) = Q ru" using Cons.prems [of 0] by simp
  moreover have "map_option snd (find (\<lambda>wb. P (fst wb)) (map (\<lambda>(i, ru). (w i ru, b ru)) (enumerate (Suc k) rules)))
      = map_option b (find Q rules)"
    by (rule Cons.IH) (use Cons.prems [of "Suc _"] in auto)
  ultimately show ?case by simp
qed simp

lemma when_is_rule:
  assumes "(name, rules, otherwise) \<in> set RECIPES" "i < length rules" "CHR 0x0A \<notin> set (coalesce title '''')"
  shows "when_true PARAMS title source
      (case ru_title (rules ! i) of Some _ \<Rightarrow> Title_matches (param_name name i)
                                  | None \<Rightarrow> Source_any (param_name name i))
    = rule_applies title source (rules ! i)"
proof (cases "ru_title (rules ! i)")
  case None
  then show ?thesis
    by (simp add: when_true_def PARAMS_lookup [OF assms(1,2)] rule_param_def rule_applies_def split: option.split)
next
  case (Some p)
  have "plain_escapes p" using recipes_plain [OF assms(1) _ Some] assms(2) by simp
  then have "parse PostgreSQL (to_postgres p) = parse Python p" by (rule parse_to_postgres)
  then show ?thesis
    using Some search_dialect [OF assms(3), of PostgreSQL _ Python]
    by (simp add: when_true_def PARAMS_lookup [OF assms(1,2)] rule_param_def rule_applies_def
        matches_title_def split: option.split)
qed



end
