(* ===== verification/Dates.thy ===== *)
theory Dates
  imports Tasks
begin

text \<open>
  Instants as the sources print them: the UTC calendar of \<open>datetime\<close>, \<open>isoformat\<close>, and the two
  \<open>strftime\<close> formats the scheduler builds its cycle names from. The calendar counts days from
  1970-01-01 in the proleptic Gregorian calendar, in cycles of 400 years.
\<close>

definition USEC_PER_DAY :: int where "USEC_PER_DAY = 86400 * usec_per_second"

definition day_of_era :: "int \<Rightarrow> int" where "day_of_era z = (z + 719468) mod 146097"

definition year_of_era :: "int \<Rightarrow> int" where
  "year_of_era doe = (doe - doe div 1460 + doe div 36524 - doe div 146096) div 365"

definition day_of_year :: "int \<Rightarrow> int" where
  "day_of_year doe = (let yoe = year_of_era doe in doe - (365 * yoe + yoe div 4 - yoe div 100))"

text \<open>Year, month and day of the day \<open>z\<close>; the year of the computation starts in March.\<close>

definition civil :: "int \<Rightarrow> int \<times> int \<times> int" where
  "civil z =
     (let doe = day_of_era z;
          yoe = year_of_era doe;
          doy = day_of_year doe;
          mp = (5 * doy + 2) div 153;
          d = doy - (153 * mp + 2) div 5 + 1;
          m = (if mp < 10 then mp + 3 else mp - 9);
          y = yoe + (z + 719468) div 146097 * 400 in
      (if m \<le> 2 then y + 1 else y, m, d))"

definition two :: "int \<Rightarrow> string" where
  "two n = (if n < 10 then ''0'' else '''') @ show_int n"

definition padded :: "nat \<Rightarrow> string \<Rightarrow> string" where
  "padded n s = replicate (n - length s) CHR ''0'' @ s"

definition strftime_day :: "instant \<Rightarrow> string" where
  "strftime_day t =
     (case civil (t div USEC_PER_DAY) of (y, m, d) \<Rightarrow>
        padded 4 (show_int y) @ ''-'' @ two m @ ''-'' @ two d)"

definition hour_of :: "instant \<Rightarrow> int" where
  "hour_of t = t mod USEC_PER_DAY div (3600 * usec_per_second)"

definition minute_of :: "instant \<Rightarrow> int" where
  "minute_of t = t mod (3600 * usec_per_second) div (60 * usec_per_second)"

definition second_of :: "instant \<Rightarrow> int" where
  "second_of t = t mod (60 * usec_per_second) div usec_per_second"

definition strftime_minute :: "instant \<Rightarrow> string" where
  "strftime_minute t = strftime_day t @ ''T'' @ two (hour_of t) @ '':'' @ two (minute_of t)"

definition isoformat :: "instant \<Rightarrow> string" where
  "isoformat t =
     strftime_minute t @ '':'' @ two (second_of t)
     @ (let us = t mod usec_per_second in
        if us = 0 then '''' else ''.'' @ padded 6 (show_int us))
     @ ''+00:00''"

text \<open>\<open>now.replace(minute=..., second=0, microsecond=0)\<close>.\<close>

definition replace_minute :: "int \<Rightarrow> instant \<Rightarrow> instant" where
  "replace_minute m t = t - t mod (3600 * usec_per_second) + m * (60 * usec_per_second)"

end
