(* ===== verification/Json_Text.thy ===== *)
theory Json_Text
  imports Json
begin

text \<open>
  The text of a JSON value as the payload store writes and reads it: \<open>json.dumps\<close> with sorted keys,
  compact separators and ASCII escapes, and \<open>json.loads\<close>. Numbers are integers, as in \<open>Json\<close>, and
  characters are code points below 256. Reading is a recursive descent whose depth is bounded by the
  length of the text, which is always enough.
\<close>

section \<open>Canonical values\<close>

text \<open>
  \<open>canonical\<close> orders the keys of every object: two values are the same to Python's \<open>==\<close> and to
  JSONB when they are canonically equal.
\<close>

lemma size_in_object: "(k, v) \<in> set kvs \<Longrightarrow> size v < Suc (size_list (size_prod (\<lambda>_. 0) size) kvs)"
  by (induction kvs) auto

function canonical :: "json \<Rightarrow> json" where
  "canonical JNull = JNull"
| "canonical (JBool b) = JBool b"
| "canonical (JNum n) = JNum n"
| "canonical (JStr s) = JStr s"
| "canonical (JArr vs) = JArr (map canonical vs)"
| "canonical (JObj kvs) = JObj (sort_key fst (map (\<lambda>kv. (fst kv, canonical (snd kv))) kvs))"
  by pat_completeness auto
termination
  by (relation "measure size")
    (auto simp: less_Suc_eq_le dest: size_in_object intro: size_list_estimation')

definition same_value :: "json \<Rightarrow> json \<Rightarrow> bool" where
  "same_value a b \<longleftrightarrow> canonical a = canonical b"

text \<open>No object has a second entry for a key.\<close>

function json_ok :: "json \<Rightarrow> bool" where
  "json_ok JNull = True"
| "json_ok (JBool b) = True"
| "json_ok (JNum n) = True"
| "json_ok (JStr s) = True"
| "json_ok (JArr vs) = (\<forall>v \<in> set vs. json_ok v)"
| "json_ok (JObj kvs) = (distinct (map fst kvs) \<and> (\<forall>kv \<in> set kvs. json_ok (snd kv)))"
  by pat_completeness auto
termination
  by (relation "measure size")
    (auto simp: less_Suc_eq_le dest: size_in_object intro: size_list_estimation')

lemma distinct_sort_fst [simp]: "distinct (map fst (sort_key fst kvs)) = distinct (map fst kvs)"
  by (simp add: distinct_map)

lemma json_ok_canonical [simp]: "json_ok (canonical v) = json_ok v"
  by (induction v rule: canonical.induct) (auto simp: comp_def)

lemma canonical_idem [simp]: "canonical (canonical v) = canonical v"
proof (induction v rule: canonical.induct)
  case (6 kvs)
  let ?c = "\<lambda>kv. (fst kv, canonical (snd kv))"
  have "map ?c (sort_key fst (map ?c kvs)) = sort_key fst (map ?c kvs)"
    using 6 by (intro map_idI) auto
  then show ?case by (simp add: sort_key_id_if_sorted)
qed auto

section \<open>Writing\<close>

abbreviation DQ :: char where "DQ \<equiv> CHR 0x22"
abbreviation BSL :: char where "BSL \<equiv> CHR 0x5C"

definition hex_digit :: "nat \<Rightarrow> char" where
  "hex_digit n = (if n < 10 then char_of (48 + n) else char_of (87 + n))"

text \<open>\<open>py_encode_basestring_ascii\<close>: everything outside the printable range is escaped.\<close>

definition escaped :: "char \<Rightarrow> string" where
  "escaped c =
     (if c = DQ then [BSL, DQ] else if c = BSL then [BSL, BSL]
      else if c = CHR 0x0A then [BSL, CHR ''n''] else if c = CHR 0x0D then [BSL, CHR ''r'']
      else if c = CHR 0x09 then [BSL, CHR ''t''] else if c = CHR 0x0C then [BSL, CHR ''f'']
      else if c = CHR 0x08 then [BSL, CHR ''b'']
      else let n = (of_char c :: nat) in
        if 32 \<le> n \<and> n \<le> 126 then [c]
        else [BSL, CHR ''u'', CHR ''0'', CHR ''0'', hex_digit (n div 16), hex_digit (n mod 16)])"

definition dumps_string :: "string \<Rightarrow> string" where
  "dumps_string s = DQ # concat (map escaped s) @ [DQ]"

function dumps :: "json \<Rightarrow> string" where
  "dumps JNull = ''null''"
| "dumps (JBool b) = (if b then ''true'' else ''false'')"
| "dumps (JNum n) = show_int n"
| "dumps (JStr s) = dumps_string s"
| "dumps (JArr vs) = ''['' @ join '','' (map dumps vs) @ '']''"
| "dumps (JObj kvs) =
     ''{'' @ join '','' (map (\<lambda>kv. dumps_string (fst kv) @ '':'' @ dumps (snd kv)) kvs) @ ''}''"
  by pat_completeness auto
termination
  by (relation "measure size")
    (auto simp: less_Suc_eq_le dest: size_in_object intro: size_list_estimation')

definition encode_payload :: "json \<Rightarrow> string" where
  "encode_payload v = dumps (canonical v)"

section \<open>Reading\<close>

definition skip_ws :: "string \<Rightarrow> string" where
  "skip_ws = dropWhile (\<lambda>c. c \<in> {CHR '' '', CHR 0x09, CHR 0x0A, CHR 0x0D})"

definition hex_value :: "char \<Rightarrow> nat option" where
  "hex_value c =
     (let n = (of_char c :: nat) in
      if 48 \<le> n \<and> n \<le> 57 then Some (n - 48)
      else if 97 \<le> n \<and> n \<le> 102 then Some (n - 87)
      else if 65 \<le> n \<and> n \<le> 70 then Some (n - 55) else None)"

definition unescape :: "char \<Rightarrow> char option" where
  "unescape e = map_of
     [(DQ, DQ), (BSL, BSL), (CHR ''/'', CHR ''/''), (CHR ''b'', CHR 0x08), (CHR ''f'', CHR 0x0C),
      (CHR ''n'', CHR 0x0A), (CHR ''r'', CHR 0x0D), (CHR ''t'', CHR 0x09)] e"

text \<open>A \<open>u\<close> escape of four hex digits; a code point of 256 or more is outside the model's text.\<close>

definition code_point :: "char \<Rightarrow> char \<Rightarrow> char \<Rightarrow> char \<Rightarrow> char option" where
  "code_point a b c d =
     (case (hex_value a, hex_value b, hex_value c, hex_value d) of
        (Some 0, Some 0, Some x, Some y) \<Rightarrow> Some (char_of (16 * x + y))
      | _ \<Rightarrow> None)"

text \<open>The rest of a string literal after its opening quote.\<close>

fun string_body :: "string \<Rightarrow> (string \<times> string) option" where
  "string_body [] = None"
| "string_body (c # cs) =
     (if c = DQ then Some ('''', cs)
      else if c = BSL then
        (case cs of
           [] \<Rightarrow> None
         | e # rest \<Rightarrow>
             if e = CHR ''u'' then
               (case rest of
                  h1 # h2 # h3 # h4 # rest' \<Rightarrow>
                    (case code_point h1 h2 h3 h4 of
                       None \<Rightarrow> None
                     | Some x \<Rightarrow> map_option (\<lambda>(s, r). (x # s, r)) (string_body rest'))
                | _ \<Rightarrow> None)
             else (case unescape e of
                     None \<Rightarrow> None
                   | Some x \<Rightarrow> map_option (\<lambda>(s, r). (x # s, r)) (string_body rest)))
      else if (of_char c :: nat) < 32 then None
      else map_option (\<lambda>(s, r). (c # s, r)) (string_body cs))"

definition is_dec :: "char \<Rightarrow> bool" where
  "is_dec c \<longleftrightarrow> 48 \<le> (of_char c :: nat) \<and> (of_char c :: nat) \<le> 57"

definition dec_value :: "string \<Rightarrow> nat" where
  "dec_value = foldl (\<lambda>acc c. 10 * acc + (of_char c - 48)) 0"

text \<open>\<open>-?(0|[1-9][0-9]*)\<close>; a fraction or an exponent is no integer and is not read.\<close>

definition read_nat :: "string \<Rightarrow> (nat \<times> string) option" where
  "read_nat s =
     (case takeWhile is_dec s of
        [] \<Rightarrow> None
      | d # ds \<Rightarrow>
          let digits = (if d = CHR ''0'' then [d] else d # ds); rest = drop (length digits) s in
          (case rest of
             c # _ \<Rightarrow> if c \<in> {CHR ''.'', CHR ''e'', CHR ''E''} then None else Some (dec_value digits, rest)
           | [] \<Rightarrow> Some (dec_value digits, rest)))"

definition read_int :: "string \<Rightarrow> (json \<times> string) option" where
  "read_int s =
     (case s of
        [] \<Rightarrow> None
      | c # cs \<Rightarrow>
          if c = CHR ''-'' then map_option (\<lambda>(n, r). (JNum (- int n), r)) (read_nat cs)
          else map_option (\<lambda>(n, r). (JNum (int n), r)) (read_nat s))"

text \<open>A dict from the pairs of an object literal: a later entry for a key replaces the value.\<close>

definition dict_of :: "(string \<times> json) list \<Rightarrow> (string \<times> json) list" where
  "dict_of kvs = foldl (\<lambda>acc kv.
     if fst kv \<in> set (map fst acc) then map (\<lambda>old. if fst old = fst kv then kv else old) acc
     else acc @ [kv]) [] kvs"

fun parse_value :: "nat \<Rightarrow> string \<Rightarrow> (json \<times> string) option"
  and parse_array :: "nat \<Rightarrow> string \<Rightarrow> (json list \<times> string) option"
  and parse_members :: "nat \<Rightarrow> string \<Rightarrow> ((string \<times> json) list \<times> string) option" where
  "parse_value 0 s = None"
| "parse_value (Suc n) s =
     (if starts_with ''null'' s then Some (JNull, drop 4 s)
      else if starts_with ''true'' s then Some (JBool True, drop 4 s)
      else if starts_with ''false'' s then Some (JBool False, drop 5 s)
      else case s of
        [] \<Rightarrow> None
      | c # cs \<Rightarrow>
          if c = DQ then map_option (\<lambda>(t, r). (JStr t, r)) (string_body cs)
          else if c = CHR ''['' then
            (case skip_ws cs of
               [] \<Rightarrow> None
             | d # ds \<Rightarrow> if d = CHR '']'' then Some (JArr [], ds)
                         else map_option (\<lambda>(vs, r). (JArr vs, r)) (parse_array n (d # ds)))
          else if c = CHR ''{'' then
            (case skip_ws cs of
               [] \<Rightarrow> None
             | d # ds \<Rightarrow> if d = CHR ''}'' then Some (JObj [], ds)
                         else map_option (\<lambda>(kvs, r). (JObj (dict_of kvs), r)) (parse_members n (d # ds)))
          else read_int s)"
| "parse_array 0 s = None"
| "parse_array (Suc n) s =
     (case parse_value n s of
        None \<Rightarrow> None
      | Some (v, r) \<Rightarrow>
          (case skip_ws r of
             [] \<Rightarrow> None
           | c # cs \<Rightarrow>
               if c = CHR '']'' then Some ([v], cs)
               else if c = CHR '','' then map_option (\<lambda>(vs, r). (v # vs, r)) (parse_array n (skip_ws cs))
               else None))"
| "parse_members 0 s = None"
| "parse_members (Suc n) s =
     (case s of
        [] \<Rightarrow> None
      | q # qs \<Rightarrow>
          if q \<noteq> DQ then None
          else (case string_body qs of
            None \<Rightarrow> None
          | Some (k, r) \<Rightarrow>
              (case skip_ws r of
                 [] \<Rightarrow> None
               | c # cs \<Rightarrow>
                   if c \<noteq> CHR '':'' then None
                   else (case parse_value n (skip_ws cs) of
                     None \<Rightarrow> None
                   | Some (v, r) \<Rightarrow>
                       (case skip_ws r of
                          [] \<Rightarrow> None
                        | e # es \<Rightarrow>
                            if e = CHR ''}'' then Some ([(k, v)], es)
                            else if e = CHR '','' then
                              map_option (\<lambda>(kvs, r). ((k, v) # kvs, r)) (parse_members n (skip_ws es))
                            else None)))))"

definition loads :: "string \<Rightarrow> json option" where
  "loads s =
     (case parse_value (Suc (length s)) (skip_ws s) of
        Some (v, r) \<Rightarrow> if skip_ws r = '''' then Some v else None
      | None \<Rightarrow> None)"

declare parse_value.simps [simp del] parse_array.simps [simp del] parse_members.simps [simp del]

section \<open>What is written is read\<close>

text \<open>String literals.\<close>

lemma hex_value_digit: "n < 16 \<Longrightarrow> hex_value (hex_digit n) = Some n"
  by (auto simp: hex_value_def hex_digit_def Let_def)

lemma code_point_written:
  "code_point (CHR ''0'') (CHR ''0'') (hex_digit (of_char c div 16)) (hex_digit (of_char c mod 16)) = Some c"
proof -
  have "(of_char c :: nat) < 256" by simp
  then have "(of_char c :: nat) div 16 < 16" "(of_char c :: nat) mod 16 < 16"
    by (simp_all add: less_mult_imp_div_less)
  then show ?thesis
    by (simp add: code_point_def hex_value_digit hex_value_def [of "CHR ''0''"] mult_div_mod_eq)
qed

lemma string_body_escaped:
  "string_body (escaped c @ s) = map_option (\<lambda>(t, r). (c # t, r)) (string_body s)"
  by (simp add: escaped_def Let_def unescape_def code_point_written)

lemma string_body_written: "string_body (concat (map escaped s) @ DQ # r) = Some (s, r)"
  by (induction s) (simp_all add: string_body_escaped del: string_body.simps(2), simp)

text \<open>Integers.\<close>

lemma is_dec_digit [simp]: "d < 10 \<Longrightarrow> is_dec (digit_char d)"
  by (simp add: is_dec_def digit_char_def)

lemma show_nat_digits: "c \<in> set (show_nat n) \<Longrightarrow> is_dec c"
proof (induction n rule: show_nat.induct)
  case (1 n)
  then show ?case by (auto simp: show_nat.simps [of n] split: if_splits)
qed

lemma dec_value_snoc: "dec_value (s @ [c]) = 10 * dec_value s + (of_char c - 48)"
  by (simp add: dec_value_def)

lemma dec_value_show_nat: "dec_value (show_nat n) = n"
proof (induction n rule: show_nat.induct)
  case (1 n)
  show ?case
  proof (cases "n < 10")
    case True
    then show ?thesis by (simp add: show_nat.simps [of n] dec_value_def digit_char_def)
  next
    case False
    then show ?thesis using 1 by (simp add: show_nat.simps [of n] dec_value_snoc digit_char_def)
  qed
qed

lemma hd_show_nat: "hd (show_nat n) = CHR ''0'' \<Longrightarrow> show_nat n = ''0''"
proof (induction n rule: show_nat.induct)
  case (1 n)
  show ?case
  proof (cases "n < 10")
    case True
    then have "digit_char n = CHR ''0''" using "1.prems" by (simp add: show_nat.simps [of n])
    then show ?thesis using True by (simp add: show_nat.simps [of n])
  next
    case False
    then have "hd (show_nat (n div 10)) = CHR ''0''" using "1.prems" by (simp add: show_nat.simps [of n])
    then have "show_nat (n div 10) = ''0''" using 1 False by simp
    then have "n div 10 = 0" using dec_value_show_nat [of "n div 10"] by (simp add: dec_value_def)
    then show ?thesis using False by simp
  qed
qed

definition closes :: "string \<Rightarrow> bool" where
  "closes r \<longleftrightarrow> (case r of [] \<Rightarrow> True | c # _ \<Rightarrow> c \<in> {CHR '','', CHR '']'', CHR ''}''})"

lemma takeWhile_closes: "(\<And>c. c \<in> set s \<Longrightarrow> is_dec c) \<Longrightarrow> closes r \<Longrightarrow> takeWhile is_dec (s @ r) = s"
  by (induction s) (auto simp: closes_def is_dec_def split: list.splits)

lemma read_nat_written:
  assumes "closes r"
  shows "read_nat (show_nat n @ r) = Some (n, r)"
proof -
  obtain d ds where s: "show_nat n = d # ds" by (cases "show_nat n") auto
  have "takeWhile is_dec (show_nat n @ r) = show_nat n"
    by (rule takeWhile_closes [OF _ assms]) (rule show_nat_digits)
  then have "takeWhile is_dec (show_nat n @ r) = d # ds" using s by simp
  moreover have "d = CHR ''0'' \<Longrightarrow> ds = []" using hd_show_nat [of n] s by simp
  ultimately show ?thesis
    using assms s dec_value_show_nat [of n]
    by (cases "d = CHR ''0''") (auto simp: read_nat_def Let_def closes_def split: list.splits)
qed

lemma read_int_written:
  assumes "closes r"
  shows "read_int (show_int n @ r) = Some (JNum n, r)"
proof (cases "n < 0")
  case True
  then show ?thesis by (simp add: read_int_def show_int_def read_nat_written [OF assms])
next
  case False
  obtain d ds where s: "show_nat (nat n) = d # ds" by (cases "show_nat (nat n)") auto
  have "is_dec d" using show_nat_digits [of d "nat n"] s by simp
  then have "d \<noteq> CHR ''-''" by (auto simp: is_dec_def)
  then show ?thesis
    using False s read_nat_written [OF assms, of "nat n"] by (simp add: read_int_def show_int_def)
qed

text \<open>Values. A written value starts with none of the characters that close its surroundings.\<close>

lemma skip_ws_Nil [simp]: "skip_ws [] = []"
  by (simp add: skip_ws_def)

lemma skip_ws_Cons:
  "c \<notin> {CHR '' '', CHR 0x09, CHR 0x0A, CHR 0x0D} \<Longrightarrow> skip_ws (c # cs) = c # cs"
  by (simp add: skip_ws_def)

lemma is_dec_other: "is_dec c \<Longrightarrow> c \<notin> {CHR '' '', CHR 0x09, CHR 0x0A, CHR 0x0D, CHR '']'', CHR ''}''}"
  by (auto simp: is_dec_def)

lemma show_int_head:
  obtains c cs where "show_int n = c # cs" "is_dec c \<or> c = CHR ''-''"
proof (cases "n < 0")
  case True
  then show ?thesis using that by (simp add: show_int_def)
next
  case False
  obtain d ds where s: "show_nat (nat n) = d # ds" by (cases "show_nat (nat n)") auto
  then have "is_dec d" using show_nat_digits [of d "nat n"] by simp
  then show ?thesis using that False s by (simp add: show_int_def)
qed

lemma dumps_head:
  obtains c cs where "dumps v = c # cs" "c \<notin> {CHR '' '', CHR 0x09, CHR 0x0A, CHR 0x0D, CHR '']'', CHR ''}''}"
proof (cases v)
  case (JNum n)
  obtain c cs where "show_int n = c # cs" "is_dec c \<or> c = CHR ''-''" by (rule show_int_head)
  then show ?thesis using that JNum is_dec_other [of c] by auto
next
  case (JBool b)
  then show ?thesis using that by (cases b) auto
qed (use that in \<open>auto simp: dumps_string_def split: if_splits\<close>)

lemma skip_ws_dumps [simp]: "skip_ws (dumps v @ r) = dumps v @ r"
  by (rule dumps_head [of v]) (simp add: skip_ws_Cons)

lemma skip_ws_closes: "closes r \<Longrightarrow> skip_ws r = r"
  by (cases r) (auto simp: closes_def skip_ws_def)

lemma dict_of_distinct: "distinct (map fst kvs) \<Longrightarrow> dict_of kvs = kvs"
proof (induction kvs rule: rev_induct)
  case (snoc kv kvs)
  then have "dict_of kvs = kvs" by simp
  moreover have "fst kv \<notin> set (map fst kvs)" using snoc.prems by simp
  ultimately show ?case by (simp add: dict_of_def)
qed (simp add: dict_of_def)

definition member_text :: "string \<times> json \<Rightarrow> string" where
  "member_text kv = dumps_string (fst kv) @ '':'' @ dumps (snd kv)"

lemma dumps_JObj: "dumps (JObj kvs) = ''{'' @ join '','' (map member_text kvs) @ ''}''"
  by (simp add: member_text_def [abs_def])

lemma join_Cons_Cons: "join sep (x # y # ys) = x @ sep @ join sep (y # ys)"
  by simp

lemma parse_array_written:
  assumes "\<And>v r n. v \<in> set vs \<Longrightarrow> closes r \<Longrightarrow> length (dumps v) < n \<Longrightarrow> parse_value n (dumps v @ r) = Some (v, r)"
    and "vs \<noteq> []" "length (join '','' (map dumps vs)) + 1 < n"
  shows "parse_array n (join '','' (map dumps vs) @ '']'' @ r) = Some (vs, r)"
  using assms
proof (induction vs arbitrary: n)
  case (Cons v vs)
  obtain m where n: "n = Suc m" using Cons.prems(3) by (cases n) auto
  show ?case
  proof (cases vs)
    case Nil
    have "parse_value m (dumps v @ '']'' @ r) = Some (v, '']'' @ r)"
      using Cons.prems n Nil by (intro Cons.prems(1)) (auto simp: closes_def)
    then show ?thesis using n Nil by (simp add: parse_array.simps skip_ws_Cons)
  next
    case (Cons w ws)
    let ?rest = "join '','' (map dumps vs) @ '']'' @ r"
    have whole: "join '','' (map dumps (v # vs)) = dumps v @ '','' @ join '','' (map dumps vs)"
      using Cons by simp
    have "parse_value m (dumps v @ '','' @ ?rest) = Some (v, '','' @ ?rest)"
      using Cons.prems n whole by (intro Cons.prems(1)) (auto simp: closes_def)
    moreover have "parse_array m ?rest = Some (vs, r)"
      using Cons.prems n whole \<open>vs = w # ws\<close> by (intro Cons.IH) auto
    moreover have "skip_ws ?rest = ?rest"
      using Cons skip_ws_dumps [of w] by (cases ws) simp_all
    ultimately show ?thesis using n whole by (simp add: parse_array.simps skip_ws_Cons)
  qed
qed simp


lemma length_member_text: "length (dumps (snd kv)) < length (member_text kv)"
  by (simp add: member_text_def)

lemma parse_members_written:
  assumes "\<And>kv r n. kv \<in> set kvs \<Longrightarrow> closes r \<Longrightarrow> length (dumps (snd kv)) < n
      \<Longrightarrow> parse_value n (dumps (snd kv) @ r) = Some (snd kv, r)"
    and "kvs \<noteq> []" "length (join '','' (map member_text kvs)) + 1 < n"
  shows "parse_members n (join '','' (map member_text kvs) @ ''}'' @ r) = Some (kvs, r)"
  using assms
proof (induction kvs arbitrary: n)
  case (Cons kv kvs)
  obtain m where n: "n = Suc m" using Cons.prems(3) by (cases n) auto
  have key: "string_body (concat (map escaped (fst kv)) @ DQ # s) = Some (fst kv, s)" for s
    by (rule string_body_written)
  show ?case
  proof (cases kvs)
    case Nil
    have "parse_value m (dumps (snd kv) @ ''}'' @ r) = Some (snd kv, ''}'' @ r)"
      using Cons.prems n Nil by (intro Cons.prems(1)) (auto simp: closes_def member_text_def)
    then show ?thesis
      using n Nil key by (simp add: parse_members.simps member_text_def dumps_string_def skip_ws_Cons)
  next
    case (Cons kw kws)
    let ?rest = "join '','' (map member_text kvs) @ ''}'' @ r"
    have whole: "join '','' (map member_text (kv # kvs)) = member_text kv @ '','' @ join '','' (map member_text kvs)"
      using Cons by simp
    have "length (dumps (snd kv)) < m"
      using Cons.prems(3) n length_member_text [of kv] unfolding whole by simp
    then have "parse_value m (dumps (snd kv) @ '','' @ ?rest) = Some (snd kv, '','' @ ?rest)"
      by (intro Cons.prems(1)) (auto simp: closes_def)
    moreover have "parse_members m ?rest = Some (kvs, r)"
      using Cons.prems n whole \<open>kvs = kw # kws\<close> by (intro Cons.IH) auto
    moreover have "skip_ws ?rest = ?rest"
      using Cons by (cases kws) (simp_all add: member_text_def dumps_string_def skip_ws_Cons)
    ultimately show ?thesis
      unfolding whole using n key
      by (simp add: parse_members.simps member_text_def [of kv] dumps_string_def skip_ws_Cons)
  qed
qed simp

lemma starts_with_first: "starts_with (c # cs) (d # ds) \<Longrightarrow> c = d"
  by simp

lemma join_dumps_nonempty: "vs \<noteq> [] \<Longrightarrow> \<exists>c cs. join '','' (map dumps vs) = c # cs \<and> c \<noteq> CHR '']''
    \<and> skip_ws (c # cs @ r) = c # cs @ r"
proof (cases vs)
  case (Cons v ws)
  obtain c cs where "dumps v = c # cs" "c \<notin> {CHR '' '', CHR 0x09, CHR 0x0A, CHR 0x0D, CHR '']'', CHR ''}''}"
    by (rule dumps_head)
  then show ?thesis using Cons by (cases ws) (auto simp: skip_ws_Cons)
qed simp

lemma join_members_nonempty: "kvs \<noteq> [] \<Longrightarrow> \<exists>cs. join '','' (map member_text kvs) = DQ # cs"
  by (cases kvs; cases "tl kvs") (auto simp: member_text_def dumps_string_def)

lemma parse_value_written:
  "json_ok v \<Longrightarrow> closes r \<Longrightarrow> length (dumps v) < n \<Longrightarrow> parse_value n (dumps v @ r) = Some (v, r)"
proof (induction v arbitrary: r n rule: dumps.induct)
  case (3 i)
  obtain c cs where s: "show_int i = c # cs" "is_dec c \<or> c = CHR ''-''" by (rule show_int_head)
  then have "c \<notin> {CHR ''n'', CHR ''t'', CHR ''f'', DQ, CHR ''['', CHR ''{''}" by (auto simp: is_dec_def)
  moreover obtain m where "n = Suc m" using "3.prems" by (cases n) auto
  ultimately show ?case
    using s read_int_written [OF "3.prems"(2), of i] by (auto simp: parse_value.simps)
next
  case (5 vs)
  obtain m where n: "n = Suc m" using "5.prems" by (cases n) auto
  show ?case
  proof (cases "vs = []")
    case False
    then obtain c cs where j: "join '','' (map dumps vs) = c # cs" "c \<noteq> CHR '']''"
        "skip_ws (c # cs @ '']'' @ r) = c # cs @ '']'' @ r"
      using join_dumps_nonempty by metis
    have "parse_array m (join '','' (map dumps vs) @ '']'' @ r) = Some (vs, r)"
      using False n "5.prems" by (intro parse_array_written "5.IH") auto
    then show ?thesis using n j by (simp add: parse_value.simps)
  qed (simp add: n parse_value.simps skip_ws_Cons)
next
  case (6 kvs)
  obtain m where n: "n = Suc m" using "6.prems" by (cases n) auto
  show ?case
  proof (cases "kvs = []")
    case False
    then obtain cs where j: "join '','' (map member_text kvs) = DQ # cs"
      using join_members_nonempty by blast
    have "parse_members m (join '','' (map member_text kvs) @ ''}'' @ r) = Some (kvs, r)"
      using False n "6.prems" unfolding dumps_JObj by (intro parse_members_written "6.IH") auto
    then show ?thesis
      using n j "6.prems"(1) unfolding dumps_JObj
      by (simp add: parse_value.simps skip_ws_Cons dict_of_distinct)
  qed (simp add: n parse_value.simps skip_ws_Cons)
next
  case (4 s)
  then obtain m where "n = Suc m" by (cases n) auto
  then show ?case by (simp add: parse_value.simps dumps_string_def string_body_written)
next
  case 1
  then obtain m where "n = Suc m" by (cases n) auto
  then show ?case by (simp add: parse_value.simps)
next
  case (2 b)
  then obtain m where "n = Suc m" by (cases n) auto
  then show ?case by (cases b) (simp_all add: parse_value.simps)
qed

lemma loads_dumps:
  assumes "json_ok v"
  shows "loads (dumps v) = Some v"
  using parse_value_written [OF assms, of "[]" "Suc (length (dumps v))"] skip_ws_dumps [of v "[]"]
  by (simp add: loads_def closes_def)


text \<open>
  C22: A stored payload's text reads back as the payload. \<open>json.loads\<close> of what \<open>encode_payload\<close>
  writes is the value with its keys in order, whatever characters its strings hold, and two
  values have the same text exactly when they are the same value.
\<close>

theorem payload_text_round_trip:
  assumes "json_ok v" "json_ok w"
  shows "loads (encode_payload v) = Some (canonical v)
    \<and> (encode_payload v = encode_payload w \<longleftrightarrow> same_value v w)"
proof
  have v: "loads (encode_payload v) = Some (canonical v)" and w: "loads (encode_payload w) = Some (canonical w)"
    unfolding encode_payload_def by (rule loads_dumps, simp add: assms)+
  then show "loads (encode_payload v) = Some (canonical v)" by blast
  have "encode_payload v = encode_payload w \<Longrightarrow> canonical v = canonical w" using v w by (metis option.inject)
  then show "encode_payload v = encode_payload w \<longleftrightarrow> same_value v w"
    unfolding same_value_def encode_payload_def by metis
qed

theorem payload_text_round_trip_witness:
  "json_ok (JObj [(''b'', JStr [CHR 0x0A]), (''a'', JNum (- 12))])
   \<and> loads (encode_payload (JObj [(''b'', JStr [CHR 0x0A]), (''a'', JNum (- 12))]))
     = Some (canonical (JObj [(''b'', JStr [CHR 0x0A]), (''a'', JNum (- 12))]))"
proof -
  have "json_ok (JObj [(''b'', JStr [CHR 0x0A]), (''a'', JNum (- 12))])" by simp
  then show ?thesis using payload_text_round_trip by blast
qed

lemma loads_encode: "json_ok v \<Longrightarrow> loads (encode_payload v) = Some (canonical v)"
  unfolding encode_payload_def by (rule loads_dumps) simp

end
