(* ===== verification/Object_Store.thy ===== *)
theory Object_Store
  imports Json_Text
begin

text \<open>
  The payload object store (\<open>core/payloads/objects.py\<close>): references, verified writes, bundles of
  many values in one object, and the integrity checks of every read. The storage service is an
  argument, a put that may fail and a get that may find nothing or anything, and so is SHA-256.
\<close>

section \<open>References\<close>

definition BUNDLE_MAX_BYTES :: int where "BUNDLE_MAX_BYTES = 8 * 1024 * 1024"

record PayloadRef =
  pr_bucket :: string
  pr_key :: string
  pr_sha256 :: string
  pr_size :: int
  pr_version :: int

record BundleMemberRef =
  bm_bucket :: string
  bm_key :: string
  bm_sha256 :: string
  bm_size :: int
  bm_member :: string
  bm_member_sha256 :: string
  bm_member_size :: int
  bm_version :: int

definition DIGEST :: "string \<Rightarrow> bool" where
  "DIGEST s \<longleftrightarrow> length s = 64
     \<and> list_all (\<lambda>c. is_dec c \<or> c \<in> {CHR ''a'', CHR ''b'', CHR ''c'', CHR ''d'', CHR ''e'', CHR ''f''}) s"

abbreviation PayloadUnavailable :: "string \<Rightarrow> py_error" where
  "PayloadUnavailable \<equiv> RuntimeError"

definition v2_key :: "string \<Rightarrow> string" where
  "v2_key sha = ''payloads/v2/sha256/'' @ sha @ ''.json''"

definition v3_key :: "string \<Rightarrow> string" where
  "v3_key sha = ''payloads/v3/sha256/'' @ sha @ ''.json''"

definition payload_asdict :: "PayloadRef \<Rightarrow> object" where
  "payload_asdict r =
     [(''bucket'', JStr (pr_bucket r)), (''key'', JStr (pr_key r)), (''sha256'', JStr (pr_sha256 r)),
      (''size'', JNum (pr_size r)), (''version'', JNum (pr_version r))]"

definition member_asdict :: "BundleMemberRef \<Rightarrow> object" where
  "member_asdict r =
     [(''bucket'', JStr (bm_bucket r)), (''key'', JStr (bm_key r)), (''sha256'', JStr (bm_sha256 r)),
      (''size'', JNum (bm_size r)), (''member'', JStr (bm_member r)),
      (''member_sha256'', JStr (bm_member_sha256 r)), (''member_size'', JNum (bm_member_size r)),
      (''version'', JNum (bm_version r))]"

text \<open>
  \<open>cls(**value)\<close> takes exactly the declared fields, the version by default, and every check that
  fails, on a type or a value, refuses the reference.
\<close>

definition payload_ref_parse :: "object \<Rightarrow> PayloadRef result" where
  "payload_ref_parse value =
     (if set (map fst value) \<subseteq> {''bucket'', ''key'', ''sha256'', ''size'', ''version''}
      then (case (get value ''bucket'', get value ''key'', get value ''sha256'', get value ''size'',
                  coalesce (get value ''version'') (JNum 2)) of
              (Some (JStr bucket), Some (JStr key), Some (JStr sha), Some (JNum sz), JNum version) \<Rightarrow>
                if bucket \<noteq> '''' \<and> DIGEST sha \<and> 0 \<le> sz \<and> version = 2 \<and> key = v2_key sha
                then Inr \<lparr>pr_bucket = bucket, pr_key = key, pr_sha256 = sha, pr_size = sz, pr_version = version\<rparr>
                else Inl (PayloadUnavailable ''Invalid payload reference'')
            | _ \<Rightarrow> Inl (PayloadUnavailable ''Invalid payload reference''))
      else Inl (PayloadUnavailable ''Invalid payload reference''))"

definition member_ref_parse :: "object \<Rightarrow> BundleMemberRef result" where
  "member_ref_parse value =
     (if set (map fst value) \<subseteq> {''bucket'', ''key'', ''sha256'', ''size'', ''member'', ''member_sha256'',
            ''member_size'', ''version''}
      then (case (get value ''bucket'', get value ''key'', get value ''sha256'', get value ''size'',
                  coalesce (get value ''version'') (JNum 3)) of
              (Some (JStr bucket), Some (JStr key), Some (JStr sha), Some (JNum sz), JNum version) \<Rightarrow>
                (case (get value ''member'', get value ''member_sha256'', get value ''member_size'') of
                   (Some (JStr member), Some (JStr msha), Some (JNum msize)) \<Rightarrow>
                     if bucket \<noteq> '''' \<and> DIGEST sha \<and> 0 \<le> sz \<and> version = 3 \<and> key = v3_key sha
                       \<and> member \<noteq> '''' \<and> DIGEST msha \<and> 0 \<le> msize
                     then Inr \<lparr>bm_bucket = bucket, bm_key = key, bm_sha256 = sha, bm_size = sz,
                               bm_member = member, bm_member_sha256 = msha, bm_member_size = msize,
                               bm_version = version\<rparr>
                     else Inl (PayloadUnavailable ''Invalid bundle member reference'')
                 | _ \<Rightarrow> Inl (PayloadUnavailable ''Invalid bundle member reference''))
            | _ \<Rightarrow> Inl (PayloadUnavailable ''Invalid bundle member reference''))
      else Inl (PayloadUnavailable ''Invalid bundle member reference''))"

section \<open>Bundles by size\<close>

text \<open>The loop of \<open>bundle_groups\<close>; \<open>open_group\<close> is the last group, whose members total \<open>total_size\<close>.\<close>

fun bundle_loop :: "('a \<Rightarrow> int) \<Rightarrow> 'a list list \<Rightarrow> 'a list \<Rightarrow> int \<Rightarrow> 'a list \<Rightarrow> 'a list list" where
  "bundle_loop sz done_groups open_group total_size [] = done_groups @ [open_group]"
| "bundle_loop sz done_groups open_group total_size (x # xs) =
     (if total_size + sz x > BUNDLE_MAX_BYTES
      then bundle_loop sz (done_groups @ [open_group]) [x] (sz x) xs
      else bundle_loop sz done_groups (open_group @ [x]) (total_size + sz x) xs)"

definition bundle_groups :: "('a \<Rightarrow> int) \<Rightarrow> 'a list \<Rightarrow> 'a list list" where
  "bundle_groups sz xs = (case xs of [] \<Rightarrow> [] | x # rest \<Rightarrow> bundle_loop sz [] [x] (sz x) rest)"

section \<open>The store\<close>

record 'o store =
  st_bucket :: string
  st_sha256 :: "string \<Rightarrow> string"
  st_put :: "string \<Rightarrow> string \<Rightarrow> 'o \<Rightarrow> bool \<times> 'o"
  st_get :: "string \<Rightarrow> 'o \<Rightarrow> string option"

definition store_put :: "'o store \<Rightarrow> string \<Rightarrow> string \<Rightarrow> 'o \<Rightarrow> unit result \<times> 'o" where
  "store_put st raw key objs =
     (case st_put st key raw objs of
        (True, objs') \<Rightarrow> (Inr (), objs')
      | (False, objs') \<Rightarrow> (Inl (PayloadUnavailable ''Payload upload failed''), objs'))"

definition store_read :: "'o store \<Rightarrow> 'o \<Rightarrow> string \<Rightarrow> string \<Rightarrow> int \<Rightarrow> string \<Rightarrow> json result" where
  "store_read st objs bucket key sz sha =
     (if bucket \<noteq> st_bucket st
      then Inl (PayloadUnavailable ''Payload reference belongs to a different bucket'')
      else case st_get st key objs of
        None \<Rightarrow> Inl (PayloadUnavailable ''Payload unavailable from object storage'')
      | Some body \<Rightarrow>
          let raw = take (nat (sz + 1)) body in
          if int (length raw) \<noteq> sz \<or> st_sha256 st raw \<noteq> sha
          then Inl (PayloadUnavailable ''Payload integrity check failed'')
          else (case loads raw of
                  None \<Rightarrow> Inl (PayloadUnavailable ''Payload unavailable from object storage'')
                | Some v \<Rightarrow> Inr v))"

definition store_get :: "'o store \<Rightarrow> 'o \<Rightarrow> PayloadRef \<Rightarrow> json result" where
  "store_get st objs ref =
     and_then (payload_ref_parse (payload_asdict ref)) (\<lambda>r.
       store_read st objs (pr_bucket r) (pr_key r) (pr_size r) (pr_sha256 r))"

definition put_verified :: "'o store \<Rightarrow> json \<Rightarrow> 'o \<Rightarrow> PayloadRef result \<times> 'o" where
  "put_verified st v objs =
     (let raw = encode_payload v;
          digest = st_sha256 st raw;
          ref = \<lparr>pr_bucket = st_bucket st, pr_key = v2_key digest, pr_sha256 = digest,
                 pr_size = int (length raw), pr_version = 2\<rparr>;
          (sent, objs') = store_put st raw (pr_key ref) objs in
      (and_then sent (\<lambda>_.
         and_then (store_get st objs' ref) (\<lambda>back.
           if same_value back v then Inr ref
           else Inl (PayloadUnavailable ''Payload round-trip mismatch''))), objs'))"

text \<open>A call that resolves many members keeps the decoded bundles it read.\<close>

type_synonym bundle_cache = "((string \<times> int) \<times> object) list"

definition store_bundle ::
  "'o store \<Rightarrow> 'o \<Rightarrow> string \<Rightarrow> string \<Rightarrow> int \<Rightarrow> bundle_cache option \<Rightarrow> object result \<times> bundle_cache option" where
  "store_bundle st objs bucket sha sz cache =
     (let key = v3_key sha in
      case Option.bind cache (\<lambda>kept. map_of kept (key, sz)) of
        Some members \<Rightarrow> (Inr members, cache)
      | None \<Rightarrow>
          (case store_read st objs bucket key sz sha of
             Inl e \<Rightarrow> (Inl e, cache)
           | Inr (JObj members) \<Rightarrow> (Inr members, map_option (\<lambda>kept. ((key, sz), members) # kept) cache)
           | Inr _ \<Rightarrow> (Inl (PayloadUnavailable ''Payload bundle is not an object''), cache)))"

definition get_bundle ::
  "'o store \<Rightarrow> 'o \<Rightarrow> BundleMemberRef \<Rightarrow> bundle_cache option \<Rightarrow> object result \<times> bundle_cache option" where
  "get_bundle st objs ref cache =
     (case member_ref_parse (member_asdict ref) of
        Inl e \<Rightarrow> (Inl e, cache)
      | Inr r \<Rightarrow> store_bundle st objs (bm_bucket r) (bm_sha256 r) (bm_size r) cache)"

definition get_member ::
  "'o store \<Rightarrow> 'o \<Rightarrow> BundleMemberRef \<Rightarrow> bundle_cache option \<Rightarrow> json result \<times> bundle_cache option" where
  "get_member st objs ref cache =
     (let (found, cache') = get_bundle st objs ref cache in
      (and_then found (\<lambda>members.
         case get members (bm_member ref) of
           None \<Rightarrow> Inl (PayloadUnavailable ''Payload bundle has no such member'')
         | Some v \<Rightarrow>
             let raw = encode_payload v in
             if int (length raw) \<noteq> bm_member_size ref \<or> st_sha256 st raw \<noteq> bm_member_sha256 ref
             then Inl (PayloadUnavailable ''Payload bundle member integrity check failed'')
             else Inr v), cache'))"

definition get_digest_member ::
  "'o store \<Rightarrow> 'o \<Rightarrow> string \<Rightarrow> int \<Rightarrow> string \<Rightarrow> bundle_cache \<Rightarrow> json result \<times> bundle_cache option" where
  "get_digest_member st objs bundle_sha bundle_size member_sha cache =
     (if \<not> DIGEST bundle_sha \<or> \<not> DIGEST member_sha \<or> bundle_size < 0
      then (Inl (PayloadUnavailable ''Invalid bundle member reference''), Some cache)
      else let (found, cache') = store_bundle st objs (st_bucket st) bundle_sha bundle_size (Some cache) in
        (and_then found (\<lambda>members.
           case get members member_sha of
             None \<Rightarrow> Inl (PayloadUnavailable ''Payload bundle has no such member'')
           | Some v \<Rightarrow>
               if st_sha256 st (encode_payload v) \<noteq> member_sha
               then Inl (PayloadUnavailable ''Payload bundle member integrity check failed'')
               else Inr v), cache'))"

definition member_ref :: "'o store \<Rightarrow> string \<Rightarrow> int \<Rightarrow> string \<times> json \<Rightarrow> BundleMemberRef" where
  "member_ref st digest sz kv =
     (let encoded = encode_payload (snd kv) in
      \<lparr>bm_bucket = st_bucket st, bm_key = v3_key digest, bm_sha256 = digest, bm_size = sz,
       bm_member = fst kv, bm_member_sha256 = st_sha256 st encoded,
       bm_member_size = int (length encoded), bm_version = 3\<rparr>)"

text \<open>\<open>any(...)\<close> over the references: stops at the first member that reads back differently.\<close>

fun any_differs ::
  "'o store \<Rightarrow> 'o \<Rightarrow> (BundleMemberRef \<times> json) list \<Rightarrow> bundle_cache option \<Rightarrow> bool result" where
  "any_differs st objs [] cache = Inr False"
| "any_differs st objs ((ref, v) # rest) cache =
     (let (back, cache') = get_member st objs ref cache in
      and_then back (\<lambda>w. if \<not> same_value w v then Inr True else any_differs st objs rest cache'))"

definition put_bundle ::
  "'o store \<Rightarrow> object \<Rightarrow> 'o \<Rightarrow> (string \<times> BundleMemberRef) list result \<times> 'o" where
  "put_bundle st members objs =
     (if members = [] \<or> (\<exists>kv \<in> set members. fst kv = '''')
      then (Inl (PayloadUnavailable ''A bundle needs named members''), objs)
      else
        let raw = encode_payload (JObj members);
            digest = st_sha256 st raw;
            refs = map (\<lambda>kv. (fst kv, member_ref st digest (int (length raw)) kv)) members;
            (sent, objs') = store_put st raw (v3_key digest) objs in
        (and_then sent (\<lambda>_.
           and_then (any_differs st objs' (zip (map snd refs) (map snd members)) (Some [])) (\<lambda>differs.
             if differs then Inl (PayloadUnavailable ''Payload round-trip mismatch'') else Inr refs)), objs'))"

section \<open>Integrity\<close>

lemma payload_ref_parse_asdict:
  "payload_ref_parse (payload_asdict ref) =
     (if pr_bucket ref \<noteq> '''' \<and> DIGEST (pr_sha256 ref) \<and> 0 \<le> pr_size ref \<and> pr_version ref = 2
         \<and> pr_key ref = v2_key (pr_sha256 ref)
      then Inr ref else Inl (PayloadUnavailable ''Invalid payload reference''))"
  by (cases ref) (simp add: payload_ref_parse_def payload_asdict_def get_def coalesce_def)

lemma member_ref_parse_asdict:
  "member_ref_parse (member_asdict ref) =
     (if bm_bucket ref \<noteq> '''' \<and> DIGEST (bm_sha256 ref) \<and> 0 \<le> bm_size ref \<and> bm_version ref = 3
         \<and> bm_key ref = v3_key (bm_sha256 ref) \<and> bm_member ref \<noteq> '''' \<and> DIGEST (bm_member_sha256 ref)
         \<and> 0 \<le> bm_member_size ref
      then Inr ref else Inl (PayloadUnavailable ''Invalid bundle member reference''))"
  by (cases ref) (simp add: member_ref_parse_def member_asdict_def get_def coalesce_def)

text \<open>What a read returns is the value of some text with the digest that was asked for.\<close>

lemma store_read_digest:
  assumes "store_read st objs bucket key sz sha = Inr v"
  obtains raw where "st_sha256 st raw = sha" "loads raw = Some v"
  using assms that by (auto simp: store_read_def Let_def split: if_splits option.splits)

lemma store_get_digest:
  assumes "store_get st objs ref = Inr v"
  obtains raw where "st_sha256 st raw = pr_sha256 ref" "loads raw = Some v"
proof -
  have "store_read st objs (pr_bucket ref) (pr_key ref) (pr_size ref) (pr_sha256 ref) = Inr v"
    using assms by (simp add: store_get_def payload_ref_parse_asdict split: if_splits)
  then show ?thesis using that by (rule store_read_digest)
qed

lemma get_member_digest:
  assumes "get_member st objs ref cache = (Inr v, cache')"
  shows "st_sha256 st (encode_payload v) = bm_member_sha256 ref"
  using assms by (auto simp: get_member_def Let_def and_then_Inr_iff split: prod.splits option.splits if_splits)

text \<open>SHA-256 as the store relies on it: no other text has the digest of this one.\<close>

definition only_text :: "(string \<Rightarrow> string) \<Rightarrow> string \<Rightarrow> bool" where
  "only_text sha raw \<longleftrightarrow> (\<forall>other. sha other = sha raw \<longrightarrow> other = raw)"

lemma put_verified_back:
  assumes "put_verified st v objs = (Inr ref, objs')"
  shows "pr_sha256 ref = st_sha256 st (encode_payload v)" "\<exists>w. store_get st objs' ref = Inr w"
    "payload_ref_parse (payload_asdict ref) = Inr ref"
  using assms
  by (auto simp: put_verified_def store_get_def Let_def and_then_Inr_iff payload_ref_parse_asdict
      split: prod.splits if_splits)

lemma digest_reads:
  assumes "pr_sha256 ref = st_sha256 st (encode_payload v)" "json_ok v" "only_text (st_sha256 st) (encode_payload v)"
    "store_get st objs ref = Inr w"
  shows "w = canonical v"
proof -
  obtain raw where "st_sha256 st raw = pr_sha256 ref" "loads raw = Some w" by (rule store_get_digest [OF assms(4)])
  then have "loads (encode_payload v) = Some w" using assms(1,3) by (auto simp: only_text_def)
  then show ?thesis using loads_encode [OF assms(2)] by simp
qed

text \<open>
  A payload reference reads the payload it was made for, or nothing. Once \<open>put_verified\<close> has
  returned a reference, reading it then gives the stored value; in any later state of the storage,
  whatever was lost, overwritten or cut short there, reading it gives that value or raises.
\<close>

theorem reference_reads_its_payload_or_nothing:
  assumes "put_verified st v objs = (Inr ref, objs')" "json_ok v" "only_text (st_sha256 st) (encode_payload v)"
  shows "store_get st objs' ref = Inr (canonical v)
    \<and> (case store_get st later ref of Inr w \<Rightarrow> w = canonical v | Inl e \<Rightarrow> \<exists>why. e = PayloadUnavailable why)"
proof -
  note stored = put_verified_back [OF assms(1)]
  have "\<exists>why. e = PayloadUnavailable why" if "store_get st later ref = Inl e" for e
    using that by (auto simp: store_get_def and_then_Inl_iff payload_ref_parse_asdict store_read_def Let_def
        split: if_splits option.splits)
  moreover obtain w where "store_get st objs' ref = Inr w" using stored(2) by blast
  moreover have "w = canonical v" by (rule digest_reads [OF stored(1) assms(2,3)]) fact
  ultimately show ?thesis
    using digest_reads [OF stored(1) assms(2,3), of later] by (simp split: sum.split)
qed

text \<open>Members of a bundle, through any cache.\<close>

lemma any_differs_False:
  assumes "any_differs st objs rvs cache = Inr False" "(ref, v) \<in> set rvs"
  shows "\<exists>c c' w. get_member st objs ref c = (Inr w, c') \<and> same_value w v"
  using assms
proof (induction rvs arbitrary: cache)
  case (Cons rv rvs)
  obtain r u where rv: "rv = (r, u)" by (cases rv)
  obtain w c' where g: "get_member st objs r cache = (Inr w, c')" "same_value w u" "any_differs st objs rvs c' = Inr False"
    using Cons.prems(1) by (auto simp: rv Let_def and_then_Inr_iff split: prod.splits if_splits)
  show ?case
  proof (cases "(ref, v) = rv")
    case True
    then show ?thesis using g rv by auto
  next
    case False
    then show ?thesis using Cons.IH [OF g(3)] Cons.prems(2) by auto
  qed
qed simp

definition bundle_refs :: "'o store \<Rightarrow> object \<Rightarrow> (string \<times> BundleMemberRef) list" where
  "bundle_refs st members =
     (let raw = encode_payload (JObj members) in
      map (\<lambda>kv. (fst kv, member_ref st (st_sha256 st raw) (int (length raw)) kv)) members)"

lemma put_bundle_Inr:
  assumes "put_bundle st members objs = (Inr refs, objs')"
  shows "refs = bundle_refs st members"
    "any_differs st objs' (zip (map snd (bundle_refs st members)) (map snd members)) (Some []) = Inr False"
  using assms
  by (auto simp: put_bundle_def bundle_refs_def Let_def and_then_Inr_iff split: prod.splits if_splits)

text \<open>
  A bundle's reference reads the member it was made for, or nothing. Once \<open>put_bundle\<close> has
  returned, it has a reference for every member in order, each of which reads back as that member;
  later, through any cache and whatever the storage holds then, a reference reads a value that is
  that member's or raises.
\<close>

theorem bundle_reference_reads_its_member_or_nothing:
  assumes "put_bundle st members objs = (Inr refs, objs')" "i < length members"
    "json_ok (snd (members ! i))" "only_text (st_sha256 st) (encode_payload (snd (members ! i)))"
    "\<And>v. fst (get_member st later (snd (refs ! i)) cache) = Inr v \<Longrightarrow> json_ok v"
  shows "map fst refs = map fst members
    \<and> (\<exists>c c' w. get_member st objs' (snd (refs ! i)) c = (Inr w, c') \<and> same_value w (snd (members ! i)))
    \<and> (case fst (get_member st later (snd (refs ! i)) cache) of
         Inr w \<Rightarrow> same_value w (snd (members ! i)) | Inl _ \<Rightarrow> True)"
proof -
  let ?ref = "snd (refs ! i)" and ?v = "snd (members ! i)"
  note refs = put_bundle_Inr [OF assms(1)]
  have ref: "bm_member_sha256 ?ref = st_sha256 st (encode_payload ?v)"
    using assms(2) by (simp add: refs(1) bundle_refs_def Let_def member_ref_def)
  have "(?ref, ?v) \<in> set (zip (map snd (bundle_refs st members)) (map snd members))"
    using assms(2) by (auto simp: refs(1) bundle_refs_def Let_def in_set_zip intro!: exI [of _ i])
  then have now: "\<exists>c c' w. get_member st objs' ?ref c = (Inr w, c') \<and> same_value w ?v"
    by (rule any_differs_False [OF refs(2)])
  have "same_value w ?v" if read: "get_member st later ?ref cache = (Inr w, c')" for w c'
  proof -
    have "encode_payload w = encode_payload ?v"
      using get_member_digest [OF read] ref assms(4) by (auto simp: only_text_def)
    moreover have "json_ok w" using assms(5) read by simp
    ultimately show ?thesis using loads_encode [of w] loads_encode [OF assms(3)] by (simp add: same_value_def)
  qed
  then have later: "case fst (get_member st later ?ref cache) of Inr w \<Rightarrow> same_value w ?v | Inl _ \<Rightarrow> True"
    by (cases "get_member st later ?ref cache") (auto split: sum.split)
  have "map fst refs = map fst members" by (simp add: refs(1) bundle_refs_def Let_def)
  then show ?thesis using now later by blast
qed

section \<open>Groups\<close>

definition group_ok :: "('a \<Rightarrow> int) \<Rightarrow> 'a list \<Rightarrow> bool" where
  "group_ok sz g \<longleftrightarrow> g \<noteq> [] \<and> (length g = 1 \<or> sum_list (map sz g) \<le> BUNDLE_MAX_BYTES)"

text \<open>No group could have taken the first item of the next.\<close>

fun groups_full :: "('a \<Rightarrow> int) \<Rightarrow> 'a list list \<Rightarrow> bool" where
  "groups_full sz (g # h # gs) =
     (sum_list (map sz g) + sz (hd h) > BUNDLE_MAX_BYTES \<and> groups_full sz (h # gs))"
| "groups_full sz _ = True"

lemma groups_full_snoc:
  "groups_full sz (gs @ [g]) \<Longrightarrow> sum_list (map sz g) + sz x > BUNDLE_MAX_BYTES \<Longrightarrow> groups_full sz (gs @ [g, [x]])"
  by (induction sz gs rule: groups_full.induct) auto

lemma groups_full_extend:
  "groups_full sz (gs @ [g]) \<Longrightarrow> g \<noteq> [] \<Longrightarrow> groups_full sz (gs @ [g @ [x]])"
  by (induction sz gs rule: groups_full.induct) auto

lemma bundle_loop_ok:
  assumes "\<forall>g \<in> set (done_groups @ [open_group]). group_ok sz g" "groups_full sz (done_groups @ [open_group])"
    "total_size = sum_list (map sz open_group)"
  shows "concat (bundle_loop sz done_groups open_group total_size xs) = concat done_groups @ open_group @ xs
    \<and> (\<forall>g \<in> set (bundle_loop sz done_groups open_group total_size xs). group_ok sz g)
    \<and> groups_full sz (bundle_loop sz done_groups open_group total_size xs)"
  using assms
proof (induction xs arbitrary: done_groups open_group total_size)
  case (Cons x xs)
  show ?case
  proof (cases "total_size + sz x > BUNDLE_MAX_BYTES")
    case True
    have "group_ok sz [x]" by (simp add: group_ok_def)
    then have ok: "\<forall>g \<in> set ((done_groups @ [open_group]) @ [[x]]). group_ok sz g" using Cons.prems(1) by simp
    have "groups_full sz (done_groups @ [open_group, [x]])"
      by (rule groups_full_snoc [OF Cons.prems(2)]) (use True Cons.prems(3) in simp)
    then have full: "groups_full sz ((done_groups @ [open_group]) @ [[x]])" by simp
    have "sz x = sum_list (map sz [x])" by simp
    from Cons.IH [OF ok full this] show ?thesis using True by simp
  next
    case False
    have nonempty: "open_group \<noteq> []" using Cons.prems(1) by (simp add: group_ok_def)
    have "group_ok sz (open_group @ [x])" using Cons.prems(3) False by (simp add: group_ok_def)
    then have ok: "\<forall>g \<in> set (done_groups @ [open_group @ [x]]). group_ok sz g" using Cons.prems(1) by simp
    have full: "groups_full sz (done_groups @ [open_group @ [x]])"
      by (rule groups_full_extend [OF Cons.prems(2) nonempty])
    have "total_size + sz x = sum_list (map sz (open_group @ [x]))" using Cons.prems(3) by simp
    from Cons.IH [OF ok full this] show ?thesis using False by simp
  qed
qed simp

lemma bundle_groups_partition:
  "concat (bundle_groups sz xs) = xs \<and> (\<forall>g \<in> set (bundle_groups sz xs). group_ok sz g)
   \<and> groups_full sz (bundle_groups sz xs)"
proof (cases xs)
  case (Cons x rest)
  have "\<forall>g \<in> set ([] @ [[x]]). group_ok sz g" "groups_full sz ([] @ [[x]])" "sz x = sum_list (map sz [x])"
    by (simp_all add: group_ok_def)
  from bundle_loop_ok [OF this, of rest] show ?thesis unfolding Cons by (simp add: bundle_groups_def)
qed (simp add: bundle_groups_def)

section \<open>A store to evaluate\<close>

text \<open>Storage that keeps what it is given, and a digest that sets one text apart.\<close>

definition sample_store :: "string \<Rightarrow> (string \<times> string) list store" where
  "sample_store picked =
     \<lparr>st_bucket = ''b'', st_sha256 = (\<lambda>s. replicate 64 (if s = picked then CHR ''0'' else CHR ''1'')),
      st_put = (\<lambda>key raw objs. (True, (key, raw) # objs)), st_get = (\<lambda>key objs. map_of objs key)\<rparr>"

lemma sample_digest: "DIGEST (st_sha256 (sample_store picked) s)"
  by (simp add: DIGEST_def list_all_iff is_dec_def sample_store_def)

lemma sample_only_text: "only_text (st_sha256 (sample_store picked)) picked"
proof -
  have "replicate 64 (CHR ''1'') \<noteq> replicate 64 (CHR ''0'')" unfolding replicate_eq_replicate by simp
  then show ?thesis by (auto simp: only_text_def sample_store_def split: if_splits)
qed

lemma sample_put:
  assumes "json_ok v"
  shows "\<exists>ref objs. put_verified (sample_store picked) v [] = (Inr ref, objs)"
proof -
  let ?st = "sample_store picked"
  have "st_put ?st key raw [] = (True, [(key, raw)])" "st_get ?st key [(key, raw)] = Some raw"
      "st_bucket ?st = ''b''" for key raw by (simp_all add: sample_store_def)
  then show ?thesis
    using loads_encode [OF assms] sample_digest [of picked "encode_payload v"]
    by (simp add: put_verified_def Let_def store_put_def store_get_def payload_ref_parse_asdict store_read_def
        same_value_def)
qed

theorem reference_reads_its_payload_or_nothing_witness:
  "\<exists>ref objs. put_verified (sample_store (encode_payload JNull)) JNull [] = (Inr ref, objs)
     \<and> store_get (sample_store (encode_payload JNull)) objs ref = Inr (canonical JNull)"
proof -
  have ok: "json_ok JNull" by simp
  obtain ref objs where put: "put_verified (sample_store (encode_payload JNull)) JNull [] = (Inr ref, objs)"
    using sample_put [OF ok] by blast
  then show ?thesis using reference_reads_its_payload_or_nothing [OF put ok sample_only_text] by blast
qed

end
