(* ===== verification/Board_Admission.thy ===== *)
theory Board_Admission
  imports Entitlements Screening Batch_Wire Fallback Dates Object_Store
begin

text \<open>
  Managed-board runs (\<open>api/managed_boards\<close>): the prompt texts of \<open>core/filters.py\<close>, the board and
  its candidates (\<open>selection.py\<close>), the stored settings of a run (\<open>api/run_configs.py\<close>), and the
  admission of a run under the sponsor's allowance (\<open>admission.py\<close>). The two catalogue queries that
  list candidates, the object store and the digest of \<open>run_configs\<close> are arguments.
\<close>

section \<open>Prompts\<close>

abbreviation NL :: string where "NL \<equiv> [CHR 0x0A]"
abbreviation QUOTE :: string where "QUOTE \<equiv> [CHR 0x22]"

definition AMBIGUITY_RULES :: "(string \<times> string) list" where
  "AMBIGUITY_RULES =
     [(''keep'',
       ''should_filter=true only if the job clearly violates the criteria; false if it matches ''
       @ ''or is ambiguous (prefer false negatives, do not lose good roles).''),
      (''filter'',
       ''should_filter=true if the job violates the criteria, OR if the posting does not give you ''
       @ ''enough information to confirm it meets them; false only when it clearly meets them. ''
       @ ''For this filter ambiguity counts as a violation -- but this never means applying a harsher ''
       @ ''threshold than the criteria state, only that unconfirmed criteria fail.'')]"

definition build_custom_input :: "string \<Rightarrow> string \<Rightarrow> string \<Rightarrow> string" where
  "build_custom_input company title content =
     ''Company: '' @ company @ NL @ ''Job Title: '' @ title @ NL @ NL @ ''Job Content:'' @ NL @ content"

definition custom_criteria_instructions :: "string \<Rightarrow> string \<Rightarrow> string" where
  "custom_criteria_instructions prompt on_ambiguous =
     ''Evaluate a job against the user criteria below and decide whether to filter it out.'' @ NL @ NL
     @ ''<user_criteria>'' @ NL @ prompt @ NL @ ''</user_criteria>'' @ NL @ NL
     @ coalesce (map_of AMBIGUITY_RULES on_ambiguous) (the (map_of AMBIGUITY_RULES ''keep''))"

definition build_custom_instructions :: "string \<Rightarrow> string \<Rightarrow> string" where
  "build_custom_instructions prompt on_ambiguous =
     (if prompt = '''' then ''''
      else custom_criteria_instructions prompt on_ambiguous @ NL @ NL
        @ ''reason: <=25 words citing the deciding factor (company/role/skills).'')"

definition build_custom_decision_instructions :: "string \<Rightarrow> string \<Rightarrow> string" where
  "build_custom_decision_instructions prompt on_ambiguous =
     (if prompt = '''' then ''''
      else custom_criteria_instructions prompt on_ambiguous @ NL @ NL
        @ ''Return only a JSON object with the boolean field '' @ QUOTE @ ''should_filter'' @ QUOTE
        @ ''. Do not include a reason.'')"

section \<open>Boards and candidates\<close>

definition FILTER_OUTPUT_RESERVATION_TOKENS :: int where "FILTER_OUTPUT_RESERVATION_TOKENS = 320"
definition BATCH_OUTPUT_TOKENS :: int where "BATCH_OUTPUT_TOKENS = 6000"
definition MANAGED_FILTER_EXECUTION_VERSION :: int where "MANAGED_FILTER_EXECUTION_VERSION = 2"
definition MANAGED_FILTER_TRANSPORT :: string where "MANAGED_FILTER_TRANSPORT = ''batch''"

definition batch_shape :: "string \<Rightarrow> string option \<Rightarrow> TaskShape" where
  "batch_shape mdl eff =
     \<lparr>purpose = ''managed_board'', structured = JSON_SCHEMA, t_batched = True,
      t_max_output_tokens = BATCH_OUTPUT_TOKENS, est_prompt_tokens = 1000, candidates = [mdl],
      effort = eff, effort_preference = [], t_params = [], t_label = '''', per_cycle = 0,
      t_notes = '''', on_model_change = MIXES, evidence = []\<rparr>"

record Board =
  bd_id :: int
  bd_sponsor :: int
  bd_prompt :: string
  bd_prompt_hash :: string
  bd_model :: string
  bd_execution_mode :: string
  bd_on_ambiguous :: string
  bd_fail_closed :: bool
  bd_bypass_sponsorship_filter :: bool
  bd_criteria :: object
  bd_title_gate :: "object option"
  bd_revision :: int
  bd_published :: bool
  bd_sources :: "string list"

record Candidate =
  cd_id :: int
  cd_url :: string
  cd_company :: string
  cd_title :: string
  cd_source :: string
  cd_sort_at :: instant
  cd_content_query_id :: "int option"
  cd_content_chars :: "int option"

text \<open>A row of \<open>managed_boards\<close>; the sources of a board are rows of their own.\<close>

record managed_board =
  mb_board :: Board
  mb_projection_updated_at :: "instant option"
  mb_public_revision :: "int option"

record run_config =
  rc_id :: int
  rc_digest :: string
  rc_kind :: string
  rc_body :: object

record board_db =
  bb_boards :: "managed_board list"
  bb_board_sources :: "(int \<times> string) list"
  bb_users :: "(int \<times> string list) list"
  bb_groups :: "GroupBudget list"
  bb_calls :: "Call list"
  bb_configs :: "run_config list"
  bb_config_seq :: int
  bb_queue :: queue

definition board_of :: "int \<Rightarrow> board_db \<Rightarrow> Board option" where
  "board_of i db =
     map_option (\<lambda>b. (mb_board b)\<lparr>bd_sources := sort (map snd (filter (\<lambda>(j, _). j = i) (bb_board_sources db)))\<rparr>)
       (find (\<lambda>b. bd_id (mb_board b) = i) (bb_boards db))"

definition reservation :: "Board \<Rightarrow> Candidate list \<Rightarrow> int" where
  "reservation board cands =
     (let instructions = build_custom_decision_instructions (bd_prompt board) (bd_on_ambiguous board) in
      sum_list (map (\<lambda>c.
        (int (length instructions) + int (length (build_custom_input (cd_company c) (cd_title c) ''''))
         + coalesce (cd_content_chars c) 0) div BATCH_CHARS_PER_TOKEN
        + FILTER_OUTPUT_RESERVATION_TOKENS) cands))"

section \<open>Title screens of a board\<close>

text \<open>\<open>TitleGateConfig.model_validate\<close>: known keys only, a board recipe, and the mode \<open>enforce\<close>.\<close>

definition BoardRecipe :: "string list" where
  "BoardRecipe =
     [''internship_v1'', ''new_grad_v1'', ''aero_major_v1'', ''finance_new_grad_v1'', ''finance_new_grad_v2'']"

definition title_gate_recipe :: "object \<Rightarrow> string result" where
  "title_gate_recipe gate =
     (if set (map fst gate) \<subseteq> {''recipe'', ''mode''}
         \<and> (case get gate ''mode'' of None \<Rightarrow> True | Some v \<Rightarrow> v = JStr ''enforce'')
      then (case get gate ''recipe'' of
              Some (JStr r) \<Rightarrow> if r \<in> set BoardRecipe then Inr r else Inl (ValueError ''recipe'')
            | _ \<Rightarrow> Inl (ValueError ''recipe''))
      else Inl (ValueError ''title_gate''))"

definition board_screens :: "object option \<Rightarrow> string \<Rightarrow> (string \<times> string) list \<Rightarrow> string list result" where
  "board_screens gate prompt_hash screens =
     and_then (case gate of
                 None \<Rightarrow> Inr []
               | Some g \<Rightarrow> if g = [] then Inr [] else and_then (title_gate_recipe g) (\<lambda>r. Inr [r]))
       (\<lambda>recipes. Inr (case map_of screens prompt_hash of
                         Some r \<Rightarrow> if r = '''' then recipes else recipes @ [r]
                       | None \<Rightarrow> recipes))"

text \<open>\<open>any(...)\<close> stops at the first screen that skips; an unknown recipe raises where it is reached.\<close>

fun screened :: "string list \<Rightarrow> string option \<Rightarrow> string option \<Rightarrow> bool result" where
  "screened [] title source = Inr False"
| "screened (r # rs) title source =
     and_then (screen r title source) (\<lambda>s. if skip s then Inr True else screened rs title source)"

fun unscreened :: "string list \<Rightarrow> Candidate list \<Rightarrow> Candidate list result" where
  "unscreened recipes [] = Inr []"
| "unscreened recipes (c # cs) =
     and_then (screened recipes (Some (cd_title c)) (Some (cd_source c))) (\<lambda>out.
       and_then (unscreened recipes cs) (\<lambda>kept. Inr (if out then kept else c # kept)))"

section \<open>The stored settings of a run\<close>

text \<open>
  \<open>run_configs.intern\<close>: an insert that does nothing when the digest is taken, then a read of the row
  with that digest, which must be the exact settings. A body is JSONB, whose text orders the keys of
  every object.
\<close>

definition intern ::
  "(string \<Rightarrow> json \<Rightarrow> string) \<Rightarrow> string \<Rightarrow> object \<Rightarrow> run_config list \<Rightarrow> int
   \<Rightarrow> (int \<times> run_config list) result" where
  "intern digest k body configs seq =
     (let d = digest k (canonical (JObj body));
          stored = (if (\<exists>c \<in> set configs. rc_digest c = d) then configs
                    else configs @ [\<lparr>rc_id = seq, rc_digest = d, rc_kind = k, rc_body = body\<rparr>]) in
      case find (\<lambda>c. rc_digest c = d) stored of
        Some c \<Rightarrow> if rc_kind c = k \<and> same_value (JObj (rc_body c)) (JObj body) then Inr (rc_id c, stored)
                  else Inl (RuntimeError ''Run config digest does not identify its exact body'')
      | None \<Rightarrow> Inl (RuntimeError ''Run config digest does not identify its exact body''))"

definition config_body :: "int \<Rightarrow> string \<Rightarrow> run_config list \<Rightarrow> object result" where
  "config_body i k configs =
     (case find (\<lambda>c. rc_id c = i \<and> rc_kind c = k) configs of
        Some c \<Rightarrow> Inr (rc_body c)
      | None \<Rightarrow> Inl (RuntimeError (''Run config '' @ show_int i @ '' of kind '' @ k @ '' does not exist'')))"

section \<open>Admission\<close>

text \<open>
  What a run is refused with (\<open>RunRefusal\<close>), apart from errors of another kind. \<open>bigint_at\<close> is
  \<open>(payload->>k)::bigint\<close> where the key holds an integer, as every run's payload has it.
\<close>

datatype admit_error = RunRefusal string string "int option" | Admit_raised py_error

definition bigint_at :: "object \<Rightarrow> string \<Rightarrow> int option" where
  "bigint_at p k = (case get p k of Some (JNum n) \<Rightarrow> Some n | _ \<Rightarrow> None)"

definition MANAGED_BOARD_RUN_KINDS :: "string list" where
  "MANAGED_BOARD_RUN_KINDS = [''run_managed_board'', ''run_managed_board_batch'']"

definition board_run :: "int \<Rightarrow> Task \<Rightarrow> bool" where
  "board_run i t \<longleftrightarrow> kind t \<in> set MANAGED_BOARD_RUN_KINDS \<and> bigint_at (payload t) ''managed_board_id'' = Some i
     \<and> status t \<in> set ACTIVE_STATUSES"

definition active_runs :: "int \<Rightarrow> board_db \<Rightarrow> Task list" where
  "active_runs i db = filter (board_run i) (tasks (bb_queue db))"

definition sponsor_of :: "int \<Rightarrow> board_db \<Rightarrow> int option" where
  "sponsor_of i db = map_option (bd_sponsor \<circ> mb_board) (find (\<lambda>b. bd_id (mb_board b) = i) (bb_boards db))"

definition charged :: "instant \<Rightarrow> int \<Rightarrow> board_db \<Rightarrow> Call \<Rightarrow> bool" where
  "charged now sponsor db c \<longleftrightarrow> ca_key_source c = ''owner'' \<and> in_week now c
     \<and> (ca_user_id c = Some sponsor
        \<or> Option.bind (ca_managed_board_id c) (\<lambda>i. sponsor_of i db) = Some sponsor)"

definition reserves :: "int \<Rightarrow> board_db \<Rightarrow> Task \<Rightarrow> bool" where
  "reserves sponsor db t \<longleftrightarrow> kind t \<in> set MANAGED_BOARD_RUN_KINDS \<and> status t \<in> set ACTIVE_STATUSES
     \<and> Option.bind (bigint_at (payload t) ''managed_board_id'') (\<lambda>i. sponsor_of i db) = Some sponsor"

definition spent_position :: "instant \<Rightarrow> int \<Rightarrow> board_db \<Rightarrow> int" where
  "spent_position now sponsor db = sum_list (map ca_total (filter (charged now sponsor db) (bb_calls db)))"

definition reserved_position :: "int \<Rightarrow> board_db \<Rightarrow> int" where
  "reserved_position sponsor db =
     sum_list (map (\<lambda>t. coalesce (bigint_at (payload t) ''reserved_tokens'') 0)
       (filter (reserves sponsor db) (tasks (bb_queue db))))"

definition refuse_active :: "int \<Rightarrow> board_db \<Rightarrow> admit_error + unit" where
  "refuse_active i db =
     (case active_runs i db of
        [] \<Rightarrow> Inr ()
      | t # ts \<Rightarrow> Inl (RunRefusal ''IN_PROGRESS'' ''this board already has an active run''
                    (Some (tid (min_by (\<lambda>t. - tid t) t ts)))))"

definition refuse_over_budget :: "instant \<Rightarrow> int \<Rightarrow> int option \<Rightarrow> int \<Rightarrow> board_db \<Rightarrow> admit_error + unit" where
  "refuse_over_budget now sponsor cap reserved db =
     (case cap of
        None \<Rightarrow> Inr ()
      | Some c \<Rightarrow>
          if spent_position now sponsor db + reserved_position sponsor db + reserved > c
          then Inl (RunRefusal ''BUDGET_EXCEEDED'' ''sponsor weekly allowance cannot cover this run'' None)
          else Inr ())"

text \<open>
  The frozen job list of a task (\<open>api/task_jobs.py\<close>): inline, or behind a reference with the count
  and, for some kinds, the URLs beside it.
\<close>

record Population =
  po_name :: string
  po_kinds :: "string list"
  po_urls :: bool

definition MANAGED_BOARD_RUNS :: Population where
  "MANAGED_BOARD_RUNS = \<lparr>po_name = ''managed_board'', po_kinds = MANAGED_BOARD_RUN_KINDS, po_urls = False\<rparr>"

definition FILTER_CHUNKS :: Population where
  "FILTER_CHUNKS = \<lparr>po_name = ''filter_chunk'',
     po_kinds = [''run_filter_chunk'', ''run_filter_batch_chunk''], po_urls = True\<rparr>"

definition job_url :: "json \<Rightarrow> json" where
  "job_url job = (case job of JObj kvs \<Rightarrow> coalesce (get kvs ''url'') JNull | _ \<Rightarrow> JNull)"

definition is_object :: "json \<Rightarrow> bool" where
  "is_object v = (case v of JObj _ \<Rightarrow> True | _ \<Rightarrow> False)"

definition jobs_reference :: "Population \<Rightarrow> json list \<Rightarrow> PayloadRef \<Rightarrow> object" where
  "jobs_reference pop jobs ref =
     [(''jobs_ref'', JObj (payload_asdict ref)), (''candidate_count'', JNum (int (length jobs)))]
     @ (if po_urls pop then [(''urls'', JArr (map job_url jobs))] else [])"

definition run_jobs :: "'o store \<Rightarrow> 'o \<Rightarrow> bool \<Rightarrow> object \<Rightarrow> json result" where
  "run_jobs st objs in_transaction p =
     (case get p ''jobs'' of
        Some jobs \<Rightarrow> Inr jobs
      | None \<Rightarrow>
          (case coalesce (get p ''jobs_ref'') JNull of
             JNull \<Rightarrow> Inl (PayloadUnavailable ''Task job list is no longer retained'')
           | reference \<Rightarrow>
               if in_transaction
               then Inl (RuntimeError ''A task job list cannot be read inside a database transaction'')
               else and_then (case reference of
                                JObj kvs \<Rightarrow> payload_ref_parse kvs
                              | _ \<Rightarrow> Inl (PayloadUnavailable ''Invalid payload reference'')) (\<lambda>ref.
                 and_then (store_get st objs ref) (\<lambda>jobs.
                   case jobs of
                     JArr items \<Rightarrow>
                       if list_all is_object items
                          \<and> get p ''candidate_count'' = Some (JNum (int (length items)))
                          \<and> (case get p ''urls'' of None \<Rightarrow> True | Some urls \<Rightarrow> urls = JArr (map job_url items))
                       then Inr jobs
                       else Inl (PayloadUnavailable ''Task job list is invalid'')
                   | _ \<Rightarrow> Inl (PayloadUnavailable ''Task job list is invalid'')))))"

text \<open>What a run of a board will be: its board as it was read, the payload, its jobs and its price.\<close>

record Plan =
  pl_board :: Board
  pl_payload :: object
  pl_jobs :: "json list"
  pl_reserved :: int
  pl_cap :: "int option"

record board_env =
  be_server :: server
  be_credentials :: "int \<Rightarrow> Credentials"
  be_title_screens :: "(string \<times> string) list"
  be_candidates :: "Board \<Rightarrow> Candidate list"
  be_reuse_candidates :: "int \<Rightarrow> string \<Rightarrow> Candidate list"
  be_digest :: "string \<Rightarrow> json \<Rightarrow> string"

definition access_code :: "access_reason \<Rightarrow> string" where
  "access_code r = (case r of NO_API_KEY \<Rightarrow> ''NO_API_KEY'' | NO_MODEL \<Rightarrow> ''NO_MODEL''
                    | BUDGET_EXCEEDED \<Rightarrow> ''BUDGET_EXCEEDED'')"

definition param_json :: "pvalue option \<Rightarrow> json" where
  "param_json v = (case v of None \<Rightarrow> JNull | Some (PStr s) \<Rightarrow> JStr s | Some (PInt n) \<Rightarrow> JNum n)"

definition plan_job :: "Candidate \<Rightarrow> json" where
  "plan_job c = JObj
     [(''id'', JNum (cd_id c)), (''url'', JStr (cd_url c)), (''company'', JStr (cd_company c)),
      (''title'', JStr (cd_title c)), (''source'', JStr (cd_source c)),
      (''sort_at'', JStr (isoformat (cd_sort_at c))),
      (''content_query_id'', case cd_content_query_id c of None \<Rightarrow> JNull | Some q \<Rightarrow> JNum q)]"

definition board_settings :: "Board \<Rightarrow> object" where
  "board_settings b =
     [(''prompt'', JStr (bd_prompt b)), (''prompt_hash'', JStr (bd_prompt_hash b)),
      (''on_ambiguous'', JStr (bd_on_ambiguous b)), (''fail_closed'', JBool (bd_fail_closed b)),
      (''bypass_sponsorship_filter'', JBool (bd_bypass_sponsorship_filter b)),
      (''sources'', JStrs (bd_sources b)), (''criteria'', JObj (bd_criteria b))]"

text \<open>The model, effort, cap, reservation, screens and candidates of a run, by execution mode.\<close>

record selection =
  se_model :: string
  se_effort :: json
  se_cap :: "int option"
  se_reserved :: int
  se_recipes :: "string list"
  se_candidates :: "Candidate list"

definition reuse_selection ::
  "board_env \<Rightarrow> instant \<Rightarrow> board_db \<Rightarrow> int \<Rightarrow> string list \<Rightarrow> admit_error + selection" where
  "reuse_selection env now db sponsor groups =
     (case load_config (be_server env) now (bb_groups db) (bb_calls db) (be_credentials env sponsor) sponsor groups True of
        Inl r \<Rightarrow> Inl (RunRefusal (access_code r) ''the sponsor has no resolvable personal filter model'' None)
      | Inr (_, cfg) \<Rightarrow>
          Inr \<lparr>se_model = cf_model cfg, se_effort = JNull, se_cap = None, se_reserved = 0, se_recipes = [],
               se_candidates = be_reuse_candidates env sponsor (cf_model cfg)\<rparr>)"

definition raised :: "'a result \<Rightarrow> admit_error + 'a" where
  "raised r = (case r of Inl e \<Rightarrow> Inl (Admit_raised e) | Inr x \<Rightarrow> Inr x)"

definition filter_selection ::
  "board_env \<Rightarrow> instant \<Rightarrow> board_db \<Rightarrow> Board \<Rightarrow> int \<Rightarrow> string list \<Rightarrow> admit_error + selection" where
  "filter_selection env now db board sponsor groups =
     (let (owner, cap) = owner_budget groups (bb_groups db); prov = provider_of (Some (bd_model board)) in
      if \<not> owner \<or> prov = None \<or> server_key (be_server env) (the prov) = ''''
      then Inl (RunRefusal ''NO_SERVER_KEY'' ''the sponsor has no server-key allowance'' None)
      else if the prov \<noteq> ''openai''
      then Inl (RunRefusal ''BATCH_UNSUPPORTED''
             ''requested model cannot execute through the managed batch collector'' None)
      else if bd_model board \<notin> set (owner_allowed_models (be_server env) (bb_groups db) groups)
      then Inl (RunRefusal ''MODEL_NOT_ALLOWED'' ''requested model is not allowed for the sponsor'' None)
      else case resolve (batch_shape (bd_model board) None) None None of
        Inl (NoEligibleModel _) \<Rightarrow>
          Inl (RunRefusal ''BATCH_UNSUPPORTED'' ''requested model cannot execute managed-board batches'' None)
      | Inl (Raised e) \<Rightarrow> Inl (Admit_raised e)
      | Inr choice \<Rightarrow>
          and_then (raised (board_screens (bd_title_gate board) (bd_prompt_hash board) (be_title_screens env))) (\<lambda>recipes.
          and_then (raised (unscreened recipes (be_candidates env board))) (\<lambda>cands.
            let reserved = reservation board cands in
            and_then (refuse_over_budget now sponsor cap reserved db) (\<lambda>_.
              Inr \<lparr>se_model = bd_model board, se_effort = param_json (map_of (c_params choice) ''reasoning_effort''),
                   se_cap = cap, se_reserved = reserved, se_recipes = recipes, se_candidates = cands\<rparr>))))"

definition plan_payload :: "Board \<Rightarrow> int \<Rightarrow> selection \<Rightarrow> object" where
  "plan_payload board config_id se =
     [(''managed_board_id'', JNum (bd_id board)), (''sponsor_user_id'', JNum (bd_sponsor board)),
      (''revision'', JNum (bd_revision board)), (''config_id'', JNum config_id),
      (''requested_model'', JStr (se_model se)), (''execution_mode'', JStr (bd_execution_mode board)),
      (''title_screens'', JStrs (se_recipes se)), (''published'', JBool (bd_published board)),
      (''reserved_tokens'', JNum (se_reserved se)),
      (''candidate_count'', JNum (int (length (se_candidates se))))]
     @ (if bd_execution_mode board = ''managed_filter''
        then [(''execution_version'', JNum MANAGED_FILTER_EXECUTION_VERSION),
              (''inference_transport'', JStr MANAGED_FILTER_TRANSPORT),
              (''reasoning_effort'', se_effort se)]
        else [])"

definition plan_run ::
  "board_env \<Rightarrow> instant \<Rightarrow> int \<Rightarrow> board_db \<Rightarrow> (admit_error + Plan) \<times> board_db" where
  "plan_run env now i db =
     (case board_of i db of
        None \<Rightarrow> (Inl (RunRefusal ''NOT_FOUND'' ''unknown managed board'' None), db)
      | Some board \<Rightarrow>
          (case refuse_active i db of
             Inl e \<Rightarrow> (Inl e, db)
           | Inr _ \<Rightarrow>
               (case map_of (bb_users db) (bd_sponsor board) of
                  None \<Rightarrow> (Inl (RunRefusal ''NO_SPONSOR'' ''managed board sponsor no longer exists'' None), db)
                | Some groups \<Rightarrow>
                    (case (if bd_execution_mode board = ''sponsor_filter_reuse''
                           then reuse_selection env now db (bd_sponsor board) groups
                           else filter_selection env now db board (bd_sponsor board) groups) of
                       Inl e \<Rightarrow> (Inl e, db)
                     | Inr se \<Rightarrow>
                         (case intern (be_digest env) ''managed_board'' (board_settings board)
                                 (bb_configs db) (bb_config_seq db) of
                            Inl e \<Rightarrow> (Inl (Admit_raised e), db\<lparr>bb_config_seq := bb_config_seq db + 1\<rparr>)
                          | Inr (config_id, configs) \<Rightarrow>
                              (Inr \<lparr>pl_board = board, pl_payload = plan_payload board config_id se,
                                    pl_jobs = map plan_job (se_candidates se), pl_reserved = se_reserved se,
                                    pl_cap = se_cap se\<rparr>,
                               db\<lparr>bb_configs := configs, bb_config_seq := bb_config_seq db + 1\<rparr>))))))"

section \<open>The insert\<close>

text \<open>
  The transaction of \<open>admit\<close>, under the sponsor's lock and the board's row lock: nothing else that
  admits a run for this sponsor or changes this board runs between its statements.
\<close>

record run_queued =
  rq_task_id :: int
  rq_reserved_tokens :: int
  rq_candidate_count :: int

definition insert_run ::
  "instant \<Rightarrow> int \<Rightarrow> string option \<Rightarrow> Plan \<Rightarrow> PayloadRef \<Rightarrow> board_db \<Rightarrow> (admit_error + run_queued) \<times> board_db" where
  "insert_run now i dedupe plan ref db =
     (let board = pl_board plan; q = bb_queue db;
          p = merge (pl_payload plan) (jobs_reference MANAGED_BOARD_RUNS (pl_jobs plan) ref);
          k = (if bd_execution_mode board = ''managed_filter'' then ''run_managed_board_batch''
               else ''run_managed_board'') in
      if board_of i db \<noteq> Some board
      then (Inl (RunRefusal ''BOARD_CHANGED'' ''the board changed while its run was planned'' None), db)
      else case and_then (refuse_active i db) (\<lambda>_.
             refuse_over_budget now (bd_sponsor board) (pl_cap plan) (pl_reserved plan) db) of
        Inl e \<Rightarrow> (Inl e, db)
      | Inr _ \<Rightarrow>
          if dedupe \<noteq> None \<and> (\<exists>t \<in> set (tasks q). dedupe_key t = dedupe)
          then (Inl (RunRefusal ''ALREADY_SCHEDULED'' ''this board was already scheduled this cycle'' None),
                db\<lparr>bb_queue := q\<lparr>next_id := next_id q + 1\<rparr>\<rparr>)
          else (Inr \<lparr>rq_task_id = next_id q, rq_reserved_tokens = pl_reserved plan,
                     rq_candidate_count = int (length (pl_jobs plan))\<rparr>,
                db\<lparr>bb_queue := q\<lparr>tasks := tasks q @ [new_task now (next_id q) k p dedupe None],
                                  next_id := next_id q + 1\<rparr>\<rparr>))"

text \<open>
  \<open>admit\<close> whole. The jobs are uploaded between the plan and the transaction; \<open>meanwhile\<close> is what
  every other writer does to the database in that time, and \<open>later\<close> the time of the transaction.
\<close>

definition admit ::
  "board_env \<Rightarrow> 'o store \<Rightarrow> instant \<Rightarrow> instant \<Rightarrow> (board_db \<Rightarrow> board_db) \<Rightarrow> bool \<Rightarrow> string option \<Rightarrow> int
   \<Rightarrow> board_db \<Rightarrow> 'o \<Rightarrow> (admit_error + run_queued) \<times> board_db \<times> 'o" where
  "admit env st now later meanwhile in_transaction dedupe i db objs =
     (if in_transaction
      then (Inl (Admit_raised (RuntimeError
              ''Managed board admission uploads outside a database transaction'')), db, objs)
      else if truthy dedupe \<and> (\<exists>t \<in> set (tasks (bb_queue db)). dedupe_key t = dedupe)
      then (Inl (RunRefusal ''ALREADY_SCHEDULED'' ''this board was already scheduled this cycle'' None), db, objs)
      else case plan_run env now i db of
        (Inl e, db1) \<Rightarrow> (Inl e, db1, objs)
      | (Inr plan, db1) \<Rightarrow>
          (case put_verified st (JArr (pl_jobs plan)) objs of
             (Inl _, objs') \<Rightarrow>
               (Inl (RunRefusal ''STORAGE_UNAVAILABLE'' ''run candidates could not be stored'' None), db1, objs')
           | (Inr ref, objs') \<Rightarrow>
               (case insert_run later i dedupe plan ref (meanwhile db1) of (r, db2) \<Rightarrow> (r, db2, objs'))))"

section \<open>What an admitted run holds\<close>

lemma board_of_Some:
  assumes "board_of i db = Some b"
  shows "bd_id b = i" "sponsor_of i db = Some (bd_sponsor b)"
proof -
  obtain mb where mb: "find (\<lambda>b. bd_id (mb_board b) = i) (bb_boards db) = Some mb"
      "b = (mb_board mb)\<lparr>bd_sources := sort (map snd (filter (\<lambda>(j, _). j = i) (bb_board_sources db)))\<rparr>"
    using assms by (auto simp: board_of_def)
  then show "bd_id b = i" "sponsor_of i db = Some (bd_sponsor b)"
    by (auto simp: sponsor_of_def find_Some_iff)
qed

definition planned_payload :: "Plan \<Rightarrow> PayloadRef \<Rightarrow> object" where
  "planned_payload plan ref = merge (pl_payload plan) (jobs_reference MANAGED_BOARD_RUNS (pl_jobs plan) ref)"

definition run_kind :: "Board \<Rightarrow> string" where
  "run_kind b = (if bd_execution_mode b = ''managed_filter'' then ''run_managed_board_batch'' else ''run_managed_board'')"

lemma insert_run_Inr:
  assumes "insert_run now i dedupe plan ref db = (Inr rq, db')"
  shows "board_of i db = Some (pl_board plan)" "active_runs i db = []"
    "refuse_over_budget now (bd_sponsor (pl_board plan)) (pl_cap plan) (pl_reserved plan) db = Inr ()"
    "rq = \<lparr>rq_task_id = next_id (bb_queue db), rq_reserved_tokens = pl_reserved plan,
           rq_candidate_count = int (length (pl_jobs plan))\<rparr>"
    "db' = db\<lparr>bb_queue := (bb_queue db)\<lparr>
        tasks := tasks (bb_queue db) @ [new_task now (next_id (bb_queue db)) (run_kind (pl_board plan))
                                          (planned_payload plan ref) dedupe None],
        next_id := next_id (bb_queue db) + 1\<rparr>\<rparr>"
  using assms
  by (auto simp: insert_run_def Let_def and_then_Inr_iff refuse_active_def planned_payload_def run_kind_def
      split: if_splits sum.splits list.splits)

lemma plan_run_Inr:
  assumes "plan_run env now i db = (Inr plan, db1)"
  obtains groups se config_id where "board_of i db = Some (pl_board plan)"
    "map_of (bb_users db) (bd_sponsor (pl_board plan)) = Some groups"
    "(if bd_execution_mode (pl_board plan) = ''sponsor_filter_reuse''
      then reuse_selection env now db (bd_sponsor (pl_board plan)) groups
      else filter_selection env now db (pl_board plan) (bd_sponsor (pl_board plan)) groups) = Inr se"
    "pl_payload plan = plan_payload (pl_board plan) config_id se" "pl_jobs plan = map plan_job (se_candidates se)"
    "pl_reserved plan = se_reserved se" "pl_cap plan = se_cap se"
  using assms that by (auto simp: plan_run_def split: option.splits sum.splits prod.splits)

lemma admit_Inr:
  assumes "admit env st now later meanwhile tx dedupe i db objs = (Inr rq, db', objs')"
  obtains plan db1 ref where "plan_run env now i db = (Inr plan, db1)"
    "put_verified st (JArr (pl_jobs plan)) objs = (Inr ref, objs')"
    "insert_run later i dedupe plan ref (meanwhile db1) = (Inr rq, db')"
  using assms that by (auto simp: admit_def split: if_splits sum.splits prod.splits)

lemma get_planned:
  assumes "pl_payload plan = plan_payload board config_id se"
  shows "bigint_at (planned_payload plan ref) ''managed_board_id'' = Some (bd_id board)"
    "bigint_at (planned_payload plan ref) ''reserved_tokens'' = Some (se_reserved se)"
    "get (planned_payload plan ref) ''jobs'' = None"
    "get (planned_payload plan ref) ''jobs_ref'' = Some (JObj (payload_asdict ref))"
    "get (planned_payload plan ref) ''candidate_count'' = Some (JNum (int (length (pl_jobs plan))))"
    "get (planned_payload plan ref) ''urls'' = None"
  using assms
  by (simp_all add: bigint_at_def planned_payload_def jobs_reference_def MANAGED_BOARD_RUNS_def
      plan_payload_def get_def merge_def drop_keys_def)

lemma run_kind_known [simp]: "run_kind b \<in> set MANAGED_BOARD_RUN_KINDS"
  by (simp add: run_kind_def MANAGED_BOARD_RUN_KINDS_def)

lemma pending_active [simp]: "Pending \<in> set ACTIVE_STATUSES"
  by (simp add: ACTIVE_STATUSES_def)

lemma insert_run_state:
  assumes "insert_run now i dedupe plan ref db = (Inr rq, db')" "pl_payload plan = plan_payload (pl_board plan) c se"
  obtains t where "active_runs i db' = [t]" "tid t = rq_task_id rq" "payload t = planned_payload plan ref"
    "board_of i db' = Some (pl_board plan)"
    "reserved_position (bd_sponsor (pl_board plan)) db'
       = reserved_position (bd_sponsor (pl_board plan)) db + se_reserved se"
    "spent_position at_time s db' = spent_position at_time s db"
proof -
  note r = insert_run_Inr [OF assms(1)]
  let ?b = "pl_board plan"
  define t where "t = new_task now (next_id (bb_queue db)) (run_kind ?b) (planned_payload plan ref) dedupe None"
  have rows: "tasks (bb_queue db') = tasks (bb_queue db) @ [t]" "bb_calls db' = bb_calls db"
    using r(5) by (simp_all add: t_def)
  have same: "board_of j db' = board_of j db" "sponsor_of j db' = sponsor_of j db" for j
    by (simp_all add: r(5) board_of_def sponsor_of_def)
  have t: "payload t = planned_payload plan ref" "status t = Pending" "kind t = run_kind ?b" "tid t = rq_task_id rq"
    by (simp_all add: t_def new_task_def r(4))
  note b = board_of_Some [OF r(1)] and g = get_planned [OF assms(2), of ref]
  have "board_run i t" using g(1) b(1) by (simp add: board_run_def t)
  then have runs: "active_runs i db' = [t]" using r(2) by (simp add: active_runs_def rows)
  have reserves: "reserves s db' = reserves s db" for s by (rule ext) (simp add: reserves_def same)
  have "reserves (bd_sponsor ?b) db t" using g(1) b by (simp add: reserves_def t)
  then have position: "reserved_position (bd_sponsor ?b) db' = reserved_position (bd_sponsor ?b) db + se_reserved se"
    using g(2) by (simp add: reserved_position_def reserves rows t coalesce_def)
  have "charged at_time s db' = charged at_time s db" by (rule ext) (simp add: charged_def same)
  then have "spent_position at_time s db' = spent_position at_time s db" by (simp add: spent_position_def rows)
  then show ?thesis using that runs t(1,4) position same(1) r(1) by simp
qed

text \<open>A run paid by the server's key is planned under the cap of its sponsor's groups.\<close>

lemma planned_money:
  assumes "(if bd_execution_mode b = ''sponsor_filter_reuse'' then reuse_selection env now db s groups
      else filter_selection env now db b s groups) = Inr se"
  shows "if bd_execution_mode b = ''sponsor_filter_reuse'' then se_reserved se = 0
    else owner_budget groups (bb_groups db) = (True, se_cap se)"
proof (cases "bd_execution_mode b = ''sponsor_filter_reuse''")
  case True
  then show ?thesis using assms by (auto simp: reuse_selection_def split: sum.splits)
next
  case False
  obtain owner cap where o: "owner_budget groups (bb_groups db) = (owner, cap)" by fastforce
  have "filter_selection env now db b s groups = Inr se" using assms False by simp
  then have "owner \<and> se_cap se = cap"
    by (auto simp: filter_selection_def o Let_def and_then_Inr_iff split: if_splits sum.splits route_error.splits)
  then show ?thesis using False o by simp
qed

text \<open>
  C18: A sponsor's weekly allowance is never promised twice. Whatever other writers do while a run's
  candidates are uploaded, in the state the admission leaves the run is the board's only active
  one, it reserves what the admission reports, and for a run paid by the server's key the tokens
  the sponsor's week has spent and all their boards' active runs have reserved, this run included,
  are within the cap their groups gave when the run was planned. A run that reuses the sponsor's
  own verdicts reserves nothing.
\<close>

theorem sponsor_allowance_is_not_overcommitted:
  assumes "admit env st now later meanwhile tx dedupe i db objs = (Inr rq, db', objs')"
  shows "\<exists>board t groups. board_of i db = Some board \<and> board_of i db' = Some board
    \<and> active_runs i db' = [t] \<and> tid t = rq_task_id rq
    \<and> bigint_at (payload t) ''reserved_tokens'' = Some (rq_reserved_tokens rq)
    \<and> map_of (bb_users db) (bd_sponsor board) = Some groups
    \<and> (if bd_execution_mode board = ''sponsor_filter_reuse'' then rq_reserved_tokens rq = 0
       else case owner_budget groups (bb_groups db) of (owner, cap) \<Rightarrow> owner
         \<and> (case cap of None \<Rightarrow> True
            | Some c \<Rightarrow> spent_position later (bd_sponsor board) db' + reserved_position (bd_sponsor board) db' \<le> c))"
proof -
  obtain plan db1 ref where plan: "plan_run env now i db = (Inr plan, db1)"
      and ins: "insert_run later i dedupe plan ref (meanwhile db1) = (Inr rq, db')"
    using assms by (rule admit_Inr)
  let ?b = "pl_board plan" and ?db = "meanwhile db1"
  obtain groups se c where p: "board_of i db = Some ?b" "map_of (bb_users db) (bd_sponsor ?b) = Some groups"
      "(if bd_execution_mode ?b = ''sponsor_filter_reuse'' then reuse_selection env now db (bd_sponsor ?b) groups
        else filter_selection env now db ?b (bd_sponsor ?b) groups) = Inr se"
      "pl_payload plan = plan_payload ?b c se" "pl_reserved plan = se_reserved se" "pl_cap plan = se_cap se"
    using plan by (rule plan_run_Inr)
  obtain t where t: "active_runs i db' = [t]" "tid t = rq_task_id rq" "payload t = planned_payload plan ref"
      "board_of i db' = Some ?b"
      "reserved_position (bd_sponsor ?b) db' = reserved_position (bd_sponsor ?b) ?db + se_reserved se"
      "spent_position later (bd_sponsor ?b) db' = spent_position later (bd_sponsor ?b) ?db"
    using insert_run_state [OF ins p(4)] by blast
  note r = insert_run_Inr [OF ins]
  have reserved: "rq_reserved_tokens rq = se_reserved se" using r(4) p(5) by simp
  have "bigint_at (payload t) ''reserved_tokens'' = Some (rq_reserved_tokens rq)"
    using get_planned(2) [OF p(4)] t(3) reserved by simp
  moreover have "if bd_execution_mode ?b = ''sponsor_filter_reuse'' then rq_reserved_tokens rq = 0
      else case owner_budget groups (bb_groups db) of (owner, cap) \<Rightarrow> owner
        \<and> (case cap of None \<Rightarrow> True
           | Some c \<Rightarrow> spent_position later (bd_sponsor ?b) db' + reserved_position (bd_sponsor ?b) db' \<le> c)"
    using planned_money [OF p(3)] r(3) p(5,6) t(5,6) reserved
    by (auto simp: refuse_over_budget_def split: option.splits if_splits)
  ultimately show ?thesis using p(1,2) t by blast
qed

text \<open>The run's frozen jobs.\<close>

lemma plan_jobs_ok: "json_ok (JArr (map plan_job cands))"
  by (auto simp: plan_job_def split: option.split)

lemma canonical_job_object: "is_object (canonical (plan_job c))"
  by (simp add: plan_job_def is_object_def)

lemma run_jobs_reference:
  assumes "pl_payload plan = plan_payload b c se" "pl_jobs plan = map plan_job cands"
    "payload_ref_parse (payload_asdict ref) = Inr ref"
  shows "run_jobs st objs False (planned_payload plan ref) =
    and_then (store_get st objs ref) (\<lambda>jobs. case jobs of
      JArr items \<Rightarrow> if list_all is_object items \<and> length items = length cands then Inr jobs
                    else Inl (PayloadUnavailable ''Task job list is invalid'')
    | _ \<Rightarrow> Inl (PayloadUnavailable ''Task job list is invalid''))"
  using get_planned [OF assms(1), of ref] assms(2,3)
  by (auto simp: run_jobs_def coalesce_def intro!: arg_cong2 [of _ _ _ _ and_then] split: json.split)

text \<open>
  An admitted run works on the candidates it was planned with. The task's payload leads to a
  list with the number of jobs the admission reports, and at any later time it leads to that same
  list or to an error, whatever became of the stored object.
\<close>

theorem admitted_run_reads_its_jobs:
  assumes "admit env st now later meanwhile tx dedupe i db objs = (Inr rq, db', objs')"
    "\<And>plan db1. plan_run env now i db = (Inr plan, db1)
       \<Longrightarrow> only_text (st_sha256 st) (encode_payload (JArr (pl_jobs plan)))"
  shows "\<exists>t jobs. active_runs i db' = [t] \<and> run_jobs st objs' False (payload t) = Inr (JArr jobs)
    \<and> int (length jobs) = rq_candidate_count rq
    \<and> (case run_jobs st other_objs False (payload t) of Inr found \<Rightarrow> found = JArr jobs | Inl _ \<Rightarrow> True)"
proof -
  obtain plan db1 ref where plan: "plan_run env now i db = (Inr plan, db1)"
      and put: "put_verified st (JArr (pl_jobs plan)) objs = (Inr ref, objs')"
      and ins: "insert_run later i dedupe plan ref (meanwhile db1) = (Inr rq, db')"
    using assms(1) by (rule admit_Inr)
  obtain se c where p: "pl_payload plan = plan_payload (pl_board plan) c se"
      "pl_jobs plan = map plan_job (se_candidates se)"
    using plan by (rule plan_run_Inr) blast
  obtain t where t: "active_runs i db' = [t]" "payload t = planned_payload plan ref"
    using insert_run_state [OF ins p(1)] by blast
  let ?jobs = "map canonical (pl_jobs plan)"
  note stored = put_verified_back [OF put]
  have reads: "w = JArr ?jobs" if "store_get st o1 ref = Inr w" for o1 w
    using digest_reads [OF stored(1) _ assms(2) [OF plan] that] plan_jobs_ok p(2) by simp
  have read: "run_jobs st o1 False (payload t) = and_then (store_get st o1 ref) (\<lambda>jobs. case jobs of
        JArr items \<Rightarrow> if list_all is_object items \<and> length items = length (se_candidates se) then Inr jobs
                      else Inl (PayloadUnavailable ''Task job list is invalid'')
      | _ \<Rightarrow> Inl (PayloadUnavailable ''Task job list is invalid''))" for o1
    unfolding t(2) by (rule run_jobs_reference [OF p stored(3)])
  have ok: "list_all is_object ?jobs" "length ?jobs = length (se_candidates se)"
    using p(2) canonical_job_object by (auto simp: list_all_iff)
  have "run_jobs st objs' False (payload t) = Inr (JArr ?jobs)"
  proof -
    obtain w where w: "store_get st objs' ref = Inr w" using stored(2) by blast
    then have "w = JArr ?jobs" by (rule reads)
    then show ?thesis using w read [of objs'] ok by simp
  qed
  moreover have "case run_jobs st other_objs False (payload t) of Inr found \<Rightarrow> found = JArr ?jobs | Inl _ \<Rightarrow> True"
    using reads [of other_objs] read [of other_objs] by (cases "store_get st other_objs ref") (auto split: sum.split)
  moreover have "int (length ?jobs) = rq_candidate_count rq" using insert_run_Inr(4) [OF ins] by simp
  ultimately show ?thesis using t(1) by blast
qed

section \<open>A board to evaluate\<close>

definition sample_board :: Board where
  "sample_board =
     \<lparr>bd_id = 7, bd_sponsor = 1, bd_prompt = ''New grads'', bd_prompt_hash = ''h'', bd_model = ''gpt-6-luna'',
      bd_execution_mode = ''managed_filter'', bd_on_ambiguous = ''keep'', bd_fail_closed = True,
      bd_bypass_sponsorship_filter = False, bd_criteria = [], bd_title_gate = None, bd_revision = 3,
      bd_published = True, bd_sources = []\<rparr>"

definition sample_candidate :: Candidate where
  "sample_candidate =
     \<lparr>cd_id = 11, cd_url = ''u'', cd_company = ''Acme'', cd_title = ''Engineer'', cd_source = ''acme'',
      cd_sort_at = 0, cd_content_query_id = Some 4, cd_content_chars = Some 1200\<rparr>"

definition sample_board_db :: board_db where
  "sample_board_db =
     \<lparr>bb_boards = [\<lparr>mb_board = sample_board, mb_projection_updated_at = None, mb_public_revision = None\<rparr>],
      bb_board_sources = [(7, ''acme'')], bb_users = [(1, [''team''])],
      bb_groups = [\<lparr>group_name = ''team'', weekly_token_budget = Some 5000, allowed_models = Some [''gpt-6-luna'']\<rparr>],
      bb_calls = [], bb_configs = [], bb_config_seq = 1, bb_queue = \<lparr>tasks = [], next_id = 1\<rparr>\<rparr>"

definition sample_board_env :: board_env where
  "sample_board_env =
     \<lparr>be_server = sample_server, be_credentials = (\<lambda>_. sample_credentials), be_title_screens = [],
      be_candidates = (\<lambda>_. [sample_candidate]), be_reuse_candidates = (\<lambda>_ _. []),
      be_digest = (\<lambda>k _. k)\<rparr>"

lemma luna_runs_batches: "\<exists>ch. resolve (batch_shape ''gpt-6-luna'' None) None None = Inr ch"
proof (rule resolve_some_capable)
  show "''gpt-6-luna'' \<in> set (candidates (batch_shape ''gpt-6-luna'' None))" by (simp add: batch_shape_def)
  show "capable (batch_shape ''gpt-6-luna'' None) ''gpt-6-luna''"
    by (simp add: capable_def rejection_def provider_of_gpt_6_luna luna_batchable truthy_def batch_shape_def
        effort_rejection_def output_rejection_def MODE_RANK_def estimate_eval BATCH_OUTPUT_TOKENS_def
        del: not_None_eq)
qed

lemma sample_board_of: "board_of 7 sample_board_db = Some (sample_board\<lparr>bd_sources := [''acme'']\<rparr>)"
  by (simp add: board_of_def sample_board_db_def sample_board_def)

lemma sample_reservation: "reservation (sample_board\<lparr>bd_sources := [''acme'']\<rparr>) [sample_candidate] = 725"
  by code_simp

lemma sample_selection:
  "\<exists>se. filter_selection sample_board_env 0 sample_board_db (sample_board\<lparr>bd_sources := [''acme'']\<rparr>) 1 [''team''] = Inr se
     \<and> se_candidates se = [sample_candidate] \<and> se_reserved se = 725 \<and> se_cap se = Some 5000"
proof -
  obtain ch where ch: "resolve (batch_shape ''gpt-6-luna'' None) None None = Inr ch" using luna_runs_batches by blast
  have key: "server_key sample_server ''openai'' = ''sk''" by code_simp
  have allowed: "owner_allowed_models sample_server (bb_groups sample_board_db) [''team''] = [''gpt-6-luna'']" by code_simp
  have "owner_budget [''team''] (bb_groups sample_board_db) = (True, Some 5000)"
    by (simp add: owner_budget_def group_rows_def sample_board_db_def)
  then show ?thesis
    using ch allowed key sample_reservation
    by (simp add: filter_selection_def Let_def sample_board_env_def sample_board_def provider_of_gpt_6_luna
        board_screens_def raised_def refuse_over_budget_def spent_position_def reserved_position_def
        sample_board_db_def)
qed

abbreviation sample_jobs :: json where "sample_jobs \<equiv> JArr [plan_job sample_candidate]"
abbreviation sample_board_store :: "(string \<times> string) list store" where
  "sample_board_store \<equiv> sample_store (encode_payload sample_jobs)"

lemma sample_plan:
  obtains plan db1 where "plan_run sample_board_env 0 7 sample_board_db = (Inr plan, db1)"
    "pl_board plan = sample_board\<lparr>bd_sources := [''acme'']\<rparr>" "pl_jobs plan = [plan_job sample_candidate]"
    "pl_reserved plan = 725" "pl_cap plan = Some 5000"
    "board_of 7 db1 = Some (sample_board\<lparr>bd_sources := [''acme'']\<rparr>)" "tasks (bb_queue db1) = []" "bb_calls db1 = []"
proof -
  let ?b = "sample_board\<lparr>bd_sources := [''acme'']\<rparr>"
  obtain se where se: "filter_selection sample_board_env 0 sample_board_db ?b 1 [''team''] = Inr se"
      "se_candidates se = [sample_candidate]" "se_reserved se = 725" "se_cap se = Some 5000"
    using sample_selection by blast
  have b: "bd_sponsor ?b = 1" "bd_execution_mode ?b = ''managed_filter''" by (simp_all add: sample_board_def)
  have idle: "refuse_active 7 sample_board_db = Inr ()" by (simp add: refuse_active_def active_runs_def sample_board_db_def)
  show ?thesis
    using that se sample_board_of idle
    by (auto simp: plan_run_def b intern_def Let_def same_value_def sample_board_env_def sample_board_db_def
        board_of_def simp del: canonical.simps)
qed

lemma sample_admit:
  "\<exists>rq db objs. admit sample_board_env sample_board_store 0 0 id False None 7 sample_board_db [] = (Inr rq, db, objs)"
proof -
  obtain plan db1 where plan: "plan_run sample_board_env 0 7 sample_board_db = (Inr plan, db1)"
      "pl_board plan = sample_board\<lparr>bd_sources := [''acme'']\<rparr>" "pl_jobs plan = [plan_job sample_candidate]"
      "pl_reserved plan = 725" "pl_cap plan = Some 5000"
      "board_of 7 db1 = Some (sample_board\<lparr>bd_sources := [''acme'']\<rparr>)" "tasks (bb_queue db1) = []" "bb_calls db1 = []"
    by (rule sample_plan)
  have "json_ok sample_jobs" using plan_jobs_ok [of "[sample_candidate]"] by simp
  then obtain ref objs where put: "put_verified sample_board_store sample_jobs [] = (Inr ref, objs)"
    using sample_put by blast
  have "\<exists>rq db. insert_run 0 7 None plan ref db1 = (Inr rq, db)"
    using plan by (simp add: insert_run_def Let_def refuse_active_def active_runs_def refuse_over_budget_def
        spent_position_def reserved_position_def)
  then show ?thesis using plan(1,3) put by (auto simp: admit_def truthy_def sample_board_db_def)
qed

theorem sponsor_allowance_is_not_overcommitted_witness:
  "\<exists>rq db objs t. admit sample_board_env sample_board_store 0 0 id False None 7 sample_board_db [] = (Inr rq, db, objs)
     \<and> active_runs 7 db = [t]"
proof -
  obtain rq db objs where a: "admit sample_board_env sample_board_store 0 0 id False None 7 sample_board_db [] = (Inr rq, db, objs)"
    using sample_admit by blast
  then show ?thesis using sponsor_allowance_is_not_overcommitted [OF a] by blast
qed

theorem admitted_run_reads_its_jobs_witness:
  "\<exists>rq db objs t jobs. admit sample_board_env sample_board_store 0 0 id False None 7 sample_board_db [] = (Inr rq, db, objs)
     \<and> active_runs 7 db = [t] \<and> run_jobs sample_board_store objs False (payload t) = Inr (JArr jobs)"
proof -
  obtain rq db objs where a: "admit sample_board_env sample_board_store 0 0 id False None 7 sample_board_db [] = (Inr rq, db, objs)"
    using sample_admit by blast
  have "only_text (st_sha256 sample_board_store) (encode_payload (JArr (pl_jobs plan)))"
    if "plan_run sample_board_env 0 7 sample_board_db = (Inr plan, db1)" for plan db1
    by (rule sample_plan) (use that sample_only_text in simp)
  then show ?thesis using admitted_run_reads_its_jobs [OF a] a by blast
qed

end
