(* ===== verification/Board_Projection.thy ===== *)
theory Board_Projection
  imports Board_Admission
begin

text \<open>
  What a managed board shows (\<open>api/managed_boards/records.py\<close>): the members a run's verdicts admit
  and the one statement that brings the stored members to them, writing only what differs. The
  statement is shown to refine replacing the board's members outright.
\<close>

section \<open>Rows\<close>

text \<open>Stored members, keyed by board and job, and the answers the members are read from.\<close>

record member =
  mj_board :: int
  mj_job :: int
  mj_sort_at :: instant
  mj_projected_at :: instant

record verdict_row =
  vq_id :: int
  vq_url :: string
  vq_check_type :: string
  vq_prompt_hash :: "string option"
  vq_model :: "string option"
  vq_status :: string

record projection_db =
  pj_boards :: "managed_board list"
  pj_members :: "member list"
  pj_jobs :: "(int \<times> string) list"
  pj_verdicts :: "verdict_row list"

section \<open>Who belongs on the board\<close>

definition answers :: "string \<Rightarrow> string list \<Rightarrow> string \<Rightarrow> verdict_row \<Rightarrow> bool" where
  "answers hash models url q \<longleftrightarrow> vq_url q = url \<and> vq_check_type q = ''custom'' \<and> vq_prompt_hash q = Some hash
     \<and> (\<exists>m \<in> set models. vq_model q = Some m) \<and> vq_status q \<in> {''passed'', ''rejected'', ''failed''}"

definition latest_status :: "string \<Rightarrow> string list \<Rightarrow> projection_db \<Rightarrow> int \<Rightarrow> string option" where
  "latest_status hash models db job =
     (case map_of (pj_jobs db) job of
        None \<Rightarrow> None
      | Some url \<Rightarrow>
          (case filter (answers hash models url) (pj_verdicts db) of
             [] \<Rightarrow> None
           | q # qs \<Rightarrow> Some (vq_status (min_by (\<lambda>q. - vq_id q) q qs))))"

definition VERDICT_MEMBERS ::
  "string \<Rightarrow> string list \<Rightarrow> bool \<Rightarrow> projection_db \<Rightarrow> (int \<times> instant) list \<Rightarrow> (int \<times> instant) list" where
  "VERDICT_MEMBERS hash models fail_closed db jobs =
     filter (\<lambda>(job, _). latest_status hash models db job = Some ''passed''
       \<or> (\<not> fail_closed \<and> latest_status hash models db job \<noteq> Some ''rejected'')) jobs"

section \<open>Bringing the stored members to the target\<close>

definition gone :: "int \<Rightarrow> (int \<times> instant) list \<Rightarrow> member \<Rightarrow> bool" where
  "gone board target m \<longleftrightarrow> mj_board m = board \<and> mj_job m \<notin> fst ` set target"

definition moved :: "int \<Rightarrow> (int \<times> instant) list \<Rightarrow> member \<Rightarrow> member" where
  "moved board target m =
     (if mj_board m = board
      then (case map_of target (mj_job m) of
              Some s \<Rightarrow> if mj_sort_at m \<noteq> s then m\<lparr>mj_sort_at := s\<rparr> else m
            | None \<Rightarrow> m)
      else m)"

definition joined :: "instant \<Rightarrow> int \<Rightarrow> (int \<times> instant) list \<Rightarrow> member list \<Rightarrow> member list" where
  "joined now board target members =
     map (\<lambda>(job, s). \<lparr>mj_board = board, mj_job = job, mj_sort_at = s, mj_projected_at = now\<rparr>)
       (sort_key (\<lambda>(job, s). (- s, - job))
         (filter (\<lambda>(job, _). \<not> (\<exists>m \<in> set members. mj_board m = board \<and> mj_job m = job)) target))"

text \<open>One statement: its three parts read the rows as they were before it.\<close>

definition WRITE_MEMBERS :: "instant \<Rightarrow> int \<Rightarrow> (int \<times> instant) list \<Rightarrow> member list \<Rightarrow> member list" where
  "WRITE_MEMBERS now board target members =
     map (moved board target) (filter (\<lambda>m. \<not> gone board target m) members) @ joined now board target members"

definition board_row :: "int \<Rightarrow> int \<Rightarrow> managed_board \<Rightarrow> bool" where
  "board_row i revision b \<longleftrightarrow> bd_id (mb_board b) = i \<and> bd_revision (mb_board b) = revision"

definition mark_projected :: "instant \<Rightarrow> managed_board \<Rightarrow> managed_board" where
  "mark_projected now b =
     b\<lparr>mb_projection_updated_at := Some now,
       mb_public_revision := (if bd_published (mb_board b) then Some (coalesce (mb_public_revision b) 0 + 1)
                              else mb_public_revision b)\<rparr>"

text \<open>
  \<open>replace_projection\<close>; the payload is the run's, with its board's settings in place, and \<open>groups\<close>
  is \<open>verdict_model_equivalence\<close>.
\<close>

record run_snapshot =
  rs_board :: int
  rs_revision :: int
  rs_execution_mode :: string
  rs_prompt_hash :: string
  rs_model :: string
  rs_fail_closed :: bool

definition projection_target ::
  "Group list \<Rightarrow> run_snapshot \<Rightarrow> projection_db \<Rightarrow> (int \<times> instant) list \<Rightarrow> (int \<times> instant) list" where
  "projection_target groups run db jobs =
     (if rs_execution_mode run = ''sponsor_filter_reuse'' then jobs
      else VERDICT_MEMBERS (rs_prompt_hash run) (answering groups ''custom'' (rs_model run)) (rs_fail_closed run) db jobs)"

definition replace_projection ::
  "instant \<Rightarrow> Group list \<Rightarrow> run_snapshot \<Rightarrow> (int \<times> instant) list \<Rightarrow> projection_db
   \<Rightarrow> (int \<times> projection_db) result" where
  "replace_projection now groups run jobs db =
     (if \<not> (\<exists>b \<in> set (pj_boards db). board_row (rs_board run) (rs_revision run) b)
      then Inl (RuntimeError ''managed board configuration changed during its run'')
      else
        let target = projection_target groups run db jobs in
        Inr (int (length target),
             db\<lparr>pj_members := WRITE_MEMBERS now (rs_board run) target (pj_members db),
                pj_boards := update_where (board_row (rs_board run) (rs_revision run)) (mark_projected now)
                               (pj_boards db)\<rparr>))"

section \<open>The abstract board\<close>

text \<open>
  What readers see of the members: for each board and job, when it sorts and when it joined. A
  projection replaces one board's view; the interface says so, for any rows that keep one row per
  board and job.
\<close>

definition member_key :: "member \<Rightarrow> int \<times> int" where
  "member_key m = (mj_board m, mj_job m)"

definition members_ok :: "member list \<Rightarrow> bool" where
  "members_ok members \<longleftrightarrow> distinct (map member_key members)"

definition view :: "member list \<Rightarrow> int \<Rightarrow> int \<Rightarrow> (instant \<times> instant) option" where
  "view members board job =
     map_option (\<lambda>m. (mj_sort_at m, mj_projected_at m)) (find (\<lambda>m. member_key m = (board, job)) members)"

definition replace_view ::
  "instant \<Rightarrow> (int \<times> instant) list \<Rightarrow> (int \<Rightarrow> (instant \<times> instant) option) \<Rightarrow> int \<Rightarrow> (instant \<times> instant) option" where
  "replace_view now target old job =
     (case map_of target job of
        None \<Rightarrow> None
      | Some s \<Rightarrow> Some (s, case old job of None \<Rightarrow> now | Some (_, since) \<Rightarrow> since))"

locale projection =
  fixes invar :: "'m \<Rightarrow> bool"
    and see :: "'m \<Rightarrow> int \<Rightarrow> int \<Rightarrow> (instant \<times> instant) option"
    and project :: "instant \<Rightarrow> int \<Rightarrow> (int \<times> instant) list \<Rightarrow> 'm \<Rightarrow> 'm"
  assumes invar_project: "invar m \<Longrightarrow> distinct (map fst target) \<Longrightarrow> invar (project now board target m)"
    and see_project: "invar m \<Longrightarrow> distinct (map fst target) \<Longrightarrow>
      see (project now board target m) b = (if b = board then replace_view now target (see m board) else see m b)"
begin

lemma project_again:
  assumes "invar m" "distinct (map fst target)"
  shows "see (project later board target (project now board target m)) = see (project now board target m)"
proof
  fix b
  show "see (project later board target (project now board target m)) b = see (project now board target m) b"
    using assms invar_project by (auto simp: see_project replace_view_def fun_eq_iff split: option.splits)
qed

lemma project_commute:
  assumes "invar m" "distinct (map fst t)" "distinct (map fst u)" "a \<noteq> b"
  shows "see (project now a t (project later b u m)) = see (project later b u (project now a t m))"
proof
  fix c
  show "see (project now a t (project later b u m)) c = see (project later b u (project now a t m)) c"
    using assms invar_project by (simp add: see_project)
qed

lemma projected_members:
  assumes "invar m" "distinct (map fst target)"
  shows "{job. see (project now board target m) board job \<noteq> None} = fst ` set target"
  using assms by (auto simp: see_project replace_view_def map_of_eq_None_iff split: option.splits)

end

section \<open>The statement refines the replacement\<close>

lemma find_kept:
  assumes "\<And>x. P (f x) = P x" "\<And>x. P x \<Longrightarrow> keep x"
  shows "find P (map f (filter keep xs)) = map_option f (find P xs)"
  using assms by (induction xs) auto

lemma find_dropped:
  assumes "\<And>x. P (f x) = P x" "\<And>x. P x \<Longrightarrow> \<not> keep x"
  shows "find P (map f (filter keep xs)) = None"
  using assms by (induction xs) auto

lemma find_app: "find P (xs @ ys) = (case find P xs of None \<Rightarrow> find P ys | Some x \<Rightarrow> Some x)"
  by (induction xs) auto

lemma moved_keys [simp]:
  "mj_board (moved board target m) = mj_board m" "mj_job (moved board target m) = mj_job m"
  "member_key (moved board target m) = member_key m"
  by (simp_all add: moved_def member_key_def split: option.split)

lemma joined_iff:
  "m \<in> set (joined now board target members) \<longleftrightarrow> mj_board m = board \<and> mj_projected_at m = now
     \<and> (mj_job m, mj_sort_at m) \<in> set target \<and> \<not> (\<exists>x \<in> set members. member_key x = (board, mj_job m))"
proof
  assume "mj_board m = board \<and> mj_projected_at m = now
     \<and> (mj_job m, mj_sort_at m) \<in> set target \<and> \<not> (\<exists>x \<in> set members. member_key x = (board, mj_job m))"
  then show "m \<in> set (joined now board target members)"
    by (cases m) (force simp: joined_def member_key_def)
qed (auto simp: joined_def member_key_def)

lemma joined_keys: "map member_key (joined now board target members) =
    map (\<lambda>(job, s). (board, job)) (sort_key (\<lambda>(job, s). (- s, - job))
      (filter (\<lambda>(job, _). \<not> (\<exists>m \<in> set members. mj_board m = board \<and> mj_job m = job)) target))"
  by (simp add: joined_def member_key_def case_prod_unfold comp_def)

lemma distinct_joined:
  assumes "distinct (map fst target)"
  shows "distinct (map member_key (joined now board target members))"
proof -
  let ?new = "filter (\<lambda>(job, _). \<not> (\<exists>m \<in> set members. mj_board m = board \<and> mj_job m = job)) target"
  have "distinct (map fst ?new)" using assms by (rule distinct_map_filter)
  then have "inj_on (\<lambda>(job, s). (board, job)) (set ?new)" "distinct ?new"
    by (auto simp: distinct_map inj_on_def)
  then show ?thesis unfolding joined_keys by (simp add: distinct_map)
qed

lemma members_ok_write:
  assumes "members_ok members" "distinct (map fst target)"
  shows "members_ok (WRITE_MEMBERS now board target members)"
proof -
  have "distinct (map member_key (map (moved board target) (filter (\<lambda>m. \<not> gone board target m) members)))"
    using assms(1) by (simp add: members_ok_def comp_def distinct_map_filter)
  moreover have "member_key ` set (filter (\<lambda>m. \<not> gone board target m) members)
      \<inter> member_key ` set (joined now board target members) = {}"
    by (auto simp: joined_iff member_key_def)
  ultimately show ?thesis
    using distinct_joined [OF assms(2)]
    by (auto simp: members_ok_def WRITE_MEMBERS_def image_image)
qed

lemma find_joined:
  assumes "distinct (map fst target)" "map_of target job = Some s" "\<forall>m \<in> set members. member_key m \<noteq> (board, job)"
  shows "find (\<lambda>m. member_key m = (board, job)) (joined now board target members)
    = Some \<lparr>mj_board = board, mj_job = job, mj_sort_at = s, mj_projected_at = now\<rparr>"
proof -
  let ?P = "\<lambda>m. member_key m = (board, job)"
  let ?m = "\<lparr>mj_board = board, mj_job = job, mj_sort_at = s, mj_projected_at = now\<rparr>"
  have "?m \<in> set (joined now board target members)"
    using assms by (auto simp: joined_iff dest: map_of_SomeD)
  moreover have "?P ?m" by (simp add: member_key_def)
  ultimately have "\<exists>x. x \<in> set (joined now board target members) \<and> ?P x" by blast
  then have "find ?P (joined now board target members) \<noteq> None" unfolding find_None_iff by blast
  then obtain m where m: "find ?P (joined now board target members) = Some m" by blast
  then have "m \<in> set (joined now board target members)" "?P m" by (auto simp: find_Some_iff)
  then have "mj_board m = board" "mj_job m = job" "mj_projected_at m = now" "(job, mj_sort_at m) \<in> set target"
    by (auto simp: joined_iff member_key_def)
  moreover have "mj_sort_at m = s" using calculation(4) assms(1,2) by (simp add: map_of_eq_Some_iff)
  ultimately have "m = ?m" by (cases m) simp
  then show ?thesis using m by simp
qed

lemma view_write:
  assumes "distinct (map fst target)"
  shows "view (WRITE_MEMBERS now board target members) b job =
    (if b = board then replace_view now target (view members board) job else view members b job)"
proof (cases "b = board")
  case False
  let ?P = "\<lambda>m. member_key m = (b, job)"
  have "find ?P (map (moved board target) (filter (\<lambda>m. \<not> gone board target m) members))
      = map_option (moved board target) (find ?P members)"
    by (rule find_kept) (use False in \<open>auto simp: member_key_def gone_def\<close>)
  moreover have "find ?P (joined now board target members) = None"
    using False by (auto simp: find_None_iff joined_iff member_key_def)
  moreover have "moved board target m = m" if "find ?P members = Some m" for m
    using that False by (auto simp: find_Some_iff member_key_def moved_def)
  ultimately show ?thesis
    using False by (auto simp: view_def WRITE_MEMBERS_def find_app split: option.splits)
next
  case True
  let ?P = "\<lambda>m. member_key m = (board, job)"
  let ?kept = "map (moved board target) (filter (\<lambda>m. \<not> gone board target m) members)"
  show ?thesis
  proof (cases "map_of target job")
    case None
    then have absent: "job \<notin> fst ` set target" by (simp add: map_of_eq_None_iff)
    then have "find ?P ?kept = None" by (intro find_dropped) (auto simp: member_key_def gone_def)
    moreover have "find ?P (joined now board target members) = None"
      using absent by (force simp: find_None_iff joined_iff member_key_def)
    ultimately show ?thesis
      using True None by (simp add: view_def WRITE_MEMBERS_def find_app replace_view_def)
  next
    case (Some s)
    then have "job \<in> fst ` set target" by (force dest: map_of_SomeD)
    then have kept: "find ?P ?kept = map_option (moved board target) (find ?P members)"
      by (intro find_kept) (auto simp: member_key_def gone_def)
    show ?thesis
    proof (cases "find ?P members")
      case None
      then have "\<forall>m \<in> set members. member_key m \<noteq> (board, job)" by (auto simp: find_None_iff)
      then show ?thesis
        using True Some None kept find_joined [OF assms Some]
        by (simp add: view_def WRITE_MEMBERS_def find_app replace_view_def)
    next
      fix m
      assume m: "find ?P members = Some m"
      then have "mj_board m = board" "mj_job m = job" by (auto simp: find_Some_iff member_key_def)
      then have "mj_sort_at (moved board target m) = s" "mj_projected_at (moved board target m) = mj_projected_at m"
        using Some by (simp_all add: moved_def)
      then show ?thesis
        using True Some kept m by (simp add: view_def WRITE_MEMBERS_def find_app replace_view_def)
    qed
  qed
qed

interpretation board_projection: projection members_ok view WRITE_MEMBERS
proof
  show "members_ok (WRITE_MEMBERS now board target m)" if "members_ok m" "distinct (map fst target)"
    for m target now board using that by (rule members_ok_write)
  show "view (WRITE_MEMBERS now board target m) b
      = (if b = board then replace_view now target (view m board) else view m b)"
    if "members_ok m" "distinct (map fst target)" for m target now board b
    using view_write [OF that(2)] by (auto simp: fun_eq_iff)
qed

lemma target_distinct: "distinct (map fst jobs) \<Longrightarrow> distinct (map fst (projection_target groups run db jobs))"
  by (simp add: projection_target_def VERDICT_MEMBERS_def distinct_map_filter)

lemma replace_projection_Inr:
  assumes "replace_projection now groups run jobs db = Inr (n, db')"
  shows "n = int (length (projection_target groups run db jobs))"
    "pj_members db' = WRITE_MEMBERS now (rs_board run) (projection_target groups run db jobs) (pj_members db)"
    "projection_target groups run db' jobs = projection_target groups run db jobs"
    "\<exists>b \<in> set (pj_boards db'). board_row (rs_board run) (rs_revision run) b"
proof -
  obtain b where b: "b \<in> set (pj_boards db)" "board_row (rs_board run) (rs_revision run) b"
    and db': "db' = db\<lparr>pj_members := WRITE_MEMBERS now (rs_board run) (projection_target groups run db jobs) (pj_members db),
        pj_boards := update_where (board_row (rs_board run) (rs_revision run)) (mark_projected now) (pj_boards db)\<rparr>"
    and n: "n = int (length (projection_target groups run db jobs))"
    using assms by (auto simp: replace_projection_def Let_def split: if_splits)
  have "board_row (rs_board run) (rs_revision run) (mark_projected now b)"
    using b(2) by (simp add: board_row_def mark_projected_def)
  then show "\<exists>b \<in> set (pj_boards db'). board_row (rs_board run) (rs_revision run) b"
    using b by (force simp: db' update_where_def)
  have "pj_jobs db' = pj_jobs db" "pj_verdicts db' = pj_verdicts db" by (simp_all add: db')
  then have "latest_status h ms db' = latest_status h ms db" for h ms
    by (intro ext) (simp only: latest_status_def)
  then show "projection_target groups run db' jobs = projection_target groups run db jobs"
    by (simp add: projection_target_def VERDICT_MEMBERS_def)
qed (use assms in \<open>auto simp: replace_projection_def Let_def split: if_splits\<close>)

text \<open>
  C19: Writing only what differs is replacing the board. From rows with one row per board and job,
  the statement leaves such rows again; the run's board then shows exactly the jobs its verdicts
  admit, in the order the run gave them, those that were shown before since they joined and the
  others since now; every other board is as it was; the reported count is the number of jobs
  shown; and projecting the same run again shows the same board.
\<close>

theorem projection_replaces_the_board:
  assumes "replace_projection now groups run jobs db = Inr (n, db')" "members_ok (pj_members db)"
    "distinct (map fst jobs)"
  shows "members_ok (pj_members db')
    \<and> view (pj_members db') = (view (pj_members db))(rs_board run :=
        replace_view now (projection_target groups run db jobs) (view (pj_members db) (rs_board run)))
    \<and> n = int (card {job. view (pj_members db') (rs_board run) job \<noteq> None})
    \<and> (\<exists>db''. replace_projection later groups run jobs db' = Inr (n, db'')
          \<and> view (pj_members db'') = view (pj_members db'))"
proof -
  let ?t = "projection_target groups run db jobs"
  note r = replace_projection_Inr [OF assms(1)] and d = target_distinct [OF assms(3), of groups run db]
  have ok: "members_ok (pj_members db')" unfolding r(2) by (rule members_ok_write [OF assms(2) d])
  have seen: "view (pj_members db') = (view (pj_members db))(rs_board run :=
      replace_view now ?t (view (pj_members db) (rs_board run)))"
    unfolding r(2) using board_projection.see_project [OF assms(2) d] by (auto simp: fun_eq_iff)
  have "{job. view (pj_members db') (rs_board run) job \<noteq> None} = fst ` set ?t"
    unfolding r(2) by (rule board_projection.projected_members [OF assms(2) d])
  moreover have "card (fst ` set ?t) = length ?t" using distinct_card [OF d] by simp
  ultimately have count: "n = int (card {job. view (pj_members db') (rs_board run) job \<noteq> None})" using r(1) by simp
  obtain db'' where again: "replace_projection later groups run jobs db' = Inr (n, db'')"
    using r(1,3,4) by (auto simp: replace_projection_def Let_def)
  have "view (pj_members db'') = view (pj_members db')"
    unfolding replace_projection_Inr(2) [OF again] r(3) unfolding r(2)
    by (rule board_projection.project_again [OF assms(2) d])
  then show ?thesis using ok seen count again by blast
qed

definition sample_projection :: projection_db where
  "sample_projection =
     \<lparr>pj_boards = [\<lparr>mb_board = sample_board, mb_projection_updated_at = None, mb_public_revision = None\<rparr>],
      pj_members = [\<lparr>mj_board = 7, mj_job = 12, mj_sort_at = 5, mj_projected_at = 0\<rparr>],
      pj_jobs = [(11, ''u''), (12, ''v'')],
      pj_verdicts = [\<lparr>vq_id = 1, vq_url = ''u'', vq_check_type = ''custom'', vq_prompt_hash = Some ''h'',
                      vq_model = Some ''gpt-6-luna'', vq_status = ''passed''\<rparr>]\<rparr>"

definition sample_run :: run_snapshot where
  "sample_run = \<lparr>rs_board = 7, rs_revision = 3, rs_execution_mode = ''managed_filter'', rs_prompt_hash = ''h'',
     rs_model = ''gpt-6-luna'', rs_fail_closed = True\<rparr>"

theorem projection_replaces_the_board_witness:
  "\<exists>db. replace_projection 9 [] sample_run [(11, 1), (12, 5)] sample_projection = Inr (1, db)
     \<and> view (pj_members db) 7 11 = Some (1, 9) \<and> view (pj_members db) 7 12 = None"
proof -
  have target: "projection_target [] sample_run sample_projection [(11, 1), (12, 5)] = [(11, 1)]" by code_simp
  obtain db where db: "replace_projection 9 [] sample_run [(11, 1), (12, 5)] sample_projection = Inr (1, db)"
    using target by (auto simp: replace_projection_def Let_def sample_projection_def sample_run_def board_row_def sample_board_def)
  have "members_ok (pj_members sample_projection)" by (simp add: members_ok_def sample_projection_def)
  then have "view (pj_members db) = (view (pj_members sample_projection))(rs_board sample_run :=
      replace_view 9 [(11, 1)] (view (pj_members sample_projection) (rs_board sample_run)))"
    using projection_replaces_the_board [OF db] by (simp add: target)
  then have "view (pj_members db) 7 = replace_view 9 [(11, 1)] (view (pj_members sample_projection) 7)"
    by (simp add: sample_run_def)
  moreover have "view (pj_members sample_projection) 7 11 = None"
    by (simp add: view_def sample_projection_def member_key_def)
  ultimately show ?thesis using db by (simp add: replace_view_def)
qed

end
