(* ===== verification/Schedule.thy ===== *)
theory Schedule
  imports Board_Admission
begin

text \<open>
  The leaderless schedule (\<open>api/worker_lifecycle/scheduling.py\<close>), with the host key of
  \<open>core/fetching/hosts.py\<close> and the scheduling half of \<open>tasks/derivations/sweep.py\<close>. Every worker
  runs one pass each minute; the tables it reads beside the queue, the settings and the answers of
  \<open>mail_match\<close> and of a derivation's \<open>has_work\<close> are arguments.
\<close>

section \<open>The host a request is paced under\<close>

text \<open>\<open>urlparse\<close>: the part after the scheme's \<open>//\<close> up to the path, and the path up to a query.\<close>

definition until :: "string \<Rightarrow> string \<Rightarrow> string" where
  "until stops s = takeWhile (\<lambda>c. c \<notin> set stops) s"

fun after_scheme :: "string \<Rightarrow> string option" where
  "after_scheme [] = None"
| "after_scheme (c # cs) = (if starts_with ''://'' (c # cs) then Some (drop 3 (c # cs)) else after_scheme cs)"

definition netloc :: "string \<Rightarrow> string" where
  "netloc url = (case after_scheme url of None \<Rightarrow> '''' | Some rest \<Rightarrow> until ''/?#'' rest)"

definition url_path :: "string \<Rightarrow> string" where
  "url_path url =
     (case after_scheme url of
        None \<Rightarrow> until ''?#'' url
      | Some rest \<Rightarrow> until ''?#'' (drop (length (until ''/?#'' rest)) rest))"

text \<open>\<open>hostname\<close> drops user information and a port, and lowers the rest.\<close>

definition hostname :: "string \<Rightarrow> string" where
  "hostname url = py_lower (until '':'' (rev (until ''@'' (rev (netloc url)))))"

definition ends_with :: "string \<Rightarrow> string \<Rightarrow> bool" where
  "ends_with suffix s = starts_with (rev suffix) (rev s)"

definition EIGHTFOLD_PCSX :: string where "EIGHTFOLD_PCSX = ''/api/pcsx/search''"
definition EIGHTFOLD_V2 :: string where "EIGHTFOLD_V2 = ''/api/apply/v2/jobs''"

definition pace_key :: "string \<Rightarrow> string" where
  "pace_key url =
     (let host = hostname url; path = rev (dropWhile (\<lambda>c. c = CHR ''/'') (rev (url_path url))) in
      if host = ''myworkdayjobs.com'' \<or> ends_with ''.myworkdayjobs.com'' host then ''myworkdayjobs.com''
      else if host = ''greenhouse.io'' \<or> ends_with ''.greenhouse.io'' host then ''boards-api.greenhouse.io''
      else if ends_with ''.eightfold.ai'' host \<or> path \<in> {EIGHTFOLD_PCSX, EIGHTFOLD_V2} then ''eightfold.ai''
      else host)"

section \<open>Settings and tables\<close>

record Derivation =
  dv_kind :: string
  dv_switch :: "string option"
  dv_has_work :: bool

record 'o sched_env =
  sc_interval_minutes :: int
  sc_refresh_minutes :: int
  sc_poll_minutes :: int
  sc_daily_hour :: int
  sc_local :: "instant \<Rightarrow> int"
  sc_of_local :: "int \<Rightarrow> instant"
  sc_retry_max_hours :: int
  sc_give_up :: nat
  sc_sources :: "(Source_row \<times> string) list"
  sc_users :: "int list"
  sc_user_source_set :: "int list"
  sc_user_jobs :: "int list"
  sc_posting_uploads :: "int list"
  sc_user_resumes :: "int list"
  sc_ai_paused :: bool
  sc_mail_classification :: bool
  sc_mail_changed :: bool
  sc_switch_on :: "string \<Rightarrow> bool"
  sc_derivations :: "Derivation list"
  sc_board_env :: board_env
  sc_store :: "'o store"
  sc_meanwhile :: "int \<Rightarrow> board_db \<Rightarrow> board_db"

text \<open>What a pass changes: the database, the object store, and the boards it tried this cycle.\<close>

record 'o sched_state =
  ss_db :: board_db
  ss_objs :: 'o
  ss_attempts :: "(string \<times> int) list"

section \<open>Offers\<close>

text \<open>
  \<open>enqueue\<close> under a dedupe key. Its one error is a parent that is no integer; no scheduled payload
  has one.
\<close>

definition offer :: "instant \<Rightarrow> string \<Rightarrow> object \<Rightarrow> string \<Rightarrow> queue \<Rightarrow> queue" where
  "offer now k p key q = (case enqueue now k p (Some key) q of Inr (_, q') \<Rightarrow> q' | Inl _ \<Rightarrow> q)"

definition cycle_payload :: "string \<Rightarrow> object" where
  "cycle_payload cycle = [(''cycle'', JStr cycle)]"

definition offer_cycle :: "instant \<Rightarrow> string \<Rightarrow> string \<Rightarrow> string \<Rightarrow> queue \<Rightarrow> queue" where
  "offer_cycle now k prefix cycle = offer now k (cycle_payload cycle) (prefix @ '':'' @ cycle)"

definition offer_user :: "instant \<Rightarrow> string \<Rightarrow> string \<Rightarrow> string \<Rightarrow> int \<Rightarrow> queue \<Rightarrow> queue" where
  "offer_user now k prefix cycle uid =
     offer now k [(''user_id'', JNum uid), (''cycle'', JStr cycle)]
       (prefix @ '':'' @ show_int uid @ '':'' @ cycle)"

definition in_flight :: "string \<Rightarrow> Status list \<Rightarrow> queue \<Rightarrow> bool" where
  "in_flight k sts q \<longleftrightarrow> (\<exists>t \<in> set (tasks q). kind t = k \<and> status t \<in> set sts)"

definition unless :: "bool \<Rightarrow> (queue \<Rightarrow> queue) \<Rightarrow> queue \<Rightarrow> queue" where
  "unless b f q = (if b then q else f q)"

section \<open>Pulls\<close>

definition cycle_bucket :: "int \<Rightarrow> instant \<Rightarrow> instant" where
  "cycle_bucket interval now =
     replace_minute (if interval < 60 then minute_of now div interval * interval else 0) now"

definition ingest_cycle :: "'o sched_env \<Rightarrow> instant \<Rightarrow> string" where
  "ingest_cycle env now = strftime_minute (cycle_bucket (sc_interval_minutes env) now)"

definition pull_since :: "instant \<Rightarrow> instant \<Rightarrow> int \<Rightarrow> instant" where
  "pull_since now anchor interval_hours =
     (if interval_hours mod 24 = 0 then anchor - hours (interval_hours - 24) else now - hours interval_hours)"

definition due :: "instant \<Rightarrow> instant \<Rightarrow> queue \<Rightarrow> Source_row \<Rightarrow> bool" where
  "due now anchor q s \<longleftrightarrow> s_active s
     \<and> \<not> (\<exists>t \<in> set (tasks q). pull_of (s_name s) t \<and> status t = Pending)
     \<and> (s_interval_hours s \<le> 1
        \<or> \<not> (\<exists>t \<in> set (tasks q). pull_of (s_name s) t \<and> status t \<in> {Running, Done}
               \<and> created_at t > pull_since now anchor (s_interval_hours s)))"

definition pull_key :: "string \<Rightarrow> string \<Rightarrow> string" where
  "pull_key name cycle = ''ingest:'' @ name @ '':'' @ cycle"

definition offer_pull :: "instant \<Rightarrow> string \<Rightarrow> Source_row \<times> string \<Rightarrow> queue \<Rightarrow> queue" where
  "offer_pull now cycle src =
     offer now ''ingest_source''
       [(''source'', JStr (s_name (fst src))), (''cycle'', JStr cycle), (''host'', JStr (pace_key (snd src)))]
       (pull_key (s_name (fst src)) cycle)"

definition due_sources :: "'o sched_env \<Rightarrow> instant \<Rightarrow> instant \<Rightarrow> queue \<Rightarrow> (Source_row \<times> string) list" where
  "due_sources env now anchor q =
     (let selected = filter (\<lambda>(s, _). due now anchor q s) (sc_sources env);
          waiting = backing_off now (sc_retry_max_hours env) (sc_give_up env) (map fst (sc_sources env))
                      (map (s_name \<circ> fst) selected) (tasks q) in
      filter (\<lambda>(s, _). s_name s \<notin> set waiting) selected)"

definition schedule_pulls :: "'o sched_env \<Rightarrow> instant \<Rightarrow> instant \<Rightarrow> queue \<Rightarrow> queue" where
  "schedule_pulls env now anchor q =
     fold (offer_pull now (ingest_cycle env now)) (due_sources env now anchor q) q"

section \<open>Upkeep and boards\<close>

definition consolidated :: "Task \<Rightarrow> bool" where
  "consolidated t \<longleftrightarrow> kind t = ''consolidate_batch_objects''
     \<and> (status t \<in> {Pending, Running}
        \<or> (status t = Done
           \<and> (case get (payload t) ''state'' of Some (JObj st) \<Rightarrow> get_text st ''phase'' = Some ''done'' | _ \<Rightarrow> False)))"

definition schedule_upkeep :: "instant \<Rightarrow> string \<Rightarrow> queue \<Rightarrow> queue" where
  "schedule_upkeep now cycle q =
     (let q = offer_cycle now ''retire_switched_off'' ''retire-off'' cycle q;
          q = unless (in_flight ''tier_page_text'' [Pending, Running] q)
                (offer_cycle now ''tier_page_text'' ''tier-page-text'' cycle) q;
          q = unless (in_flight ''backfill_mail_pointers'' [Pending, Running] q)
                (offer_cycle now ''backfill_mail_pointers'' ''mail-pointers'' cycle) q in
      unless (\<exists>t \<in> set (tasks q). consolidated t)
        (offer_cycle now ''consolidate_batch_objects'' ''batch-objects'' cycle) q)"

text \<open>\<open>RECOMPUTE_PENDING\<close> of \<open>api/board/visibility.py\<close>.\<close>

definition recompute_pending :: "queue \<Rightarrow> int \<Rightarrow> bool" where
  "recompute_pending q uid \<longleftrightarrow>
     (\<exists>t \<in> set (tasks q). kind t = ''recompute_board'' \<and> status t = Pending
        \<and> get_text (payload t) ''user_id'' = Some (show_int uid))"

definition board_users :: "'o sched_env \<Rightarrow> queue \<Rightarrow> int list" where
  "board_users env q =
     sort (filter (\<lambda>u. (u \<in> set (sc_user_source_set env) \<or> u \<in> set (sc_user_jobs env)
        \<or> u \<in> set (sc_posting_uploads env)) \<and> \<not> recompute_pending q u) (sc_users env))"

definition refresh_cycle :: "'o sched_env \<Rightarrow> instant \<Rightarrow> string" where
  "refresh_cycle env now =
     (let refresh = max 1 (sc_refresh_minutes env) in
      strftime_minute (replace_minute (minute_of now div refresh * refresh) now))"

definition schedule_recomputes :: "'o sched_env \<Rightarrow> instant \<Rightarrow> queue \<Rightarrow> queue" where
  "schedule_recomputes env now q =
     fold (offer_user now ''recompute_board'' ''board'' (refresh_cycle env now)) (board_users env q) q"

definition published_boards :: "board_db \<Rightarrow> int list" where
  "published_boards db = sort (map (bd_id \<circ> mb_board) (filter (bd_published \<circ> mb_board) (bb_boards db)))"

text \<open>One board: skipped when tried this cycle; a refusal or an error of its admission ends there.\<close>

definition schedule_board :: "'o sched_env \<Rightarrow> instant \<Rightarrow> string \<Rightarrow> int \<Rightarrow> 'o sched_state \<Rightarrow> 'o sched_state" where
  "schedule_board env now cycle i s =
     (if (cycle, i) \<in> set (ss_attempts s) then s
      else case admit (sc_board_env env) (sc_store env) now now (sc_meanwhile env i) False
             (Some (''managed-board:'' @ show_int i @ '':'' @ cycle)) i (ss_db s) (ss_objs s) of
        (_, db, objs) \<Rightarrow> s\<lparr>ss_db := db, ss_objs := objs, ss_attempts := (cycle, i) # ss_attempts s\<rparr>)"

section \<open>Paid work and the rest\<close>

definition schedule_derivation :: "'o sched_env \<Rightarrow> instant \<Rightarrow> string \<Rightarrow> Derivation \<Rightarrow> queue \<Rightarrow> queue" where
  "schedule_derivation env now cycle d q =
     (if (case dv_switch d of None \<Rightarrow> False | Some k \<Rightarrow> \<not> sc_switch_on env k) \<or> \<not> dv_has_work d
         \<or> in_flight (dv_kind d) ACTIVE_STATUSES q
      then q else offer_cycle now (dv_kind d) (dv_kind d) cycle q)"

definition schedule_applications :: "'o sched_env \<Rightarrow> instant \<Rightarrow> string \<Rightarrow> queue \<Rightarrow> queue" where
  "schedule_applications env now cycle q =
     (if sc_ai_paused env then q
      else fold (offer_user now ''application_sweep'' ''appsweep'' cycle) (sort (remdups (sc_user_resumes env))) q)"

definition schedule_mail :: "'o sched_env \<Rightarrow> instant \<Rightarrow> string \<Rightarrow> queue \<Rightarrow> queue" where
  "schedule_mail env now cycle q =
     (let q = offer_cycle now ''sync_gmail'' ''gmail'' cycle q;
          q = unless (sc_ai_paused env \<or> \<not> sc_mail_classification env
                \<or> in_flight ''classify_mail'' [Pending, Running, Waiting, Awaiting_batch] q)
                (offer_cycle now ''classify_mail'' ''mailclassify'' cycle) q;
          q = unless (in_flight ''match_mail'' [Pending, Running, Waiting] q \<or> \<not> sc_mail_changed env)
                (offer_cycle now ''match_mail'' ''mailmatch'' cycle) q in
      offer_cycle now ''probe_credentials'' ''credprobe'' cycle q)"

definition poll_cycle :: "'o sched_env \<Rightarrow> instant \<Rightarrow> string" where
  "poll_cycle env now =
     strftime_minute (replace_minute (minute_of now div sc_poll_minutes env * sc_poll_minutes env) now)"

definition schedule_rest :: "'o sched_env \<Rightarrow> instant \<Rightarrow> string \<Rightarrow> queue \<Rightarrow> queue" where
  "schedule_rest env now cycle q =
     (let day = strftime_day now;
          q = schedule_applications env now cycle q;
          q = unless (sc_ai_paused env) (offer_cycle now ''reverify_open'' ''reverify'' day) q;
          q = schedule_mail env now cycle q;
          q = (if sc_ai_paused env then q else fold (schedule_derivation env now cycle) (sc_derivations env) q);
          q = offer_cycle now ''send_digests'' ''digest'' day q;
          q = offer_cycle now ''data_health'' ''health'' cycle q;
          q = offer_cycle now ''ledger_rollup'' ''ledger-rollup'' cycle q;
          q = unless (in_flight ''poll_batches'' [Pending, Running] q)
                (offer_cycle now ''poll_batches'' ''pollbatch'' (poll_cycle env now)) q;
          q = unless (sc_ai_paused env \<or> in_flight ''verify_new'' [Pending, Running, Waiting] q)
                (offer_cycle now ''verify_new'' ''verify'' cycle) q in
      offer_cycle now ''fetch_missing_content'' ''content'' cycle q)"

definition on_queue :: "(queue \<Rightarrow> queue) \<Rightarrow> 'o sched_state \<Rightarrow> 'o sched_state" where
  "on_queue f s = s\<lparr>ss_db := (ss_db s)\<lparr>bb_queue := f (bb_queue (ss_db s))\<rparr>\<rparr>"

definition schedule_ingest_cycle :: "'o sched_env \<Rightarrow> instant \<Rightarrow> 'o sched_state \<Rightarrow> 'o sched_state result" where
  "schedule_ingest_cycle env now s =
     and_then (daily_pull_anchor (sc_daily_hour env) (sc_local env now)) (\<lambda>anchor.
       let cycle = ingest_cycle env now;
           s = on_queue (schedule_pulls env now (sc_of_local env anchor)) s;
           s = on_queue (schedule_upkeep now cycle) s;
           s = on_queue (schedule_recomputes env now) s;
           s = s\<lparr>ss_attempts := filter (\<lambda>key. fst key = cycle) (ss_attempts s)\<rparr>;
           s = (if sc_ai_paused env then s
                else fold (schedule_board env now cycle) (published_boards (ss_db s)) s) in
       Inr (on_queue (schedule_rest env now cycle) s))"


section \<open>What a pass adds\<close>

text \<open>\<open>appends K q q'\<close>: the queue grew from \<open>q\<close> to \<open>q'\<close> by pending tasks of the kinds \<open>K\<close> alone.\<close>

definition appends :: "string set \<Rightarrow> queue \<Rightarrow> queue \<Rightarrow> bool" where
  "appends K q q' \<longleftrightarrow> (\<exists>new. tasks q' = tasks q @ new \<and> (\<forall>t \<in> set new. kind t \<in> K \<and> status t = Pending))"

named_theorems appends_intros \<open>which kinds a step of the schedule appends\<close>

lemma appends_refl [appends_intros]: "appends K q q"
  by (simp add: appends_def)

lemma appends_trans:
  assumes "appends K q q1" "appends K q1 q2"
  shows "appends K q q2"
proof -
  obtain a b where "tasks q1 = tasks q @ a" "\<forall>t \<in> set a. kind t \<in> K \<and> status t = Pending"
      "tasks q2 = tasks q1 @ b" "\<forall>t \<in> set b. kind t \<in> K \<and> status t = Pending"
    using assms by (auto simp: appends_def)
  then show ?thesis unfolding appends_def by (intro exI [of _ "a @ b"]) auto
qed

lemma offer_tasks:
  "tasks (offer now k p key q) =
     (if \<exists>t \<in> set (tasks q). dedupe_key t = Some key then tasks q
      else case parent_column p of
        Inl _ \<Rightarrow> tasks q
      | Inr parent \<Rightarrow> tasks q @ [new_task now (next_id q) k p (Some key) parent])"
  by (cases "parent_column p") (simp_all add: offer_def enqueue_def)

lemma appends_offer [appends_intros]: "k \<in> K \<Longrightarrow> appends K q q1 \<Longrightarrow> appends K q (offer now k p key q1)"
  by (erule appends_trans) (auto simp: appends_def offer_tasks new_task_def split: sum.split)

lemma appends_offer_cycle [appends_intros]:
  "k \<in> K \<Longrightarrow> appends K q q1 \<Longrightarrow> appends K q (offer_cycle now k prefix cycle q1)"
  unfolding offer_cycle_def by (rule appends_offer)

lemma appends_offer_user [appends_intros]:
  "k \<in> K \<Longrightarrow> appends K q q1 \<Longrightarrow> appends K q (offer_user now k prefix cycle uid q1)"
  unfolding offer_user_def by (rule appends_offer)

lemma appends_unless [appends_intros]:
  "appends K q q1 \<Longrightarrow> (\<not> b \<Longrightarrow> appends K q (f q1)) \<Longrightarrow> appends K q (unless b f q1)"
  by (simp add: unless_def)

lemma appends_if [appends_intros]:
  "appends K q q1 \<Longrightarrow> (\<not> b \<Longrightarrow> appends K q q2) \<Longrightarrow> appends K q (if b then q1 else q2)"
  by simp

lemma appends_fold [appends_intros]:
  "appends K q q1 \<Longrightarrow> (\<And>x q2. x \<in> set xs \<Longrightarrow> appends K q q2 \<Longrightarrow> appends K q (f x q2))
    \<Longrightarrow> appends K q (fold f xs q1)"
  by (induction xs arbitrary: q1) simp_all

definition UNPAID_KINDS :: "string set" where
  "UNPAID_KINDS =
     {''ingest_source'', ''retire_switched_off'', ''tier_page_text'', ''backfill_mail_pointers'',
      ''consolidate_batch_objects'', ''recompute_board'', ''sync_gmail'', ''match_mail'', ''probe_credentials'',
      ''send_digests'', ''data_health'', ''ledger_rollup'', ''poll_batches'', ''fetch_missing_content''}"

lemma appends_pulls:
  "''ingest_source'' \<in> K \<Longrightarrow> appends K q q1 \<Longrightarrow> appends K q (schedule_pulls env now anchor q1)"
  unfolding schedule_pulls_def offer_pull_def by (intro appends_intros)

lemma appends_upkeep: "appends UNPAID_KINDS q q1 \<Longrightarrow> appends UNPAID_KINDS q (schedule_upkeep now cycle q1)"
  unfolding schedule_upkeep_def Let_def by (intro appends_intros) (simp_all add: UNPAID_KINDS_def)

lemma appends_recomputes: "appends UNPAID_KINDS q q1 \<Longrightarrow> appends UNPAID_KINDS q (schedule_recomputes env now q1)"
  unfolding schedule_recomputes_def by (intro appends_intros) (simp_all add: UNPAID_KINDS_def)

lemma appends_rest_paused:
  assumes "sc_ai_paused env" "appends UNPAID_KINDS q q1"
  shows "appends UNPAID_KINDS q (schedule_rest env now cycle q1)"
  using assms unfolding schedule_rest_def schedule_mail_def schedule_applications_def Let_def
  by (simp add: unless_def [of True]) (intro appends_intros; simp add: UNPAID_KINDS_def)

text \<open>
  C20: While the AI switch is off, a pass queues nothing that pays a model. Whatever the tables hold,
  the pass appends pending tasks of the fourteen unpaid kinds only, changes no other row, admits no
  board run and leaves the boards, ledgers and stored objects as they were.
\<close>

theorem paused_pass_queues_nothing_paid:
  assumes "schedule_ingest_cycle env now s = Inr s'" "sc_ai_paused env"
  shows "(\<exists>new. tasks (bb_queue (ss_db s')) = tasks (bb_queue (ss_db s)) @ new
      \<and> list_all (\<lambda>t. kind t \<in> UNPAID_KINDS \<and> status t = Pending) new)
    \<and> (ss_db s')\<lparr>bb_queue := bb_queue (ss_db s)\<rparr> = ss_db s \<and> ss_objs s' = ss_objs s"
proof -
  obtain anchor where s': "s' = on_queue (schedule_rest env now (ingest_cycle env now))
      ((on_queue (schedule_recomputes env now) (on_queue (schedule_upkeep now (ingest_cycle env now))
        (on_queue (schedule_pulls env now (sc_of_local env anchor)) s)))
       \<lparr>ss_attempts := filter (\<lambda>key. fst key = ingest_cycle env now) (ss_attempts s)\<rparr>)"
    using assms by (auto simp: schedule_ingest_cycle_def and_then_Inr_iff Let_def on_queue_def)
  have "appends UNPAID_KINDS (bb_queue (ss_db s)) (bb_queue (ss_db s'))"
    unfolding s' on_queue_def
    by simp (intro appends_rest_paused appends_recomputes appends_upkeep appends_pulls appends_refl assms;
      simp add: UNPAID_KINDS_def)
  then show ?thesis by (simp add: appends_def list_all_iff s' on_queue_def)
qed

section \<open>Pulls of a cycle\<close>

text \<open>Pending tasks leave a source's run of failures as it is.\<close>

lemma failed_since_append:
  "\<forall>t \<in> set new. status t = Pending \<Longrightarrow> failed_since src (tbl @ new) = failed_since src tbl"
proof -
  assume new: "\<forall>t \<in> set new. status t = Pending"
  have "filter (\<lambda>t. pull_of src t \<and> status t = Done) new = []" using new by (auto simp: filter_empty_conv)
  then have "last_success src (tbl @ new) = last_success src tbl" by (simp add: last_success_def)
  then show ?thesis using new by (auto simp: failed_since_def filter_empty_conv)
qed

lemma FAILURE_RUN_append: "\<forall>t \<in> set new. status t = Pending \<Longrightarrow> FAILURE_RUN src (tbl @ new) = FAILURE_RUN src tbl"
  by (simp add: FAILURE_RUN_def failed_since_append)

definition waits :: "'o sched_env \<Rightarrow> instant \<Rightarrow> Task list \<Rightarrow> Source_row \<Rightarrow> bool" where
  "waits env now tbl s \<longleftrightarrow>
     (let run = FAILURE_RUN (s_name s) tbl in
      1 \<le> failures run \<and> failures run < sc_give_up env
      \<and> (case last_failed run of
           None \<Rightarrow> False
         | Some l \<Rightarrow> l > now - hours (pull_wait_hours (sc_retry_max_hours env) (s_interval_hours s) (failures run))))"

lemma backing_off_iff:
  assumes "distinct (map s_name srcs)" "s \<in> set srcs" "s_name s \<in> set names"
  shows "s_name s \<in> set (backing_off now (sc_retry_max_hours env) (sc_give_up env) srcs names tbl) \<longleftrightarrow> waits env now tbl s"
proof -
  have "s_name s \<in> set (backing_off now (sc_retry_max_hours env) (sc_give_up env) srcs names tbl) \<longleftrightarrow>
      (\<exists>r \<in> set srcs. s_name r = s_name s \<and> waits env now tbl r)"
    using assms(3) by (auto simp: backing_off_def failure_runs_def waits_def Let_def image_iff)
  moreover have "r = s" if "r \<in> set srcs" "s_name r = s_name s" for r
    using assms(1,2) that by (meson distinct_map inj_onD)
  ultimately show ?thesis using assms(2) by blast
qed

lemma due_sources_iff:
  assumes "distinct (map (s_name \<circ> fst) (sc_sources env))"
  shows "src \<in> set (due_sources env now anchor q) \<longleftrightarrow>
    src \<in> set (sc_sources env) \<and> due now anchor q (fst src) \<and> \<not> waits env now (tasks q) (fst src)"
proof (cases "src \<in> set (sc_sources env) \<and> due now anchor q (fst src)")
  case True
  have "distinct (map s_name (map fst (sc_sources env)))" using assms by (simp add: comp_def)
  then show ?thesis
    using True backing_off_iff [of "map fst (sc_sources env)" "fst src"
        "map (s_name \<circ> fst) (filter (\<lambda>(s, _). due now anchor q s) (sc_sources env))" now env "tasks q"]
    by (auto simp: due_sources_def Let_def case_prod_unfold)
qed (auto simp: due_sources_def Let_def case_prod_unfold)

lemma due_append:
  assumes "due now anchor (q\<lparr>tasks := tasks q @ new\<rparr>) s" "\<forall>t \<in> set new. status t = Pending"
  shows "due now anchor q s"
  using assms by (auto simp: due_def)

text \<open>One offer of a pull.\<close>

definition pull_task :: "instant \<Rightarrow> string \<Rightarrow> Source_row \<times> string \<Rightarrow> Task \<Rightarrow> bool" where
  "pull_task now cycle src t \<longleftrightarrow> pull_of (s_name (fst src)) t \<and> status t = Pending \<and> created_at t = now
     \<and> dedupe_key t = Some (pull_key (s_name (fst src)) cycle) \<and> get_text (payload t) ''host'' = Some (pace_key (snd src))"

lemma offer_pull_tasks:
  "tasks (offer_pull now cycle src q) =
     (if \<exists>t \<in> set (tasks q). dedupe_key t = Some (pull_key (s_name (fst src)) cycle) then tasks q
      else tasks q @ [new_task now (next_id q) ''ingest_source''
        [(''source'', JStr (s_name (fst src))), (''cycle'', JStr cycle), (''host'', JStr (pace_key (snd src)))]
        (Some (pull_key (s_name (fst src)) cycle)) None])"
  by (simp add: offer_pull_def offer_tasks parent_column_def get_def)

lemma new_pull_task:
  "pull_task now cycle src (new_task now i ''ingest_source''
     [(''source'', JStr (s_name (fst src))), (''cycle'', JStr cycle), (''host'', JStr (pace_key (snd src)))]
     (Some (pull_key (s_name (fst src)) cycle)) None)"
  by (simp add: pull_task_def pull_of_def new_task_def get_text_def get_def)

definition pulls_added :: "instant \<Rightarrow> string \<Rightarrow> (Source_row \<times> string) list \<Rightarrow> Task list \<Rightarrow> Task list \<Rightarrow> Task list \<Rightarrow> bool" where
  "pulls_added now cycle srcs tbl new tbl' \<longleftrightarrow> tbl' = tbl @ new
     \<and> (\<forall>t \<in> set new. \<exists>src \<in> set srcs. pull_task now cycle src t)
     \<and> (\<forall>src \<in> set srcs. \<exists>t \<in> set tbl'. dedupe_key t = Some (pull_key (s_name (fst src)) cycle))
     \<and> (distinct (map (s_name \<circ> fst) srcs) \<longrightarrow> (\<forall>n. length (filter (pull_of n) new) \<le> 1))"

lemma pulls_added_one:
  "\<exists>new. length new \<le> 1 \<and> pulls_added now cycle [src] (tasks q) new (tasks (offer_pull now cycle src q))"
  using new_pull_task [of now cycle src] by (auto simp: pulls_added_def offer_pull_tasks new_task_def)

lemma no_pull_of_others:
  assumes "\<forall>t \<in> set new. \<exists>src \<in> set srcs. pull_task now cycle src t" "n \<notin> (s_name \<circ> fst) ` set srcs"
  shows "filter (pull_of n) new = []"
proof -
  have "\<not> pull_of n t" if "t \<in> set new" for t
  proof
    assume "pull_of n t"
    moreover obtain src where "src \<in> set srcs" "pull_of (s_name (fst src)) t"
      using assms(1) \<open>t \<in> set new\<close> by (auto simp: pull_task_def)
    ultimately show False using assms(2) by (auto simp: pull_of_def)
  qed
  then show ?thesis by (simp add: filter_empty_conv)
qed

lemma pulls_added_append:
  assumes "pulls_added now cycle [src] a new b" "pulls_added now cycle srcs b new' c"
  shows "pulls_added now cycle (src # srcs) a (new @ new') c"
proof -
  have "length (filter (pull_of n) (new @ new')) \<le> 1" if "distinct (map (s_name \<circ> fst) (src # srcs))" for n
  proof (cases "n = s_name (fst src)")
    case True
    then have "filter (pull_of n) new' = []"
      using that assms(2) by (intro no_pull_of_others [of _ srcs now cycle]) (auto simp: pulls_added_def)
    then show ?thesis using assms(1) by (simp add: pulls_added_def)
  next
    case False
    then have "filter (pull_of n) new = []"
      using assms(1) by (intro no_pull_of_others [of _ "[src]" now cycle]) (auto simp: pulls_added_def)
    then show ?thesis using assms(2) that by (simp add: pulls_added_def)
  qed
  moreover have c: "c = a @ new @ new'" "set b \<subseteq> set c" using assms by (auto simp: pulls_added_def)
  moreover have "\<forall>t \<in> set (new @ new'). \<exists>x \<in> set (src # srcs). pull_task now cycle x t"
    using assms unfolding pulls_added_def by (metis Un_iff list.set_intros set_append set_ConsD empty_iff empty_set)
  moreover have "\<forall>x \<in> set (src # srcs). \<exists>t \<in> set c. dedupe_key t = Some (pull_key (s_name (fst x)) cycle)"
    using assms c(2) unfolding pulls_added_def by (metis list.set_intros(1) set_ConsD subsetD)
  ultimately show ?thesis unfolding pulls_added_def by blast
qed

lemma offered_pulls: "\<exists>new. pulls_added now cycle srcs (tasks q) new (tasks (fold (offer_pull now cycle) srcs q))"
proof (induction srcs arbitrary: q)
  case Nil
  then show ?case by (simp add: pulls_added_def)
next
  case (Cons src srcs)
  obtain new where "pulls_added now cycle [src] (tasks q) new (tasks (offer_pull now cycle src q))"
    using pulls_added_one by blast
  moreover obtain new' where "pulls_added now cycle srcs (tasks (offer_pull now cycle src q)) new'
      (tasks (fold (offer_pull now cycle) srcs (offer_pull now cycle src q)))"
    using Cons.IH by blast
  ultimately show ?case by (auto dest: pulls_added_append)
qed

lemma offered_before:
  assumes "\<forall>src \<in> set srcs. \<exists>t \<in> set (tasks q). dedupe_key t = Some (pull_key (s_name (fst src)) cycle)"
  shows "tasks (fold (offer_pull now cycle) srcs q) = tasks q"
  using assms
proof (induction srcs arbitrary: q)
  case (Cons src srcs)
  have "tasks (offer_pull now cycle src q) = tasks q" using Cons.prems by (simp add: offer_pull_tasks)
  then show ?case using Cons.IH [of "offer_pull now cycle src q"] Cons.prems by simp
qed simp


section \<open>Instances\<close>

definition sample_sched_env :: "(string \<times> string) list sched_env" where
  "sample_sched_env =
     \<lparr>sc_interval_minutes = 15, sc_refresh_minutes = 60, sc_poll_minutes = 5, sc_daily_hour = 5,
      sc_local = id, sc_of_local = id, sc_retry_max_hours = 48, sc_give_up = 5,
      sc_sources = [(\<lparr>s_name = ''acme'', s_active = True, s_interval_hours = 1\<rparr>, ''https://boards.greenhouse.io/acme'')],
      sc_users = [1], sc_user_source_set = [1], sc_user_jobs = [], sc_posting_uploads = [], sc_user_resumes = [],
      sc_ai_paused = True, sc_mail_classification = True, sc_mail_changed = True, sc_switch_on = (\<lambda>_. True),
      sc_derivations = [\<lparr>dv_kind = ''rescrape'', dv_switch = None, dv_has_work = True\<rparr>],
      sc_board_env = sample_board_env, sc_store = sample_board_store, sc_meanwhile = (\<lambda>_. id)\<rparr>"

definition sample_sched_state :: "(string \<times> string) list sched_state" where
  "sample_sched_state = \<lparr>ss_db = sample_board_db, ss_objs = [], ss_attempts = []\<rparr>"

theorem paused_pass_queues_nothing_paid_witness:
  "\<exists>s'. schedule_ingest_cycle sample_sched_env 0 sample_sched_state = Inr s'
     \<and> list_all (\<lambda>t. kind t \<in> UNPAID_KINDS) (tasks (bb_queue (ss_db s'))) \<and> ss_objs s' = []"
proof -
  obtain s' where s': "schedule_ingest_cycle sample_sched_env 0 sample_sched_state = Inr s'"
    by (simp add: schedule_ingest_cycle_def daily_pull_anchor_def sample_sched_env_def Let_def)
  have "tasks (bb_queue (ss_db sample_sched_state)) = []" "ss_objs sample_sched_state = []"
    by (simp_all add: sample_sched_state_def sample_board_db_def)
  moreover have "sc_ai_paused sample_sched_env" by (simp add: sample_sched_env_def)
  ultimately show ?thesis using paused_pass_queues_nothing_paid [OF s'] s' by (auto simp: list_all_iff)
qed


end
