(* ===== verification/Ledger_Rollup.thy ===== *)
theory Ledger_Rollup
  imports Tasks "HOL-Library.Multiset"
begin

text \<open>
  The answer ledger summed per hour (\<open>api/ledger_rollup.py\<close>, \<open>tasks/ledger_rollup.py\<close>), with the
  triggers of \<open>alembic/versions/d4428913f75e_ledger_rollup_tables.py\<close> that log the hours a write
  touches. A read takes an hour from the stored sums only when it is below the watermark and not
  logged, and aggregates the rest from the source tables; it is shown to be exact in every state
  that writes and refreshes reach, however they interleave.
\<close>

section \<open>Time stamps with infinities\<close>

datatype stamp = NegInfinity | Moment int | Infinity

instantiation stamp :: linorder
begin

definition less_eq_stamp :: "stamp \<Rightarrow> stamp \<Rightarrow> bool" where
  "a \<le> b \<longleftrightarrow> (case a of
     NegInfinity \<Rightarrow> True
   | Moment x \<Rightarrow> (case b of NegInfinity \<Rightarrow> False | Moment y \<Rightarrow> x \<le> y | Infinity \<Rightarrow> True)
   | Infinity \<Rightarrow> b = Infinity)"

definition less_stamp :: "stamp \<Rightarrow> stamp \<Rightarrow> bool" where
  "a < b \<longleftrightarrow> a \<le> b \<and> \<not> b \<le> (a :: stamp)"

instance
  by standard (auto simp: less_eq_stamp_def less_stamp_def split: stamp.splits)

end

lemma stamp_order [simp]:
  "NegInfinity \<le> a" "a \<le> Infinity" "Moment x \<le> Moment y \<longleftrightarrow> x \<le> y" "Moment x < Moment y \<longleftrightarrow> x < y"
  "\<not> Moment x \<le> NegInfinity" "\<not> Infinity \<le> Moment x" "\<not> Infinity \<le> NegInfinity"
  "NegInfinity < Moment x" "Moment x < Infinity" "NegInfinity < Infinity"
  "\<not> a < NegInfinity" "\<not> Infinity < a"
  by (auto simp: less_eq_stamp_def less_stamp_def split: stamp.splits)

text \<open>\<open>_HOUR\<close>: \<open>date_trunc('hour', ..., 'UTC')\<close>, which keeps the infinities.\<close>

definition trunc_hour :: "int \<Rightarrow> int" where
  "trunc_hour t = t - t mod hours 1"

definition HOUR :: "stamp \<Rightarrow> stamp" where
  "HOUR s = (case s of Moment t \<Rightarrow> Moment (trunc_hour t) | _ \<Rightarrow> s)"

definition plus_hour :: "stamp \<Rightarrow> stamp" where
  "plus_hour s = (case s of Moment t \<Rightarrow> Moment (t + hours 1) | _ \<Rightarrow> s)"

definition on_hour :: "int \<Rightarrow> bool" where
  "on_hour t \<longleftrightarrow> trunc_hour t = t"

section \<open>Tables\<close>

text \<open>The columns of \<open>ai_queries\<close>, \<open>page_fetches\<close> and \<open>model_calls\<close> that the sums read.\<close>

record answer =
  aq_id :: int
  aq_created_at :: int
  aq_model :: "string option"
  aq_check_type :: "string option"
  aq_status :: "string option"
  aq_config_name :: "string option"
  aq_prompt_hash :: "string option"
  aq_batch_id :: "string option"
  aq_model_call_id :: "int option"

record page_fetch =
  pf_id :: int
  pf_created_at :: int
  pf_status :: string
  pf_method :: string

record model_call =
  mc_id :: int
  mc_prompt_tokens :: int
  mc_completion_tokens :: int
  mc_total_tokens :: int
  mc_cached_tokens :: int
  mc_cache_write_tokens :: "int option"
  mc_reasoning_tokens :: "int option"
  mc_cost_usd :: "rat option"

text \<open>\<open>DIMENSIONS\<close>, and a row of \<open>answer_usage_hourly\<close>: an hour, its dimensions and its \<open>MEASURES\<close>.\<close>

record dimensions =
  dm_arm :: string
  dm_model :: "string option"
  dm_check_type :: "string option"
  dm_status :: "string option"
  dm_config_name :: "string option"
  dm_prompt_hash :: "string option"
  dm_batched :: bool

record usage =
  us_prompt_tokens :: "int option"
  us_completion_tokens :: "int option"
  us_total_tokens :: "int option"
  us_cached_tokens :: "int option"
  us_cache_write_tokens :: "int option"
  us_reasoning_tokens :: "int option"
  us_cost_usd :: "rat option"

record group_row =
  gr_hour :: int
  gr_dims :: dimensions
  gr_answers :: int
  gr_unpriced :: int
  gr_cache_write_unknown :: int
  gr_joint_call_rows :: int
  gr_usage :: usage
  gr_first_at :: int
  gr_last_at :: int

record ledger =
  lg_answers :: "answer list"
  lg_fetches :: "page_fetch list"
  lg_calls :: "model_call list"
  lg_hourly :: "group_row list"
  lg_dirty :: "(int \<times> int) list"
  lg_dirty_seq :: int
  lg_until :: "int option"

section \<open>Sums of the source tables\<close>

text \<open>A row of the ledger before it is grouped.\<close>

record ledger_entry =
  le_created_at :: int
  le_dims :: dimensions
  le_usage :: usage

definition first_id :: "int \<Rightarrow> answer list \<Rightarrow> int" where
  "first_id c answers = Min (aq_id ` set (filter (\<lambda>q. aq_model_call_id q = Some c) answers))"

definition no_usage :: usage where
  "no_usage = \<lparr>us_prompt_tokens = None, us_completion_tokens = None, us_total_tokens = None, us_cached_tokens = None,
     us_cache_write_tokens = None, us_reasoning_tokens = None, us_cost_usd = None\<rparr>"

text \<open>\<open>_usage\<close> of every column: the call's numbers on the first answer naming it, zeros on the rest.\<close>

definition usage_of :: "answer list \<Rightarrow> model_call list \<Rightarrow> answer \<Rightarrow> usage" where
  "usage_of answers calls q =
     (case aq_model_call_id q of
        None \<Rightarrow> no_usage
      | Some c \<Rightarrow>
          let m = find (\<lambda>m. mc_id m = c) calls in
          if aq_id q = first_id c answers
          then (case m of None \<Rightarrow> no_usage | Some m \<Rightarrow>
            \<lparr>us_prompt_tokens = Some (mc_prompt_tokens m), us_completion_tokens = Some (mc_completion_tokens m),
             us_total_tokens = Some (mc_total_tokens m), us_cached_tokens = Some (mc_cached_tokens m),
             us_cache_write_tokens = mc_cache_write_tokens m, us_reasoning_tokens = mc_reasoning_tokens m,
             us_cost_usd = mc_cost_usd m\<rparr>)
          else
            \<lparr>us_prompt_tokens = Some 0, us_completion_tokens = Some 0, us_total_tokens = Some 0, us_cached_tokens = Some 0,
             us_cache_write_tokens = Some 0, us_reasoning_tokens = Some 0,
             us_cost_usd = (case m of None \<Rightarrow> None | Some m \<Rightarrow> map_option (\<lambda>v. v * 0) (mc_cost_usd m))\<rparr>)"

definition answer_entry :: "answer list \<Rightarrow> model_call list \<Rightarrow> answer \<Rightarrow> ledger_entry" where
  "answer_entry answers calls q =
     \<lparr>le_created_at = aq_created_at q,
      le_dims = \<lparr>dm_arm = ''answer'', dm_model = aq_model q, dm_check_type = aq_check_type q, dm_status = aq_status q,
        dm_config_name = aq_config_name q, dm_prompt_hash = aq_prompt_hash q, dm_batched = (aq_batch_id q \<noteq> None)\<rparr>,
      le_usage = usage_of answers calls q\<rparr>"

definition fetch_entry :: "page_fetch \<Rightarrow> ledger_entry" where
  "fetch_entry f =
     \<lparr>le_created_at = pf_created_at f,
      le_dims = \<lparr>dm_arm = ''fetch'', dm_model = None, dm_check_type = Some ''content'', dm_status = Some (pf_status f),
        dm_config_name = Some ''content-cache'', dm_prompt_hash = None, dm_batched = False\<rparr>,
      le_usage = no_usage\<rparr>"

definition in_range :: "stamp \<times> stamp \<Rightarrow> int \<Rightarrow> bool" where
  "in_range r t \<longleftrightarrow> fst r \<le> Moment t \<and> Moment t < snd r"

text \<open>The joins with the ranges: a row stands once for each range it falls in.\<close>

definition ledger_entries :: "(stamp \<times> stamp) list \<Rightarrow> ledger \<Rightarrow> ledger_entry list" where
  "ledger_entries ranges db =
     concat (map (\<lambda>r. map (answer_entry (lg_answers db) (lg_calls db))
                        (filter (\<lambda>q. in_range r (aq_created_at q)) (lg_answers db))) ranges)
     @ concat (map (\<lambda>r. map fetch_entry
                        (filter (\<lambda>f. in_range r (pf_created_at f) \<and> pf_method f \<noteq> ''verification'') (lg_fetches db))) ranges)"

text \<open>\<open>SUM\<close> skips nulls, and is null when every value is.\<close>

definition sum_column :: "('a \<Rightarrow> 'n :: comm_monoid_add option) \<Rightarrow> 'a list \<Rightarrow> 'n option" where
  "sum_column f rows =
     (if list_all (\<lambda>r. f r = None) rows then None
      else Some (sum_list (map (\<lambda>r. case f r of None \<Rightarrow> 0 | Some v \<Rightarrow> v) rows)))"

definition count_rows :: "('a \<Rightarrow> bool) \<Rightarrow> 'a list \<Rightarrow> int" where
  "count_rows P rows = int (length (filter P rows))"

definition joint_call_row :: "ledger_entry \<Rightarrow> bool" where
  "joint_call_row r \<longleftrightarrow> coalesce (us_total_tokens (le_usage r)) 0 = 0
     \<and> dm_status (le_dims r) \<in> {Some ''passed'', Some ''rejected''}"

definition entry_key :: "ledger_entry \<Rightarrow> int \<times> dimensions" where
  "entry_key r = (trunc_hour (le_created_at r), le_dims r)"

definition group_of :: "int \<times> dimensions \<Rightarrow> ledger_entry list \<Rightarrow> group_row" where
  "group_of k rows =
     \<lparr>gr_hour = fst k, gr_dims = snd k,
      gr_answers = int (length rows),
      gr_unpriced = count_rows (\<lambda>r. us_cost_usd (le_usage r) = None) rows,
      gr_cache_write_unknown = count_rows (\<lambda>r. us_cache_write_tokens (le_usage r) = None) rows,
      gr_joint_call_rows = count_rows joint_call_row rows,
      gr_usage =
        \<lparr>us_prompt_tokens = sum_column (us_prompt_tokens \<circ> le_usage) rows,
         us_completion_tokens = sum_column (us_completion_tokens \<circ> le_usage) rows,
         us_total_tokens = sum_column (us_total_tokens \<circ> le_usage) rows,
         us_cached_tokens = sum_column (us_cached_tokens \<circ> le_usage) rows,
         us_cache_write_tokens = sum_column (us_cache_write_tokens \<circ> le_usage) rows,
         us_reasoning_tokens = sum_column (us_reasoning_tokens \<circ> le_usage) rows,
         us_cost_usd = sum_column (us_cost_usd \<circ> le_usage) rows\<rparr>,
      gr_first_at = Min (le_created_at ` set rows),
      gr_last_at = Max (le_created_at ` set rows)\<rparr>"

definition group_rows_by :: "ledger_entry list \<Rightarrow> group_row list" where
  "group_rows_by rows = map (\<lambda>k. group_of k (filter (\<lambda>r. entry_key r = k) rows)) (remdups (map entry_key rows))"

definition aggregate :: "(stamp \<times> stamp) list \<Rightarrow> ledger \<Rightarrow> group_row list" where
  "aggregate ranges db = group_rows_by (ledger_entries ranges db)"

section \<open>Reads\<close>

definition ceil_hour :: "stamp \<Rightarrow> stamp" where
  "ceil_hour s = (if HOUR s = s then s else plus_hour (HOUR s))"

definition stored_end :: "stamp \<Rightarrow> ledger \<Rightarrow> stamp" where
  "stored_end e db = min (case lg_until db of None \<Rightarrow> NegInfinity | Some u \<Rightarrow> Moment u) (HOUR e)"

definition dirty_between :: "stamp \<Rightarrow> stamp \<Rightarrow> ledger \<Rightarrow> int list" where
  "dirty_between s e db =
     remdups (filter (\<lambda>h. ceil_hour s \<le> Moment h \<and> Moment h < stored_end e db) (map snd (lg_dirty db)))"

definition hour_range :: "int \<Rightarrow> stamp \<times> stamp" where
  "hour_range h = (Moment h, Moment (h + hours 1))"

definition live_ranges :: "stamp \<Rightarrow> stamp \<Rightarrow> ledger \<Rightarrow> (stamp \<times> stamp) list" where
  "live_ranges s e db =
     (if s < min (ceil_hour s) e then [(s, min (ceil_hour s) e)] else [])
     @ (if max (stored_end e db) (ceil_hour s) < e then [(max (stored_end e db) (ceil_hour s), e)] else [])
     @ map hour_range (dirty_between s e db)"

definition groups :: "stamp \<Rightarrow> stamp \<Rightarrow> (dimensions \<Rightarrow> bool) \<Rightarrow> ledger \<Rightarrow> group_row list" where
  "groups s e keep db =
     filter (\<lambda>g. ceil_hour s \<le> Moment (gr_hour g) \<and> Moment (gr_hour g) < stored_end e db
               \<and> gr_hour g \<notin> set (dirty_between s e db) \<and> keep (gr_dims g)) (lg_hourly db)
     @ filter (\<lambda>g. keep (gr_dims g)) (aggregate (live_ranges s e db) db)"

section \<open>Writes and the hours they log\<close>

definition mark_dirty :: "int list \<Rightarrow> ledger \<Rightarrow> ledger" where
  "mark_dirty moments db =
     (let hs = remdups (map trunc_hour moments) in
      db\<lparr>lg_dirty := lg_dirty db @ map (\<lambda>(i, h). (lg_dirty_seq db + int i, h)) (enumerate 0 hs),
         lg_dirty_seq := lg_dirty_seq db + int (length hs)\<rparr>)"

text \<open>When the answers naming a call of \<open>rows\<close> were recorded, in the table after the statement.\<close>

definition siblings :: "answer list \<Rightarrow> ledger \<Rightarrow> int list" where
  "siblings rows db = map aq_created_at (filter (\<lambda>q. aq_model_call_id q \<noteq> None
     \<and> aq_model_call_id q \<in> aq_model_call_id ` set rows) (lg_answers db))"

datatype trigger_op = INSERT | UPDATE | DELETE

definition ledger_dirty_answers :: "trigger_op \<Rightarrow> answer list \<Rightarrow> answer list \<Rightarrow> ledger \<Rightarrow> ledger" where
  "ledger_dirty_answers tg_op old_rows new_rows db =
     (let db = (if tg_op \<in> {INSERT, UPDATE} then mark_dirty (map aq_created_at new_rows) db else db);
          db = (if tg_op \<in> {UPDATE, DELETE}
                then mark_dirty (siblings old_rows db) (mark_dirty (map aq_created_at old_rows) db) else db) in
      if tg_op = UPDATE then mark_dirty (siblings new_rows db) db else db)"

definition ledger_dirty_calls :: "model_call list \<Rightarrow> ledger \<Rightarrow> ledger" where
  "ledger_dirty_calls old_rows db =
     mark_dirty (map aq_created_at (filter (\<lambda>q. aq_model_call_id q \<in> (Some \<circ> mc_id) ` set old_rows) (lg_answers db))) db"

definition ledger_dirty_fetches :: "trigger_op \<Rightarrow> page_fetch list \<Rightarrow> page_fetch list \<Rightarrow> ledger \<Rightarrow> ledger" where
  "ledger_dirty_fetches tg_op old_rows new_rows db =
     (let db = (if tg_op \<in> {INSERT, UPDATE} then mark_dirty (map pf_created_at new_rows) db else db) in
      if tg_op \<in> {UPDATE, DELETE} then mark_dirty (map pf_created_at old_rows) db else db)"

text \<open>Statements on the three tables with their triggers; a call's insert has none.\<close>

definition insert_answers :: "answer list \<Rightarrow> ledger \<Rightarrow> ledger" where
  "insert_answers new db = ledger_dirty_answers INSERT [] new (db\<lparr>lg_answers := lg_answers db @ new\<rparr>)"

definition update_answers :: "(answer \<Rightarrow> bool) \<Rightarrow> (answer \<Rightarrow> answer) \<Rightarrow> ledger \<Rightarrow> ledger" where
  "update_answers P f db =
     (let old = filter P (lg_answers db) in
      ledger_dirty_answers UPDATE old (map f old) (db\<lparr>lg_answers := update_where P f (lg_answers db)\<rparr>))"

definition delete_answers :: "(answer \<Rightarrow> bool) \<Rightarrow> ledger \<Rightarrow> ledger" where
  "delete_answers P db =
     ledger_dirty_answers DELETE (filter P (lg_answers db)) [] (db\<lparr>lg_answers := filter (\<lambda>q. \<not> P q) (lg_answers db)\<rparr>)"

definition insert_calls :: "model_call list \<Rightarrow> ledger \<Rightarrow> ledger" where
  "insert_calls new db = db\<lparr>lg_calls := lg_calls db @ new\<rparr>"

definition update_calls :: "(model_call \<Rightarrow> bool) \<Rightarrow> (model_call \<Rightarrow> model_call) \<Rightarrow> ledger \<Rightarrow> ledger" where
  "update_calls P f db =
     ledger_dirty_calls (filter P (lg_calls db)) (db\<lparr>lg_calls := update_where P f (lg_calls db)\<rparr>)"

definition delete_calls :: "(model_call \<Rightarrow> bool) \<Rightarrow> ledger \<Rightarrow> ledger" where
  "delete_calls P db =
     ledger_dirty_calls (filter P (lg_calls db)) (db\<lparr>lg_calls := filter (\<lambda>m. \<not> P m) (lg_calls db)\<rparr>)"

definition insert_fetches :: "page_fetch list \<Rightarrow> ledger \<Rightarrow> ledger" where
  "insert_fetches new db = ledger_dirty_fetches INSERT [] new (db\<lparr>lg_fetches := lg_fetches db @ new\<rparr>)"

definition update_fetches :: "(page_fetch \<Rightarrow> bool) \<Rightarrow> (page_fetch \<Rightarrow> page_fetch) \<Rightarrow> ledger \<Rightarrow> ledger" where
  "update_fetches P f db =
     (let old = filter P (lg_fetches db) in
      ledger_dirty_fetches UPDATE old (map f old) (db\<lparr>lg_fetches := update_where P f (lg_fetches db)\<rparr>))"

definition delete_fetches :: "(page_fetch \<Rightarrow> bool) \<Rightarrow> ledger \<Rightarrow> ledger" where
  "delete_fetches P db =
     ledger_dirty_fetches DELETE (filter P (lg_fetches db)) [] (db\<lparr>lg_fetches := filter (\<lambda>f. \<not> P f) (lg_fetches db)\<rparr>)"

section \<open>Refresh\<close>

record refreshed =
  rf_dirty_hours :: int
  rf_advanced_to :: "int option"
  rf_caught_up :: bool
  rf_skipped :: bool

definition first_hour :: "ledger \<Rightarrow> int option" where
  "first_hour db =
     (let moments = map aq_created_at (lg_answers db) @ map pf_created_at (lg_fetches db) in
      if moments = [] then None else Some (Min (trunc_hour ` set moments)))"

definition store_ranges :: "int list \<Rightarrow> int list \<Rightarrow> ledger \<Rightarrow> ledger" where
  "store_ranges lo hi db = db\<lparr>lg_hourly := lg_hourly db @ aggregate (zip (map Moment lo) (map Moment hi)) db\<rparr>"

definition recompute_dirty :: "int \<Rightarrow> (int \<times> int) list \<Rightarrow> ledger \<Rightarrow> ledger" where
  "recompute_dirty until logged db =
     (let dirty = sort (remdups (filter (\<lambda>h. h < until) (map snd logged)));
          db = (if dirty = [] then db
                else store_ranges dirty (map (\<lambda>h. h + hours 1) dirty)
                       (db\<lparr>lg_hourly := filter (\<lambda>g. gr_hour g \<notin> set dirty) (lg_hourly db)\<rparr>)) in
      db\<lparr>lg_dirty := filter (\<lambda>d. fst d \<notin> fst ` set logged) (lg_dirty db)\<rparr>)"

definition advance :: "int \<Rightarrow> int \<Rightarrow> ledger \<Rightarrow> ledger" where
  "advance until target db =
     (let db = (if until < target
                then store_ranges [until] [target]
                       (db\<lparr>lg_hourly := filter (\<lambda>g. \<not> (until \<le> gr_hour g \<and> gr_hour g < target)) (lg_hourly db)\<rparr>)
                else db) in
      db\<lparr>lg_until := Some (max until target)\<rparr>)"

text \<open>
  One refresh. Its statements each see what is committed by then: \<open>w1\<close> is what others commit between
  the reading of the state and of the log, \<open>w2\<close> before the dirty hours are summed, \<open>w3\<close> before the
  watermark's new hours are. \<open>got\<close> is whether the advisory lock was free.
\<close>

definition refresh ::
  "bool \<Rightarrow> int \<Rightarrow> int \<Rightarrow> (ledger \<Rightarrow> ledger) \<Rightarrow> (ledger \<Rightarrow> ledger) \<Rightarrow> (ledger \<Rightarrow> ledger) \<Rightarrow> ledger \<Rightarrow> refreshed \<times> ledger" where
  "refresh got now max_span w1 w2 w3 db =
     (if \<not> got then (\<lparr>rf_dirty_hours = 0, rf_advanced_to = None, rf_caught_up = False, rf_skipped = True\<rparr>, db)
      else
        let goal = trunc_hour now;
            until = coalesce (lg_until db) (coalesce (first_hour db) goal);
            db = w1 db;
            logged = lg_dirty db;
            db = w3 (recompute_dirty until logged (w2 db));
            target = min goal (until + max_span) in
        (\<lparr>rf_dirty_hours = int (length (remdups (filter (\<lambda>h. h < until) (map snd logged)))),
          rf_advanced_to = Some (max until target), rf_caught_up = (goal \<le> target), rf_skipped = False\<rparr>,
         advance until target db))"

text \<open>
  \<open>handle_ledger_rollup\<close>: at most \<open>_STEPS\<close> refreshes, each in its own transaction with its turn at the
  lock and its own \<open>now()\<close>.
\<close>

definition STEPS :: nat where "STEPS = 200"

definition SPAN :: int where "SPAN = hours 48"

fun rollup_steps :: "(bool \<times> int) list \<Rightarrow> ledger \<Rightarrow> refreshed option \<times> ledger" where
  "rollup_steps [] db = (None, db)"
| "rollup_steps ((got, now) # turns) db =
     (case refresh got now SPAN id id id db of (r, db') \<Rightarrow>
        if rf_skipped r \<or> rf_caught_up r then (Some r, db')
        else case rollup_steps turns db' of (later, db'') \<Rightarrow> (Some (coalesce later r), db''))"

definition handle_ledger_rollup :: "(bool \<times> int) list \<Rightarrow> ledger \<Rightarrow> refreshed option \<times> ledger" where
  "handle_ledger_rollup turns = rollup_steps (take STEPS turns)"

section \<open>Grouping\<close>

lemma sum_column_mset:
  assumes "mset rows = mset rows'"
  shows "sum_column f rows = sum_column f rows'"
proof -
  have "sum_mset (mset (map g rows)) = sum_mset (mset (map g rows'))" for g :: "'a \<Rightarrow> 'b" using assms by simp
  then show ?thesis using mset_eq_setD [OF assms] by (simp add: sum_column_def list_all_iff sum_mset_sum_list del: mset_map)
qed

lemma count_rows_mset:
  assumes "mset rows = mset rows'"
  shows "count_rows P rows = count_rows P rows'"
  using arg_cong [OF assms, of "\<lambda>m. size (filter_mset P m)"] by (simp add: count_rows_def flip: mset_filter)

lemma group_of_mset:
  assumes "mset rows = mset rows'"
  shows "group_of k rows = group_of k rows'"
  unfolding group_of_def
  by (simp add: sum_column_mset [OF assms] count_rows_mset [OF assms] mset_eq_setD [OF assms] mset_eq_length [OF assms])

lemma group_rows_by_mset:
  assumes "mset rows = mset rows'"
  shows "mset (group_rows_by rows) = mset (group_rows_by rows')"
proof -
  have "set (map entry_key rows) = set (map entry_key rows')" using mset_eq_setD [OF assms] by simp
  then have "mset (remdups (map entry_key rows)) = mset (remdups (map entry_key rows'))"
    by (simp only: set_eq_iff_mset_remdups_eq)
  moreover have "group_of k (filter P rows) = group_of k (filter P rows')" for k P
    by (rule group_of_mset) (simp add: assms)
  ultimately show ?thesis by (simp add: group_rows_by_def)
qed

lemma group_of_key [simp]: "gr_hour (group_of k rows) = fst k" "gr_dims (group_of k rows) = snd k"
  by (simp_all add: group_of_def)

text \<open>A condition on the hour and the dimensions can be applied before or after grouping.\<close>

lemma filter_group_rows_by:
  "filter (\<lambda>g. P (gr_hour g, gr_dims g)) (group_rows_by rows) = group_rows_by (filter (\<lambda>r. P (entry_key r)) rows)"
proof -
  have "filter (\<lambda>r. entry_key r = k) (filter (\<lambda>r. P (entry_key r)) rows) = filter (\<lambda>r. entry_key r = k) rows" if "P k" for k
    using that by (auto intro: filter_cong)
  then show ?thesis
    by (auto simp: group_rows_by_def filter_map comp_def remdups_filter [symmetric] intro!: map_cong)
qed

text \<open>Rows with hours are equal as soon as they are equal hour by hour.\<close>

lemma mset_by_hour:
  fixes a b :: "group_row list"
  assumes "\<And>h. mset (filter (\<lambda>g. gr_hour g = h) a) = mset (filter (\<lambda>g. gr_hour g = h) b)"
  shows "mset a = mset b"
proof (rule multiset_eqI)
  fix g :: group_row
  have "count (mset xs) g = count (mset (filter (\<lambda>x. gr_hour x = gr_hour g) xs)) g" for xs by simp
  then show "count (mset a) g = count (mset b) g" using assms by metis
qed

section \<open>Ranges\<close>

definition all_entries :: "ledger \<Rightarrow> ledger_entry list" where
  "all_entries db = map (answer_entry (lg_answers db) (lg_calls db)) (lg_answers db)
     @ map fetch_entry (filter (\<lambda>f. pf_method f \<noteq> ''verification'') (lg_fetches db))"

definition hits :: "(stamp \<times> stamp) list \<Rightarrow> int \<Rightarrow> nat" where
  "hits ranges t = length (filter (\<lambda>r. in_range r t) ranges)"

lemma hits_simps [simp]:
  "hits [] t = 0" "hits (r # rs) t = (if in_range r t then 1 else 0) + hits rs t" "hits (as @ bs) t = hits as t + hits bs t"
  by (simp_all add: hits_def)

lemma le_created_at_entries [simp]:
  "le_created_at (answer_entry as cs q) = aq_created_at q" "le_created_at (fetch_entry f) = pf_created_at f"
  by (simp_all add: answer_entry_def fetch_entry_def)

text \<open>How often a row stands in a join is the number of ranges it falls in.\<close>

lemma mset_ranges:
  "mset (concat (map (\<lambda>r. map f (filter (\<lambda>x. in_range r (c x) \<and> P x) xs)) ranges))
   = sum_list (map (\<lambda>r. filter_mset (\<lambda>e. in_range r (le_created_at e)) (mset (map f (filter P xs)))) ranges)"
  if "\<And>x. le_created_at (f x) = c x"
proof (induction ranges)
  case (Cons r ranges)
  have "mset (map f (filter (\<lambda>x. in_range r (c x) \<and> P x) xs))
      = filter_mset (\<lambda>e. in_range r (le_created_at e)) (mset (map f (filter P xs)))"
    by (simp flip: mset_filter mset_map add: filter_map comp_def that conj_commute)
  then show ?case using Cons.IH by simp
qed simp

lemma count_entries:
  "count (mset (ledger_entries ranges db)) e = hits ranges (le_created_at e) * count (mset (all_entries db)) e"
proof -
  have sum: "count (sum_list (map (\<lambda>r. filter_mset (\<lambda>e. in_range r (le_created_at e)) M) ranges)) e
      = hits ranges (le_created_at e) * count M e" for M
    by (induction ranges) simp_all
  show ?thesis
    unfolding ledger_entries_def all_entries_def
    using mset_ranges [of "answer_entry (lg_answers db) (lg_calls db)" aq_created_at "\<lambda>_. True" "lg_answers db" ranges]
      mset_ranges [of fetch_entry pf_created_at "\<lambda>f. pf_method f \<noteq> ''verification''" "lg_fetches db" ranges]
    by (simp add: sum algebra_simps del: mset_concat mset_map mset_filter)
qed

lemma on_hour_trunc [simp]: "on_hour (trunc_hour t)"
  by (simp add: on_hour_def trunc_hour_def)

lemma trunc_hour_bounds: "trunc_hour t \<le> t" "t < trunc_hour t + hours 1"
  using pos_mod_bound [of "hours 1" t] by (simp_all add: trunc_hour_def)

lemma trunc_hour_iff:
  assumes "on_hour h"
  shows "trunc_hour t = h \<longleftrightarrow> h \<le> t \<and> t < h + hours 1"
proof
  assume t: "h \<le> t \<and> t < h + hours 1"
  obtain k where k: "h = hours 1 * k" using assms by (auto simp: on_hour_def trunc_hour_def elim!: dvdE)
  have "t div hours 1 = k" using t k by (intro int_div_pos_eq [of _ _ _ "t - h"]) auto
  then show "trunc_hour t = h" by (simp add: trunc_hour_def k minus_mod_eq_mult_div)
qed (use trunc_hour_bounds [of t] in auto)

section \<open>Reads are exact\<close>

text \<open>The groups of one hour, as the source tables give them.\<close>

abbreviation hour_groups :: "int \<Rightarrow> ledger \<Rightarrow> group_row multiset" where
  "hour_groups h db \<equiv> mset (aggregate [hour_range h] db)"

text \<open>
  The invariant: an hour below the watermark that is not logged is stored as the source tables give
  it. Watermark, log and stored hours are whole hours, log ids are below their sequence, and without
  a watermark nothing is stored.
\<close>

definition sums_ok :: "int \<Rightarrow> ledger \<Rightarrow> bool" where
  "sums_ok u db \<longleftrightarrow> list_all (\<lambda>(i, h). i < lg_dirty_seq db \<and> on_hour h) (lg_dirty db)
     \<and> list_all (on_hour \<circ> gr_hour) (lg_hourly db) \<and> on_hour u
     \<and> (\<forall>h < u. on_hour h \<longrightarrow> h \<notin> snd ` set (lg_dirty db)
          \<longrightarrow> mset (filter (\<lambda>g. gr_hour g = h) (lg_hourly db)) = hour_groups h db)"

definition rollup_ok :: "ledger \<Rightarrow> bool" where
  "rollup_ok db \<longleftrightarrow>
     (case lg_until db of
        None \<Rightarrow> list_all (\<lambda>(i, h). i < lg_dirty_seq db \<and> on_hour h) (lg_dirty db) \<and> lg_hourly db = []
      | Some u \<Rightarrow> sums_ok u db)"

lemma rollup_ok_hours:
  assumes "rollup_ok db"
  shows "list_all (on_hour \<circ> snd) (lg_dirty db)" "list_all (on_hour \<circ> gr_hour) (lg_hourly db)"
    "lg_until db = Some u \<Longrightarrow> on_hour u"
  using assms by (auto simp: rollup_ok_def sums_ok_def list_all_iff split: option.splits)

text \<open>The rows of one hour in a set of ranges.\<close>

definition hour_entries :: "int \<Rightarrow> (stamp \<times> stamp) list \<Rightarrow> ledger \<Rightarrow> ledger_entry list" where
  "hour_entries h ranges db = filter (\<lambda>r. fst (entry_key r) = h) (ledger_entries ranges db)"

lemma filter_hour_aggregate:
  "filter (\<lambda>g. gr_hour g = h) (aggregate ranges db) = group_rows_by (hour_entries h ranges db)"
  unfolding aggregate_def hour_entries_def using filter_group_rows_by [of "\<lambda>k. fst k = h"] by simp

lemma count_hour_entries:
  "count (mset (hour_entries h ranges db)) e =
     (if trunc_hour (le_created_at e) = h then hits ranges (le_created_at e) * count (mset (all_entries db)) e else 0)"
  unfolding hour_entries_def mset_filter count_filter_mset count_entries by (simp add: entry_key_def)

lemma hour_entries_mset:
  assumes "\<And>t. trunc_hour t = h \<Longrightarrow> hits as t = hits bs t"
  shows "mset (hour_entries h as db) = mset (hour_entries h bs db)"
  by (rule multiset_eqI) (auto simp: count_hour_entries assms)

lemma hour_entries_none:
  assumes "\<And>t. trunc_hour t = h \<Longrightarrow> hits ranges t = 0"
  shows "hour_entries h ranges db = []"
  using hour_entries_mset [of h ranges "[]" db] assms by (simp add: hour_entries_def ledger_entries_def)

lemma in_hour_range: "on_hour h \<Longrightarrow> in_range (hour_range h) t \<longleftrightarrow> trunc_hour t = h"
  by (simp add: in_range_def hour_range_def trunc_hour_iff)

lemma hits_hours:
  assumes "distinct hs" "list_all on_hour hs"
  shows "hits (map hour_range hs) t = (if trunc_hour t \<in> set hs then 1 else 0)"
  using assms by (induction hs) (auto simp: in_hour_range)

text \<open>The hours of a window that are read from the stored sums.\<close>

definition served :: "stamp \<Rightarrow> stamp \<Rightarrow> ledger \<Rightarrow> int \<Rightarrow> bool" where
  "served s e db h \<longleftrightarrow> ceil_hour s \<le> Moment h \<and> Moment h < stored_end e db \<and> h \<notin> set (dirty_between s e db)"

lemma ceil_hour_simps [simp]:
  "ceil_hour NegInfinity = NegInfinity" "ceil_hour Infinity = Infinity"
  "ceil_hour (Moment t) = Moment (if on_hour t then t else trunc_hour t + hours 1)"
  by (simp_all add: ceil_hour_def HOUR_def plus_hour_def on_hour_def)

lemma on_hour_plus [simp]: "on_hour h \<Longrightarrow> on_hour (h + hours 1)"
  by (simp add: on_hour_def trunc_hour_def)

lemma on_hour_le:
  assumes "on_hour a" "on_hour b" "a < b"
  shows "a + hours 1 \<le> b"
proof (rule ccontr)
  assume "\<not> a + hours 1 \<le> b"
  then have "trunc_hour b = a" using assms by (simp add: trunc_hour_iff)
  then show False using assms by (simp add: on_hour_def)
qed

text \<open>A moment at or after the window's first whole hour lies in an hour at or after it.\<close>

lemma trunc_hour_mono: "on_hour h \<Longrightarrow> h \<le> t \<longleftrightarrow> h \<le> trunc_hour t"
  using trunc_hour_bounds [of t] on_hour_le [of "trunc_hour t" h] by force

lemma ceil_hour_trunc: "ceil_hour s \<le> Moment t \<longleftrightarrow> ceil_hour s \<le> Moment (trunc_hour t)"
proof (cases s)
  case (Moment x)
  have "on_hour (if on_hour x then x else trunc_hour x + hours 1)" by (simp only: on_hour_plus on_hour_trunc split: if_split) simp
  then show ?thesis unfolding Moment ceil_hour_simps stamp_order by (rule trunc_hour_mono)
qed simp_all

lemma stored_end_trunc:
  assumes "rollup_ok db"
  shows "Moment t < stored_end e db \<longleftrightarrow> Moment (trunc_hour t) < stored_end e db"
proof -
  have "t < h \<longleftrightarrow> trunc_hour t < h" if "on_hour h" for h using trunc_hour_mono [OF that, of t] by linarith
  then show ?thesis
    using assms by (cases e; cases "lg_until db") (auto simp: stored_end_def HOUR_def dest: rollup_ok_hours(3))
qed

lemma stored_end_le: "stored_end e db \<le> e"
proof -
  have "HOUR e \<le> e" using trunc_hour_bounds by (cases e) (simp_all add: HOUR_def)
  then show ?thesis unfolding stored_end_def by (meson min.cobounded2 order_trans)
qed

lemma ceil_hour_ge: "s \<le> ceil_hour s"
  using trunc_hour_bounds(2) by (cases s) (auto simp: less_imp_le)

text \<open>Each moment of the window that is not in a served hour falls in exactly one live range.\<close>

lemma hits_live_ranges:
  assumes "rollup_ok db"
  shows "hits (live_ranges s e db) t = (if in_range (s, e) t \<and> \<not> served s e db (trunc_hour t) then 1 else 0)"
proof -
  let ?c = "ceil_hour s" and ?d = "stored_end e db" and ?h = "trunc_hour t"
  have hs: "distinct (dirty_between s e db)" "list_all on_hour (dirty_between s e db)"
    using rollup_ok_hours(1) [OF assms] by (auto simp: dirty_between_def list_all_iff)
  have dirty: "?h \<in> set (dirty_between s e db) \<Longrightarrow> ?c \<le> Moment t \<and> Moment t < ?d"
    using ceil_hour_trunc [of s t] stored_end_trunc [OF assms, of t e] by (auto simp: dirty_between_def)
  have served: "served s e db ?h \<longleftrightarrow> ?c \<le> Moment t \<and> Moment t < ?d \<and> ?h \<notin> set (dirty_between s e db)"
    using ceil_hour_trunc [of s t] stored_end_trunc [OF assms, of t e] by (simp add: served_def)
  have sum: "hits (live_ranges s e db) t =
      (if s \<le> Moment t \<and> Moment t < ?c \<and> Moment t < e then 1 else 0)
      + ((if ?d \<le> Moment t \<and> ?c \<le> Moment t \<and> Moment t < e then 1 else 0)
      + (if ?h \<in> set (dirty_between s e db) then 1 else 0))"
    unfolding live_ranges_def hits_simps hits_hours [OF hs] by (auto simp: in_range_def)
  consider "Moment t < ?c" | "?c \<le> Moment t" "Moment t < ?d" | "?c \<le> Moment t" "?d \<le> Moment t" by fastforce
  then show ?thesis
    using dirty ceil_hour_ge [of s] stored_end_le [of e db]
    unfolding sum served by cases (auto simp: in_range_def)
qed

lemma hits_window [simp]: "hits [r] t = (if in_range r t then 1 else 0)"
  by simp

text \<open>A served hour lies whole in the window and is stored as the source tables give it.\<close>

lemma served_hour:
  assumes "rollup_ok db" "served s e db h" "on_hour h"
  shows "mset (filter (\<lambda>g. gr_hour g = h) (lg_hourly db)) = hour_groups h db"
    and "\<And>t. trunc_hour t = h \<Longrightarrow> in_range (s, e) t"
proof -
  obtain u where u: "lg_until db = Some u" "h < u"
    using assms(2) by (cases "lg_until db") (auto simp: served_def stored_end_def)
  have "h \<notin> snd ` set (lg_dirty db)" using assms(2) by (auto simp: served_def dirty_between_def)
  then show "mset (filter (\<lambda>g. gr_hour g = h) (lg_hourly db)) = hour_groups h db"
    using assms(1,3) u by (simp add: rollup_ok_def sums_ok_def)
  fix t assume t: "trunc_hour t = h"
  have "ceil_hour s \<le> Moment t" "Moment t < stored_end e db"
    using assms(2) t ceil_hour_trunc [of s t] stored_end_trunc [OF assms(1), of t e] by (simp_all add: served_def)
  then show "in_range (s, e) t"
    using ceil_hour_ge [of s] stored_end_le [of e db] unfolding in_range_def fst_conv snd_conv
    by (meson order_trans less_le_trans)
qed

lemma hour_groups_eq: "on_hour h \<Longrightarrow> hour_groups h db = mset (group_rows_by (hour_entries h [hour_range h] db))"
proof -
  assume h: "on_hour h"
  have "e \<in> set (ledger_entries [hour_range h] db) \<Longrightarrow> fst (entry_key e) = h" for e
    using h by (auto simp: ledger_entries_def entry_key_def in_hour_range)
  then have "hour_entries h [hour_range h] db = ledger_entries [hour_range h] db"
    unfolding hour_entries_def by (intro filter_True ballI)
  then show ?thesis by (simp add: aggregate_def)
qed

lemma group_rows_by_Nil [simp]: "group_rows_by [] = []"
  by (simp add: group_rows_by_def)

lemma read_is_exact:
  assumes "rollup_ok db"
  shows "mset (groups s e keep db) = mset (filter (\<lambda>g. keep (gr_dims g)) (aggregate [(s, e)] db))"
proof -
  let ?stored = "filter (\<lambda>g. served s e db (gr_hour g)) (lg_hourly db)"
  have "mset (?stored @ aggregate (live_ranges s e db) db) = mset (aggregate [(s, e)] db)"
  proof (rule mset_by_hour)
    fix h
    have live: "filter (\<lambda>g. gr_hour g = h) (aggregate (live_ranges s e db) db) =
        group_rows_by (hour_entries h (live_ranges s e db) db)" by (rule filter_hour_aggregate)
    have all: "filter (\<lambda>g. gr_hour g = h) (aggregate [(s, e)] db) = group_rows_by (hour_entries h [(s, e)] db)"
      by (rule filter_hour_aggregate)
    show "mset (filter (\<lambda>g. gr_hour g = h) (?stored @ aggregate (live_ranges s e db) db)) =
        mset (filter (\<lambda>g. gr_hour g = h) (aggregate [(s, e)] db))"
    proof (cases "on_hour h \<and> served s e db h")
      case True
      have "hour_entries h (live_ranges s e db) db = []"
        by (rule hour_entries_none) (use True hits_live_ranges [OF assms] in auto)
      moreover have "filter (\<lambda>g. gr_hour g = h) ?stored = filter (\<lambda>g. gr_hour g = h) (lg_hourly db)"
        using True by (auto intro: filter_cong)
      moreover have "mset (hour_entries h [hour_range h] db) = mset (hour_entries h [(s, e)] db)"
        by (rule hour_entries_mset) (use True served_hour(2) [OF assms, of s e h] in \<open>simp add: in_hour_range\<close>)
      ultimately show ?thesis
        using served_hour(1) [OF assms, of s e h] True hour_groups_eq [of h db]
          group_rows_by_mset [of "hour_entries h [hour_range h] db" "hour_entries h [(s, e)] db"]
        unfolding filter_append live all by (simp del: filter_filter)
    next
      case False
      then have "filter (\<lambda>g. gr_hour g = h) ?stored = []"
        using rollup_ok_hours(2) [OF assms] by (auto simp: filter_empty_conv list_all_iff)
      moreover have "mset (group_rows_by (hour_entries h (live_ranges s e db) db)) = mset (group_rows_by (hour_entries h [(s, e)] db))"
        by (intro group_rows_by_mset hour_entries_mset) (use False hits_live_ranges [OF assms] in auto)
      ultimately show ?thesis unfolding filter_append live all by (simp del: filter_filter)
    qed
  qed
  then have "mset (filter (\<lambda>g. keep (gr_dims g)) (?stored @ aggregate (live_ranges s e db) db))
      = mset (filter (\<lambda>g. keep (gr_dims g)) (aggregate [(s, e)] db))" by (simp only: mset_filter)
  moreover have "groups s e keep db = filter (\<lambda>g. keep (gr_dims g)) (?stored @ aggregate (live_ranges s e db) db)"
    by (auto simp: groups_def served_def intro!: filter_cong)
  ultimately show ?thesis by simp
qed

section \<open>Writers log what they change\<close>

text \<open>
  The contract of a writer: it leaves the stored sums and the watermark, appends whole hours to the
  log, and the groups of an hour it does not log stay as they were.
\<close>

definition logs :: "ledger \<Rightarrow> ledger \<Rightarrow> bool" where
  "logs db db' \<longleftrightarrow> lg_hourly db' = lg_hourly db \<and> lg_until db' = lg_until db \<and> lg_dirty_seq db \<le> lg_dirty_seq db'
     \<and> (\<exists>new. lg_dirty db' = lg_dirty db @ new
          \<and> (\<forall>(i, h) \<in> set new. lg_dirty_seq db \<le> i \<and> i < lg_dirty_seq db' \<and> on_hour h)
          \<and> (\<forall>h. on_hour h \<longrightarrow> h \<notin> snd ` set new \<longrightarrow> hour_groups h db' = hour_groups h db))"

lemma logs_refl: "logs db db"
  by (simp add: logs_def)

lemma logs_trans:
  assumes "logs a b" "logs b c"
  shows "logs a c"
proof -
  obtain m n where m: "lg_dirty b = lg_dirty a @ m" "\<forall>(i, h) \<in> set m. lg_dirty_seq a \<le> i \<and> i < lg_dirty_seq b \<and> on_hour h"
      "\<And>h. on_hour h \<Longrightarrow> h \<notin> snd ` set m \<Longrightarrow> hour_groups h b = hour_groups h a"
    and n: "lg_dirty c = lg_dirty b @ n" "\<forall>(i, h) \<in> set n. lg_dirty_seq b \<le> i \<and> i < lg_dirty_seq c \<and> on_hour h"
      "\<And>h. on_hour h \<Longrightarrow> h \<notin> snd ` set n \<Longrightarrow> hour_groups h c = hour_groups h b"
    using assms by (auto simp: logs_def)
  have seq: "lg_dirty_seq a \<le> lg_dirty_seq b" "lg_dirty_seq b \<le> lg_dirty_seq c" using assms by (auto simp: logs_def)
  have "\<forall>(i, h) \<in> set (m @ n). lg_dirty_seq a \<le> i \<and> i < lg_dirty_seq c \<and> on_hour h"
    using m(2) n(2) seq by fastforce
  moreover have "\<forall>h. on_hour h \<longrightarrow> h \<notin> snd ` set (m @ n) \<longrightarrow> hour_groups h c = hour_groups h a"
    using m(3) n(3) by (metis UnI1 UnI2 image_Un set_append)
  ultimately show ?thesis using assms m(1) n(1) unfolding logs_def by auto
qed

lemma sums_ok_logs:
  assumes "logs db db'" "sums_ok u db"
  shows "sums_ok u db'"
proof -
  obtain new where new: "lg_dirty db' = lg_dirty db @ new" "\<forall>(i, h) \<in> set new. lg_dirty_seq db \<le> i \<and> i < lg_dirty_seq db' \<and> on_hour h"
      "\<forall>h. on_hour h \<longrightarrow> h \<notin> snd ` set new \<longrightarrow> hour_groups h db' = hour_groups h db"
    and same: "lg_hourly db' = lg_hourly db" "lg_dirty_seq db \<le> lg_dirty_seq db'"
    using assms(1) by (auto simp: logs_def)
  have "list_all (\<lambda>(i, h). i < lg_dirty_seq db' \<and> on_hour h) (lg_dirty db')"
    using assms(2) new(1,2) same(2) by (fastforce simp: sums_ok_def list_all_iff)
  then show ?thesis using assms(2) new(3) unfolding sums_ok_def same(1) by (simp add: new(1) image_Un)
qed

lemma rollup_ok_logs:
  assumes "logs db db'" "rollup_ok db"
  shows "rollup_ok db'"
proof (cases "lg_until db")
  case None
  then have "lg_until db' = None" "lg_hourly db' = []"
    and "list_all (\<lambda>(i, h). i < lg_dirty_seq db \<and> on_hour h) (lg_dirty db)"
    using assms by (auto simp: rollup_ok_def logs_def)
  moreover have "list_all (\<lambda>(i, h). i < lg_dirty_seq db' \<and> on_hour h) (lg_dirty db')"
    using calculation(3) assms(1) by (fastforce simp: logs_def list_all_iff)
  ultimately show ?thesis by (simp add: rollup_ok_def)
next
  case (Some u)
  then have "lg_until db' = Some u" using assms(1) by (simp add: logs_def)
  then show ?thesis using assms Some sums_ok_logs by (simp add: rollup_ok_def)
qed

text \<open>Triggers only append to the log; what they log is what they were given.\<close>

definition log_only :: "ledger \<Rightarrow> int set \<Rightarrow> ledger \<Rightarrow> bool" where
  "log_only db hs db' \<longleftrightarrow> lg_answers db' = lg_answers db \<and> lg_fetches db' = lg_fetches db \<and> lg_calls db' = lg_calls db
     \<and> lg_hourly db' = lg_hourly db \<and> lg_until db' = lg_until db \<and> lg_dirty_seq db \<le> lg_dirty_seq db'
     \<and> (\<exists>new. lg_dirty db' = lg_dirty db @ new \<and> snd ` set new = trunc_hour ` hs
          \<and> (\<forall>(i, h) \<in> set new. lg_dirty_seq db \<le> i \<and> i < lg_dirty_seq db'))"

lemma log_only_refl: "log_only db {} db"
  by (simp add: log_only_def)

lemma log_only_trans:
  assumes "log_only a hs b" "log_only b hs' c"
  shows "log_only a (hs \<union> hs') c"
proof -
  obtain m n where "lg_dirty b = lg_dirty a @ m" "snd ` set m = trunc_hour ` hs" "\<forall>(i, h) \<in> set m. lg_dirty_seq a \<le> i \<and> i < lg_dirty_seq b"
      "lg_dirty c = lg_dirty b @ n" "snd ` set n = trunc_hour ` hs'" "\<forall>(i, h) \<in> set n. lg_dirty_seq b \<le> i \<and> i < lg_dirty_seq c"
    using assms by (auto simp: log_only_def)
  moreover have seq: "lg_dirty_seq a \<le> lg_dirty_seq b" "lg_dirty_seq b \<le> lg_dirty_seq c"
    using assms by (simp_all add: log_only_def)
  ultimately have "lg_dirty c = lg_dirty a @ m @ n" "snd ` set (m @ n) = trunc_hour ` (hs \<union> hs')"
      "\<forall>(i, h) \<in> set (m @ n). lg_dirty_seq a \<le> i \<and> i < lg_dirty_seq c"
    by (simp, simp add: image_Un, fastforce)
  then show ?thesis
    using assms seq unfolding log_only_def by (intro conjI exI [of _ "m @ n"]) simp_all
qed

lemma log_only_mark: "log_only db (set moments) (mark_dirty moments db)"
proof -
  let ?hs = "remdups (map trunc_hour moments)"
  let ?new = "map (\<lambda>(i, h). (lg_dirty_seq db + int i, h)) (enumerate 0 ?hs)"
  have "snd ` set ?new = snd ` set (enumerate 0 ?hs)" by (simp add: image_image case_prod_beta)
  also have "\<dots> = trunc_hour ` set moments" by (simp only: map_snd_enumerate set_remdups set_map flip: set_map)
  finally have "snd ` set ?new = trunc_hour ` set moments" .
  moreover have "\<forall>(i, h) \<in> set ?new. lg_dirty_seq db \<le> i \<and> i < lg_dirty_seq db + int (length ?hs)"
    by (auto simp: in_set_enumerate_eq)
  ultimately show ?thesis by (auto simp: log_only_def mark_dirty_def Let_def)
qed

lemma log_only_answers:
  "log_only db (set (map aq_created_at new)) (ledger_dirty_answers INSERT old new db)"
  "log_only db (set (map aq_created_at old) \<union> set (siblings old db)) (ledger_dirty_answers DELETE old new db)"
  "log_only db (set (map aq_created_at new) \<union> (set (map aq_created_at old) \<union> (set (siblings old db) \<union> set (siblings new db))))
     (ledger_dirty_answers UPDATE old new db)"
proof -
  have sib: "siblings rows (mark_dirty ms d) = siblings rows d" for rows ms d
    by (simp add: siblings_def mark_dirty_def Let_def)
  show "log_only db (set (map aq_created_at new)) (ledger_dirty_answers INSERT old new db)"
    using log_only_mark [of db "map aq_created_at new"] by (simp add: ledger_dirty_answers_def)
  show "log_only db (set (map aq_created_at old) \<union> set (siblings old db)) (ledger_dirty_answers DELETE old new db)"
    using log_only_trans [OF log_only_mark log_only_mark, of db "map aq_created_at old" "siblings old db"]
    by (simp add: ledger_dirty_answers_def sib)
  show "log_only db (set (map aq_created_at new) \<union> (set (map aq_created_at old) \<union> (set (siblings old db) \<union> set (siblings new db))))
     (ledger_dirty_answers UPDATE old new db)"
    using log_only_trans [OF log_only_mark log_only_trans [OF log_only_mark log_only_trans [OF log_only_mark log_only_mark]],
        of db "map aq_created_at new" "map aq_created_at old" "siblings old db" "siblings new db"]
    by (simp add: ledger_dirty_answers_def Let_def sib)
qed

lemma log_only_fetches:
  "log_only db (set (map pf_created_at new)) (ledger_dirty_fetches INSERT old new db)"
  "log_only db (set (map pf_created_at old)) (ledger_dirty_fetches DELETE old new db)"
  "log_only db (set (map pf_created_at new) \<union> set (map pf_created_at old)) (ledger_dirty_fetches UPDATE old new db)"
  using log_only_mark [of db "map pf_created_at new"] log_only_mark [of db "map pf_created_at old"]
    log_only_trans [OF log_only_mark log_only_mark, of db "map pf_created_at new" "map pf_created_at old"]
  by (simp_all add: ledger_dirty_fetches_def)

text \<open>An hour whose rows are the same has the same groups.\<close>

definition hour_rows :: "int \<Rightarrow> ledger \<Rightarrow> ledger_entry list" where
  "hour_rows h db = filter (\<lambda>e. trunc_hour (le_created_at e) = h) (all_entries db)"

lemma mset_hour_entries: "on_hour h \<Longrightarrow> mset (hour_entries h [hour_range h] db) = mset (hour_rows h db)"
  by (rule multiset_eqI) (simp add: count_hour_entries, simp add: hour_rows_def in_hour_range)

lemma hour_groups_rows: "on_hour h \<Longrightarrow> hour_groups h db = mset (group_rows_by (hour_rows h db))"
  unfolding hour_groups_eq by (intro group_rows_by_mset mset_hour_entries)

lemma hour_groups_cong:
  assumes "on_hour h" "hour_rows h db = hour_rows h db'"
  shows "hour_groups h db = hour_groups h db'"
  by (simp only: hour_groups_rows [OF assms(1)] assms(2))

lemma logs_by_trigger:
  assumes "log_only mid hs db'"
    "lg_hourly mid = lg_hourly db" "lg_until mid = lg_until db" "lg_dirty mid = lg_dirty db" "lg_dirty_seq mid = lg_dirty_seq db"
    "\<And>h. h \<notin> trunc_hour ` hs \<Longrightarrow> hour_rows h mid = hour_rows h db"
  shows "logs db db'"
proof -
  obtain new where new: "lg_dirty db' = lg_dirty mid @ new" "snd ` set new = trunc_hour ` hs"
      "\<forall>(i, h) \<in> set new. lg_dirty_seq mid \<le> i \<and> i < lg_dirty_seq db'"
    using assms(1) by (auto simp: log_only_def)
  have "on_hour h" if "(i, h) \<in> set new" for i h
  proof -
    have "h \<in> trunc_hour ` hs" using that new(2) by (metis image_eqI snd_conv)
    then show ?thesis by auto
  qed
  then have "\<forall>(i, h) \<in> set new. lg_dirty_seq db \<le> i \<and> i < lg_dirty_seq db' \<and> on_hour h" using new(3) assms(5) by fastforce
  moreover have "hour_rows h db' = hour_rows h mid" for h
    using assms(1) by (simp add: log_only_def hour_rows_def all_entries_def)
  then have "\<forall>h. on_hour h \<longrightarrow> h \<notin> snd ` set new \<longrightarrow> hour_groups h db' = hour_groups h db"
    using assms(6) new(2) by (auto intro: hour_groups_cong)
  ultimately show ?thesis using assms(1-5) new(1) unfolding logs_def log_only_def by auto
qed

lemma filter_map_cong:
  assumes "\<And>x. x \<in> set xs \<Longrightarrow> Q (f x) \<or> Q (g x) \<Longrightarrow> f x = g x"
  shows "filter Q (map f xs) = filter Q (map g xs)"
  using assms by (induction xs) (auto, metis+)

lemma filter_map_filter:
  assumes "\<And>x. x \<in> set xs \<Longrightarrow> P x \<Longrightarrow> \<not> Q (f x)" "\<And>x. x \<in> set xs \<Longrightarrow> \<not> P x \<Longrightarrow> Q (f x) \<or> Q (g x) \<Longrightarrow> f x = g x"
  shows "filter Q (map f xs) = filter Q (map g (filter (\<lambda>x. \<not> P x) xs))"
  using assms by (induction xs) (auto, metis+)

text \<open>The rows of an hour: its answers, then its fetches.\<close>

lemma hour_rows_eq:
  "hour_rows h db =
     filter (\<lambda>e. trunc_hour (le_created_at e) = h) (map (answer_entry (lg_answers db) (lg_calls db)) (lg_answers db))
     @ filter (\<lambda>e. trunc_hour (le_created_at e) = h) (map fetch_entry (filter (\<lambda>f. pf_method f \<noteq> ''verification'') (lg_fetches db)))"
  by (simp add: hour_rows_def all_entries_def)

text \<open>What an answer shows depends on the first answer of its call and on the call.\<close>

lemma answer_entry_cong:
  assumes "\<And>c. aq_model_call_id q = Some c \<Longrightarrow> first_id c as = first_id c bs"
    "\<And>c. aq_model_call_id q = Some c \<Longrightarrow> find (\<lambda>m. mc_id m = c) cs = find (\<lambda>m. mc_id m = c) ds"
  shows "answer_entry as cs q = answer_entry bs ds q"
  using assms by (simp add: answer_entry_def usage_of_def Let_def split: option.split)

lemma first_id_cong:
  assumes "filter (\<lambda>q. aq_model_call_id q = Some c) as = filter (\<lambda>q. aq_model_call_id q = Some c) bs"
  shows "first_id c as = first_id c bs"
  by (simp only: first_id_def assms)

lemma Min_Un_above:
  fixes A B :: "int set"
  assumes "finite A" "finite B" "A \<noteq> {}" "\<forall>i \<in> B. \<forall>j \<in> A. j < i"
  shows "Min (A \<union> B) = Min A"
proof (rule Min_eqI)
  fix y assume "y \<in> A \<union> B"
  moreover have "Min A \<in> A" using assms by (intro Min_in)
  ultimately show "Min A \<le> y" using assms by (meson Min_le UnE less_imp_le)
qed (use assms Min_in [of A] in auto)

lemma sibling_in:
  assumes "q \<in> set (lg_answers db)" "r \<in> set rows" "aq_model_call_id q = Some c" "aq_model_call_id r = Some c"
  shows "aq_created_at q \<in> set (siblings rows db)"
  using assms by (force simp: siblings_def image_iff)

definition fresh_answers :: "answer list \<Rightarrow> ledger \<Rightarrow> bool" where
  "fresh_answers new db \<longleftrightarrow> list_all (\<lambda>q. list_all (\<lambda>old. aq_id old < aq_id q) (lg_answers db)) new"

lemma logs_insert_answers:
  assumes "fresh_answers new db"
  shows "logs db (insert_answers new db)"
  unfolding insert_answers_def
proof (rule logs_by_trigger [OF log_only_answers(1)])
  fix h assume h: "h \<notin> trunc_hour ` set (map aq_created_at new)"
  have first: "first_id c (lg_answers db @ new) = first_id c (lg_answers db)"
    if q: "q \<in> set (lg_answers db)" "aq_model_call_id q = Some c" for q c
  proof -
    let ?old = "aq_id ` set (filter (\<lambda>q. aq_model_call_id q = Some c) (lg_answers db))"
      and ?new = "aq_id ` set (filter (\<lambda>q. aq_model_call_id q = Some c) new)"
    have "?old \<noteq> {}" "\<forall>i \<in> ?new. \<forall>j \<in> ?old. j < i"
      using q assms by (auto simp: fresh_answers_def list_all_iff)
    then have "Min (?old \<union> ?new) = Min ?old" by (intro Min_Un_above) simp_all
    then show ?thesis by (simp add: first_id_def image_Un)
  qed
  have "filter (\<lambda>e. trunc_hour (le_created_at e) = h) (map (answer_entry (lg_answers db @ new) (lg_calls db)) new) = []"
    using h by (auto simp: filter_empty_conv)
  moreover have "map (answer_entry (lg_answers db @ new) (lg_calls db)) (lg_answers db)
      = map (answer_entry (lg_answers db) (lg_calls db)) (lg_answers db)"
    using first by (intro map_cong answer_entry_cong) auto
  ultimately show "hour_rows h (db\<lparr>lg_answers := lg_answers db @ new\<rparr>) = hour_rows h db"
    by (simp add: hour_rows_eq del: map_eq_conv)
qed simp_all

lemma logs_update_answers:
  assumes "\<And>q. aq_id (f q) = aq_id q"
  shows "logs db (update_answers P f db)"
  unfolding update_answers_def Let_def
proof (rule logs_by_trigger [OF log_only_answers(3)])
  let ?as = "lg_answers db" and ?old = "filter P (lg_answers db)"
  let ?bs = "update_where P f ?as"
  let ?mid = "db\<lparr>lg_answers := ?bs\<rparr>"
  fix h
  assume h: "h \<notin> trunc_hour ` (set (map aq_created_at (map f ?old)) \<union> (set (map aq_created_at ?old)
      \<union> (set (siblings ?old ?mid) \<union> set (siblings (map f ?old) ?mid))))"
  have moved: "trunc_hour (aq_created_at q) \<noteq> h \<and> trunc_hour (aq_created_at (f q)) \<noteq> h" if "q \<in> set ?as" "P q" for q
    using h that by auto
  have alone: "aq_model_call_id r \<noteq> Some c \<and> aq_model_call_id (f r) \<noteq> Some c"
    if "q \<in> set ?as" "\<not> P q" "trunc_hour (aq_created_at q) = h" "aq_model_call_id q = Some c" "r \<in> set ?as" "P r" for q c r
  proof -
    have "q \<in> set ?bs" using that by (auto simp: update_where_def)
    then have "aq_model_call_id r = Some c \<Longrightarrow> aq_created_at q \<in> set (siblings ?old ?mid)"
        "aq_model_call_id (f r) = Some c \<Longrightarrow> aq_created_at q \<in> set (siblings (map f ?old) ?mid)"
      using that sibling_in [of q ?mid r ?old c] sibling_in [of q ?mid "f r" "map f ?old" c] by auto
    then show ?thesis using h that(3) by blast
  qed
  have first: "first_id c ?bs = first_id c ?as"
    if "q \<in> set ?as" "\<not> P q" "trunc_hour (aq_created_at q) = h" "aq_model_call_id q = Some c" for q c
  proof (rule first_id_cong)
    have "filter (\<lambda>q. aq_model_call_id q = Some c) (map (\<lambda>r. if P r then f r else r) ?as)
        = filter (\<lambda>q. aq_model_call_id q = Some c) (map id ?as)"
      by (rule filter_map_cong) (use alone [OF that] in \<open>auto split: if_splits\<close>)
    then show "filter (\<lambda>q. aq_model_call_id q = Some c) ?bs = filter (\<lambda>q. aq_model_call_id q = Some c) ?as"
      by (simp add: update_where_def)
  qed
  have "filter (\<lambda>e. trunc_hour (le_created_at e) = h) (map (answer_entry ?bs (lg_calls db) \<circ> (\<lambda>r. if P r then f r else r)) ?as)
      = filter (\<lambda>e. trunc_hour (le_created_at e) = h) (map (answer_entry ?as (lg_calls db)) ?as)"
    by (rule filter_map_cong) (use moved first in \<open>auto split: if_splits intro!: answer_entry_cong\<close>)
  then show "hour_rows h ?mid = hour_rows h db" by (simp add: hour_rows_eq update_where_def)
qed simp_all

lemma logs_delete_answers: "logs db (delete_answers P db)"
  unfolding delete_answers_def
proof (rule logs_by_trigger [OF log_only_answers(2)])
  let ?as = "lg_answers db" and ?old = "filter P (lg_answers db)" and ?bs = "filter (\<lambda>q. \<not> P q) (lg_answers db)"
  let ?mid = "db\<lparr>lg_answers := ?bs\<rparr>"
  fix h assume h: "h \<notin> trunc_hour ` (set (map aq_created_at ?old) \<union> set (siblings ?old ?mid))"
  have alone: "aq_model_call_id r \<noteq> Some c"
    if "q \<in> set ?bs" "trunc_hour (aq_created_at q) = h" "aq_model_call_id q = Some c" "r \<in> set ?as" "P r" for q c r
    using h that sibling_in [of q ?mid r ?old c] by auto
  have first: "first_id c ?bs = first_id c ?as"
    if "q \<in> set ?bs" "trunc_hour (aq_created_at q) = h" "aq_model_call_id q = Some c" for q c
    by (rule first_id_cong) (use alone [OF that] in \<open>auto intro: filter_cong\<close>)
  have "filter (\<lambda>e. trunc_hour (le_created_at e) = h) (map (answer_entry ?as (lg_calls db)) ?as)
      = filter (\<lambda>e. trunc_hour (le_created_at e) = h) (map (answer_entry ?bs (lg_calls db)) ?bs)"
    by (rule filter_map_filter) (use h first in \<open>auto intro!: answer_entry_cong\<close>)
  then show "hour_rows h ?mid = hour_rows h db" by (simp add: hour_rows_eq)
qed simp_all

lemma hour_rows_calls:
  assumes "\<And>q c. q \<in> set (lg_answers db) \<Longrightarrow> trunc_hour (aq_created_at q) = h \<Longrightarrow> aq_model_call_id q = Some c
      \<Longrightarrow> find (\<lambda>m. mc_id m = c) calls = find (\<lambda>m. mc_id m = c) (lg_calls db)"
  shows "hour_rows h (db\<lparr>lg_calls := calls\<rparr>) = hour_rows h db"
proof -
  have "filter (\<lambda>e. trunc_hour (le_created_at e) = h) (map (answer_entry (lg_answers db) calls) (lg_answers db))
      = filter (\<lambda>e. trunc_hour (le_created_at e) = h) (map (answer_entry (lg_answers db) (lg_calls db)) (lg_answers db))"
    by (rule filter_map_cong) (use assms in \<open>auto intro!: answer_entry_cong\<close>)
  then show ?thesis by (simp add: hour_rows_eq)
qed

definition fresh_calls :: "model_call list \<Rightarrow> ledger \<Rightarrow> bool" where
  "fresh_calls new db \<longleftrightarrow> list_all (\<lambda>m. list_all (\<lambda>q. aq_model_call_id q \<noteq> Some (mc_id m)) (lg_answers db)) new"

lemma find_append_none: "\<forall>y \<in> set ys. \<not> P y \<Longrightarrow> find P (xs @ ys) = find P xs"
  by (induction xs) (auto simp: find_None_iff)

lemma logs_insert_calls:
  assumes "fresh_calls new db"
  shows "logs db (insert_calls new db)"
proof -
  have "hour_rows h (insert_calls new db) = hour_rows h db" for h
    unfolding insert_calls_def
    using assms by (intro hour_rows_calls find_append_none) (auto simp: fresh_calls_def list_all_iff)
  then have "hour_groups h (insert_calls new db) = hour_groups h db" if "on_hour h" for h
    using that by (intro hour_groups_cong)
  then show ?thesis by (simp add: logs_def insert_calls_def)
qed

lemma find_update_other:
  assumes "\<And>m. mc_id (f m) = mc_id m" "\<forall>m \<in> set ms. P m \<longrightarrow> mc_id m \<noteq> c"
  shows "find (\<lambda>m. mc_id m = c) (update_where P f ms) = find (\<lambda>m. mc_id m = c) ms"
  using assms by (induction ms) (auto simp: update_where_def)

lemma find_filter_other:
  assumes "\<forall>m \<in> set ms. P m \<longrightarrow> mc_id m \<noteq> c"
  shows "find (\<lambda>m. mc_id m = c) (filter (\<lambda>m. \<not> P m) ms) = find (\<lambda>m. mc_id m = c) ms"
  using assms by (induction ms) auto

lemma call_not_logged:
  assumes "h \<notin> trunc_hour ` set (map aq_created_at (filter (\<lambda>q. aq_model_call_id q \<in> (Some \<circ> mc_id) ` set (filter P ms)) as))"
    "q \<in> set as" "trunc_hour (aq_created_at q) = h" "aq_model_call_id q = Some c"
  shows "\<forall>m \<in> set ms. P m \<longrightarrow> mc_id m \<noteq> c"
  using assms by force

lemma logs_update_calls:
  assumes "\<And>m. mc_id (f m) = mc_id m"
  shows "logs db (update_calls P f db)"
  unfolding update_calls_def ledger_dirty_calls_def
  by (rule logs_by_trigger [OF log_only_mark])
    (use assms in \<open>auto intro!: hour_rows_calls find_update_other dest: call_not_logged\<close>)

lemma logs_delete_calls: "logs db (delete_calls P db)"
  unfolding delete_calls_def ledger_dirty_calls_def
  by (rule logs_by_trigger [OF log_only_mark]) (auto intro!: hour_rows_calls find_filter_other dest: call_not_logged)

lemma hour_rows_fetches:
  assumes "filter (\<lambda>e. trunc_hour (le_created_at e) = h) (map fetch_entry (filter (\<lambda>f. pf_method f \<noteq> ''verification'') fetches))
    = filter (\<lambda>e. trunc_hour (le_created_at e) = h) (map fetch_entry (filter (\<lambda>f. pf_method f \<noteq> ''verification'') (lg_fetches db)))"
  shows "hour_rows h (db\<lparr>lg_fetches := fetches\<rparr>) = hour_rows h db"
  using assms by (simp add: hour_rows_eq)

lemma hour_fetches_eq:
  "filter (\<lambda>e. trunc_hour (le_created_at e) = h) (map fetch_entry (filter (\<lambda>f. pf_method f \<noteq> ''verification'') fetches))
   = map fetch_entry (filter (\<lambda>f. pf_method f \<noteq> ''verification'') (filter (\<lambda>f. trunc_hour (pf_created_at f) = h) fetches))"
  by (simp add: filter_map comp_def conj_commute)

lemma logs_insert_fetches: "logs db (insert_fetches new db)"
  unfolding insert_fetches_def
  by (rule logs_by_trigger [OF log_only_fetches(1)])
    (auto intro!: hour_rows_fetches simp: filter_empty_conv image_iff)

lemma logs_delete_fetches: "logs db (delete_fetches P db)"
  unfolding delete_fetches_def
proof (rule logs_by_trigger [OF log_only_fetches(2)])
  fix h assume "h \<notin> trunc_hour ` set (map pf_created_at (filter P (lg_fetches db)))"
  then have "filter (\<lambda>f. trunc_hour (pf_created_at f) = h) (filter (\<lambda>f. \<not> P f) (lg_fetches db))
      = filter (\<lambda>f. trunc_hour (pf_created_at f) = h) (lg_fetches db)"
    by (auto intro!: filter_cong)
  then show "hour_rows h (db\<lparr>lg_fetches := filter (\<lambda>f. \<not> P f) (lg_fetches db)\<rparr>) = hour_rows h db"
    by (intro hour_rows_fetches) (simp only: hour_fetches_eq)
qed simp_all

lemma logs_update_fetches: "logs db (update_fetches P f db)"
  unfolding update_fetches_def Let_def
proof (rule logs_by_trigger [OF log_only_fetches(3)])
  let ?u = "\<lambda>r. if P r then f r else r"
  fix h assume "h \<notin> trunc_hour ` (set (map pf_created_at (map f (filter P (lg_fetches db)))) \<union> set (map pf_created_at (filter P (lg_fetches db))))"
  then have "filter (\<lambda>f. trunc_hour (pf_created_at f) = h) (map ?u (lg_fetches db))
      = filter (\<lambda>f. trunc_hour (pf_created_at f) = h) (map id (lg_fetches db))"
    by (intro filter_map_cong) (auto split: if_splits)
  then show "hour_rows h (db\<lparr>lg_fetches := update_where P f (lg_fetches db)\<rparr>) = hour_rows h db"
    by (intro hour_rows_fetches) (simp only: hour_fetches_eq update_where_def list.map_id)
qed simp_all

section \<open>The interface of a writer\<close>

locale logged_writer =
  fixes allowed :: "'w \<Rightarrow> ledger \<Rightarrow> bool"
    and apply_write :: "'w \<Rightarrow> ledger \<Rightarrow> ledger"
  assumes write_logs: "allowed w db \<Longrightarrow> logs db (apply_write w db)"
begin

lemma keeps_ok: "rollup_ok db \<Longrightarrow> allowed w db \<Longrightarrow> rollup_ok (apply_write w db)"
  by (rule rollup_ok_logs [OF write_logs])

lemma read_after:
  assumes "rollup_ok db" "allowed w db"
  shows "mset (groups s e keep (apply_write w db))
    = mset (filter (\<lambda>g. keep (gr_dims g)) (aggregate [(s, e)] (apply_write w db)))"
  using keeps_ok [OF assms] by (rule read_is_exact)

end

interpretation new_answers: logged_writer fresh_answers insert_answers
  by unfold_locales (rule logs_insert_answers)

interpretation changed_answers: logged_writer "\<lambda>(P, f) _. \<forall>q. aq_id (f q) = aq_id q" "\<lambda>(P, f). update_answers P f"
  by unfold_locales (auto intro: logs_update_answers)

interpretation removed_answers: logged_writer "\<lambda>_ _. True" delete_answers
  by unfold_locales (rule logs_delete_answers)

interpretation new_calls: logged_writer fresh_calls insert_calls
  by unfold_locales (rule logs_insert_calls)

interpretation changed_calls: logged_writer "\<lambda>(P, f) _. \<forall>m. mc_id (f m) = mc_id m" "\<lambda>(P, f). update_calls P f"
  by unfold_locales (auto intro: logs_update_calls)

interpretation removed_calls: logged_writer "\<lambda>_ _. True" delete_calls
  by unfold_locales (rule logs_delete_calls)

interpretation new_fetches: logged_writer "\<lambda>_ _. True" insert_fetches
  by unfold_locales (rule logs_insert_fetches)

interpretation changed_fetches: logged_writer "\<lambda>_ _. True" "\<lambda>(P, f). update_fetches P f"
  by unfold_locales (auto intro: logs_update_fetches)

interpretation removed_fetches: logged_writer "\<lambda>_ _. True" delete_fetches
  by unfold_locales (rule logs_delete_fetches)

text \<open>What other connections commit: statements on the three tables.\<close>

inductive ledger_write :: "ledger \<Rightarrow> ledger \<Rightarrow> bool" where
  "fresh_answers new db \<Longrightarrow> ledger_write db (insert_answers new db)"
| "(\<And>q. aq_id (f q) = aq_id q) \<Longrightarrow> ledger_write db (update_answers P f db)"
| "ledger_write db (delete_answers P db)"
| "fresh_calls calls db \<Longrightarrow> ledger_write db (insert_calls calls db)"
| "(\<And>m. mc_id (g m) = mc_id m) \<Longrightarrow> ledger_write db (update_calls C g db)"
| "ledger_write db (delete_calls C db)"
| "ledger_write db (insert_fetches fetches db)"
| "ledger_write db (update_fetches F k db)"
| "ledger_write db (delete_fetches F db)"

lemmas writers_log =
  new_answers.write_logs removed_answers.write_logs new_calls.write_logs removed_calls.write_logs
  new_fetches.write_logs removed_fetches.write_logs
  changed_answers.write_logs [where w = "(P, f)" for P f, unfolded prod.case]
  changed_calls.write_logs [where w = "(P, f)" for P f, unfolded prod.case]
  changed_fetches.write_logs [where w = "(P, f)" for P f, unfolded prod.case]

lemma ledger_write_logs: "ledger_write db db' \<Longrightarrow> logs db db'"
  by (induction rule: ledger_write.induct) (rule writers_log; simp)+

lemma ledger_writes_logs: "ledger_write\<^sup>*\<^sup>* db db' \<Longrightarrow> logs db db'"
  by (induction rule: rtranclp_induct) (auto intro: logs_refl logs_trans ledger_write_logs)

section \<open>Refreshing keeps the sums\<close>

lemma on_hour_add: "on_hour a \<Longrightarrow> on_hour b \<Longrightarrow> on_hour (a + b)"
  by (simp add: on_hour_def trunc_hour_def mod_eq_0_iff_dvd)

lemma no_rows_before_first:
  assumes "on_hour h" "\<And>f. first_hour db = Some f \<Longrightarrow> h < f"
  shows "hour_groups h db = {#}"
proof -
  have "trunc_hour t \<noteq> h" if "t \<in> aq_created_at ` set (lg_answers db) \<union> pf_created_at ` set (lg_fetches db)" for t
  proof -
    let ?ms = "set (map aq_created_at (lg_answers db) @ map pf_created_at (lg_fetches db))"
    have t: "t \<in> ?ms" using that by simp
    then have "first_hour db = Some (Min (trunc_hour ` ?ms))" by (auto simp: first_hour_def Let_def)
    moreover have "Min (trunc_hour ` ?ms) \<le> trunc_hour t" using t by (intro Min_le) blast+
    ultimately show ?thesis using assms(2) by fastforce
  qed
  then have "hour_rows h db = []" by (fastforce simp: hour_rows_eq filter_empty_conv)
  then show ?thesis using hour_groups_rows [OF assms(1)] by simp
qed

lemma sums_ok_start:
  assumes "rollup_ok db"
  shows "sums_ok (coalesce (lg_until db) (coalesce (first_hour db) (trunc_hour now))) db"
proof (cases "lg_until db")
  case None
  have f: "on_hour f" if "first_hour db = Some f" for f
  proof -
    let ?ms = "set (map aq_created_at (lg_answers db) @ map pf_created_at (lg_fetches db))"
    have "f = Min (trunc_hour ` ?ms)" "?ms \<noteq> {}" using that by (auto simp: first_hour_def Let_def split: if_splits)
    then have "f \<in> trunc_hour ` ?ms" by (metis Min_in finite_imageI List.finite_set image_is_empty)
    then show ?thesis by auto
  qed
  then have "on_hour (coalesce (first_hour db) (trunc_hour now))" by (cases "first_hour db") simp_all
  moreover have "hour_groups h db = {#}" if "h < coalesce (first_hour db) (trunc_hour now)" "on_hour h" for h
    using that by (intro no_rows_before_first) auto
  ultimately show ?thesis using assms None by (simp add: rollup_ok_def sums_ok_def)
qed (use assms in \<open>simp add: rollup_ok_def\<close>)

lemma aggregate_sources [simp]:
  "aggregate ranges (db\<lparr>lg_hourly := x\<rparr>) = aggregate ranges db" "aggregate ranges (db\<lparr>lg_dirty := y\<rparr>) = aggregate ranges db"
  "aggregate ranges (db\<lparr>lg_until := z\<rparr>) = aggregate ranges db"
  by (simp_all add: aggregate_def ledger_entries_def)

lemma aggregate_on_hour: "g \<in> set (aggregate ranges db) \<Longrightarrow> on_hour (gr_hour g)"
  by (auto simp: aggregate_def group_rows_by_def entry_key_def)

text \<open>What a set of ranges adds for one hour: the hour's groups if it covers the hour once, nothing if it misses it.\<close>

lemma filter_aggregate_hit:
  assumes "on_hour h" "\<And>t. trunc_hour t = h \<Longrightarrow> hits ranges t = 1"
  shows "mset (filter (\<lambda>g. gr_hour g = h) (aggregate ranges db)) = hour_groups h db"
  unfolding filter_hour_aggregate hour_groups_eq [OF assms(1)]
  by (intro group_rows_by_mset hour_entries_mset) (simp add: assms in_hour_range)

lemma filter_aggregate_miss:
  assumes "\<And>t. trunc_hour t = h \<Longrightarrow> hits ranges t = 0"
  shows "filter (\<lambda>g. gr_hour g = h) (aggregate ranges db) = []"
  by (simp add: filter_hour_aggregate hour_entries_none [OF assms])

lemma store_ranges_hourly:
  "lg_hourly (store_ranges lo hi db) = lg_hourly db @ aggregate (zip (map Moment lo) (map Moment hi)) db"
  by (simp add: store_ranges_def)

lemma zip_hours: "zip (map Moment hs) (map Moment (map (\<lambda>h. h + hours 1) hs)) = map hour_range hs"
  by (induction hs) (simp_all add: hour_range_def)

lemma aggregate_Nil [simp]: "aggregate [] db = []"
  by (simp add: aggregate_def ledger_entries_def)

lemma recompute_hourly:
  fixes logged u
  defines "hs \<equiv> sort (remdups (filter (\<lambda>h. h < u) (map snd logged)))"
  shows "lg_hourly (recompute_dirty u logged db) = filter (\<lambda>g. gr_hour g \<notin> set hs) (lg_hourly db) @ aggregate (map hour_range hs) db"
proof (cases "hs = []")
  case False
  have "lg_hourly (recompute_dirty u logged db) =
      lg_hourly (store_ranges hs (map (\<lambda>h. h + hours 1) hs) (db\<lparr>lg_hourly := filter (\<lambda>g. gr_hour g \<notin> set hs) (lg_hourly db)\<rparr>))"
    using False unfolding recompute_dirty_def Let_def hs_def [symmetric] by simp
  then show ?thesis unfolding store_ranges_hourly zip_hours by simp
qed (unfold recompute_dirty_def Let_def hs_def [symmetric], simp)

lemma sums_ok_recompute:
  assumes "sums_ok u db" "logs db db'"
  shows "sums_ok u (recompute_dirty u (lg_dirty db) db')"
proof -
  let ?hs = "sort (remdups (filter (\<lambda>h. h < u) (map snd (lg_dirty db))))"
  let ?db = "recompute_dirty u (lg_dirty db) db'"
  obtain new where new: "lg_dirty db' = lg_dirty db @ new" "\<forall>(i, h) \<in> set new. lg_dirty_seq db \<le> i \<and> i < lg_dirty_seq db' \<and> on_hour h"
    using assms(2) by (auto simp: logs_def)
  have ok: "sums_ok u db'" by (rule sums_ok_logs [OF assms(2,1)])
  have ids: "\<forall>(i, h) \<in> set (lg_dirty db). i < lg_dirty_seq db \<and> on_hour h" using assms(1) by (simp add: sums_ok_def list_all_iff)
  have "filter (\<lambda>d. fst d \<notin> fst ` set (lg_dirty db)) (lg_dirty db) = []" by (simp add: filter_empty_conv)
  moreover have "filter (\<lambda>d. fst d \<notin> fst ` set (lg_dirty db)) new = new" using ids new(2) by (intro filter_True) fastforce
  ultimately have dirty: "lg_dirty ?db = new"
    by (simp add: recompute_dirty_def Let_def store_ranges_def new(1) del: filter_append filter_False) simp
  have hourly: "lg_hourly ?db = filter (\<lambda>g. gr_hour g \<notin> set ?hs) (lg_hourly db') @ aggregate (map hour_range ?hs) db'"
    by (rule recompute_hourly)
  have hs: "distinct ?hs" "list_all on_hour ?hs" using ids by (auto simp: list_all_iff)
  have "mset (filter (\<lambda>g. gr_hour g = h) (lg_hourly ?db)) = hour_groups h db'"
    if h: "h < u" "on_hour h" "h \<notin> snd ` set new" for h
  proof (cases "h \<in> set ?hs")
    case True
    then have "filter (\<lambda>g. gr_hour g = h) (filter (\<lambda>g. gr_hour g \<notin> set ?hs) (lg_hourly db')) = []"
      by (auto simp: filter_empty_conv)
    then show ?thesis
      unfolding hourly filter_append
      using filter_aggregate_hit [OF h(2), of "map hour_range ?hs" db'] True hits_hours [OF hs] by simp
  next
    case False
    then have "filter (\<lambda>g. gr_hour g = h) (filter (\<lambda>g. gr_hour g \<notin> set ?hs) (lg_hourly db'))
        = filter (\<lambda>g. gr_hour g = h) (lg_hourly db')" by (auto intro!: filter_cong)
    moreover have "h \<notin> snd ` set (lg_dirty db')" using False h by (auto simp: new(1))
    ultimately show ?thesis
      unfolding hourly filter_append
      using filter_aggregate_miss [of h "map hour_range ?hs" db'] False hits_hours [OF hs] ok h by (simp add: sums_ok_def)
  qed
  moreover have "aggregate rs ?db = aggregate rs db'" for rs
    by (simp add: recompute_dirty_def Let_def store_ranges_def)
  moreover have "list_all (on_hour \<circ> gr_hour) (lg_hourly ?db)"
    using ok aggregate_on_hour unfolding hourly by (fastforce simp: sums_ok_def list_all_iff)
  moreover have "lg_dirty_seq ?db = lg_dirty_seq db'" by (simp add: recompute_dirty_def Let_def store_ranges_def)
  ultimately show ?thesis
    using assms(1) new(2) unfolding sums_ok_def dirty by (fastforce simp: list_all_iff)
qed

lemma hits_span:
  assumes "on_hour u" "on_hour v" "on_hour h" "trunc_hour t = h"
  shows "hits [(Moment u, Moment v)] t = (if u \<le> h \<and> h < v then 1 else 0)"
proof -
  have "u \<le> t \<longleftrightarrow> u \<le> h" "v \<le> t \<longleftrightarrow> v \<le> h" using trunc_hour_mono assms by metis+
  then show ?thesis by (auto simp: in_range_def)
qed

lemma sums_ok_advance:
  assumes "sums_ok u db" "on_hour v"
  shows "sums_ok (max u v) (advance u v db)"
proof (cases "u < v")
  case True
  let ?kept = "filter (\<lambda>g. \<not> (u \<le> gr_hour g \<and> gr_hour g < v)) (lg_hourly db)"
  have u: "on_hour u" using assms(1) by (simp add: sums_ok_def)
  have hourly: "lg_hourly (advance u v db) = ?kept @ aggregate [(Moment u, Moment v)] db"
    using True by (simp add: advance_def store_ranges_hourly)
  have rest: "lg_dirty (advance u v db) = lg_dirty db" "lg_dirty_seq (advance u v db) = lg_dirty_seq db"
      "aggregate rs (advance u v db) = aggregate rs db" for rs
    by (simp_all add: advance_def store_ranges_def)
  have "mset (filter (\<lambda>g. gr_hour g = h) (lg_hourly (advance u v db))) = hour_groups h db"
    if h: "h < v" "on_hour h" "h \<notin> snd ` set (lg_dirty db)" for h
  proof (cases "u \<le> h")
    case True
    then have "filter (\<lambda>g. gr_hour g = h) ?kept = []" using h(1) by (auto simp: filter_empty_conv)
    then show ?thesis
      unfolding hourly filter_append
      using filter_aggregate_hit [OF h(2), of "[(Moment u, Moment v)]" db] hits_span [OF u assms(2) h(2)] True h(1) by simp
  next
    case False
    then have "filter (\<lambda>g. gr_hour g = h) ?kept = filter (\<lambda>g. gr_hour g = h) (lg_hourly db)"
      by (auto intro!: filter_cong)
    then show ?thesis
      unfolding hourly filter_append
      using filter_aggregate_miss [of h "[(Moment u, Moment v)]" db] hits_span [OF u assms(2) h(2)] False h assms(1)
      by (simp add: sums_ok_def)
  qed
  moreover have "list_all (on_hour \<circ> gr_hour) (lg_hourly (advance u v db))"
    using assms(1) aggregate_on_hour unfolding hourly by (fastforce simp: sums_ok_def list_all_iff)
  ultimately show ?thesis using assms True unfolding sums_ok_def rest by (simp add: max_def)
next
  case False
  then show ?thesis using assms by (simp add: sums_ok_def advance_def max_def)
qed

lemma refresh_keeps_ok:
  assumes "rollup_ok db" "on_hour max_span" "\<And>d. logs d (w1 d)" "\<And>d. logs d (w2 d)" "\<And>d. logs d (w3 d)"
  shows "rollup_ok (snd (refresh got now max_span w1 w2 w3 db))"
proof (cases got)
  case True
  let ?u = "coalesce (lg_until db) (coalesce (first_hour db) (trunc_hour now))"
  let ?v = "min (trunc_hour now) (?u + max_span)"
  have start: "sums_ok ?u db" by (rule sums_ok_start) fact
  then have "sums_ok ?u (w3 (recompute_dirty ?u (lg_dirty (w1 db)) (w2 (w1 db))))"
    by (intro sums_ok_logs [OF assms(5)] sums_ok_recompute assms(4) sums_ok_logs [OF assms(3)])
  moreover have "on_hour ?v"
    using start assms(2) on_hour_add [of ?u max_span] by (simp add: sums_ok_def min_def)
  ultimately have "sums_ok (max ?u ?v) (advance ?u ?v (w3 (recompute_dirty ?u (lg_dirty (w1 db)) (w2 (w1 db)))))"
    by (rule sums_ok_advance)
  then show ?thesis using True by (simp add: refresh_def Let_def rollup_ok_def) (simp add: advance_def Let_def)
qed (use assms(1) in \<open>simp add: refresh_def\<close>)

section \<open>Every reachable state\<close>

text \<open>
  The tables as the migration leaves them, whatever answers, fetches and calls there are; then writes
  and refreshes, the writes also in the middle of a refresh.
\<close>

inductive ledger_reachable :: "ledger \<Rightarrow> bool" where
  start: "lg_hourly db = [] \<Longrightarrow> lg_dirty db = [] \<Longrightarrow> lg_until db = None \<Longrightarrow> ledger_reachable db"
| written: "ledger_reachable db \<Longrightarrow> ledger_write db db' \<Longrightarrow> ledger_reachable db'"
| refreshed: "ledger_reachable db \<Longrightarrow> on_hour max_span \<Longrightarrow> (\<And>d. ledger_write\<^sup>*\<^sup>* d (w1 d)) \<Longrightarrow> (\<And>d. ledger_write\<^sup>*\<^sup>* d (w2 d))
    \<Longrightarrow> (\<And>d. ledger_write\<^sup>*\<^sup>* d (w3 d)) \<Longrightarrow> ledger_reachable (snd (refresh got now max_span w1 w2 w3 db))"

lemma reachable_ok: "ledger_reachable db \<Longrightarrow> rollup_ok db"
proof (induction rule: ledger_reachable.induct)
  case (start db)
  then show ?case by (simp add: rollup_ok_def)
next
  case (written db db')
  then show ?case using rollup_ok_logs ledger_write_logs by blast
next
  case (refreshed db max_span w1 w2 w3 got now)
  then show ?case by (intro refresh_keeps_ok ledger_writes_logs)
qed

text \<open>
  C26: A read of the answer ledger is exact, whatever the refresh has done. In every state that
  statements on the source tables and refreshes reach, with writes also between the statements of a
  refresh, the groups read for a window are those of aggregating the source tables over it.
\<close>

theorem rollup_reads_are_exact:
  assumes "ledger_reachable db"
  shows "mset (groups s e keep db) = mset (filter (\<lambda>g. keep (gr_dims g)) (aggregate [(s, e)] db))"
  by (rule read_is_exact) (rule reachable_ok [OF assms])

section \<open>Catching up\<close>

definition watermark :: "int \<Rightarrow> ledger \<Rightarrow> int" where
  "watermark now db = coalesce (lg_until db) (coalesce (first_hour db) (trunc_hour now))"

lemma refresh_alone:
  obtains r db' where "refresh True now SPAN id id id db = (r, db')" "lg_dirty db' = []" "\<not> rf_skipped r"
    "lg_until db' = Some (max (watermark now db) (min (trunc_hour now) (watermark now db + SPAN)))"
    "rf_caught_up r \<longleftrightarrow> trunc_hour now \<le> watermark now db + SPAN"
proof -
  have "filter (\<lambda>d. fst d \<notin> fst ` set xs) xs = []" for xs :: "(int \<times> int) list" by (simp add: filter_empty_conv)
  then have "lg_dirty (advance u v (recompute_dirty w (lg_dirty db) db)) = []" for u v w
    by (simp add: advance_def recompute_dirty_def store_ranges_def Let_def)
  moreover have "lg_until (advance u v db) = Some (max u v)" for u v db by (simp add: advance_def Let_def)
  ultimately show ?thesis
    using that unfolding refresh_def Let_def watermark_def [symmetric] by simp
qed

text \<open>
  The rollup catches up. With the lock free, a handler that is given \<open>n\<close> refreshes (at most the
  200 it takes) and finds at most \<open>n\<close> spans of two days between the watermark and the last whole hour
  ends caught up: every whole hour is stored, and no hour is left to recompute.
\<close>

theorem rollup_catches_up:
  assumes "0 < n" "n \<le> STEPS" "trunc_hour now - watermark now db \<le> int n * SPAN"
  shows "\<exists>r db'. handle_ledger_rollup (replicate n (True, now)) db = (Some r, db') \<and> rf_caught_up r
    \<and> lg_dirty db' = [] \<and> lg_until db' = Some (max (watermark now db) (trunc_hour now))"
proof -
  have "\<exists>r db'. rollup_steps (replicate n (True, now)) db = (Some r, db') \<and> rf_caught_up r
      \<and> lg_dirty db' = [] \<and> lg_until db' = Some (max (watermark now db) (trunc_hour now))"
    using assms(1,3)
  proof (induction n arbitrary: db)
    case (Suc n)
    obtain r db' where r: "refresh True now SPAN id id id db = (r, db')" "lg_dirty db' = []" "\<not> rf_skipped r"
        "lg_until db' = Some (max (watermark now db) (min (trunc_hour now) (watermark now db + SPAN)))"
        "rf_caught_up r \<longleftrightarrow> trunc_hour now \<le> watermark now db + SPAN"
      by (rule refresh_alone)
    show ?case
    proof (cases "rf_caught_up r")
      case True
      then show ?thesis using r by (simp add: min_absorb1)
    next
      case False
      then have mark: "watermark now db' = watermark now db + SPAN" "watermark now db + SPAN < trunc_hour now"
        using r(4,5) by (simp_all add: watermark_def SPAN_def min_def max_def)
      then have "0 < n" "trunc_hour now - watermark now db' \<le> int n * SPAN"
        using Suc.prems by (auto simp: SPAN_def algebra_simps intro: gr0I)
      from Suc.IH [OF this] obtain later db'' where "rollup_steps (replicate n (True, now)) db' = (Some later, db'')"
          "rf_caught_up later" "lg_dirty db'' = []" "lg_until db'' = Some (max (watermark now db') (trunc_hour now))"
        by blast
      then show ?thesis using r(1,3) False mark by (simp add: max_def SPAN_def split: if_splits)
    qed
  qed simp
  then show ?thesis using assms(2) by (simp add: handle_ledger_rollup_def min_absorb2)
qed

section \<open>An instance\<close>

definition sample_answer :: answer where
  "sample_answer = \<lparr>aq_id = 1, aq_created_at = 5, aq_model = Some ''m1'', aq_check_type = Some ''closed'', aq_status = Some ''passed'',
     aq_config_name = Some ''verify-batch'', aq_prompt_hash = None, aq_batch_id = None, aq_model_call_id = Some 7\<rparr>"

definition sample_ledger :: ledger where
  "sample_ledger = \<lparr>lg_answers = [sample_answer], lg_fetches = [],
     lg_calls = [\<lparr>mc_id = 7, mc_prompt_tokens = 100, mc_completion_tokens = 1, mc_total_tokens = 101, mc_cached_tokens = 0,
       mc_cache_write_tokens = Some 1, mc_reasoning_tokens = Some 0, mc_cost_usd = Some (1 / 500)\<rparr>],
     lg_hourly = [], lg_dirty = [], lg_dirty_seq = 1, lg_until = None\<rparr>"

text \<open>Summed, then repriced: the stored hour is stale and logged.\<close>

definition repriced_ledger :: ledger where
  "repriced_ledger = update_calls (\<lambda>m. mc_id m = 7) (\<lambda>m. m\<lparr>mc_cost_usd := Some (9 / 1000)\<rparr>)
     (snd (refresh True (hours 2) SPAN id id id sample_ledger))"

lemma repriced_reachable: "ledger_reachable repriced_ledger"
  unfolding repriced_ledger_def
  by (rule written [OF refreshed [OF start] ledger_write.intros(5)])
    (simp_all add: sample_ledger_def SPAN_def on_hour_def trunc_hour_def)

theorem rollup_reads_are_exact_witness:
  "map gr_hour (lg_hourly repriced_ledger) = [0] \<and> map snd (lg_dirty repriced_ledger) = [0]
   \<and> mset (groups NegInfinity Infinity (\<lambda>_. True) repriced_ledger)
     = mset (filter (\<lambda>g. True) (aggregate [(NegInfinity, Infinity)] repriced_ledger))"
  using rollup_reads_are_exact [OF repriced_reachable, of NegInfinity Infinity "\<lambda>_. True"] by code_simp

theorem rollup_catches_up_witness:
  "\<exists>r db'. handle_ledger_rollup (replicate 1 (True, hours 2)) sample_ledger = (Some r, db') \<and> rf_caught_up r
     \<and> lg_dirty db' = [] \<and> lg_until db' = Some (hours 2)"
  using rollup_catches_up [of 1 "hours 2" sample_ledger]
  by (simp add: STEPS_def SPAN_def watermark_def sample_ledger_def sample_answer_def first_hour_def trunc_hour_def)

end
