(* ===== verification/Verdicts.thy ===== *)
theory Verdicts
  imports Receipts Schedule
begin

text \<open>
  Answers about postings: the rows \<open>core/store.py\<close> writes and reads, the \<open>Verdict\<close> of
  \<open>api/ai/verdicts.py\<close> with its writers, the dictionary of instructions
  (\<open>core/query_instructions.py\<close>). Rows are kept in the order of
  their ids, so a row's place stands for its id; an instruction text's digest stands for the id of
  its dictionary entry. SHA-256 and the ids of recorded calls are arguments. Process metrics are left out.
\<close>

section \<open>Rows\<close>

record ai_row =
  ai_config_name :: "string option"
  ai_url :: string
  ai_check_type :: string
  ai_status :: string
  ai_reason :: "string option"
  ai_model :: "string option"
  ai_reasoning_effort :: "string option"
  ai_filter_name :: "string option"
  ai_prompt_hash :: "string option"
  ai_company :: "string option"
  ai_job_title :: "string option"
  ai_instructions :: "string option"
  ai_parsed_json :: "string option"
  ai_error :: "string option"
  ai_worker :: string
  ai_batch_id :: "string option"
  ai_request_sha256 :: "string option"
  ai_page_fetch_id :: "int option"
  ai_model_call_id :: "int option"

text \<open>The defaults of \<open>ai_result_row\<close>'s arguments.\<close>

definition ai_row_of :: "string \<Rightarrow> string \<Rightarrow> string option \<Rightarrow> string \<Rightarrow> ai_row" where
  "ai_row_of url stat why check_type =
     \<lparr>ai_config_name = None, ai_url = url, ai_check_type = check_type, ai_status = stat, ai_reason = why,
      ai_model = None, ai_reasoning_effort = None, ai_filter_name = None, ai_prompt_hash = None, ai_company = None,
      ai_job_title = None, ai_instructions = None, ai_parsed_json = None, ai_error = None, ai_worker = '''',
      ai_batch_id = None, ai_request_sha256 = None, ai_page_fetch_id = None, ai_model_call_id = None\<rparr>"

record writer =
  wr_name :: string
  wr_config_name :: "string option"

definition ai_result_row :: "writer \<Rightarrow> ai_row \<Rightarrow> ai_row result" where
  "ai_result_row w args =
     (if ai_check_type args = ''content''
      then Inl (ValueError ''a page fetch is written by core.page_fetches.record'')
      else Inr (args\<lparr>ai_config_name := (if coalesce (ai_config_name args) '''' = '''' then wr_config_name w else ai_config_name args),
                     ai_worker := wr_name w\<rparr>))"

section \<open>Instructions by reference\<close>

type_synonym texts = "(string \<times> string) list"

abbreviation InstructionUnavailable :: "string \<Rightarrow> py_error" where
  "InstructionUnavailable why \<equiv> RuntimeError why"

definition intern_text :: "(string \<Rightarrow> string) \<Rightarrow> string \<Rightarrow> texts \<Rightarrow> texts result" where
  "intern_text sha instructions texts =
     (case map_of texts (sha instructions) of
        None \<Rightarrow> Inr (texts @ [(sha instructions, instructions)])
      | Some stored \<Rightarrow>
          if stored = instructions then Inr texts
          else Inl (InstructionUnavailable ''Instruction identity collision or missing content''))"

text \<open>\<open>hydrate\<close> of one row's reference.\<close>

definition hydrate :: "(string \<Rightarrow> string) \<Rightarrow> texts \<Rightarrow> ai_row \<Rightarrow> ai_row result" where
  "hydrate sha texts rw =
     (case ai_instructions rw of
        None \<Rightarrow> Inr rw
      | Some reference \<Rightarrow>
          (case map_of texts reference of
             None \<Rightarrow> Inl (InstructionUnavailable ''Referenced instructions are unavailable'')
           | Some stored \<Rightarrow>
               if sha stored \<noteq> reference
               then Inl (InstructionUnavailable ''Referenced instruction integrity check failed'')
               else Inr (rw\<lparr>ai_instructions := Some stored\<rparr>)))"

text \<open>\<open>_interned\<close>: each distinct text once, in the order of first use.\<close>

fun interned :: "(string \<Rightarrow> string) \<Rightarrow> string list \<Rightarrow> ai_row list \<Rightarrow> texts \<Rightarrow> (ai_row list \<times> texts) result" where
  "interned sha seen [] texts = Inr ([], texts)"
| "interned sha seen (rw # rows) texts =
     (case ai_instructions rw of
        None \<Rightarrow> and_then (interned sha seen rows texts) (\<lambda>(ready, texts). Inr (rw # ready, texts))
      | Some t \<Rightarrow>
          and_then (if t \<in> set seen then Inr texts else intern_text sha t texts) (\<lambda>texts.
          and_then (interned sha (t # seen) rows texts) (\<lambda>(ready, texts).
            Inr (rw\<lparr>ai_instructions := Some (sha t)\<rparr> # ready, texts))))"

record verdict_db =
  vd_rows :: "ai_row list"
  vd_texts :: texts

text \<open>\<open>_VALUES\<close>: a batched answer finds its call by its batch and url; \<open>call_of\<close> reads the ledger.\<close>

definition link_call :: "(string \<Rightarrow> string \<Rightarrow> int option) \<Rightarrow> ai_row \<Rightarrow> ai_row" where
  "link_call call_of rw =
     rw\<lparr>ai_model_call_id := (case ai_model_call_id rw of
            Some c \<Rightarrow> Some c
          | None \<Rightarrow> (case ai_batch_id rw of None \<Rightarrow> None | Some b \<Rightarrow> call_of b (ai_url rw)))\<rparr>"

definition add_ai_results ::
  "(string \<Rightarrow> string) \<Rightarrow> (string \<Rightarrow> string \<Rightarrow> int option) \<Rightarrow> ai_row list \<Rightarrow> verdict_db \<Rightarrow> verdict_db result" where
  "add_ai_results sha call_of rows db =
     (if rows = [] then Inr db
      else and_then (interned sha [] rows (vd_texts db)) (\<lambda>(rows, texts).
        Inr (db\<lparr>vd_rows := vd_rows db @ map (link_call call_of) rows, vd_texts := texts\<rparr>)))"

section \<open>Verdicts\<close>

record Verdict =
  vt_url :: string
  vt_check_type :: string
  vt_rejected :: "bool option"
  vt_reason :: "string option"
  vt_parsed_json :: "string option"
  vt_usage :: object
  vt_model :: "string option"
  vt_company :: "string option"
  vt_job_title :: "string option"
  vt_instructions :: "string option"
  vt_filter_name :: "string option"
  vt_prompt_hash :: "string option"
  vt_context :: string
  vt_batch_id :: "string option"
  vt_reasoning_effort :: "string option"
  vt_error :: "string option"
  vt_shared_call :: bool
  vt_request_sha256 :: "string option"
  vt_page_fetch_id :: "int option"
  vt_model_call_id :: "int option"

definition ZERO_USAGE :: object where
  "ZERO_USAGE = map (\<lambda>k. (k, JNum 0)) [''prompt_tokens'', ''completion_tokens'', ''total_tokens'', ''cached_tokens'',
     ''cache_write_tokens'', ''reasoning_tokens'']"

text \<open>\<open>__post_init__\<close>: a verdict that shares another's call carries no usage of its own.\<close>

definition Verdict_of :: "Verdict \<Rightarrow> Verdict result" where
  "Verdict_of v =
     (if \<not> vt_shared_call v then Inr v
      else if vt_usage v \<noteq> [] then Inl (ValueError ''a companion verdict cannot carry its own provider usage'')
      else Inr (v\<lparr>vt_usage := ZERO_USAGE\<rparr>))"

definition verdict_status :: "Verdict \<Rightarrow> string" where
  "verdict_status v =
     (case vt_rejected v of None \<Rightarrow> ''failed'' | Some r \<Rightarrow> if r then ''rejected'' else ''passed'')"

definition row_of_verdict :: "writer \<Rightarrow> Verdict \<Rightarrow> ai_row result" where
  "row_of_verdict w v = ai_result_row w
     \<lparr>ai_config_name = Some (vt_context v), ai_url = vt_url v, ai_check_type = vt_check_type v, ai_status = verdict_status v,
      ai_reason = vt_reason v, ai_model = vt_model v, ai_reasoning_effort = vt_reasoning_effort v,
      ai_filter_name = vt_filter_name v, ai_prompt_hash = vt_prompt_hash v, ai_company = vt_company v,
      ai_job_title = vt_job_title v, ai_instructions = vt_instructions v, ai_parsed_json = vt_parsed_json v,
      ai_error = vt_error v, ai_worker = '''', ai_batch_id = vt_batch_id v, ai_request_sha256 = vt_request_sha256 v,
      ai_page_fetch_id = vt_page_fetch_id v, ai_model_call_id = vt_model_call_id v\<rparr>"

fun verdict_rows :: "writer \<Rightarrow> Verdict list \<Rightarrow> ai_row list result" where
  "verdict_rows w [] = Inr []"
| "verdict_rows w (v # vs) =
     and_then (row_of_verdict w v) (\<lambda>rw. and_then (verdict_rows w vs) (\<lambda>rows. Inr (rw # rows)))"

text \<open>\<open>record_ai_verdicts\<close>; \<open>record_ai_verdict\<close> is the case of one.\<close>

definition record_ai_verdicts ::
  "(string \<Rightarrow> string) \<Rightarrow> (string \<Rightarrow> string \<Rightarrow> int option) \<Rightarrow> writer \<Rightarrow> Verdict list \<Rightarrow> verdict_db \<Rightarrow> verdict_db result" where
  "record_ai_verdicts sha call_of w vs db = and_then (verdict_rows w vs) (\<lambda>rows. add_ai_results sha call_of rows db)"

section \<open>Reading answers\<close>

text \<open>The \<open>verdicts\<close> view, and the newest row of each url that a condition selects, newest last.\<close>

definition is_verdict :: "ai_row \<Rightarrow> bool" where
  "is_verdict rw \<longleftrightarrow> ai_check_type rw \<noteq> ''content'' \<and> ai_status rw \<in> {''passed'', ''rejected''}"

definition latest_row :: "(ai_row \<Rightarrow> bool) \<Rightarrow> ai_row list \<Rightarrow> ai_row option" where
  "latest_row P rows = find (\<lambda>rw. is_verdict rw \<and> P rw) (rev rows)"

definition custom_row :: "string \<Rightarrow> string list option \<Rightarrow> ai_row \<Rightarrow> bool" where
  "custom_row prompt_hash models rw \<longleftrightarrow> ai_check_type rw = ''custom'' \<and> ai_prompt_hash rw = Some prompt_hash
     \<and> (case models of None \<Rightarrow> True | Some ms \<Rightarrow> (case ai_model rw of None \<Rightarrow> False | Some m \<Rightarrow> m \<in> set ms))"

text \<open>\<open>decided_custom_urls\<close>: the latest row of each url is hydrated, so a broken reference raises.\<close>

fun decided_custom_urls ::
  "(string \<Rightarrow> string) \<Rightarrow> string list \<Rightarrow> string \<Rightarrow> string list option \<Rightarrow> verdict_db \<Rightarrow> string list result" where
  "decided_custom_urls sha [] prompt_hash models db = Inr []"
| "decided_custom_urls sha (url # urls) prompt_hash models db =
     (case latest_row (\<lambda>rw. ai_url rw = url \<and> custom_row prompt_hash models rw) (vd_rows db) of
        None \<Rightarrow> decided_custom_urls sha urls prompt_hash models db
      | Some rw \<Rightarrow>
          and_then (hydrate sha (vd_texts db) rw) (\<lambda>_.
          and_then (decided_custom_urls sha urls prompt_hash models db) (\<lambda>decided. Inr (url # decided))))"

record Page =
  pg_fetch_id :: int
  pg_text :: string

section \<open>Writing one by one\<close>

text \<open>Interning a text that the dictionary holds changes nothing.\<close>

lemma intern_text_seen:
  assumes "map_of texts (sha t) = Some t"
  shows "intern_text sha t texts = Inr texts"
  using assms by (simp add: intern_text_def)

lemma intern_text_holds:
  assumes "intern_text sha t texts = Inr texts'"
  shows "map_of texts' (sha t) = Some t" "map_of texts d = Some s \<Longrightarrow> map_of texts' d = Some s"
  using assms by (auto simp: intern_text_def map_add_def split: option.splits if_splits)

lemma interned_unseen:
  assumes "\<forall>t \<in> set seen. map_of texts (sha t) = Some t"
  shows "interned sha seen rows texts = interned sha [] rows texts"
  using assms
proof (induction rows arbitrary: seen texts)
  case (Cons rw rows)
  show ?case
  proof (cases "ai_instructions rw")
    case None
    then show ?thesis using Cons.IH [OF Cons.prems] by simp
  next
    case (Some t)
    have same: "(if t \<in> set seen then Inr texts else intern_text sha t texts) = intern_text sha t texts"
      using Cons.prems intern_text_seen by auto
    have "interned sha (t # seen) rows texts' = interned sha [t] rows texts'" if "intern_text sha t texts = Inr texts'" for texts'
    proof -
      have "\<forall>s \<in> set (t # seen). map_of texts' (sha s) = Some s"
        using intern_text_holds [OF that] Cons.prems by auto
      then show ?thesis using Cons.IH [of "t # seen" texts'] Cons.IH [of "[t]" texts'] by simp
    qed
    then show ?thesis using Some same by (cases "intern_text sha t texts") simp_all
  qed
qed simp

lemma interned_Cons:
  "interned sha [] (rw # rows) texts =
     and_then (interned sha [] [rw] texts) (\<lambda>(first, texts').
     and_then (interned sha [] rows texts') (\<lambda>(rest, texts''). Inr (first @ rest, texts'')))"
proof (cases "ai_instructions rw")
  case None
  then show ?thesis by (cases "interned sha [] rows texts") auto
next
  case (Some t)
  show ?thesis
  proof (cases "intern_text sha t texts")
    case (Inr texts')
    have "interned sha [t] rows texts' = interned sha [] rows texts'"
      using intern_text_holds(1) [OF Inr] by (intro interned_unseen) simp
    then show ?thesis using Some Inr by (cases "interned sha [] rows texts'") auto
  qed (simp add: Some)
qed

lemma add_ai_results_Cons:
  "add_ai_results sha call_of (rw # rows) db =
     and_then (add_ai_results sha call_of [rw] db) (add_ai_results sha call_of rows)"
proof (cases "rows = []")
  case True
  then show ?thesis by (cases "add_ai_results sha call_of [rw] db") (simp_all add: add_ai_results_def)
next
  case False
  have whole: "add_ai_results sha call_of xs d = and_then (interned sha [] xs (vd_texts d)) (\<lambda>(rows, texts).
      Inr (d\<lparr>vd_rows := vd_rows d @ map (link_call call_of) rows, vd_texts := texts\<rparr>))" if "xs \<noteq> []" for xs d
    using that by (simp add: add_ai_results_def)
  show ?thesis
  proof (cases "interned sha [] [rw] (vd_texts db)")
    case (Inr first)
    then show ?thesis
      using interned_Cons [of sha rw rows "vd_texts db"] False
      by (cases first; cases "interned sha [] rows (snd first)") (auto simp: whole simp del: interned.simps)
  qed (use interned_Cons [of sha rw rows "vd_texts db"] in \<open>simp add: whole del: interned.simps\<close>)
qed

end
