(* ===== verification/Filtering.thy ===== *)
theory Filtering
  imports Verdicts
begin

text \<open>
  The collection of a custom-filter batch (\<open>tasks/filtering/execution.py\<close>): what a result becomes,
  and how results are collected, chunk by chunk with a fallback to one by one. Reading an answer's
  JSON (pydantic) is an argument. The token counts of a batch result go to process metrics only, its
  call being in the ledger, so a planned verdict carries none.
\<close>

section \<open>What a result becomes\<close>

record FilterSnapshot =
  fs_name :: string
  fs_prompt :: string
  fs_on_ambiguous :: string
  fs_prompt_hash :: string

text \<open>A value bound to a text or a bigint column; another JSON value is refused by the database.\<close>

definition text_column :: "json option \<Rightarrow> string option result" where
  "text_column v =
     (case v of None \<Rightarrow> Inr None | Some JNull \<Rightarrow> Inr None | Some (JStr s) \<Rightarrow> Inr (Some s)
      | Some _ \<Rightarrow> Inl (RuntimeError ''column is of type text''))"

definition int_column :: "json option \<Rightarrow> int option result" where
  "int_column v =
     (case v of None \<Rightarrow> Inr None | Some JNull \<Rightarrow> Inr None | Some (JNum n) \<Rightarrow> Inr (Some n)
      | Some _ \<Rightarrow> Inl (RuntimeError ''column is of type bigint''))"

definition item_of :: "object \<Rightarrow> string \<Rightarrow> json result" where
  "item_of obj k = (case get obj k of None \<Rightarrow> Inl (KeyError k) | Some v \<Rightarrow> Inr v)"

text \<open>\<open>from_mapping\<close> keeps the values as they are; only the hash is ever bound to a column.\<close>

definition from_mapping :: "object \<Rightarrow> FilterSnapshot result" where
  "from_mapping obj =
     and_then (item_of obj ''name'') (\<lambda>nm. and_then (item_of obj ''prompt'') (\<lambda>pr.
     and_then (item_of obj ''on_ambiguous'') (\<lambda>amb. and_then (item_of obj ''prompt_hash'') (\<lambda>h.
     and_then (text_column (Some h)) (\<lambda>hash.
       Inr \<lparr>fs_name = coalesce (json_text nm) '''', fs_prompt = coalesce (json_text pr) '''',
            fs_on_ambiguous = coalesce (json_text amb) '''', fs_prompt_hash = coalesce hash ''''\<rparr>)))))"

record Collected =
  co_outcome :: string
  co_verdict :: "Verdict option"

text \<open>What a collection runs with: the row writers' arguments, the reader of an answer and the run's own snapshot.\<close>

record collect_env =
  ce_sha :: "string \<Rightarrow> string"
  ce_call_of :: "string \<Rightarrow> string \<Rightarrow> int option"
  ce_writer :: writer
  ce_parse :: "string \<Rightarrow> (bool \<times> string option) option"
  ce_label :: string
  ce_snapshot :: FilterSnapshot
  ce_by_url :: "(string \<times> object) list"

type_synonym filter_result = "BatchResult \<times> BatchSpec option"

definition request_context :: "BatchSpec option \<Rightarrow> object" where
  "request_context req = (case req of None \<Rightarrow> [] | Some s \<Rightarrow> coalesce (s_context s) [])"

definition filter_job :: "collect_env \<Rightarrow> BatchResult \<Rightarrow> object \<Rightarrow> json option" where
  "filter_job env r context =
     (case get context ''job'' of
        Some job \<Rightarrow> if truthy_json job then Some job else map_option JObj (map_of (ce_by_url env) (r_custom_id r))
      | None \<Rightarrow> map_option JObj (map_of (ce_by_url env) (r_custom_id r)))"

definition filter_snapshot :: "collect_env \<Rightarrow> object \<Rightarrow> FilterSnapshot result" where
  "filter_snapshot env context =
     (case get context ''filter'' of
        Some (JObj kvs) \<Rightarrow> if kvs = [] then Inr (ce_snapshot env) else from_mapping kvs
      | Some v \<Rightarrow> if truthy_json v then Inl (ValueError ''a snapshot is an object'') else Inr (ce_snapshot env)
      | None \<Rightarrow> Inr (ce_snapshot env))"

definition filter_answer :: "collect_env \<Rightarrow> BatchResult \<Rightarrow> (bool \<times> string option) option \<times> string" where
  "filter_answer env r =
     (let none = ''batch: '' @ (case r_error r of Some e \<Rightarrow> if e = '''' then ''no output'' else e | None \<Rightarrow> ''no output'') in
      if coalesce (r_error r) '''' \<noteq> '''' then (None, none)
      else case r_text r of
        None \<Rightarrow> (None, none)
      | Some t \<Rightarrow> if t = '''' then (None, none)
                  else (case ce_parse env t of None \<Rightarrow> (None, ''batch: unparsable output'') | Some a \<Rightarrow> (Some a, none)))"

definition job_object :: "json \<Rightarrow> object result" where
  "job_object j = (case j of JObj kvs \<Rightarrow> Inr kvs | _ \<Rightarrow> Inl (ValueError ''a job is an object''))"

text \<open>\<open>_plan\<close>: what one pending result writes, decided before anything is written.\<close>

definition plan_result :: "collect_env \<Rightarrow> filter_result \<Rightarrow> Collected result" where
  "plan_result env res =
     (let r = fst res; context = request_context (snd res) in
      and_then (filter_snapshot env context) (\<lambda>stored.
        case filter_job env r context of
          None \<Rightarrow> Inr \<lparr>co_outcome = ''unknown_request'', co_verdict = None\<rparr>
        | Some j \<Rightarrow>
            (case filter_answer env r of (parsed, why) \<Rightarrow>
               and_then (job_object j) (\<lambda>job.
               and_then (item_of job ''company'') (\<lambda>company. and_then (text_column (Some company)) (\<lambda>company.
               and_then (item_of job ''title'') (\<lambda>title. and_then (text_column (Some title)) (\<lambda>title.
               and_then (int_column (get context ''page_fetch_id'')) (\<lambda>fetch.
               and_then (text_column (get context ''reasoning_effort'')) (\<lambda>effort.
                 Inr \<lparr>co_outcome = (if parsed \<noteq> None then ''written'' else ''failed''),
                      co_verdict = Some
                        \<lparr>vt_url = r_custom_id r, vt_check_type = ''custom'', vt_rejected = map_option fst parsed,
                         vt_reason = (case parsed of None \<Rightarrow> Some why | Some a \<Rightarrow> snd a),
                         vt_parsed_json = (if parsed \<noteq> None then r_text r else None), vt_usage = [], vt_model = r_model r,
                         vt_company = company, vt_job_title = title,
                         vt_instructions = map_option s_instructions (snd res), vt_filter_name = Some (ce_label env),
                         vt_prompt_hash = Some (fs_prompt_hash stored), vt_context = ''filter-batch'',
                         vt_batch_id = r_batch_id r, vt_reasoning_effort = effort, vt_error = r_error r, vt_shared_call = False,
                         vt_request_sha256 = None, vt_page_fetch_id = fetch, vt_model_call_id = None\<rparr>\<rparr>))))))))))"

section \<open>Collecting\<close>

record collect_state =
  cs_receipts :: "receipt list"
  cs_verdicts :: verdict_db

definition write_verdicts :: "collect_env \<Rightarrow> Verdict list \<Rightarrow> verdict_db \<Rightarrow> verdict_db result" where
  "write_verdicts env vs db = record_ai_verdicts (ce_sha env) (ce_call_of env) (ce_writer env) vs db"

text \<open>\<open>_collect_one\<close>: the receipt's lock, the verdict and the acknowledgement in one transaction.\<close>

definition collect_one :: "collect_env \<Rightarrow> instant \<Rightarrow> int \<Rightarrow> filter_result \<Rightarrow> collect_state \<Rightarrow> collect_state result" where
  "collect_one env now i res st =
     and_then (consume_result now i (result_key (fst res)) ''processed'' (cs_receipts st)) (\<lambda>(pending, _).
       if \<not> pending then Inr st
       else
         and_then (plan_result env res) (\<lambda>p.
         and_then (case co_verdict p of None \<Rightarrow> Inr (cs_verdicts st) | Some v \<Rightarrow> write_verdicts env [v] (cs_verdicts st)) (\<lambda>db.
         and_then (consume_result now i (result_key (fst res)) (co_outcome p) (cs_receipts st)) (\<lambda>(_, receipts).
           Inr \<lparr>cs_receipts = receipts, cs_verdicts = db\<rparr>))))"

text \<open>The plans of a chunk's pending results; a result that is not pending keeps its outcome.\<close>

fun plan_chunk :: "collect_env \<Rightarrow> (bool \<times> filter_result) list \<Rightarrow> (string list \<times> Verdict list) result" where
  "plan_chunk env [] = Inr ([], [])"
| "plan_chunk env ((pending, res) # items) =
     (if pending
      then and_then (plan_result env res) (\<lambda>p. and_then (plan_chunk env items) (\<lambda>(said, vs).
             Inr (co_outcome p # said, (case co_verdict p of None \<Rightarrow> vs | Some v \<Rightarrow> v # vs))))
      else and_then (plan_chunk env items) (\<lambda>(said, vs). Inr (''processed'' # said, vs)))"

text \<open>\<open>_collect_chunk\<close>: one transaction, which an error rolls back whole.\<close>

definition collect_chunk :: "collect_env \<Rightarrow> instant \<Rightarrow> int \<Rightarrow> filter_result list \<Rightarrow> collect_state \<Rightarrow> collect_state result" where
  "collect_chunk env now i results st =
     and_then (pending_flags i (cs_receipts st) [] (map (result_key \<circ> fst) results)) (\<lambda>flags.
     and_then (plan_chunk env (zip flags results)) (\<lambda>(said, vs).
     and_then (write_verdicts env vs (cs_verdicts st)) (\<lambda>db.
     and_then (consume_results now i (zip (map (result_key \<circ> fst) results) said) (cs_receipts st)) (\<lambda>(_, receipts).
       Inr \<lparr>cs_receipts = receipts, cs_verdicts = db\<rparr>))))"

text \<open>Results one after the other, each committed; the first error ends it.\<close>

fun collect_one_by_one ::
  "collect_env \<Rightarrow> instant \<Rightarrow> int \<Rightarrow> filter_result list \<Rightarrow> collect_state \<Rightarrow> py_error option \<times> collect_state" where
  "collect_one_by_one env now i [] st = (None, st)"
| "collect_one_by_one env now i (res # results) st =
     (case collect_one env now i res st of
        Inl e \<Rightarrow> (Some e, st)
      | Inr st' \<Rightarrow> collect_one_by_one env now i results st')"

definition COLLECT_CHUNK :: nat where "COLLECT_CHUNK = 500"

text \<open>The collection of \<open>execute_batch\<close>: chunks, and a failing chunk again result by result.\<close>

function collect_chunks ::
  "nat \<Rightarrow> collect_env \<Rightarrow> instant \<Rightarrow> int \<Rightarrow> filter_result list \<Rightarrow> collect_state \<Rightarrow> py_error option \<times> collect_state" where
  "collect_chunks n env now i results st =
     (if results = [] \<or> n = 0 then (None, st)
      else
        case collect_chunk env now i (take n results) st of
          Inr st' \<Rightarrow> collect_chunks n env now i (drop n results) st'
        | Inl _ \<Rightarrow>
            (case collect_one_by_one env now i (take n results) st of
               (Some e, st') \<Rightarrow> (Some e, st')
             | (None, st') \<Rightarrow> collect_chunks n env now i (drop n results) st'))"
  by pat_completeness auto
termination
  by (relation "measure (\<lambda>(n, env, now, i, results, st). length results)") auto

definition collect_results ::
  "collect_env \<Rightarrow> instant \<Rightarrow> int \<Rightarrow> filter_result list \<Rightarrow> collect_state \<Rightarrow> py_error option \<times> collect_state" where
  "collect_results = collect_chunks COLLECT_CHUNK"

section \<open>A chunk is its results in sequence\<close>

lemma pending_flags_length: "pending_flags i receipts seen keys = Inr flags \<Longrightarrow> length flags = length keys"
  by (induction keys arbitrary: seen flags) (auto simp: and_then_Inr_iff split: option.splits)

lemma plan_chunk_length: "plan_chunk env items = Inr (said, vs) \<Longrightarrow> length said = length items"
  by (induction env items arbitrary: said vs rule: plan_chunk.induct) (auto simp: and_then_Inr_iff split: if_splits)

lemma collect_chunk_Inr:
  "collect_chunk env now i results st = Inr st' \<longleftrightarrow>
     (\<exists>flags said vs db. pending_flags i (cs_receipts st) [] (map (result_key \<circ> fst) results) = Inr flags
        \<and> plan_chunk env (zip flags results) = Inr (said, vs) \<and> write_verdicts env vs (cs_verdicts st) = Inr db
        \<and> st' = \<lparr>cs_receipts = acknowledge now i (acks_of flags (zip (map (result_key \<circ> fst) results) said)) (cs_receipts st),
                 cs_verdicts = db\<rparr>)"
proof -
  have "map fst (zip (map (result_key \<circ> fst) results) said) = map (result_key \<circ> fst) results"
    if "pending_flags i (cs_receipts st) [] (map (result_key \<circ> fst) results) = Inr flags"
      "plan_chunk env (zip flags results) = Inr (said, vs)" for flags said vs
    using pending_flags_length [OF that(1)] plan_chunk_length [OF that(2)] by simp
  then show ?thesis
    by (fastforce simp: collect_chunk_def and_then_Inr_iff consume_results_def)
qed

lemma write_verdicts_Cons:
  "write_verdicts env (v # vs) db = Inr db'' \<Longrightarrow> \<exists>db'. write_verdicts env [v] db = Inr db' \<and> write_verdicts env vs db' = Inr db''"
  by (auto simp: write_verdicts_def record_ai_verdicts_def and_then_Inr_iff add_ai_results_Cons [of _ _ _ "_ # _"])
    (metis add_ai_results_Cons and_then_Inr_iff)

lemma acks_of_Cons: "acks_of (f # flags) (item # items) = (if f then [item] else []) @ acks_of flags items"
  by (simp add: acks_of_def)

lemma collect_chunk_Cons:
  assumes "collect_chunk env now i (res # results) st = Inr st'"
  shows "\<exists>mid. collect_one env now i res st = Inr mid \<and> collect_chunk env now i results mid = Inr st'"
proof -
  let ?rs = "cs_receipts st" and ?key = "result_key (fst res)" and ?keys = "map (result_key \<circ> fst) results"
  obtain flags said vs db where all: "pending_flags i ?rs [] (?key # ?keys) = Inr flags"
      "plan_chunk env (zip flags (res # results)) = Inr (said, vs)" "write_verdicts env vs (cs_verdicts st) = Inr db"
      "st' = \<lparr>cs_receipts = acknowledge now i (acks_of flags (zip (?key # ?keys) said)) ?rs, cs_verdicts = db\<rparr>"
    using assms by (auto simp: collect_chunk_Inr)
  obtain rc rest where rc: "own_receipt i ?key ?rs = Some rc" "flags = (rc_outcome rc = None) # rest"
      "pending_flags i ?rs [?key] ?keys = Inr rest"
    using all(1) by (auto simp: and_then_Inr_iff split: option.splits)
  show ?thesis
  proof (cases "rc_outcome rc")
    case (Some out)
    then have "collect_one env now i res st = Inr st"
      using rc(1) by (simp add: collect_one_def consume_result_def own_receipt_def)
    moreover have "pending_flags i ?rs [] ?keys = Inr rest"
      using rc(3) pending_flags_done [OF rc(1), of "[]" ?keys] Some by simp
    moreover obtain said' where "said = ''processed'' # said'" "plan_chunk env (zip rest results) = Inr (said', vs)"
      using all(2) rc(2) Some by (auto simp: and_then_Inr_iff)
    ultimately show ?thesis
      using all(3,4) rc(2) Some by (auto simp: collect_chunk_Inr acks_of_Cons)
  next
    case None
    obtain p said' vs' where p: "plan_result env res = Inr p" "plan_chunk env (zip rest results) = Inr (said', vs')"
        "said = co_outcome p # said'" "vs = (case co_verdict p of None \<Rightarrow> vs' | Some v \<Rightarrow> v # vs')"
      using all(2) rc(2) None by (auto simp: and_then_Inr_iff)
    obtain db1 where db1: "(case co_verdict p of None \<Rightarrow> Inr (cs_verdicts st) | Some v \<Rightarrow> write_verdicts env [v] (cs_verdicts st)) = Inr db1"
        "write_verdicts env vs' db1 = Inr db"
      using all(3) p(4) write_verdicts_Cons by (cases "co_verdict p") fastforce+
    let ?rs1 = "consumed now i ?key (co_outcome p) ?rs"
    have "collect_one env now i res st = Inr \<lparr>cs_receipts = ?rs1, cs_verdicts = db1\<rparr>"
      using rc(1) None p(1) db1(1) by (simp add: collect_one_def consume_result_def own_receipt_def consumed_def)
    moreover have "pending_flags i ?rs1 [] ?keys = Inr rest" using rc(3) by (simp add: pending_flags_consumed)
    moreover have "map fst (zip ?keys said') = ?keys"
      using pending_flags_length [OF rc(3)] plan_chunk_length [OF p(2)] by simp
    then have "map_of (acks_of rest (zip ?keys said')) ?key = None"
      using acks_unseen [of i ?rs "[?key]" "zip ?keys said'" rest ?key] rc(3) by simp
    then have "acknowledge now i (acks_of rest (zip ?keys said')) ?rs1 = acknowledge now i (acks_of flags (zip (?key # ?keys) said)) ?rs"
      using acknowledge_consumed rc(2) None p(3) by (simp add: acks_of_Cons)
    ultimately show ?thesis using all(4) db1(2) p(2) by (auto simp: collect_chunk_Inr)
  qed
qed

lemma collect_chunk_each:
  assumes "collect_chunk env now i results st = Inr st'"
  shows "collect_one_by_one env now i results st = (None, st')"
  using assms
proof (induction results arbitrary: st)
  case Nil
  then show ?case
    by (simp add: collect_chunk_Inr write_verdicts_def record_ai_verdicts_def add_ai_results_def acks_of_def
        acknowledge_def update_where_none)
next
  case (Cons res results)
  then show ?case using collect_chunk_Cons [OF Cons.prems] by auto
qed

lemma collect_one_by_one_append:
  "collect_one_by_one env now i (xs @ ys) st =
     (case collect_one_by_one env now i xs st of (Some e, st') \<Rightarrow> (Some e, st') | (None, st') \<Rightarrow> collect_one_by_one env now i ys st')"
  by (induction xs arbitrary: st) (auto split: sum.split)

lemma collect_chunks_each:
  assumes "0 < n"
  shows "collect_chunks n env now i results st = collect_one_by_one env now i results st"
  using assms
proof (induction n env now i results st rule: collect_chunks.induct)
  case (1 n env now i results st)
  show ?case
  proof (cases "results = []")
    case False
    have split: "collect_one_by_one env now i results st =
        (case collect_one_by_one env now i (take n results) st of (Some e, st') \<Rightarrow> (Some e, st')
         | (None, st') \<Rightarrow> collect_one_by_one env now i (drop n results) st')"
      using collect_one_by_one_append [of env now i "take n results" "drop n results" st] by simp
    show ?thesis
    proof (cases "collect_chunk env now i (take n results) st")
      case (Inr st')
      then show ?thesis using 1(2) [OF _ Inr] False 1(3) split collect_chunk_each [OF Inr] by simp
    next
      case (Inl e)
      obtain e' st' where "collect_one_by_one env now i (take n results) st = (e', st')" by fastforce
      then show ?thesis using 1(1) [OF _ Inl] False 1(3) split Inl by (cases e') auto
    qed
  qed simp
qed


lemma filter_collection: "collect_results env now i results st = collect_one_by_one env now i results st"
  unfolding collect_results_def by (rule collect_chunks_each) (simp add: COLLECT_CHUNK_def)

text \<open>
  C23: A filter batch is collected as its results in sequence: chunks of any content, with the
  fallback of a chunk that fails, leave the receipts, the verdicts and the error that collecting
  each result in its own transaction leaves.
\<close>

theorem filter_collection_is_one_by_one:
  "collect_results env now i results st = collect_one_by_one env now i results st"
  by (rule filter_collection)

section \<open>Collecting again\<close>

text \<open>A result whose receipt of the task is settled.\<close>

definition settled :: "int \<Rightarrow> collect_state \<Rightarrow> filter_result \<Rightarrow> bool" where
  "settled i st res \<longleftrightarrow>
     (case own_receipt i (result_key (fst res)) (cs_receipts st) of None \<Rightarrow> False | Some rc \<Rightarrow> rc_outcome rc \<noteq> None)"

lemma collect_one_settled: "settled i st res \<Longrightarrow> collect_one env now i res st = Inr st"
  by (auto simp: settled_def collect_one_def consume_result_def own_receipt_def split: option.splits)

lemma collect_one_settles:
  assumes "collect_one env now i res st = Inr st'"
  shows "settled i st' res" "settled i st other \<Longrightarrow> settled i st' other"
proof -
  let ?key = "result_key (fst res)"
  have "settled i st' res \<and> (settled i st other \<longrightarrow> settled i st' other)"
  proof (cases "settled i st res")
    case True
    then show ?thesis using assms collect_one_settled by auto
  next
    case False
    then obtain rc where rc: "own_receipt i ?key (cs_receipts st) = Some rc" "rc_outcome rc = None"
      using assms by (auto simp: settled_def collect_one_def consume_result_def own_receipt_def split: option.splits)
    then obtain out where "cs_receipts st' = consumed now i ?key out (cs_receipts st)"
      using assms by (auto simp: collect_one_def consume_result_def own_receipt_def consumed_def and_then_Inr_iff)
    then show ?thesis using rc by (auto simp: settled_def own_receipt_consumed split: option.splits)
  qed
  then show "settled i st' res" "settled i st other \<Longrightarrow> settled i st' other" by auto
qed

lemma collect_one_by_one_settles:
  assumes "collect_one_by_one env now i results st = (None, st')"
  shows "res \<in> set results \<or> settled i st res \<Longrightarrow> settled i st' res"
  using assms
proof (induction results arbitrary: st)
  case (Cons r results)
  then obtain mid where "collect_one env now i r st = Inr mid" "collect_one_by_one env now i results mid = (None, st')"
    by (auto split: sum.splits)
  then show ?case using Cons.IH Cons.prems collect_one_settles by (metis set_ConsD)
qed simp

lemma collect_one_by_one_settled:
  assumes "\<forall>res \<in> set results. settled i st res"
  shows "collect_one_by_one env now i results st = (None, st)"
  using assms by (induction results) (simp_all add: collect_one_settled)


lemma results_settle:
  assumes "collect_results env now i results st = (None, st')"
  shows "collect_results env' now' i results st' = (None, st')"
  using assms collect_one_by_one_settles [of env now i results st st'] collect_one_by_one_settled [of results i st']
  by (simp add: filter_collection)

definition sample_filter_env :: collect_env where
  "sample_filter_env =
     \<lparr>ce_sha = (\<lambda>s. s), ce_call_of = (\<lambda>_ _. Some 7), ce_writer = \<lparr>wr_name = ''w1'', wr_config_name = None\<rparr>,
      ce_parse = (\<lambda>s. if s = ''yes'' then Some (True, Some ''senior'') else None), ce_label = ''user1:early'',
      ce_snapshot = \<lparr>fs_name = ''early'', fs_prompt = ''p'', fs_on_ambiguous = ''keep'', fs_prompt_hash = ''h''\<rparr>,
      ce_by_url = [(''u1'', [(''company'', JStr ''Acme''), (''title'', JStr ''Engineer'')])]\<rparr>"

definition sample_filter_result :: filter_result where
  "sample_filter_result =
     ((BatchResult_of ''u1'')\<lparr>r_text := Some ''yes'', r_batch_id := Some ''b1'', r_model := Some ''gpt-5-mini''\<rparr>, None)"

definition sample_filter_state :: collect_state where
  "sample_filter_state =
     \<lparr>cs_receipts = [receipt_of 4 (fst sample_filter_result)], cs_verdicts = \<lparr>vd_rows = [], vd_texts = []\<rparr>\<rparr>"

text \<open>
  A collection that ended without an error, run again over the same results by any later attempt
  of the task, with any reader of answers, writes nothing.
\<close>

theorem collecting_again_writes_nothing:
  assumes "collect_results env now i results st = (None, st')"
  shows "collect_results env' now' i results st' = (None, st')"
  using assms by (rule results_settle)

theorem collecting_again_writes_nothing_witness:
  "\<exists>st'. collect_results sample_filter_env 5 4 [sample_filter_result] sample_filter_state = (None, st')
     \<and> length (vd_rows (cs_verdicts st')) = 1
     \<and> collect_results sample_filter_env 9 4 [sample_filter_result] st' = (None, st')"
proof -
  have "case collect_one_by_one sample_filter_env 5 4 [sample_filter_result] sample_filter_state of
          (e, st') \<Rightarrow> e = None \<and> length (vd_rows (cs_verdicts st')) = 1"
    by code_simp
  then obtain st' where st': "collect_results sample_filter_env 5 4 [sample_filter_result] sample_filter_state = (None, st')"
      "length (vd_rows (cs_verdicts st')) = 1"
    by (auto simp: filter_collection split: prod.splits)
  then show ?thesis using collecting_again_writes_nothing [OF st'(1)] by blast
qed

end
