(* ===== verification/Pay_Screen.thy ===== *)
theory Pay_Screen
  imports Screening Entitlements
begin

text \<open>
  Pay screens (\<open>core/pay_screen.py\<close>): the figures a posting states, and the rule that rejects it
  when all are under a bar. A pattern is matched by its alternatives in the order Python's \<open>re\<close>
  tries them: a parser gives the list of its matches, best first, and a search takes the first one
  at the first place. Text is ASCII, so the Unicode dashes of a range do not occur; a figure is a
  rational.
\<close>

section \<open>Figures\<close>

text \<open>Greedy repetition of one character class: the longest run first, down to \<open>least\<close>.\<close>

definition run_of :: "(char \<Rightarrow> bool) \<Rightarrow> nat \<Rightarrow> nat option \<Rightarrow> string \<Rightarrow> (string \<times> string) list" where
  "run_of ok least most s =
     (let longest = length (takeWhile ok s);
          top = (case most of None \<Rightarrow> longest | Some m \<Rightarrow> min m longest) in
      map (\<lambda>n. (take n s, drop n s)) (rev [least..<Suc top]))"

definition digits :: "nat \<Rightarrow> nat option \<Rightarrow> string \<Rightarrow> (string \<times> string) list" where
  "digits = run_of is_digit"

definition literal :: "char \<Rightarrow> string \<Rightarrow> string list" where
  "literal c s = (case s of [] \<Rightarrow> [] | d # rest \<Rightarrow> if d = c then [rest] else [])"

text \<open>\<open>(?:,\<dots>{3})+\<close>: as many groups of three digits as follow, then fewer.\<close>

function thousands :: "string \<Rightarrow> (string \<times> string) list" where
  "thousands [] = []"
| "thousands (c # rest) =
     (if c \<noteq> CHR '','' \<or> length (takeWhile is_digit rest) < 3 then []
      else map (\<lambda>(later, rest'). (take 3 rest @ later, rest')) (thousands (drop 3 rest)) @ [(take 3 rest, drop 3 rest)])"
  by pat_completeness auto
termination
  by (relation "measure length") auto

text \<open>\<open>(?:\<dots>)?\<close> with a fraction: the digits after a point, first with it, then without.\<close>

definition fraction :: "string \<Rightarrow> (string \<times> string) list" where
  "fraction s = concat (map (digits 1 None) (literal (CHR ''.'') s)) @ [('''', s)]"

definition decimal :: "string \<Rightarrow> rat" where
  "decimal ds = of_nat (foldl (\<lambda>n c. 10 * n + (of_char c - 48)) 0 ds)"

definition figure_value :: "string \<Rightarrow> string \<Rightarrow> rat" where
  "figure_value whole tail_digits = decimal whole + decimal tail_digits / 10 ^ length tail_digits"

definition grouped_figure :: "string \<Rightarrow> (rat \<times> string) list" where
  "grouped_figure s = concat (map (\<lambda>(lead, rest). concat (map (\<lambda>(groups, rest').
     map (\<lambda>(tail_digits, rest''). (figure_value (lead @ groups) tail_digits, rest'')) (fraction rest')) (thousands rest)))
     (digits 1 (Some 3) s))"

definition plain_figure :: "string \<Rightarrow> (rat \<times> string) list" where
  "plain_figure s = concat (map (\<lambda>(whole, rest). map (\<lambda>(tail_digits, rest'). (figure_value whole tail_digits, rest')) (fraction rest))
     (digits 1 None s))"

definition maybe_space :: "string \<Rightarrow> string list" where
  "maybe_space s = map snd (run_of is_white 0 (Some 1) s)"

text \<open>\<open>([kK]\<dots>)?\<close>: the letter and a word boundary after it.\<close>

definition maybe_k :: "string \<Rightarrow> (bool \<times> string) list" where
  "maybe_k s =
     (case s of
        c # rest \<Rightarrow> if c \<in> {CHR ''k'', CHR ''K''} \<and> \<not> word_at rest then [(True, rest)] else []
      | [] \<Rightarrow> []) @ [(False, s)]"

text \<open>\<open>_AMOUNT\<close>: a dollar sign, a figure and whether it is in thousands.\<close>

definition AMOUNT :: "string \<Rightarrow> ((rat \<times> bool) \<times> string) list" where
  "AMOUNT s = concat (map (\<lambda>s1. concat (map (\<lambda>s2. concat (map (\<lambda>(v, s3). concat (map (\<lambda>s4.
       map (\<lambda>(k, s5). ((v, k), s5)) (maybe_k s4)) (maybe_space s3))) (grouped_figure s2 @ plain_figure s2)))
     (maybe_space s1))) (literal (CHR 0x24) s))"

definition spaces :: "string \<Rightarrow> string list" where
  "spaces s = map snd (run_of is_white 0 None s)"

definition range_word :: "string \<Rightarrow> string list" where
  "range_word s = literal (CHR ''-'') s @ concat (map (literal (CHR ''o'')) (literal (CHR ''t'') s))"

definition RANGE :: "string \<Rightarrow> ((rat \<times> bool) \<times> string) list" where
  "RANGE s = concat (map (\<lambda>(_, s1). concat (map (\<lambda>s2. concat (map (\<lambda>s3. concat (map AMOUNT (spaces s3)))
     (range_word s2))) (spaces s1))) (AMOUNT s))"

text \<open>
  \<open>finditer\<close>: the first match at the first place, then on from its end; a match consumes at least
  its dollar sign. A match keeps its value, the text before it and the text after it.
\<close>

record figure =
  fg_value :: "rat \<times> bool"
  fg_before :: string
  fg_after :: string

function finditer :: "(string \<Rightarrow> ((rat \<times> bool) \<times> string) list) \<Rightarrow> string \<Rightarrow> string \<Rightarrow> figure list" where
  "finditer pat past [] = []"
| "finditer pat past (c # cs) =
     (case filter (\<lambda>m. length (snd m) \<le> length cs) (pat (c # cs)) of
        [] \<Rightarrow> finditer pat (past @ [c]) cs
      | (v, rest) # _ \<Rightarrow>
          \<lparr>fg_value = v, fg_before = past, fg_after = rest\<rparr>
          # finditer pat (past @ take (Suc (length cs) - length rest) (c # cs)) rest)"
  by pat_completeness auto
termination
  by (relation "measure (\<lambda>(pat, past, s). length s)") (auto dest!: filter_eq_ConsD)

section \<open>The screen\<close>

definition HOURLY :: string where
  "HOURLY = ''/`s*h(?:ou)?r|per`s+hour|an`s+hour|hourly|/hr''"

definition PLACE :: string where
  "PLACE = ''based in|located in|candidates in|residing in|`bzone`b|`btier`s*`d|`btier`s+[ab]`b|''
     @ ''metro(?:politan)? area|california|new york|washington|colorado|`bnyc`b|`bsf`b|''
     @ ''bay area|seattle''"

definition HOURS_PER_YEAR :: rat where "HOURS_PER_YEAR = 2080"

definition yearly :: "figure \<Rightarrow> rat" where
  "yearly m =
     (let v = fst (fg_value m) * (if snd (fg_value m) then 1000 else 1) in
      if v < 300 \<and> matches_title Python HOURLY (take 40 (fg_after m)) then v * HOURS_PER_YEAR else v)"

text \<open>The text from 200 characters before a range to 80 after it.\<close>

definition around :: "string \<Rightarrow> figure \<Rightarrow> string" where
  "around page m =
     (let start = length (fg_before m) - 200; stop = length page - length (fg_after m) + 80 in
      take (stop - start) (drop start page))"

definition stated_top :: "string \<Rightarrow> rat option" where
  "stated_top page =
     (let ranges = finditer RANGE [] page in
      if \<not> (\<exists>r \<in> set ranges. yearly r \<ge> 20000) then None
      else if \<exists>r \<in> set ranges. matches_title Python PLACE (around page r) then None
      else Some (Max (set (map yearly (finditer AMOUNT [] page)))))"

definition BARS :: "(string \<times> rat) list" where
  "BARS = [(''stated_base_under_150k_v1'', 150000)]"

text \<open>The format \<open>{:,.0f}\<close>: the nearest integer, an even one in the middle.\<close>

definition nearest_even :: "rat \<Rightarrow> int" where
  "nearest_even q =
     (let n = \<lfloor>q\<rfloor>; d = q - of_int n in
      if d < 1 / 2 then n else if d > 1 / 2 then n + 1 else if even n then n else n + 1)"

definition pay_screen :: "string \<Rightarrow> string \<Rightarrow> string option result" where
  "pay_screen recipe page =
     (case map_of BARS recipe of
        None \<Rightarrow> Inl (KeyError recipe)
      | Some bar \<Rightarrow>
          Inr (case stated_top page of
                 None \<Rightarrow> None
               | Some highest \<Rightarrow>
                   if highest \<ge> bar then None
                   else Some (''Stated pay tops out at $'' @ commas (nearest_even highest) @ '', under the $''
                              @ commas (nearest_even bar) @ '' base bar.'')))"


section \<open>When it rejects\<close>

text \<open>A match of a figure consumes its dollar sign, so a search goes on.\<close>

lemma run_of_shorter: "m \<in> set (run_of ok least most s) \<Longrightarrow> length (snd m) \<le> length s"
  by (auto simp: run_of_def Let_def)

lemma literal_shorter: "r \<in> set (literal c s) \<Longrightarrow> length r < length s"
  by (auto simp: literal_def split: list.splits if_splits)

lemma thousands_shorter: "m \<in> set (thousands s) \<Longrightarrow> length (snd m) \<le> length s"
  by (induction s arbitrary: m rule: thousands.induct) (fastforce split: if_splits)+

lemma fraction_shorter: "m \<in> set (fraction s) \<Longrightarrow> length (snd m) \<le> length s"
  by (auto simp: fraction_def digits_def dest!: literal_shorter run_of_shorter)

lemma figure_shorter: "m \<in> set (grouped_figure s @ plain_figure s) \<Longrightarrow> length (snd m) \<le> length s"
  by (auto simp: grouped_figure_def plain_figure_def digits_def
      dest!: thousands_shorter fraction_shorter run_of_shorter)

lemma maybe_k_shorter: "m \<in> set (maybe_k s) \<Longrightarrow> length (snd m) \<le> length s"
  by (auto simp: maybe_k_def split: list.splits if_splits)

lemma AMOUNT_shorter: "m \<in> set (AMOUNT s) \<Longrightarrow> length (snd m) < length s"
proof -
  assume "m \<in> set (AMOUNT s)"
  then obtain s1 s2 v s3 s4 k where m: "s1 \<in> set (literal (CHR 0x24) s)" "s2 \<in> set (maybe_space s1)"
      "(v, s3) \<in> set (grouped_figure s2 @ plain_figure s2)" "s4 \<in> set (maybe_space s3)" "(k, snd m) \<in> set (maybe_k s4)"
    by (fastforce simp: AMOUNT_def)
  have spaced: "length b \<le> length a" if "b \<in> set (maybe_space a)" for a b
    using that by (auto simp: maybe_space_def dest: run_of_shorter)
  have "length s1 < length s" "length s3 \<le> length s2" "length (snd m) \<le> length s4"
    using literal_shorter [OF m(1)] figure_shorter [OF m(3)] maybe_k_shorter [OF m(5)] by simp_all
  then show ?thesis using spaced [OF m(2)] spaced [OF m(4)] by simp
qed

lemma RANGE_AMOUNT: "AMOUNT s = [] \<Longrightarrow> RANGE s = []"
  by (simp add: RANGE_def)

lemma no_figure_no_range: "finditer AMOUNT past s = [] \<Longrightarrow> finditer RANGE past' s = []"
proof (induction s arbitrary: past past')
  case (Cons c cs)
  have "filter (\<lambda>m. length (snd m) \<le> length cs) (AMOUNT (c # cs)) = AMOUNT (c # cs)"
    using AMOUNT_shorter [of _ "c # cs"] by (auto simp: filter_id_conv less_Suc_eq_le)
  then have none: "AMOUNT (c # cs) = []" using Cons.prems by (auto split: list.splits)
  then show ?case using Cons RANGE_AMOUNT [OF none] by simp
qed simp


text \<open>
  A pay screen rejects a posting exactly when it knows the rule, every dollar figure of the text is
  under the bar, some range is of yearly scale and no range is tied to a place.
\<close>

theorem pay_screen_rejects_only_stated_low_pay:
  "(\<exists>why. pay_screen recipe page = Inr (Some why)) \<longleftrightarrow>
     (\<exists>bar. map_of BARS recipe = Some bar
        \<and> list_all (\<lambda>m. yearly m < bar) (finditer AMOUNT [] page)
        \<and> list_ex (\<lambda>r. 20000 \<le> yearly r) (finditer RANGE [] page)
        \<and> \<not> list_ex (\<lambda>r. matches_title Python PLACE (around page r)) (finditer RANGE [] page))"
proof -
  let ?figures = "finditer AMOUNT [] page" and ?ranges = "finditer RANGE [] page"
  have "(Max (yearly ` set ?figures) < bar) = list_all (\<lambda>m. yearly m < bar) ?figures" if "?ranges \<noteq> []" for bar
  proof -
    have "?figures \<noteq> []" using that no_figure_no_range [of "[]" page "[]"] by blast
    then show ?thesis by (simp add: list_all_iff)
  qed
  then have low: "(bar \<le> Max (yearly ` set ?figures)) \<longleftrightarrow> \<not> list_all (\<lambda>m. yearly m < bar) ?figures"
    if "r \<in> set ?ranges" for bar r
    using that by (metis empty_iff empty_set not_less)
  then show ?thesis
    by (auto simp: pay_screen_def stated_top_def Let_def list_ex_iff split: option.splits if_splits)
qed

text \<open>The largest figure is of a text that has one: the screen never takes the maximum of nothing.\<close>

lemma stated_top_of_a_figure: "stated_top page = Some q \<Longrightarrow> q \<in> yearly ` set (finditer AMOUNT [] page)"
  using no_figure_no_range [of "[]" page "[]"]
  by (auto simp: stated_top_def Let_def intro!: Max_in split: if_splits)

end
