(* ===== verification/Filter_Runs.thy ===== *)
theory Filter_Runs
  imports Filtering Pay_Screen
begin

text \<open>
  A person's filter run (\<open>tasks/filtering/personal_runs.py\<close>), from the transport its work may
  take (\<open>tasks/batch_policy.py\<close>, \<open>fallback_config\<close> of \<open>tasks/filtering/execution.py\<close>) over the
  split into chunks to what a chunk leaves to others before it submits (\<open>tasks/board.py\<close>), and the
  admission of a run (\<open>api/filter_runs.py\<close>). The candidate query, the near-copy keys of postings,
  the resolved configuration and the pages of postings are arguments; adding what passed to a
  person's board is the follow-up \<open>Materialize_passing\<close>.
\<close>

section \<open>Transport\<close>

definition truthy_at :: "object \<Rightarrow> string \<Rightarrow> bool" where
  "truthy_at p k = (case get p k of None \<Rightarrow> False | Some v \<Rightarrow> truthy_json v)"

definition scheduled_payload :: "object \<Rightarrow> bool" where
  "scheduled_payload p \<longleftrightarrow> truthy_at p ''scheduled'' \<or> truthy_at p ''batched''"

text \<open>The queue refuses a \<open>parent_id\<close> that is no integer (\<open>parent_column\<close>).\<close>

definition scheduled :: "Task list \<Rightarrow> object \<Rightarrow> bool" where
  "scheduled tbl p \<longleftrightarrow> scheduled_payload p
     \<or> (case get p ''parent_id'' of
          Some (JNum n) \<Rightarrow> n \<noteq> 0 \<and> (case row tbl n of None \<Rightarrow> False | Some t \<Rightarrow> scheduled_payload (payload t))
        | _ \<Rightarrow> False)"

definition unsupported_message :: "AIConfig \<Rightarrow> string" where
  "unsupported_message cfg =
     ''BATCH_UNSUPPORTED: scheduled work is blocked for '' @ cf_provider cfg @ ''/'' @ cf_model cfg
     @ '' with '' @ cf_key_source cfg @ '' credentials; no supported batch transport''"

text \<open>The refusal is written to the task's progress, then raised.\<close>

definition unsupported ::
  "instant \<Rightarrow> TaskClaim option \<Rightarrow> int \<Rightarrow> AIConfig \<Rightarrow> Task list \<Rightarrow> 'a result \<times> Task list" where
  "unsupported now cur i cfg tbl =
     (Inl (RuntimeError (unsupported_message cfg)), set_progress now cur i 0 0 (unsupported_message cfg) [] tbl)"

definition transport_ok :: "AIConfig \<Rightarrow> bool" where
  "transport_ok cfg \<longleftrightarrow> cf_key_source cfg = ''owner'' \<and> cf_provider cfg \<in> {''openai'', ''anthropic''}
     \<and> Option.bind (map_of PROVIDERS (cf_provider cfg)) batch_endpoint \<noteq> None"

definition require_transport ::
  "instant \<Rightarrow> TaskClaim option \<Rightarrow> int \<Rightarrow> AIConfig \<Rightarrow> Task list \<Rightarrow> unit result \<times> Task list" where
  "require_transport now cur i cfg tbl =
     (if transport_ok cfg then (Inr (), tbl) else unsupported now cur i cfg tbl)"

definition batch_model_ok :: "string \<Rightarrow> bool" where
  "batch_model_ok m =
     (case model (Some m) of
        None \<Rightarrow> False
      | Some d \<Rightarrow> unavailable_reason m = None \<and> mode (structured_output d) = JSON_SCHEMA)"

definition require_config ::
  "instant \<Rightarrow> TaskClaim option \<Rightarrow> int \<Rightarrow> AIConfig \<Rightarrow> Task list \<Rightarrow> unit result \<times> Task list" where
  "require_config now cur i cfg tbl =
     (case require_transport now cur i cfg tbl of
        (Inl e, tbl') \<Rightarrow> (Inl e, tbl')
      | (Inr _, tbl') \<Rightarrow> if batch_model_ok (cf_model cfg) then (Inr (), tbl') else unsupported now cur i cfg tbl')"

definition run_transport ::
  "instant \<Rightarrow> TaskClaim option \<Rightarrow> int \<Rightarrow> AIConfig \<Rightarrow> Task list \<Rightarrow> string result \<times> Task list" where
  "run_transport now cur i cfg tbl =
     (if cf_key_source cfg \<noteq> ''owner'' then (Inr ''live'', tbl)
      else case require_config now cur i cfg tbl of
        (Inl e, tbl') \<Rightarrow> (Inl e, tbl')
      | (Inr _, tbl') \<Rightarrow> (Inr ''batch'', tbl'))"

text \<open>
  \<open>str\<close> of a setting. An effort is a name or a number (\<open>validate_params\<close>); the text of a list or
  an object is not read.
\<close>

fun str_of :: "json \<Rightarrow> string" where
  "str_of (JStr s) = s"
| "str_of (JNum n) = show_int n"
| "str_of (JBool b) = (if b then ''True'' else ''False'')"
| "str_of _ = ''None''"

definition filter_effort :: "object \<Rightarrow> string" where
  "filter_effort params =
     (if truthy_at params ''reasoning_effort'' then str_of (the (get params ''reasoning_effort''))
      else if truthy_at params ''effort'' then str_of (the (get params ''effort''))
      else ''medium'')"

definition EFFORT_KEYS :: "string list" where "EFFORT_KEYS = [''reasoning_effort'', ''effort'']"

definition effort_params :: "(string \<times> pvalue) list \<Rightarrow> object" where
  "effort_params ps = map (\<lambda>(k, v). (k, param_json (Some v))) (filter (\<lambda>kv. fst kv \<in> set EFFORT_KEYS) ps)"

definition fallback_config ::
  "instant \<Rightarrow> fallback_env \<Rightarrow> HealthAlert list \<Rightarrow> (string \<Rightarrow> string) \<Rightarrow> string \<Rightarrow> AIConfig \<Rightarrow> AIConfig result" where
  "fallback_config now fenv alerts key purp cfg =
     (if cf_key_source cfg \<noteq> ''owner'' \<or> cf_provider cfg \<notin> set (blocked_providers now (fb_cycle_minutes fenv) alerts)
      then Inr cfg
      else and_then (custom_filter_shape (cf_model cfg) (Some (filter_effort (cf_params cfg))) purp) (\<lambda>shape.
        case route now fenv alerts shape None of
          Inl (NoEligibleModel _) \<Rightarrow> Inr cfg
        | Inl (Raised e) \<Rightarrow> Inl e
        | Inr choice \<Rightarrow>
            if c_fallback_from choice = None then Inr cfg
            else Inr (cfg\<lparr>cf_provider := c_provider choice, cf_model := c_model choice, cf_api_key := key (c_provider choice),
                          cf_params := merge (drop_keys EFFORT_KEYS (cf_params cfg)) (effort_params (c_params choice)),
                          cf_fallback_from := Some (cf_model cfg)\<rparr>)))"

section \<open>Postings that chunks hold\<close>

text \<open>\<open>CHUNK_URLS\<close>: the urls of an inline list, and the urls beside a reference.\<close>

definition url_text :: "json \<Rightarrow> string option" where
  "url_text job = (case job of JObj kvs \<Rightarrow> get_text kvs ''url'' | _ \<Rightarrow> None)"

definition json_items :: "object \<Rightarrow> string \<Rightarrow> json list" where
  "json_items p k = (case get p k of Some (JArr vs) \<Rightarrow> vs | _ \<Rightarrow> [])"

definition CHUNK_URLS :: "object \<Rightarrow> string list" where
  "CHUNK_URLS p = List.map_filter url_text (json_items p ''jobs'') @ List.map_filter json_text (json_items p ''urls'')"

definition filter_chunk :: "int \<Rightarrow> Task \<Rightarrow> bool" where
  "filter_chunk uid t \<longleftrightarrow> kind t \<in> set (po_kinds FILTER_CHUNKS) \<and> bigint_at (payload t) ''user_id'' = Some uid"

definition chunk_runs :: "run_config list \<Rightarrow> string \<Rightarrow> Task \<Rightarrow> bool" where
  "chunk_runs configs hash t \<longleftrightarrow>
     (\<exists>c \<in> set configs. Some (rc_id c) = bigint_at (payload t) ''config_id'' \<and> rc_kind c = ''filter''
        \<and> get_text (rc_body c) ''prompt_hash'' = Some hash)"

definition unfinished_chunk :: "Task \<Rightarrow> bool" where
  "unfinished_chunk t \<longleftrightarrow> status t \<in> {Pending, Running, Waiting, Awaiting_batch} \<or> json_items (payload t) ''batch_ids'' \<noteq> []"

definition chunk_owner :: "run_config list \<Rightarrow> int \<Rightarrow> int \<Rightarrow> string \<Rightarrow> Task \<Rightarrow> bool" where
  "chunk_owner configs i uid hash t \<longleftrightarrow>
     tid t < i \<and> filter_chunk uid t \<and> chunk_runs configs hash t \<and> unfinished_chunk t"

definition decided_url :: "string \<Rightarrow> string list \<Rightarrow> ai_row list \<Rightarrow> string \<Rightarrow> bool" where
  "decided_url hash models rows url \<longleftrightarrow>
     (\<exists>rw \<in> set rows. is_verdict rw \<and> ai_url rw = url \<and> custom_row hash (Some models) rw)"

definition submission_exclusions ::
  "run_config list \<Rightarrow> Task list \<Rightarrow> ai_row list \<Rightarrow> int \<Rightarrow> int \<Rightarrow> string list \<Rightarrow> string \<Rightarrow> string list \<Rightarrow> string list" where
  "submission_exclusions configs tbl rows i uid urls hash models =
     filter (\<lambda>url. decided_url hash models rows url
               \<or> (\<exists>t \<in> set tbl. chunk_owner configs i uid hash t \<and> url \<in> set (CHUNK_URLS (payload t)))) urls"

definition in_flight_urls :: "Task list \<Rightarrow> int \<Rightarrow> string list" where
  "in_flight_urls tbl uid =
     remdups (concat (map (CHUNK_URLS \<circ> payload)
       (filter (\<lambda>t. filter_chunk uid t \<and> status t \<in> {Pending, Running, Awaiting_batch}) tbl)))"


section \<open>Near copies\<close>

record posting =
  pt_url :: string
  pt_company :: string
  pt_title :: string
  pt_source :: string

definition posting_json :: "posting \<Rightarrow> json" where
  "posting_json p = JObj [(''url'', JStr (pt_url p)), (''company'', JStr (pt_company p)), (''title'', JStr (pt_title p)),
     (''source'', JStr (pt_source p))]"

record user_filter =
  uf_id :: int
  uf_name :: string
  uf_prompt :: string
  uf_on_ambiguous :: string
  uf_prompt_hash :: string

type_synonym copy_key = "string \<times> string"

definition twin_row :: "user_filter \<Rightarrow> string \<Rightarrow> posting \<Rightarrow> ai_row \<Rightarrow> ai_row" where
  "twin_row flt mdl p twin =
     (ai_row_of (pt_url p) (ai_status twin) (ai_reason twin) ''custom'')
       \<lparr>ai_model := Some mdl, ai_filter_name := ai_filter_name twin, ai_prompt_hash := Some (uf_prompt_hash flt),
        ai_parsed_json := ai_parsed_json twin, ai_company := Some (pt_company p), ai_job_title := Some (pt_title p),
        ai_config_name := Some ''filter-near-copy''\<rparr>"

text \<open>
  The loop of \<open>_take_twin_verdicts\<close>: \<open>reading\<close> are the groups being read. A posting of a decided
  group takes its verdict; one of a group being read is left for later.
\<close>

fun take_twins ::
  "writer \<Rightarrow> user_filter \<Rightarrow> string \<Rightarrow> (copy_key \<Rightarrow> ai_row option) \<Rightarrow> (string \<Rightarrow> copy_key option) \<Rightarrow> copy_key list
   \<Rightarrow> posting list \<Rightarrow> (ai_row list \<times> posting list) result" where
  "take_twins w flt mdl decided key reading [] = Inr ([], [])"
| "take_twins w flt mdl decided key reading (p # ps) =
     (case key (pt_url p) of
        None \<Rightarrow> and_then (take_twins w flt mdl decided key reading ps) (\<lambda>(rows, still). Inr (rows, p # still))
      | Some k \<Rightarrow>
          (case decided k of
             Some twin \<Rightarrow>
               and_then (ai_result_row w (twin_row flt mdl p twin)) (\<lambda>rw.
               and_then (take_twins w flt mdl decided key reading ps) (\<lambda>(rows, still). Inr (rw # rows, still)))
           | None \<Rightarrow>
               if k \<in> set reading then take_twins w flt mdl decided key reading ps
               else and_then (take_twins w flt mdl decided key (k # reading) ps) (\<lambda>(rows, still). Inr (rows, p # still))))"

definition decided_twin ::
  "(string \<Rightarrow> copy_key option) \<Rightarrow> string list \<Rightarrow> string \<Rightarrow> string list \<Rightarrow> ai_row list \<Rightarrow> copy_key \<Rightarrow> ai_row option" where
  "decided_twin key urls hash models rows k =
     latest_row (\<lambda>rw. key (ai_url rw) = Some k \<and> ai_url rw \<notin> set urls \<and> custom_row hash (Some models) rw) rows"

text \<open>What a run reads beside the queue: the row writers' arguments, settings, candidates and configuration.\<close>

record 'o filter_env =
  fr_sha :: "string \<Rightarrow> string"
  fr_call_of :: "string \<Rightarrow> string \<Rightarrow> int option"
  fr_writer :: writer
  fr_groups :: "Group list"
  fr_near_copy_reuse :: bool
  fr_copy_key :: "string \<Rightarrow> copy_key option"
  fr_chunk_size :: nat
  fr_batch_chunk_size :: nat
  fr_title_screens :: "(string \<times> string) list"
  fr_candidates :: "posting list"
  fr_config :: "access_reason + Entitlement \<times> AIConfig"
  fr_store :: "'o store"
  fr_digest :: "string \<Rightarrow> json \<Rightarrow> string"

definition answering_models :: "'o filter_env \<Rightarrow> string \<Rightarrow> string list" where
  "answering_models env mdl = answering (fr_groups env) ''custom'' mdl"

definition take_twin_verdicts ::
  "'o filter_env \<Rightarrow> posting list \<Rightarrow> user_filter \<Rightarrow> string \<Rightarrow> string list \<Rightarrow> verdict_db
   \<Rightarrow> (posting list \<times> verdict_db) result" where
  "take_twin_verdicts env todo flt mdl held db =
     (let key = fr_copy_key env in
      if todo = [] \<or> \<not> fr_near_copy_reuse env then Inr (todo, db)
      else if List.map_filter (key \<circ> pt_url) todo = [] then Inr (todo, db)
      else
        and_then (take_twins (fr_writer env) flt mdl
            (decided_twin key (map pt_url todo) (uf_prompt_hash flt) (answering_models env mdl) (vd_rows db))
            key (List.map_filter key held) todo) (\<lambda>(rows, still).
        and_then (add_ai_results (fr_sha env) (fr_call_of env) rows db) (\<lambda>db'. Inr (still, db'))))"

section \<open>Splitting a run\<close>

function slices :: "nat \<Rightarrow> 'a list \<Rightarrow> 'a list list" where
  "slices n xs = (if n = 0 \<or> xs = [] then [] else take n xs # slices n (drop n xs))"
  by pat_completeness auto
termination
  by (relation "measure (length \<circ> snd)") auto

declare slices.simps [simp del]

text \<open>\<open>[j for j in todo if not screen(recipe, ...).skip]\<close>; an unknown recipe raises.\<close>

fun pass_screen :: "string \<Rightarrow> posting list \<Rightarrow> posting list result" where
  "pass_screen recipe [] = Inr []"
| "pass_screen recipe (p # ps) =
     and_then (screen recipe (Some (pt_title p)) (Some (pt_source p))) (\<lambda>s.
     and_then (pass_screen recipe ps) (\<lambda>rest. Inr (if skip s then rest else p # rest)))"

definition title_screened :: "'o filter_env \<Rightarrow> string \<Rightarrow> posting list \<Rightarrow> posting list result" where
  "title_screened env hash todo =
     (case map_of (fr_title_screens env) hash of
        None \<Rightarrow> Inr todo
      | Some recipe \<Rightarrow> if recipe = '''' then Inr todo else pass_screen recipe todo)"

datatype unit_mode = Batch_unit | Live_unit

type_synonym work_unit = "unit_mode \<times> user_filter \<times> posting list"

text \<open>One filter's postings: those undecided, past the screen and not answered or awaited by a near copy.\<close>

definition filter_todo ::
  "'o filter_env \<Rightarrow> string list \<Rightarrow> posting list \<Rightarrow> string \<Rightarrow> user_filter \<Rightarrow> verdict_db \<Rightarrow> (posting list \<times> verdict_db) result" where
  "filter_todo env held offered mdl flt db =
     and_then (decided_custom_urls (fr_sha env) (map pt_url offered) (uf_prompt_hash flt)
                 (Some (answering_models env mdl)) db) (\<lambda>decided.
     and_then (title_screened env (uf_prompt_hash flt) (filter (\<lambda>p. pt_url p \<notin> set decided) offered)) (\<lambda>todo.
       take_twin_verdicts env todo flt mdl held db))"

definition units_of :: "'o filter_env \<Rightarrow> bool \<Rightarrow> user_filter \<Rightarrow> posting list \<Rightarrow> work_unit list" where
  "units_of env use_batch flt todo =
     (if use_batch then map (\<lambda>jobs. (Batch_unit, flt, jobs)) (slices (fr_batch_chunk_size env) todo)
      else map (\<lambda>jobs. (Live_unit, flt, jobs)) (slices (fr_chunk_size env) todo))"

text \<open>Filter by filter; the near-copy rows of a filter are written before the next one is read.\<close>

fun plan_units ::
  "'o filter_env \<Rightarrow> bool \<Rightarrow> string list \<Rightarrow> posting list \<Rightarrow> string \<Rightarrow> user_filter list \<Rightarrow> verdict_db
   \<Rightarrow> work_unit list result \<times> verdict_db" where
  "plan_units env use_batch held offered mdl [] db = (Inr [], db)"
| "plan_units env use_batch held offered mdl (flt # flts) db =
     (case filter_todo env held offered mdl flt db of
        Inl e \<Rightarrow> (Inl e, db)
      | Inr (todo, db') \<Rightarrow>
          (case plan_units env use_batch held offered mdl flts db' of
             (units, db'') \<Rightarrow> (and_then units (\<lambda>us. Inr (units_of env use_batch flt todo @ us)), db'')))"


section \<open>Queueing the chunks\<close>

record 'o run_state =
  rn_queue :: queue
  rn_verdicts :: verdict_db
  rn_configs :: "run_config list"
  rn_config_seq :: int
  rn_objects :: 'o

text \<open>Every batch list is stored before a chunk exists; the first upload that fails is raised.\<close>

fun store_lists :: "'o store \<Rightarrow> posting list list \<Rightarrow> 'o \<Rightarrow> PayloadRef list result \<times> 'o" where
  "store_lists st [] objs = (Inr [], objs)"
| "store_lists st (jobs # rest) objs =
     (case put_verified st (JArr (map posting_json jobs)) objs of (ref, objs') \<Rightarrow>
      case store_lists st rest objs' of (refs, objs'') \<Rightarrow>
        (and_then ref (\<lambda>r. and_then refs (\<lambda>rs. Inr (r # rs))), objs''))"

definition filter_body :: "user_filter \<Rightarrow> object" where
  "filter_body flt = [(''name'', JStr (uf_name flt)), (''prompt'', JStr (uf_prompt flt)),
     (''on_ambiguous'', JStr (uf_on_ambiguous flt)), (''prompt_hash'', JStr (uf_prompt_hash flt))]"

definition unit_kind :: "unit_mode \<Rightarrow> string" where
  "unit_kind m = (case m of Batch_unit \<Rightarrow> ''run_filter_batch_chunk'' | Live_unit \<Rightarrow> ''run_filter_chunk'')"

definition chunk_payload ::
  "int \<Rightarrow> int \<Rightarrow> user_filter \<Rightarrow> int \<Rightarrow> object \<Rightarrow> bool \<Rightarrow> bool \<Rightarrow> object" where
  "chunk_payload i uid flt cid jobs ignore_budget batched =
     [(''parent_id'', JNum i), (''user_id'', JNum uid), (''filter_id'', JNum (uf_id flt)), (''config_id'', JNum cid)]
     @ jobs @ [(''ignore_budget'', JBool ignore_budget), (''scheduled'', JBool batched)]"

text \<open>The settings of a filter are interned once in a run (\<open>configs\<close>).\<close>

definition config_for ::
  "(string \<Rightarrow> json \<Rightarrow> string) \<Rightarrow> (int \<times> int) list \<Rightarrow> user_filter \<Rightarrow> 'o run_state
   \<Rightarrow> (int \<times> (int \<times> int) list) result \<times> 'o run_state" where
  "config_for digest known flt st =
     (case map_of known (uf_id flt) of
        Some cid \<Rightarrow> (Inr (cid, known), st)
      | None \<Rightarrow>
          (case intern digest ''filter'' (filter_body flt) (rn_configs st) (rn_config_seq st) of
             Inl e \<Rightarrow> (Inl e, st\<lparr>rn_config_seq := rn_config_seq st + 1\<rparr>)
           | Inr (cid, configs) \<Rightarrow>
               (Inr (cid, (uf_id flt, cid) # known), st\<lparr>rn_configs := configs, rn_config_seq := rn_config_seq st + 1\<rparr>)))"

text \<open>A batch unit takes the next reference; a live one keeps its list inline.\<close>

definition unit_jobs :: "unit_mode \<Rightarrow> posting list \<Rightarrow> PayloadRef list \<Rightarrow> object" where
  "unit_jobs m jobs refs =
     (case m of
        Batch_unit \<Rightarrow> jobs_reference FILTER_CHUNKS (map posting_json jobs) (hd refs)
      | Live_unit \<Rightarrow> [(''jobs'', JArr (map posting_json jobs))])"

fun enqueue_units ::
  "instant \<Rightarrow> 'o filter_env \<Rightarrow> int \<Rightarrow> int \<Rightarrow> bool \<Rightarrow> bool \<Rightarrow> (int \<times> int) list \<Rightarrow> PayloadRef list \<Rightarrow> work_unit list
   \<Rightarrow> 'o run_state \<Rightarrow> unit result \<times> 'o run_state" where
  "enqueue_units now env i uid ignore_budget batched known refs [] st = (Inr (), st)"
| "enqueue_units now env i uid ignore_budget batched known refs ((m, flt, jobs) # units) st =
     (case config_for (fr_digest env) known flt st of
        (Inl e, st') \<Rightarrow> (Inl e, st')
      | (Inr (cid, known'), st') \<Rightarrow>
          (case enqueue now (unit_kind m) (chunk_payload i uid flt cid (unit_jobs m jobs refs) ignore_budget batched) None
                  (rn_queue st') of
             Inl e \<Rightarrow> (Inl e, st')
           | Inr (_, q) \<Rightarrow>
               enqueue_units now env i uid ignore_budget batched known' (if m = Batch_unit then tl refs else refs) units
                 (st'\<lparr>rn_queue := q\<rparr>)))"

text \<open>How a run ends. A single live unit is checked by the run itself (\<open>execute_live\<close>).\<close>

datatype run_end =
    Run_refused access_reason
  | Run_raised py_error
  | Decided_already
  | Ran_live user_filter "posting list"
  | Split nat

definition batch_lists :: "work_unit list \<Rightarrow> posting list list" where
  "batch_lists units = map (snd \<circ> snd) (filter (\<lambda>u. fst u = Batch_unit) units)"

definition split_label :: "work_unit list \<Rightarrow> string" where
  "split_label units =
     (if batch_lists units \<noteq> [] then ''answers arrive in batches, which can take hours''
      else ''checked in '' @ show_nat (length units) @ '' parts'')"

definition set_tasks :: "'o run_state \<Rightarrow> Task list \<Rightarrow> 'o run_state" where
  "set_tasks st tbl = st\<lparr>rn_queue := (rn_queue st)\<lparr>tasks := tbl\<rparr>\<rparr>"

definition split_run ::
  "'o filter_env \<Rightarrow> instant \<Rightarrow> TaskClaim option \<Rightarrow> int \<Rightarrow> int \<Rightarrow> bool \<Rightarrow> bool \<Rightarrow> work_unit list \<Rightarrow> 'o run_state
   \<Rightarrow> run_end \<times> 'o run_state" where
  "split_run env now cur i uid batched ignore_budget units st =
     (case store_lists (fr_store env) (batch_lists units) (rn_objects st) of
        (Inl e, objs) \<Rightarrow> (Run_raised e, st\<lparr>rn_objects := objs\<rparr>)
      | (Inr refs, objs) \<Rightarrow>
          (case enqueue_units now env i uid ignore_budget batched [] refs units (st\<lparr>rn_objects := objs\<rparr>) of
             (Inl e, st') \<Rightarrow> (Run_raised e, st')
           | (Inr _, st') \<Rightarrow>
               (Split (length units),
                set_tasks st' (park_waiting cur i (int (sum_list (map (length \<circ> snd \<circ> snd) units))) (split_label units)
                  (tasks (rn_queue st'))))))"

definition run_filters ::
  "'o filter_env \<Rightarrow> instant \<Rightarrow> TaskClaim option \<Rightarrow> int \<Rightarrow> int \<Rightarrow> user_filter list \<Rightarrow> bool \<Rightarrow> bool \<Rightarrow> 'o run_state
   \<Rightarrow> run_end \<times> 'o run_state" where
  "run_filters env now cur i uid filters batched ignore_budget st =
     (case fr_config env of
        Inl why \<Rightarrow> (Run_refused why, st)
      | Inr (_, cfg) \<Rightarrow>
          (case (if batched then run_transport now cur i cfg (tasks (rn_queue st)) else (Inr ''live'', tasks (rn_queue st))) of
             (Inl e, tbl) \<Rightarrow> (Run_raised e, set_tasks st tbl)
           | (Inr via, tbl) \<Rightarrow>
               let st0 = set_tasks st tbl; held = in_flight_urls tbl uid in
               (case plan_units env (via = ''batch'') held (filter (\<lambda>p. pt_url p \<notin> set held) (fr_candidates env))
                       (cf_model cfg) filters (rn_verdicts st0) of
                  (Inl e, db) \<Rightarrow> (Run_raised e, st0\<lparr>rn_verdicts := db\<rparr>)
                | (Inr units, db) \<Rightarrow>
                    let st1 = st0\<lparr>rn_verdicts := db\<rparr> in
                    (case units of
                       [] \<Rightarrow> (Decided_already,
                               set_tasks st1 (set_progress now cur i 0 0 ''everything already decided'' [] (tasks (rn_queue st1))))
                     | [(Live_unit, flt, jobs)] \<Rightarrow> (Ran_live flt jobs, st1)
                     | _ \<Rightarrow> split_run env now cur i uid batched ignore_budget units st1))))"


section \<open>A chunk before it submits\<close>

type_synonym pages = "(string \<times> Page) list"

definition pay_row :: "user_filter \<Rightarrow> string \<Rightarrow> posting \<Rightarrow> string \<Rightarrow> ai_row" where
  "pay_row flt mdl p why =
     (ai_row_of (pt_url p) ''rejected'' (Some why) ''custom'')
       \<lparr>ai_model := Some mdl, ai_filter_name := Some (uf_name flt), ai_prompt_hash := Some (uf_prompt_hash flt),
        ai_company := Some (pt_company p), ai_job_title := Some (pt_title p),
        ai_config_name := Some ''filter-pay-screen''\<rparr>"

definition page_reason :: "string \<Rightarrow> pages \<Rightarrow> posting \<Rightarrow> string option result" where
  "page_reason recipe contents p =
     (case map_of contents (pt_url p) of None \<Rightarrow> Inr None | Some pg \<Rightarrow> pay_screen recipe (pg_text pg))"

fun settle_each ::
  "writer \<Rightarrow> user_filter \<Rightarrow> string \<Rightarrow> string \<Rightarrow> pages \<Rightarrow> posting list \<Rightarrow> (ai_row list \<times> posting list) result" where
  "settle_each w flt mdl recipe contents [] = Inr ([], [])"
| "settle_each w flt mdl recipe contents (p # ps) =
     and_then (page_reason recipe contents p) (\<lambda>why.
       case why of
         None \<Rightarrow> and_then (settle_each w flt mdl recipe contents ps) (\<lambda>(rows, still). Inr (rows, p # still))
       | Some r \<Rightarrow>
           and_then (ai_result_row w (pay_row flt mdl p r)) (\<lambda>rw.
           and_then (settle_each w flt mdl recipe contents ps) (\<lambda>(rows, still). Inr (rw # rows, still))))"

definition settle_by_stated_pay ::
  "'o filter_env \<Rightarrow> (string \<times> string) list \<Rightarrow> posting list \<Rightarrow> pages \<Rightarrow> user_filter \<Rightarrow> string \<Rightarrow> verdict_db
   \<Rightarrow> (posting list \<times> verdict_db) result" where
  "settle_by_stated_pay env pay_screens jobs contents flt mdl db =
     (case map_of pay_screens (uf_prompt_hash flt) of
        None \<Rightarrow> Inr (jobs, db)
      | Some recipe \<Rightarrow>
          if recipe = '''' then Inr (jobs, db)
          else
            and_then (settle_each (fr_writer env) flt mdl recipe contents jobs) (\<lambda>(rows, still).
            and_then (add_ai_results (fr_sha env) (fr_call_of env) rows db) (\<lambda>db'. Inr (still, db'))))"

text \<open>
  The start of \<open>handle_run_filter_batch_chunk\<close>: a task with batch work collects it; otherwise the
  configuration and the transport say whether its pages are fetched, read as they are stored, or
  its postings checked live. Its filter and its postings are read first (\<open>config_body\<close>, \<open>run_jobs\<close>).
\<close>

datatype chunk_start =
    Collect_results
  | Chunk_refused access_reason
  | Chunk_raised py_error
  | Fetch_pages AIConfig
  | Stored_pages AIConfig
  | Check_live AIConfig

definition start_chunk ::
  "instant \<Rightarrow> fallback_env \<Rightarrow> HealthAlert list \<Rightarrow> (string \<Rightarrow> string) \<Rightarrow> 'o filter_env \<Rightarrow> TaskClaim option \<Rightarrow> bool
   \<Rightarrow> int \<Rightarrow> object \<Rightarrow> Task list \<Rightarrow> chunk_start \<times> Task list" where
  "start_chunk now fenv alerts key env cur existing i p tbl =
     (if existing then (Collect_results, tbl)
      else case fr_config env of
        Inl why \<Rightarrow> (Chunk_refused why, tbl)
      | Inr (_, own) \<Rightarrow>
          (case fallback_config now fenv alerts key FILTER_PURPOSE own of
             Inl e \<Rightarrow> (Chunk_raised e, tbl)
           | Inr cfg \<Rightarrow>
               (case (if scheduled tbl p then run_transport now cur i cfg tbl else (Inr ''live'', tbl)) of
                  (Inl e, tbl') \<Rightarrow> (Chunk_raised e, tbl')
                | (Inr via, tbl') \<Rightarrow>
                    if via = ''batch'' then (Fetch_pages cfg, tbl')
                    else if cf_key_source cfg \<noteq> ''owner'' \<or> cf_provider cfg \<noteq> ''openai'' then (Check_live cfg, tbl')
                    else (Stored_pages cfg, tbl'))))"

text \<open>The end of \<open>prepare_content\<close>: how many of the postings have no page.\<close>

definition unavailable_pages :: "posting list \<Rightarrow> pages \<Rightarrow> int" where
  "unavailable_pages jobs contents = int (length (filter (\<lambda>p. map_of contents (pt_url p) = None) jobs))"

definition report_unavailable :: "int \<Rightarrow> posting list \<Rightarrow> pages \<Rightarrow> Task list \<Rightarrow> Task list" where
  "report_unavailable i jobs contents =
     merge_payload i [(''content_unavailable'', JNum (unavailable_pages jobs contents))] []"

text \<open>After its pages are fetched the chunk ends when it or its parent was cancelled meanwhile.\<close>

definition chunk_stopped :: "int \<Rightarrow> int option \<Rightarrow> Task list \<Rightarrow> bool" where
  "chunk_stopped i parent tbl \<longleftrightarrow>
     cancelled i tbl \<or> (case parent of None \<Rightarrow> False | Some q \<Rightarrow> q \<noteq> 0 \<and> parent_cancelled q tbl)"

text \<open>
  The requests of \<open>execute_batch\<close>. A posting's page is taken from \<open>contents\<close>, so a posting listed
  twice is asked once; the schema is what the provider's library makes of \<open>FilterDecision\<close>.
\<close>

definition filter_spec :: "json \<Rightarrow> user_filter \<Rightarrow> string option \<Rightarrow> string \<Rightarrow> posting \<Rightarrow> Page \<Rightarrow> BatchSpec" where
  "filter_spec schema flt policy eff p pg =
     \<lparr>s_custom_id = pt_url p, s_instructions = build_custom_decision_instructions (uf_prompt flt) (uf_on_ambiguous flt),
      s_input = build_custom_input (pt_company p) (pt_title p) (pg_text pg), s_schema_name = ''FilterDecision'',
      s_schema = schema,
      s_context = Some ((case policy of None \<Rightarrow> [] | Some c \<Rightarrow> [(''prompt_cache_policy'', JStr c)])
        @ [(''job'', posting_json p), (''page_fetch_id'', JNum (pg_fetch_id pg)), (''filter'', JObj (filter_body flt)),
           (''reasoning_effort'', JStr eff)]),
      s_endpoint = RESPONSES, s_inputs = None\<rparr>"

fun filter_specs :: "json \<Rightarrow> user_filter \<Rightarrow> string option \<Rightarrow> string \<Rightarrow> pages \<Rightarrow> posting list \<Rightarrow> BatchSpec list" where
  "filter_specs schema flt policy eff contents [] = []"
| "filter_specs schema flt policy eff contents (p # ps) =
     (case map_of contents (pt_url p) of
        None \<Rightarrow> filter_specs schema flt policy eff contents ps
      | Some pg \<Rightarrow>
          filter_spec schema flt policy eff p pg
          # filter_specs schema flt policy eff (filter (\<lambda>kv. fst kv \<noteq> pt_url p) contents) ps)"

datatype chunk_end =
    Nothing_new
  | Not_ready
  | Submit string string "BatchSpec list"

text \<open>
  From the ownership check to the submission. A person's chunk sends no cache policy
  (\<open>purpose\<close> is the filter's own).
\<close>

definition close_chunk ::
  "'o filter_env \<Rightarrow> (string \<times> string) list \<Rightarrow> json \<Rightarrow> run_config list \<Rightarrow> Task list \<Rightarrow> int \<Rightarrow> int \<Rightarrow> user_filter \<Rightarrow> AIConfig
   \<Rightarrow> posting list \<Rightarrow> pages \<Rightarrow> verdict_db \<Rightarrow> (chunk_end \<times> verdict_db) result" where
  "close_chunk env pay_screens schema configs tbl i uid flt cfg jobs contents db =
     (let excluded = submission_exclusions configs tbl (vd_rows db) i uid (map pt_url jobs) (uf_prompt_hash flt)
                       (answering_models env (cf_model cfg)) in
      and_then (settle_by_stated_pay env pay_screens (filter (\<lambda>p. pt_url p \<notin> set excluded) jobs) contents flt
                  (cf_model cfg) db) (\<lambda>(todo, db').
        if todo = [] then Inr (Nothing_new, db')
        else
          let eff = filter_effort (cf_params cfg); specs = filter_specs schema flt None eff contents todo in
          Inr (if specs = [] then Not_ready else Submit (cf_model cfg) eff specs, db')))"

section \<open>Admitting a run\<close>

definition run_of_person :: "int \<Rightarrow> int option \<Rightarrow> Status list \<Rightarrow> Task \<Rightarrow> bool" where
  "run_of_person uid fid statuses t \<longleftrightarrow>
     kind t \<in> {''run_filter'', ''run_all_filters''} \<and> status t \<in> set statuses
     \<and> bigint_at (payload t) ''user_id'' = Some uid
     \<and> (fid = None \<or> kind t = ''run_all_filters'' \<or> bigint_at (payload t) ''filter_id'' = fid)"

text \<open>\<open>conflict\<close>: the newest run in the way. A scheduled run waits for no parked one.\<close>

definition run_conflict :: "Task list \<Rightarrow> int \<Rightarrow> int option \<Rightarrow> bool \<Rightarrow> Task option" where
  "run_conflict tbl uid fid by_schedule =
     (let rows = filter (run_of_person uid fid (if by_schedule then [Pending, Running] else ACTIVE_STATUSES)) tbl in
      find (\<lambda>t. list_all (\<lambda>u. tid u \<le> tid t) rows) rows)"

definition run_payload :: "int \<Rightarrow> int option \<Rightarrow> bool \<Rightarrow> object" where
  "run_payload uid fid by_schedule =
     [(''user_id'', JNum uid)] @ (case fid of None \<Rightarrow> [] | Some f \<Rightarrow> [(''filter_id'', JNum f)])
     @ (if by_schedule then [(''batched'', JBool True), (''scheduled'', JBool True)] else [])"

text \<open>\<open>enqueue\<close> under the lock of the person's row: refused by a conflict, else the new task's id.\<close>

definition enqueue_run ::
  "instant \<Rightarrow> int \<Rightarrow> int option \<Rightarrow> bool \<Rightarrow> string option \<Rightarrow> queue \<Rightarrow> (Task + int option) result \<times> queue" where
  "enqueue_run now uid fid by_schedule dedupe q =
     (case run_conflict (tasks q) uid fid by_schedule of
        Some t \<Rightarrow> (Inr (Inl t), q)
      | None \<Rightarrow>
          (case enqueue now (if fid = None then ''run_all_filters'' else ''run_filter'') (run_payload uid fid by_schedule)
                  dedupe q of
             Inl e \<Rightarrow> (Inl e, q)
           | Inr (i, q') \<Rightarrow> (Inr (Inr i), q')))"


section \<open>Who submits a posting\<close>

definition chunk_holds :: "run_config list \<Rightarrow> int \<Rightarrow> string \<Rightarrow> string \<Rightarrow> Task \<Rightarrow> bool" where
  "chunk_holds configs uid hash url t \<longleftrightarrow>
     filter_chunk uid t \<and> chunk_runs configs hash t \<and> unfinished_chunk t \<and> url \<in> set (CHUNK_URLS (payload t))"

text \<open>The chunk leaves the posting to nobody: it is neither decided nor an older chunk's.\<close>

definition chunk_keeps ::
  "run_config list \<Rightarrow> Task list \<Rightarrow> ai_row list \<Rightarrow> int \<Rightarrow> string \<Rightarrow> string list \<Rightarrow> string \<Rightarrow> Task \<Rightarrow> bool" where
  "chunk_keeps configs tbl rows uid hash models url t \<longleftrightarrow>
     chunk_holds configs uid hash url t
     \<and> url \<notin> set (submission_exclusions configs tbl rows (tid t) uid (CHUNK_URLS (payload t)) hash models)"

lemma chunk_keeps_iff:
  "chunk_keeps configs tbl rows uid hash models url t \<longleftrightarrow>
     chunk_holds configs uid hash url t \<and> \<not> decided_url hash models rows url
     \<and> (\<forall>u \<in> set tbl. chunk_holds configs uid hash url u \<longrightarrow> tid t \<le> tid u)"
  by (auto simp: chunk_keeps_def chunk_holds_def submission_exclusions_def chunk_owner_def not_less)

lemma oldest_holder:
  assumes "distinct (map tid tbl)" "\<not> decided_url hash models rows url" "list_ex (chunk_holds configs uid hash url) tbl"
  shows "\<exists>!t. t \<in> set tbl \<and> chunk_keeps configs tbl rows uid hash models url t"
proof -
  let ?held = "filter (chunk_holds configs uid hash url) tbl"
  have some: "tid ` set ?held \<noteq> {}" using assms(3) by (auto simp: list_ex_iff)
  have "Min (tid ` set ?held) \<in> tid ` set ?held" using some by (intro Min_in) auto
  then obtain t where t: "t \<in> set ?held" "tid t = Min (tid ` set ?held)" by (metis imageE)
  have least: "tid t \<le> tid u" if "u \<in> set tbl" "chunk_holds configs uid hash url u" for u
    using that t(2) by auto
  show ?thesis
  proof (rule ex1I [of _ t])
    show "t \<in> set tbl \<and> chunk_keeps configs tbl rows uid hash models url t"
      using t(1) least assms(2) by (auto simp: chunk_keeps_iff)
  next
    fix u assume u: "u \<in> set tbl \<and> chunk_keeps configs tbl rows uid hash models url u"
    then have "tid u = tid t" using least [of u] t(1) by (force simp: chunk_keeps_iff)
    then show "u = t" using u t(1) assms(1) by (auto simp: distinct_map inj_on_def)
  qed
qed

section \<open>What a chunk sends\<close>

lemma settle_each_subset:
  assumes "settle_each w flt mdl recipe contents jobs = Inr (rows, still)"
  shows "set still \<subseteq> set jobs"
  using assms by (induction jobs arbitrary: rows still) (fastforce simp: and_then_Inr_iff split: option.splits)+

lemma settled_subset:
  assumes "settle_by_stated_pay env pay jobs contents flt mdl db = Inr (still, db')"
  shows "set still \<subseteq> set jobs"
  using assms settle_each_subset
  by (fastforce simp: settle_by_stated_pay_def and_then_Inr_iff split: option.splits if_splits)

lemma filter_specs_ids:
  "distinct (map s_custom_id (filter_specs schema flt policy eff contents ps))
   \<and> set (map s_custom_id (filter_specs schema flt policy eff contents ps))
     = {pt_url p | p. p \<in> set ps \<and> map_of contents (pt_url p) \<noteq> None}"
proof (induction ps arbitrary: contents)
  case (Cons p ps)
  show ?case
  proof (cases "map_of contents (pt_url p)")
    case None
    then show ?thesis using Cons.IH [of contents] by auto
  next
    case (Some pg)
    let ?rest = "filter (\<lambda>kv. fst kv \<noteq> pt_url p) contents"
    have "map_of ?rest k = (if k = pt_url p then None else map_of contents k)" for k
      by (induction contents) auto
    then show ?thesis using Cons.IH [of ?rest] Some by (auto simp: filter_spec_def)
  qed
qed simp

lemma close_chunk_sends:
  assumes "close_chunk env pay schema configs tbl i uid flt cfg jobs contents db = Inr (Submit mdl eff specs, db')"
    "spec \<in> set specs"
  shows "\<exists>p \<in> set jobs. s_custom_id spec = pt_url p
    \<and> pt_url p \<notin> set (submission_exclusions configs tbl (vd_rows db) i uid (map pt_url jobs) (uf_prompt_hash flt)
         (answering_models env (cf_model cfg)))"
proof -
  obtain todo where todo: "settle_by_stated_pay env pay (filter (\<lambda>p. pt_url p \<notin>
        set (submission_exclusions configs tbl (vd_rows db) i uid (map pt_url jobs) (uf_prompt_hash flt)
         (answering_models env (cf_model cfg)))) jobs) contents flt (cf_model cfg) db = Inr (todo, db')"
      "specs = filter_specs schema flt None eff contents todo"
    using assms(1) by (auto simp: close_chunk_def Let_def and_then_Inr_iff split: if_splits)
  have "s_custom_id spec \<in> set (map s_custom_id specs)" using assms(2) by simp
  then obtain p where "p \<in> set todo" "s_custom_id spec = pt_url p"
    using filter_specs_ids [of schema flt None eff contents todo] todo(2) by auto
  then show ?thesis using settled_subset [OF todo(1)] by auto
qed


section \<open>What a run leaves out\<close>

lemma latest_row_Some_iff: "latest_row P rows \<noteq> None \<longleftrightarrow> (\<exists>rw \<in> set rows. is_verdict rw \<and> P rw)"
  by (auto simp: latest_row_def find_None_iff)

lemma latest_row_verdict: "latest_row P rows = Some rw \<Longrightarrow> is_verdict rw"
  by (auto simp: latest_row_def find_Some_iff)

lemma decided_custom_urls_iff:
  assumes "decided_custom_urls sha urls hash (Some models) db = Inr decided"
  shows "set decided = {url \<in> set urls. decided_url hash models (vd_rows db) url}"
  using assms
proof (induction urls arbitrary: decided)
  case (Cons url urls)
  have "latest_row (\<lambda>rw. ai_url rw = url \<and> custom_row hash (Some models) rw) (vd_rows db) \<noteq> None
      \<longleftrightarrow> decided_url hash models (vd_rows db) url"
    by (auto simp: latest_row_Some_iff decided_url_def simp del: not_None_eq)
  then show ?case using Cons by (auto simp: and_then_Inr_iff split: option.splits)
qed simp

definition screens_out :: "string \<Rightarrow> posting \<Rightarrow> bool" where
  "screens_out recipe p =
     (case screen recipe (Some (pt_title p)) (Some (pt_source p)) of Inl _ \<Rightarrow> False | Inr s \<Rightarrow> skip s)"

definition screened_by :: "'o filter_env \<Rightarrow> string \<Rightarrow> posting \<Rightarrow> bool" where
  "screened_by env hash p =
     (case map_of (fr_title_screens env) hash of None \<Rightarrow> False | Some recipe \<Rightarrow> recipe \<noteq> '''' \<and> screens_out recipe p)"

lemma pass_screen_filter: "pass_screen recipe ps = Inr rest \<Longrightarrow> rest = filter (\<lambda>p. \<not> screens_out recipe p) ps"
  by (induction ps arbitrary: rest) (auto simp: and_then_Inr_iff screens_out_def)

lemma title_screened_filter:
  "title_screened env hash ps = Inr rest \<Longrightarrow> rest = filter (\<lambda>p. \<not> screened_by env hash p) ps"
  by (auto simp: title_screened_def screened_by_def split: option.splits if_splits dest: pass_screen_filter)

text \<open>Rows without instructions are written as they are.\<close>

lemma interned_plain:
  "\<forall>rw \<in> set rows. ai_instructions rw = None \<Longrightarrow> interned sha seen rows texts = Inr (rows, texts)"
  by (induction rows) auto

lemma add_plain:
  assumes "\<forall>rw \<in> set rows. ai_instructions rw = None"
  shows "add_ai_results sha call_of rows db = Inr (db\<lparr>vd_rows := vd_rows db @ map (link_call call_of) rows\<rparr>)"
  using assms by (simp add: add_ai_results_def interned_plain)

lemma link_call_fields [simp]:
  "ai_url (link_call call_of rw) = ai_url rw" "ai_check_type (link_call call_of rw) = ai_check_type rw"
  "ai_status (link_call call_of rw) = ai_status rw" "ai_prompt_hash (link_call call_of rw) = ai_prompt_hash rw"
  "ai_model (link_call call_of rw) = ai_model rw"
  by (simp_all add: link_call_def)

lemma link_call_decides [simp]:
  "is_verdict (link_call call_of rw) = is_verdict rw"
  "custom_row hash models (link_call call_of rw) = custom_row hash models rw"
  by (simp_all add: is_verdict_def custom_row_def split: option.split)

lemma answering_self: "mdl \<in> set (answering_models env mdl)"
  by (auto simp: answering_models_def answering_def find_Some_iff split: option.splits)

definition copy_keys :: "(string \<Rightarrow> copy_key option) \<Rightarrow> string list \<Rightarrow> copy_key list" where
  "copy_keys key urls = List.map_filter key urls"

lemma copy_keys_simps [simp]:
  "copy_keys key [] = []"
  "copy_keys key (u # us) = (case key u of None \<Rightarrow> copy_keys key us | Some k \<Rightarrow> k # copy_keys key us)"
  by (simp_all add: copy_keys_def List.map_filter_simps split: option.split)

lemma take_twins_still:
  assumes "take_twins w flt mdl decided key reading ps = Inr (rows, still)"
  shows "set still \<subseteq> set ps" "distinct (copy_keys key (map pt_url still))"
    "set (copy_keys key (map pt_url still)) \<inter> set reading = {}"
  using assms
  by (induction ps arbitrary: reading rows still)
    (fastforce simp: and_then_Inr_iff split: option.splits if_splits)+

text \<open>Every row written is a near copy's verdict, and every posting is read, answered or awaits a copy.\<close>

lemma twin_row_written:
  assumes "ai_result_row w (twin_row flt mdl p twin) = Inr rw" "is_verdict twin"
  shows "ai_instructions rw = None" "is_verdict rw" "ai_url rw = pt_url p"
    "custom_row (uf_prompt_hash flt) (Some models) rw = (mdl \<in> set models)"
  using assms by (auto simp: ai_result_row_def twin_row_def ai_row_of_def is_verdict_def custom_row_def)

lemma take_twins_rows:
  assumes "take_twins w flt mdl decided key reading ps = Inr (rows, still)"
    "\<forall>k twin. decided k = Some twin \<longrightarrow> is_verdict twin"
  shows "\<forall>rw \<in> set rows. ai_instructions rw = None \<and> is_verdict rw
       \<and> custom_row (uf_prompt_hash flt) (Some models) rw = (mdl \<in> set models)"
  using assms
  by (induction ps arbitrary: reading rows still)
    (fastforce simp: and_then_Inr_iff twin_row_written split: option.splits if_splits)+

lemma take_twins_all:
  assumes "take_twins w flt mdl decided key reading ps = Inr (rows, still)"
    "\<forall>k twin. decided k = Some twin \<longrightarrow> is_verdict twin" "p \<in> set ps"
  shows "p \<in> set still \<or> (\<exists>rw \<in> set rows. ai_url rw = pt_url p)
    \<or> (\<exists>k. key (pt_url p) = Some k \<and> k \<in> set reading \<union> set (copy_keys key (map pt_url still)))"
  using assms(1,3)
proof (induction ps arbitrary: reading rows still)
  case (Cons q ps)
  show ?case
  proof (cases "key (pt_url q)")
    case None
    then obtain still' where "take_twins w flt mdl decided key reading ps = Inr (rows, still')" "still = q # still'"
      using Cons.prems by (auto simp: and_then_Inr_iff)
    then show ?thesis using Cons.IH Cons.prems(2) None by fastforce
  next
    case (Some k)
    show ?thesis
    proof (cases "decided k")
      case (Some twin)
      then obtain rw rows' where rw: "ai_result_row w (twin_row flt mdl q twin) = Inr rw" "rows = rw # rows'"
          "take_twins w flt mdl decided key reading ps = Inr (rows', still)"
        using Cons.prems \<open>key (pt_url q) = Some k\<close> by (auto simp: and_then_Inr_iff)
      then have "ai_url rw = pt_url q" using twin_row_written(3) assms(2) Some by blast
      then show ?thesis using Cons.IH [OF rw(3)] Cons.prems(2) rw(2) by auto
    next
      case None
      then show ?thesis
        using Cons.IH [of reading rows still] Cons.IH [of "k # reading" rows "tl still"] Cons.prems \<open>key (pt_url q) = Some k\<close>
        by (cases k) (auto simp: and_then_Inr_iff split: if_splits)
    qed
  qed
qed simp

lemma decided_url_append:
  "decided_url hash models (xs @ ys) url \<longleftrightarrow> decided_url hash models xs url \<or> decided_url hash models ys url"
  by (auto simp: decided_url_def)

text \<open>A posting of a near-copy group that a live chunk holds or this run reads.\<close>

definition awaits_copy :: "'o filter_env \<Rightarrow> string list \<Rightarrow> posting list \<Rightarrow> posting \<Rightarrow> bool" where
  "awaits_copy env held todo p \<longleftrightarrow> fr_near_copy_reuse env
     \<and> (\<exists>k. fr_copy_key env (pt_url p) = Some k
          \<and> k \<in> set (copy_keys (fr_copy_key env) held) \<union> set (copy_keys (fr_copy_key env) (map pt_url todo)))"

lemma copy_keys_map: "List.map_filter (key \<circ> pt_url) ps = copy_keys key (map pt_url ps)"
  by (induction ps) (simp_all add: List.map_filter_simps split: option.split)

lemma take_twin_verdicts_cases:
  assumes "take_twin_verdicts env todo flt mdl held db = Inr (still, db')"
  obtains (all) "still = todo" "db' = db" "fr_near_copy_reuse env \<Longrightarrow> copy_keys (fr_copy_key env) (map pt_url todo) = []"
  | (copies) rows decided where "fr_near_copy_reuse env"
      "take_twins (fr_writer env) flt mdl decided (fr_copy_key env) (copy_keys (fr_copy_key env) held) todo = Inr (rows, still)"
      "\<forall>k twin. decided k = Some twin \<longrightarrow> is_verdict twin"
      "vd_rows db' = vd_rows db @ map (link_call (fr_call_of env)) rows"
proof -
  let ?decided = "decided_twin (fr_copy_key env) (map pt_url todo) (uf_prompt_hash flt) (answering_models env mdl) (vd_rows db)"
  have verdict: "\<forall>k twin. ?decided k = Some twin \<longrightarrow> is_verdict twin"
    by (auto simp: decided_twin_def intro: latest_row_verdict)
  show ?thesis
  proof (cases "todo = [] \<or> \<not> fr_near_copy_reuse env \<or> copy_keys (fr_copy_key env) (map pt_url todo) = []")
    case True
    then show ?thesis using assms by (intro all) (auto simp: take_twin_verdicts_def Let_def copy_keys_map split: if_splits)
  next
    case False
    then obtain rows where rows:
        "take_twins (fr_writer env) flt mdl ?decided (fr_copy_key env) (copy_keys (fr_copy_key env) held) todo = Inr (rows, still)"
        "add_ai_results (fr_sha env) (fr_call_of env) rows db = Inr db'"
      using assms by (auto simp: take_twin_verdicts_def Let_def copy_keys_map and_then_Inr_iff copy_keys_def)
    have "\<forall>rw \<in> set rows. ai_instructions rw = None" using take_twins_rows [OF rows(1) verdict] by blast
    then have "vd_rows db' = vd_rows db @ map (link_call (fr_call_of env)) rows" using rows(2) by (auto simp: add_plain)
    then show ?thesis using copies [of ?decided rows] False rows(1) verdict by blast
  qed
qed

lemma take_twin_verdicts_accounts:
  assumes "take_twin_verdicts env todo flt mdl held db = Inr (still, db')"
  shows "set still \<subseteq> set todo"
    "fr_near_copy_reuse env \<Longrightarrow> distinct (copy_keys (fr_copy_key env) (map pt_url still))"
    "\<exists>new. vd_rows db' = vd_rows db @ new"
    "p \<in> set todo \<Longrightarrow> p \<in> set still
       \<or> decided_url (uf_prompt_hash flt) (answering_models env mdl) (vd_rows db') (pt_url p) \<or> awaits_copy env held still p"
proof -
  have "set still \<subseteq> set todo \<and> (fr_near_copy_reuse env \<longrightarrow> distinct (copy_keys (fr_copy_key env) (map pt_url still)))
      \<and> (\<exists>new. vd_rows db' = vd_rows db @ new)
      \<and> (p \<in> set todo \<longrightarrow> p \<in> set still
        \<or> decided_url (uf_prompt_hash flt) (answering_models env mdl) (vd_rows db') (pt_url p) \<or> awaits_copy env held still p)"
    using assms
  proof (cases rule: take_twin_verdicts_cases)
    case (copies rows decided)
    have "decided_url (uf_prompt_hash flt) (answering_models env mdl) (vd_rows db') (pt_url p)"
      if "rw \<in> set rows" "ai_url rw = pt_url p" for rw
    proof -
      have "is_verdict rw" "custom_row (uf_prompt_hash flt) (Some (answering_models env mdl)) rw"
        using take_twins_rows [OF copies(2,3), of "answering_models env mdl"] that(1) answering_self [of mdl env] by auto
      then show ?thesis using that copies(4) by (auto simp: decided_url_append) (auto simp: decided_url_def)
    qed
    then show ?thesis
      using take_twins_still [OF copies(2)] take_twins_all [OF copies(2,3), of p] copies(1,4)
      by (auto simp: awaits_copy_def)
  qed auto
  then show "set still \<subseteq> set todo" "fr_near_copy_reuse env \<Longrightarrow> distinct (copy_keys (fr_copy_key env) (map pt_url still))"
    "\<exists>new. vd_rows db' = vd_rows db @ new"
    "p \<in> set todo \<Longrightarrow> p \<in> set still
       \<or> decided_url (uf_prompt_hash flt) (answering_models env mdl) (vd_rows db') (pt_url p) \<or> awaits_copy env held still p"
    by auto
qed

lemma filter_todo_accounts:
  assumes "filter_todo env held offered mdl flt db = Inr (todo, db')"
  shows "set todo \<subseteq> {p \<in> set offered. \<not> decided_url (uf_prompt_hash flt) (answering_models env mdl) (vd_rows db) (pt_url p)
            \<and> \<not> screened_by env (uf_prompt_hash flt) p}"
    "fr_near_copy_reuse env \<Longrightarrow> distinct (copy_keys (fr_copy_key env) (map pt_url todo))"
    "p \<in> set offered \<Longrightarrow> p \<in> set todo \<or> screened_by env (uf_prompt_hash flt) p
       \<or> decided_url (uf_prompt_hash flt) (answering_models env mdl) (vd_rows db') (pt_url p) \<or> awaits_copy env held todo p"
proof -
  let ?hash = "uf_prompt_hash flt" and ?models = "answering_models env mdl"
  obtain decided rest where rest: "decided_custom_urls (fr_sha env) (map pt_url offered) ?hash (Some ?models) db = Inr decided"
      "rest = filter (\<lambda>p. \<not> screened_by env ?hash p) (filter (\<lambda>p. pt_url p \<notin> set decided) offered)"
      "take_twin_verdicts env rest flt mdl held db = Inr (todo, db')"
    using assms by (auto simp: filter_todo_def and_then_Inr_iff dest: title_screened_filter)
  note twins = take_twin_verdicts_accounts [OF rest(3)]
  show "set todo \<subseteq> {p \<in> set offered. \<not> decided_url ?hash ?models (vd_rows db) (pt_url p) \<and> \<not> screened_by env ?hash p}"
    using twins(1) rest(2) decided_custom_urls_iff [OF rest(1)] by auto
  show "fr_near_copy_reuse env \<Longrightarrow> distinct (copy_keys (fr_copy_key env) (map pt_url todo))" by (rule twins(2))
  show "p \<in> set todo \<or> screened_by env ?hash p \<or> decided_url ?hash ?models (vd_rows db') (pt_url p) \<or> awaits_copy env held todo p"
    if "p \<in> set offered"
    using that twins(3) twins(4) [of p] rest(2) decided_custom_urls_iff [OF rest(1)] by (auto simp: decided_url_append)
qed


section \<open>What a run queues\<close>

lemma slices_concat: "0 < n \<Longrightarrow> concat (slices n xs) = xs"
  by (induction n xs rule: slices.induct) (subst slices.simps, auto)

lemma slices_bounds: "ys \<in> set (slices n xs) \<Longrightarrow> ys \<noteq> [] \<and> length ys \<le> n \<and> set ys \<subseteq> set xs"
proof (induction n xs rule: slices.induct)
  case (1 n xs)
  have some: "n \<noteq> 0 \<and> xs \<noteq> []" "ys = take n xs \<or> ys \<in> set (slices n (drop n xs))"
    using "1.prems" slices.simps [of n xs] by (auto split: if_splits)
  then show ?case
    using "1.IH" set_take_subset [of n xs] set_drop_subset [of n xs] by auto
qed

definition unit_ok :: "unit_mode \<Rightarrow> posting list \<Rightarrow> work_unit \<Rightarrow> bool" where
  "unit_ok m offered u \<longleftrightarrow> fst u = m \<and> snd (snd u) \<noteq> [] \<and> set (snd (snd u)) \<subseteq> set offered"

lemma units_of_ok:
  assumes "u \<in> set (units_of env use_batch flt todo)" "set todo \<subseteq> set offered"
  shows "unit_ok (if use_batch then Batch_unit else Live_unit) offered u"
  using assms by (auto simp: units_of_def unit_ok_def dest!: slices_bounds split: if_splits)

lemma plan_units_ok:
  assumes "plan_units env use_batch held offered mdl flts db = (Inr units, db')" "u \<in> set units"
  shows "unit_ok (if use_batch then Batch_unit else Live_unit) offered u"
  using assms
proof (induction flts arbitrary: db units)
  case (Cons flt flts)
  obtain todo mid where todo: "filter_todo env held offered mdl flt db = Inr (todo, mid)"
    using Cons.prems(1) by (auto split: sum.splits prod.splits)
  obtain us where us: "plan_units env use_batch held offered mdl flts mid = (Inr us, db')"
      "units = units_of env use_batch flt todo @ us"
    using Cons.prems(1) todo by (auto simp: and_then_Inr_iff split: prod.splits)
  have sub: "set todo \<subseteq> set offered" using filter_todo_accounts(1) [OF todo] by auto
  show ?case
  proof (cases "u \<in> set us")
    case True
    then show ?thesis by (rule Cons.IH [OF us(1)])
  next
    case False
    then have "u \<in> set (units_of env use_batch flt todo)" using us(2) Cons.prems(2) by simp
    then show ?thesis using sub by (rule units_of_ok)
  qed
qed simp

lemma posting_texts [simp]:
  "url_text (posting_json p) = Some (pt_url p)" "json_text (job_url (posting_json p)) = Some (pt_url p)"
  by (simp_all add: posting_json_def url_text_def job_url_def get_def get_text_def coalesce_def)

lemma chunk_payload_urls [simp]:
  "CHUNK_URLS (chunk_payload i uid flt cid (unit_jobs m jobs refs) ignore_budget batched) = map pt_url jobs"
proof -
  have "List.map_filter url_text (map posting_json jobs) = map pt_url jobs"
    "List.map_filter json_text (map job_url (map posting_json jobs)) = map pt_url jobs"
    by (induction jobs) (simp_all add: List.map_filter_simps)
  then show ?thesis
    by (cases m) (simp_all add: CHUNK_URLS_def json_items_def chunk_payload_def unit_jobs_def jobs_reference_def
        FILTER_CHUNKS_def get_def List.map_filter_simps)
qed

lemma chunk_payload_keys [simp]:
  "bigint_at (chunk_payload i uid flt cid jobs ignore_budget batched) ''user_id'' = Some uid"
  "parent_column (chunk_payload i uid flt cid jobs ignore_budget batched) = Inr (Some i)"
  by (simp_all add: chunk_payload_def bigint_at_def parent_column_def get_def)

definition new_chunk :: "int \<Rightarrow> unit_mode \<Rightarrow> Task \<Rightarrow> bool" where
  "new_chunk uid m t \<longleftrightarrow> filter_chunk uid t \<and> status t = Pending \<and> kind t = unit_kind m"

lemma config_for_queue: "config_for digest known flt st = (r, st') \<Longrightarrow> rn_queue st' = rn_queue st"
  by (auto simp: config_for_def split: option.splits sum.splits)

lemma enqueue_units_appends:
  assumes "enqueue_units now env i uid ignore_budget batched known refs units st = (Inr (), st')"
    "\<forall>u \<in> set units. unit_ok m offered u"
  shows "\<exists>new. tasks (rn_queue st') = tasks (rn_queue st) @ new \<and> (\<forall>t \<in> set new. new_chunk uid m t)
     \<and> set (concat (map (CHUNK_URLS \<circ> payload) new)) = pt_url ` set (concat (map (snd \<circ> snd) units))"
  using assms
proof (induction units arbitrary: known refs st)
  case (Cons u units)
  obtain m' flt jobs where u: "u = (m', flt, jobs)" by (cases u) auto
  have m': "m' = m" using Cons.prems(2) u by (simp add: unit_ok_def)
  obtain cid known' mid where mid: "config_for (fr_digest env) known flt st = (Inr (cid, known'), mid)"
    using Cons.prems(1) u by (auto split: prod.splits sum.splits)
  let ?p = "chunk_payload i uid flt cid (unit_jobs m jobs refs) ignore_budget batched"
  let ?t = "new_task now (next_id (rn_queue mid)) (unit_kind m) ?p None (Some i)"
  let ?st = "mid\<lparr>rn_queue := (rn_queue mid)\<lparr>tasks := tasks (rn_queue mid) @ [?t], next_id := next_id (rn_queue mid) + 1\<rparr>\<rparr>"
  have "enqueue_units now env i uid ignore_budget batched known' (if m = Batch_unit then tl refs else refs) units ?st = (Inr (), st')"
    using Cons.prems(1) u m' mid by (simp add: enqueue_def)
  from Cons.IH [OF this] obtain new where new: "tasks (rn_queue st') = tasks (rn_queue ?st) @ new"
      "\<forall>t \<in> set new. new_chunk uid m t"
      "set (concat (map (CHUNK_URLS \<circ> payload) new)) = pt_url ` set (concat (map (snd \<circ> snd) units))"
    using Cons.prems(2) by auto
  have "new_chunk uid m ?t"
    by (cases m) (simp_all add: new_chunk_def filter_chunk_def new_task_def FILTER_CHUNKS_def unit_kind_def)
  moreover have "CHUNK_URLS (payload ?t) = map pt_url jobs" by (simp add: new_task_def)
  ultimately show ?case
    using new u config_for_queue [OF mid] by (intro exI [of _ "?t # new"]) (auto simp: image_Un)
qed simp


lemma in_flight_urls_iff:
  "url \<in> set (in_flight_urls tbl uid) \<longleftrightarrow>
     (\<exists>t \<in> set tbl. filter_chunk uid t \<and> status t \<in> {Pending, Running, Awaiting_batch} \<and> url \<in> set (CHUNK_URLS (payload t)))"
  by (auto simp: in_flight_urls_def)

lemma in_flight_park:
  assumes "\<forall>t \<in> set tbl. tid t = i \<longrightarrow> kind t \<notin> set (po_kinds FILTER_CHUNKS) \<or> status t \<noteq> Running"
  shows "set (in_flight_urls (park_waiting cur i tot label tbl) uid) = set (in_flight_urls tbl uid)"
proof -
  let ?f = "\<lambda>t. if owned_running cur i t then park_waiting_row tot label t else t"
  have same: "filter_chunk uid (?f t) \<and> status (?f t) \<in> {Pending, Running, Awaiting_batch} \<and> url \<in> set (CHUNK_URLS (payload (?f t)))
      \<longleftrightarrow> filter_chunk uid t \<and> status t \<in> {Pending, Running, Awaiting_batch} \<and> url \<in> set (CHUNK_URLS (payload t))"
    if "t \<in> set tbl" for t url
    using that assms by (auto simp: park_waiting_row_def filter_chunk_def owned_running_def)
  have parked: "set (park_waiting cur i tot label tbl) = ?f ` set tbl" by (simp add: park_waiting_def update_where_def)
  have "url \<in> set (in_flight_urls (park_waiting cur i tot label tbl) uid) \<longleftrightarrow> url \<in> set (in_flight_urls tbl uid)" for url
    unfolding in_flight_urls_iff parked bex_simps by (intro bex_cong refl same)
  then show ?thesis by blast
qed

lemma run_transport_keeps: "run_transport now cur i cfg tbl = (Inr via, tbl') \<Longrightarrow> tbl' = tbl"
  by (auto simp: run_transport_def require_config_def require_transport_def unsupported_def split: if_splits)

lemma run_transport_owner:
  "run_transport now cur i cfg tbl = (Inr via, tbl') \<Longrightarrow> cf_key_source cfg = ''owner'' \<Longrightarrow> via = ''batch''"
  by (auto simp: run_transport_def split: prod.splits sum.splits)

lemma set_tasks_same [simp]: "set_tasks st (tasks (rn_queue st)) = st"
  by (simp add: set_tasks_def)

lemma run_transport_batch:
  "run_transport now cur i cfg tbl = (Inr via, tbl') \<Longrightarrow> via = ''batch'' \<longleftrightarrow> cf_key_source cfg = ''owner''"
  by (auto simp: run_transport_def split: prod.splits sum.splits if_splits)

text \<open>The plan behind a run that ends without an error.\<close>

lemma run_filters_plan:
  assumes "run_filters env now cur i uid flts batched ignore_budget st = (ending, st')"
    "ending = Ran_live flt jobs \<or> ending = Split n" "fr_config env = Inr (ent, cfg)"
  obtains units db where
    "\<forall>u \<in> set units. unit_ok (if batched \<and> cf_key_source cfg = ''owner'' then Batch_unit else Live_unit)
       (filter (\<lambda>p. pt_url p \<notin> set (in_flight_urls (tasks (rn_queue st)) uid)) (fr_candidates env)) u"
    "units \<noteq> []"
    "ending = Ran_live flt jobs \<Longrightarrow> units = [(Live_unit, flt, jobs)]"
    "ending = Split n \<Longrightarrow> split_run env now cur i uid batched ignore_budget units (st\<lparr>rn_verdicts := db\<rparr>) = (Split n, st')"
proof -
  let ?tbl = "tasks (rn_queue st)"
  let ?via = "if batched then run_transport now cur i cfg ?tbl else (Inr ''live'', ?tbl)"
  let ?offered = "filter (\<lambda>p. pt_url p \<notin> set (in_flight_urls ?tbl uid)) (fr_candidates env)"
  obtain v tbl where v: "?via = (v, tbl)" by fastforce
  then obtain via where via: "v = Inr via"
    using assms by (cases v) (auto simp: run_filters_def)
  have tbl: "tbl = ?tbl" "via = ''batch'' \<longleftrightarrow> batched \<and> cf_key_source cfg = ''owner''"
    using v via run_transport_keeps run_transport_batch by (auto split: if_splits)
  obtain planned db where plan: "plan_units env (via = ''batch'') (in_flight_urls ?tbl uid) ?offered (cf_model cfg) flts
      (rn_verdicts st) = (planned, db)" by fastforce
  then obtain units where units: "planned = Inr units"
    using assms v via tbl(1) by (cases planned) (auto simp: run_filters_def)
  have ends: "(case units of
        [] \<Rightarrow> (Decided_already, set_tasks (st\<lparr>rn_verdicts := db\<rparr>) (set_progress now cur i 0 0 ''everything already decided'' []
          (tasks (rn_queue (st\<lparr>rn_verdicts := db\<rparr>)))))
      | [(Live_unit, flt, jobs)] \<Rightarrow> (Ran_live flt jobs, st\<lparr>rn_verdicts := db\<rparr>)
      | _ \<Rightarrow> split_run env now cur i uid batched ignore_budget units (st\<lparr>rn_verdicts := db\<rparr>)) = (ending, st')"
    using assms(1,3) v via tbl(1) plan units by (simp add: run_filters_def Let_def)
  show ?thesis
  proof (rule that [of units db])
    show "\<forall>u \<in> set units. unit_ok (if batched \<and> cf_key_source cfg = ''owner'' then Batch_unit else Live_unit) ?offered u"
      using plan_units_ok [OF plan [unfolded units]] tbl(2) by auto
    show "units \<noteq> []" using ends assms(2) by auto
    show "units = [(Live_unit, flt, jobs)]" if "ending = Ran_live flt jobs"
      using ends that by (auto simp: split_run_def split: list.splits unit_mode.splits prod.splits sum.splits)
    show "split_run env now cur i uid batched ignore_budget units (st\<lparr>rn_verdicts := db\<rparr>) = (Split n, st')" if "ending = Split n"
      using ends that by (auto split: list.splits unit_mode.splits)
  qed
qed

lemma split_run_appends:
  assumes "split_run env now cur i uid batched ignore_budget units st = (Split n, st')"
    "\<forall>u \<in> set units. unit_ok m offered u"
  shows "\<exists>new. (\<exists>tot label. tasks (rn_queue st') = park_waiting cur i tot label (tasks (rn_queue st) @ new))
     \<and> (\<forall>t \<in> set new. new_chunk uid m t)
     \<and> set (concat (map (CHUNK_URLS \<circ> payload) new)) = pt_url ` set (concat (map (snd \<circ> snd) units))"
proof -
  obtain stored objs where stored: "store_lists (fr_store env) (batch_lists units) (rn_objects st) = (stored, objs)" by fastforce
  then obtain refs where refs: "stored = Inr refs" using assms(1) by (cases stored) (simp_all add: split_run_def)
  obtain r mid where mid: "enqueue_units now env i uid ignore_budget batched [] refs units (st\<lparr>rn_objects := objs\<rparr>) = (r, mid)"
    by fastforce
  then have ok: "r = Inr ()" using assms(1) stored refs by (cases r) (simp_all add: split_run_def)
  then have "tasks (rn_queue st') = park_waiting cur i (int (sum_list (map (length \<circ> snd \<circ> snd) units)))
      (split_label units) (tasks (rn_queue mid))"
    using assms(1) stored refs mid by (auto simp: split_run_def set_tasks_def)
  moreover obtain new where "tasks (rn_queue mid) = tasks (rn_queue st) @ new" "\<forall>t \<in> set new. new_chunk uid m t"
      "set (concat (map (CHUNK_URLS \<circ> payload) new)) = pt_url ` set (concat (map (snd \<circ> snd) units))"
    using enqueue_units_appends [of now env i uid ignore_budget batched "[]" refs units _ mid m offered] mid ok assms(2) by fastforce
  ultimately show ?thesis by metis
qed


lemma in_flight_append: "set (in_flight_urls (xs @ ys) uid) = set (in_flight_urls xs uid) \<union> set (in_flight_urls ys uid)"
  by (auto simp: in_flight_urls_def)

lemma in_flight_new:
  assumes "\<forall>t \<in> set new. new_chunk uid m t"
  shows "set (in_flight_urls new uid) = set (concat (map (CHUNK_URLS \<circ> payload) new))"
  using assms by (auto simp: in_flight_urls_def new_chunk_def)

lemma run_holds:
  assumes "run_filters env now cur i uid flts batched ignore_budget st = (Split n, st')"
    "\<forall>t \<in> set (tasks (rn_queue st)). tid t = i \<longrightarrow> kind t \<notin> set (po_kinds FILTER_CHUNKS)"
  shows "\<exists>queued. set (in_flight_urls (tasks (rn_queue st')) uid) = set (in_flight_urls (tasks (rn_queue st)) uid) \<union> queued
     \<and> set (in_flight_urls (tasks (rn_queue st)) uid) \<inter> queued = {} \<and> queued \<subseteq> pt_url ` set (fr_candidates env) \<and> queued \<noteq> {}"
proof -
  obtain ent cfg where cfg: "fr_config env = Inr (ent, cfg)"
    using assms(1) by (cases "fr_config env") (auto simp: run_filters_def)
  let ?m = "if batched \<and> cf_key_source cfg = ''owner'' then Batch_unit else Live_unit"
  let ?held = "set (in_flight_urls (tasks (rn_queue st)) uid)"
  obtain units db where units: "\<forall>u \<in> set units. unit_ok ?m (filter (\<lambda>p. pt_url p \<notin> ?held) (fr_candidates env)) u" "units \<noteq> []"
      "split_run env now cur i uid batched ignore_budget units (st\<lparr>rn_verdicts := db\<rparr>) = (Split n, st')"
    by (rule run_filters_plan [OF assms(1) _ cfg, of undefined undefined n]) auto
  obtain new tot label where new: "tasks (rn_queue st') = park_waiting cur i tot label (tasks (rn_queue st) @ new)"
      "\<forall>t \<in> set new. new_chunk uid ?m t"
      "set (concat (map (CHUNK_URLS \<circ> payload) new)) = pt_url ` set (concat (map (snd \<circ> snd) units))"
    using split_run_appends [OF units(3,1)] by auto
  have "\<forall>t \<in> set (tasks (rn_queue st) @ new). tid t = i \<longrightarrow> kind t \<notin> set (po_kinds FILTER_CHUNKS) \<or> status t \<noteq> Running"
    using assms(2) new(2) by (auto simp: new_chunk_def)
  then have "set (in_flight_urls (tasks (rn_queue st')) uid) = ?held \<union> pt_url ` set (concat (map (snd \<circ> snd) units))"
    by (simp only: new(1,3) in_flight_park in_flight_append in_flight_new [OF new(2)])
  moreover have "set (concat (map (snd \<circ> snd) units)) \<subseteq> {p \<in> set (fr_candidates env). pt_url p \<notin> ?held}"
    using units(1) by (auto simp: unit_ok_def)
  moreover have "set (concat (map (snd \<circ> snd) units)) \<noteq> {}"
    using units(1,2) by (cases units) (auto simp: unit_ok_def)
  ultimately show ?thesis by (intro exI [of _ "pt_url ` set (concat (map (snd \<circ> snd) units))"]) blast
qed


section \<open>Properties of a run\<close>

definition sample_posting :: "string \<Rightarrow> posting" where
  "sample_posting url = \<lparr>pt_url = url, pt_company = ''Acme'', pt_title = ''Engineer'', pt_source = ''lever''\<rparr>"

definition sample_filter :: user_filter where
  "sample_filter = \<lparr>uf_id = 3, uf_name = ''early'', uf_prompt = ''p'', uf_on_ambiguous = ''keep'', uf_prompt_hash = ''h''\<rparr>"

definition sample_config :: AIConfig where
  "sample_config = \<lparr>cf_provider = ''openai'', cf_api_key = ''k'', cf_key_source = ''owner'', cf_model = ''gpt-5-mini'',
     cf_base_url = None, cf_params = [], cf_substituted_from = None, cf_substitution_reason = None, cf_fallback_from = None\<rparr>"

definition sample_entitlement :: Entitlement where
  "sample_entitlement = \<lparr>en_owner_key = True, en_weekly_token_budget = None, en_spent_this_week = 0, en_has_byo_key = False,
     en_groups = []\<rparr>"

definition sample_filter_run :: "(string \<times> string) list filter_env" where
  "sample_filter_run =
     \<lparr>fr_sha = (\<lambda>s. s), fr_call_of = (\<lambda>_ _. None), fr_writer = \<lparr>wr_name = ''w1'', wr_config_name = None\<rparr>, fr_groups = [],
      fr_near_copy_reuse = True, fr_copy_key = (\<lambda>u. if u \<in> {''u2'', ''u3''} then Some (''lever'', ''k'') else None),
      fr_chunk_size = 1, fr_batch_chunk_size = 500, fr_title_screens = [],
      fr_candidates = map sample_posting [''u1'', ''u2'', ''u3''], fr_config = Inr (sample_entitlement, sample_config),
      fr_store = sample_store ''b'', fr_digest = (\<lambda>k v. k)\<rparr>"

definition sample_run_state :: "(string \<times> string) list run_state" where
  "sample_run_state =
     \<lparr>rn_queue = \<lparr>tasks = [new_task 0 1 ''run_filter'' [] None None], next_id = 2\<rparr>,
      rn_verdicts = \<lparr>vd_rows = [], vd_texts = []\<rparr>, rn_configs = [], rn_config_seq = 1, rn_objects = []\<rparr>"

text \<open>
  Every posting that a filter is offered is accounted for: it is read, screened out by its title,
  decided once the plan is made, or awaits a near copy that a live chunk holds or this run reads.
  What is read was undecided and passes the screen, and with near-copy reuse no two postings of one
  group are read.
\<close>

theorem run_accounts_for_every_posting:
  assumes "filter_todo env held offered mdl flt db = Inr (todo, db')"
  shows "list_all (\<lambda>p. p \<in> set todo \<or> screened_by env (uf_prompt_hash flt) p
      \<or> decided_url (uf_prompt_hash flt) (answering_models env mdl) (vd_rows db') (pt_url p) \<or> awaits_copy env held todo p) offered
    \<and> list_all (\<lambda>p. p \<in> set offered \<and> \<not> screened_by env (uf_prompt_hash flt) p
      \<and> \<not> decided_url (uf_prompt_hash flt) (answering_models env mdl) (vd_rows db) (pt_url p)) todo
    \<and> (fr_near_copy_reuse env \<longrightarrow> distinct (copy_keys (fr_copy_key env) (map pt_url todo)))"
  using filter_todo_accounts [OF assms] by (auto simp: list_all_iff)

theorem run_accounts_for_every_posting_witness:
  "\<exists>todo db'. filter_todo sample_filter_run [] (map sample_posting [''u1'', ''u2'', ''u3'']) ''gpt-5-mini'' sample_filter
       \<lparr>vd_rows = [], vd_texts = []\<rparr> = Inr (todo, db')
     \<and> map pt_url todo = [''u1'', ''u2''] \<and> distinct (copy_keys (fr_copy_key sample_filter_run) (map pt_url todo))"
proof -
  have "case filter_todo sample_filter_run [] (map sample_posting [''u1'', ''u2'', ''u3'']) ''gpt-5-mini'' sample_filter
       \<lparr>vd_rows = [], vd_texts = []\<rparr> of Inr (todo, db') \<Rightarrow> map pt_url todo = [''u1'', ''u2''] | _ \<Rightarrow> False"
    by code_simp
  then obtain todo db' where todo: "filter_todo sample_filter_run [] (map sample_posting [''u1'', ''u2'', ''u3'']) ''gpt-5-mini''
       sample_filter \<lparr>vd_rows = [], vd_texts = []\<rparr> = Inr (todo, db')" "map pt_url todo = [''u1'', ''u2'']"
    by (auto split: sum.splits)
  then show ?thesis
    using run_accounts_for_every_posting [OF todo(1)] by (auto simp: sample_filter_run_def)
qed

text \<open>
  A run that splits adds to the postings its person's live chunks hold: exactly the postings it
  queued, all of them candidates, and none of them held before. The next run is offered none of
  what the chunks hold.
\<close>

theorem run_holds_what_it_queues:
  assumes "run_filters env now cur i uid flts batched ignore_budget st = (Split n, st')"
    "\<forall>t \<in> set (tasks (rn_queue st)). tid t = i \<longrightarrow> kind t \<notin> set (po_kinds FILTER_CHUNKS)"
  shows "\<exists>queued. set (in_flight_urls (tasks (rn_queue st')) uid) = set (in_flight_urls (tasks (rn_queue st)) uid) \<union> queued
     \<and> set (in_flight_urls (tasks (rn_queue st)) uid) \<inter> queued = {} \<and> queued \<subseteq> pt_url ` set (fr_candidates env) \<and> queued \<noteq> {}"
  using assms by (rule run_holds)

theorem run_holds_what_it_queues_witness:
  "\<exists>st' queued. run_filters sample_filter_run 5 None 1 7 [sample_filter] False False sample_run_state = (Split 2, st')
     \<and> set (in_flight_urls (tasks (rn_queue st')) 7) = queued \<and> queued \<noteq> {}"
proof -
  have "case run_filters sample_filter_run 5 None 1 7 [sample_filter] False False sample_run_state of
      (Split n, st') \<Rightarrow> n = 2 | _ \<Rightarrow> False"
    by code_simp
  then obtain st' where st': "run_filters sample_filter_run 5 None 1 7 [sample_filter] False False sample_run_state = (Split 2, st')"
    by (auto split: prod.splits run_end.splits)
  have "\<forall>t \<in> set (tasks (rn_queue sample_run_state)). tid t = 1 \<longrightarrow> kind t \<notin> set (po_kinds FILTER_CHUNKS)"
    by (simp add: sample_run_state_def new_task_def FILTER_CHUNKS_def)
  from run_holds_what_it_queues [OF st' this] show ?thesis using st' by blast
qed



definition sample_chunk :: "int \<Rightarrow> Task" where
  "sample_chunk i = new_task 0 i ''run_filter_chunk''
     (chunk_payload 1 7 sample_filter 1 (unit_jobs Live_unit [sample_posting ''u1''] []) False False) None (Some 1)"

definition sample_run_config :: run_config where
  "sample_run_config = \<lparr>rc_id = 1, rc_digest = ''d'', rc_kind = ''filter'', rc_body = filter_body sample_filter\<rparr>"


lemma park_waiting_kinds:
  "map tid (filter (\<lambda>t. kind t = k) (park_waiting cur i tot label tbl)) = map tid (filter (\<lambda>t. kind t = k) tbl)"
  by (induction tbl) (simp_all add: park_waiting_def update_where_def park_waiting_row_def)

lemma fallback_config_owner:
  "fallback_config now fenv alerts key purp own = Inr cfg \<Longrightarrow> cf_key_source cfg = cf_key_source own"
proof (cases "cf_key_source own \<noteq> ''owner'' \<or> cf_provider own \<notin> set (blocked_providers now (fb_cycle_minutes fenv) alerts)")
  case False
  assume "fallback_config now fenv alerts key purp own = Inr cfg"
  with False obtain shape where "(case route now fenv alerts shape None of
      Inl (NoEligibleModel _) \<Rightarrow> Inr own | Inl (Raised e) \<Rightarrow> Inl e
    | Inr choice \<Rightarrow>
        if c_fallback_from choice = None then Inr own
        else Inr (own\<lparr>cf_provider := c_provider choice, cf_model := c_model choice, cf_api_key := key (c_provider choice),
               cf_params := merge (drop_keys EFFORT_KEYS (cf_params own)) (effort_params (c_params choice)),
               cf_fallback_from := Some (cf_model own)\<rparr>)) = Inr cfg"
    by (auto simp: fallback_config_def and_then_Inr_iff)
  then show ?thesis by (auto split: sum.splits route_error.splits if_splits)
qed (simp add: fallback_config_def)

lemma shared_run_batches:
  assumes "fr_config env = Inr (ent, cfg)" "cf_key_source cfg = ''owner''"
  shows "run_filters env now cur i uid flts True ignore_budget st \<noteq> (Ran_live flt jobs, st')"
    "run_filters env now cur i uid flts True ignore_budget st = (Split n, st') \<Longrightarrow>
     map tid (filter (\<lambda>t. kind t = ''run_filter_chunk'') (tasks (rn_queue st')))
     = map tid (filter (\<lambda>t. kind t = ''run_filter_chunk'') (tasks (rn_queue st)))"
proof -
  show "run_filters env now cur i uid flts True ignore_budget st \<noteq> (Ran_live flt jobs, st')"
  proof
    assume run: "run_filters env now cur i uid flts True ignore_budget st = (Ran_live flt jobs, st')"
    show False
      by (rule run_filters_plan [OF run _ assms(1), of flt jobs undefined]) (use assms(2) in \<open>auto simp: unit_ok_def\<close>)
  qed
next
  assume run: "run_filters env now cur i uid flts True ignore_budget st = (Split n, st')"
  obtain units db where units: "\<forall>u \<in> set units. unit_ok Batch_unit
        (filter (\<lambda>p. pt_url p \<notin> set (in_flight_urls (tasks (rn_queue st)) uid)) (fr_candidates env)) u"
      "split_run env now cur i uid True ignore_budget units (st\<lparr>rn_verdicts := db\<rparr>) = (Split n, st')"
    by (rule run_filters_plan [OF run _ assms(1), of undefined undefined n]) (use assms(2) in auto)
  obtain new tot label where new: "tasks (rn_queue st') = park_waiting cur i tot label (tasks (rn_queue st) @ new)"
      "\<forall>t \<in> set new. new_chunk uid Batch_unit t"
    using split_run_appends [OF units(2,1)] by auto
  have "filter (\<lambda>t. kind t = ''run_filter_chunk'') new = []"
    using new(2) by (auto simp: filter_empty_conv new_chunk_def unit_kind_def)
  then show "map tid (filter (\<lambda>t. kind t = ''run_filter_chunk'') (tasks (rn_queue st')))
     = map tid (filter (\<lambda>t. kind t = ''run_filter_chunk'') (tasks (rn_queue st)))"
    by (simp add: new(1) park_waiting_kinds)
qed

text \<open>
  C25: Scheduled work on the shared key is batched or refused: a scheduled run checks nothing live and
  queues no live chunk, and a scheduled chunk neither checks live nor goes on without the batch
  transport.
\<close>

theorem scheduled_shared_work_is_batched_or_refused:
  assumes "fr_config env = Inr (ent, cfg)" "cf_key_source cfg = ''owner''"
  shows "run_filters env now cur i uid flts True ignore_budget st \<noteq> (Ran_live flt jobs, st')
    \<and> (run_filters env now cur i uid flts True ignore_budget st = (Split n, st') \<longrightarrow>
        map tid (filter (\<lambda>t. kind t = ''run_filter_chunk'') (tasks (rn_queue st')))
        = map tid (filter (\<lambda>t. kind t = ''run_filter_chunk'') (tasks (rn_queue st))))
    \<and> (scheduled tbl p \<longrightarrow> fst (start_chunk now fenv alerts key env cur existing j p tbl) \<notin> range Check_live \<union> range Stored_pages)"
proof -
  have "fst (start_chunk now fenv alerts key env cur existing j p tbl) \<notin> range Check_live \<union> range Stored_pages" if "scheduled tbl p"
  proof (cases "existing \<or> (\<exists>e. fallback_config now fenv alerts key FILTER_PURPOSE cfg = Inl e)")
    case False
    then obtain own where own: "fallback_config now fenv alerts key FILTER_PURPOSE cfg = Inr own"
      by (cases "fallback_config now fenv alerts key FILTER_PURPOSE cfg") auto
    obtain v tbl' where v: "run_transport now cur j own tbl = (v, tbl')" by fastforce
    have "v \<in> range Inl \<or> v = Inr ''batch''"
      using run_transport_owner v fallback_config_owner [OF own] assms(2) by (cases v) fastforce+
    then show ?thesis using False own v that assms(1) by (auto simp: start_chunk_def)
  qed (use assms(1) in \<open>auto simp: start_chunk_def\<close>)
  then show ?thesis by (intro conjI impI shared_run_batches [OF assms])
qed


theorem scheduled_shared_work_is_batched_or_refused_witness:
  "scheduled [] [(''scheduled'', JBool True)]
   \<and> fst (start_chunk 5 \<lparr>fb_chains = [], fb_groups = [], fb_cycle_minutes = 60, fb_keyed = []\<rparr> [] (\<lambda>p. p) sample_filter_run None
        False 8 [(''scheduled'', JBool True)] []) \<notin> range Check_live \<union> range Stored_pages
   \<and> run_filters sample_filter_run 5 None 1 7 [sample_filter] True False sample_run_state
     \<noteq> (Ran_live sample_filter [sample_posting ''u1''], sample_run_state)"
proof -
  have "fr_config sample_filter_run = Inr (sample_entitlement, sample_config)" "cf_key_source sample_config = ''owner''"
    by (simp_all add: sample_filter_run_def sample_config_def)
  moreover have "scheduled [] [(''scheduled'', JBool True)]" by code_simp
  ultimately show ?thesis
    using scheduled_shared_work_is_batched_or_refused
      [where env = sample_filter_run and now = 5 and cur = None and i = 1 and uid = 7 and flts = "[sample_filter]"
         and ignore_budget = False and st = sample_run_state and st' = sample_run_state and flt = sample_filter
         and jobs = "[sample_posting ''u1'']" and tbl = "[]" and p = "[(''scheduled'', JBool True)]" and alerts = "[]"
         and fenv = "\<lparr>fb_chains = [], fb_groups = [], fb_cycle_minutes = 60, fb_keyed = []\<rparr>" and key = "\<lambda>p. p"
         and existing = False and j = 8] by fast
qed

end
