(* ===== verification/Page_Fetches.thy ===== *)
theory Page_Fetches
  imports Filter_Runs Slots
begin

text \<open>
  Page fetches: the rows of \<open>core/page_fetches.py\<close> and the readers of their text, inline or held by
  reference; the back-off of pages that come back empty, the hourly allowance of a host and
  \<open>refresh_page\<close> (\<open>api/ai/verdicts.py\<close>, \<open>looks_blocked\<close> of \<open>api/fetching.py\<close>); and two automatic
  paths that fetch, the preparation of a filter run and the caching of a pull. The answers of web
  servers are arguments.
\<close>

section \<open>Rows and readers\<close>

record content_ref =
  cr_object :: string
  cr_size :: int
  cr_member :: string

record fetch_row =
  fw_id :: int
  fw_url :: string
  fw_status :: string
  fw_method :: string
  fw_content :: "string option"
  fw_ref :: "content_ref option"
  fw_chars :: "int option"
  fw_at :: instant

record fetch_db =
  fd_rows :: "fetch_row list"
  fd_next :: int

definition record_fetch ::
  "instant \<Rightarrow> string \<Rightarrow> string \<Rightarrow> string \<Rightarrow> string option \<Rightarrow> fetch_db \<Rightarrow> int \<times> fetch_db" where
  "record_fetch now url stat how content db =
     (fd_next db,
      db\<lparr>fd_rows := fd_rows db @ [\<lparr>fw_id = fd_next db, fw_url = url, fw_status = stat, fw_method = how,
            fw_content = content, fw_ref = None, fw_chars = None, fw_at = now\<rparr>],
         fd_next := fd_next db + 1\<rparr>)"

text \<open>The \<open>page_texts\<close> view: the rows with a text, and its length.\<close>

definition has_text :: "fetch_row \<Rightarrow> bool" where
  "has_text f \<longleftrightarrow> coalesce (fw_content f) '''' \<noteq> '''' \<or> fw_ref f \<noteq> None"

definition text_chars :: "fetch_row \<Rightarrow> int" where
  "text_chars f = coalesce (fw_chars f) (int (length (coalesce (fw_content f) '''')))"

text \<open>\<open>resolve\<close> of one row: an inline text costs nothing, a held one is read through the cache.\<close>

definition resolve_row ::
  "'o store \<Rightarrow> 'o \<Rightarrow> bool \<Rightarrow> fetch_row \<Rightarrow> bundle_cache \<Rightarrow> string option result \<times> bundle_cache" where
  "resolve_row st objs in_transaction f cache =
     (case fw_ref f of
        None \<Rightarrow> (Inr (fw_content f), cache)
      | Some link \<Rightarrow>
          if in_transaction
          then (Inl (RuntimeError ''Page text cannot be read inside a database transaction''), cache)
          else
            case get_digest_member st objs (cr_object link) (cr_size link) (cr_member link) cache of (found, cache') \<Rightarrow>
              (and_then found (\<lambda>v. case v of JStr s \<Rightarrow> Inr (Some s) | _ \<Rightarrow> Inl (PayloadUnavailable ''Page text is not a string'')),
               coalesce cache' cache))"

fun resolve_rows ::
  "'o store \<Rightarrow> 'o \<Rightarrow> bool \<Rightarrow> fetch_row list \<Rightarrow> bundle_cache \<Rightarrow> (fetch_row \<times> string option) list result" where
  "resolve_rows st objs in_transaction [] cache = Inr []"
| "resolve_rows st objs in_transaction (f # fs) cache =
     (case resolve_row st objs in_transaction f cache of (found, cache') \<Rightarrow>
        and_then found (\<lambda>s. and_then (resolve_rows st objs in_transaction fs cache') (\<lambda>rest. Inr ((f, s) # rest))))"

definition newest :: "(fetch_row \<Rightarrow> bool) \<Rightarrow> fetch_row list \<Rightarrow> fetch_row option" where
  "newest P rows = find (\<lambda>f. P f \<and> (\<forall>g \<in> set rows. P g \<longrightarrow> fw_id g \<le> fw_id f)) rows"

text \<open>\<open>get_contents\<close>: the newest text of each url.\<close>

definition get_contents :: "'o store \<Rightarrow> 'o \<Rightarrow> bool \<Rightarrow> string list \<Rightarrow> fetch_row list \<Rightarrow> pages result" where
  "get_contents st objs in_transaction urls rows =
     and_then (resolve_rows st objs in_transaction
         (List.map_filter (\<lambda>url. newest (\<lambda>f. fw_url f = url \<and> has_text f) rows) (sort (remdups urls))) [])
       (\<lambda>found. Inr (map (\<lambda>(f, s). (fw_url f, \<lparr>pg_fetch_id = fw_id f, pg_text = coalesce s ''''\<rparr>)) found))"

definition text_of :: "'o store \<Rightarrow> 'o \<Rightarrow> bool \<Rightarrow> int \<Rightarrow> fetch_row list \<Rightarrow> string option result" where
  "text_of st objs in_transaction i rows =
     (case find (\<lambda>f. fw_id f = i \<and> has_text f) rows of
        None \<Rightarrow> Inr None
      | Some f \<Rightarrow> fst (resolve_row st objs in_transaction f []))"

section \<open>Back-off\<close>

definition last_passed :: "string \<Rightarrow> fetch_row list \<Rightarrow> int" where
  "last_passed url rows = Max (set (0 # map fw_id (filter (\<lambda>f. fw_url f = url \<and> fw_status f = ''passed'') rows)))"

definition streak_rows :: "string \<Rightarrow> fetch_row list \<Rightarrow> fetch_row list" where
  "streak_rows url rows = filter (\<lambda>f. fw_url f = url \<and> fw_status f = ''failed'' \<and> fw_id f > last_passed url rows) rows"

text \<open>\<open>FETCH_STREAK\<close>: how many, and the latest.\<close>

definition FETCH_STREAK :: "string \<Rightarrow> fetch_row list \<Rightarrow> nat \<times> instant option" where
  "FETCH_STREAK url rows = (length (streak_rows url rows), max_instant (map fw_at (streak_rows url rows)))"

record retry_settings =
  rt_base :: int
  rt_cap :: int
  rt_give_up :: nat

definition retry_wait :: "retry_settings \<Rightarrow> nat \<Rightarrow> int" where
  "retry_wait rt n = hours (min (rt_base rt * 2 ^ (n - 1)) (rt_cap rt))"

definition fetch_parked :: "retry_settings \<Rightarrow> instant \<Rightarrow> fetch_row list \<Rightarrow> string \<Rightarrow> bool" where
  "fetch_parked rt now rows url \<longleftrightarrow>
     (case FETCH_STREAK url rows of (fails, latest_fail) \<Rightarrow>
        fails \<ge> rt_give_up rt
        \<or> (case latest_fail of None \<Rightarrow> False | Some t \<Rightarrow> t > now - retry_wait rt fails))"

definition fetch_parked_urls :: "retry_settings \<Rightarrow> instant \<Rightarrow> fetch_row list \<Rightarrow> string list \<Rightarrow> string list" where
  "fetch_parked_urls rt now rows urls = filter (fetch_parked rt now rows) urls"

definition fetch_failure_streaks :: "fetch_row list \<Rightarrow> string list \<Rightarrow> (string \<times> nat) list" where
  "fetch_failure_streaks rows urls =
     filter (\<lambda>un. snd un > 0) (map (\<lambda>u. (u, fst (FETCH_STREAK u rows))) urls)"

text \<open>\<open>host_paced\<close>: the allowance of a host, which holds no wildcard of \<open>LIKE\<close>.\<close>

definition host_paced :: "(string \<times> int) list \<Rightarrow> instant \<Rightarrow> fetch_row list \<Rightarrow> string \<Rightarrow> bool" where
  "host_paced limits now rows url =
     (case map_of limits (hostname url) of
        None \<Rightarrow> False
      | Some per_hour \<Rightarrow>
          per_hour \<noteq> 0
          \<and> int (length (filter (\<lambda>f. fw_at f > now - hours 1
                \<and> (starts_with (''https://'' @ hostname url @ ''/'') (fw_url f)
                   \<or> starts_with (''http://'' @ hostname url @ ''/'') (fw_url f))) rows)) \<ge> per_hour)"

section \<open>Refreshing a page\<close>

definition BLOCK_MARKERS :: "string list" where
  "BLOCK_MARKERS = [''captcha'', ''access denied'', ''request blocked'', ''are you a robot'', ''unusual traffic'',
     ''too many requests'', ''rate limit'', ''just a moment'', ''checking your browser'', ''attention required'',
     ''service unavailable'', ''temporarily unavailable'', ''not available in your region'',
     ''not available in your country'', ''error 503'', ''error 502'']"

definition looks_blocked :: "string option \<Rightarrow> bool" where
  "looks_blocked content =
     (let s = py_strip (coalesce content '''') in
      coalesce content '''' \<noteq> ''''
      \<and> (length s < 300 \<or> length s < 6000 \<and> (\<exists>m \<in> set BLOCK_MARKERS. contains m (py_lower s))))"

datatype ats_status = Ats_ok | Ats_gone | Ats_other

record ats_answer =
  an_status :: ats_status
  an_text :: "string option"
  an_posted :: "string option"

text \<open>
  What a refresh meets: when it runs, the answer of the posting's own board (\<open>core/fetching/ats\<close>),
  whether a source lists the posting's site, the settings, and what the two fetchers bring back.
\<close>

record fetch_world =
  wd_at :: instant
  wd_ats :: "ats_answer result"
  wd_listed :: bool
  wd_limits :: "(string \<times> int) list"
  wd_static_first :: bool
  wd_static :: "string option result"
  wd_browser :: "string option result"

record page_state =
  ps_fetches :: fetch_db
  ps_verdicts :: verdict_db
  ps_dates :: "(string \<times> string option) list"

text \<open>The posting's row of \<open>jobs\<close>, its url and date.\<close>

definition fill_date_posted :: "string \<Rightarrow> string \<Rightarrow> (string \<times> string option) list \<Rightarrow> (string \<times> string option) list" where
  "fill_date_posted url posted = map (\<lambda>(u, d). (u, if u = url \<and> d = None then Some posted else d))"

record ledger_env =
  le_writer :: writer
  le_sha256 :: "string \<Rightarrow> string"
  le_call_of :: "string \<Rightarrow> string \<Rightarrow> int option"

definition record_manual ::
  "ledger_env \<Rightarrow> string \<Rightarrow> string \<Rightarrow> bool \<Rightarrow> string \<Rightarrow> string \<Rightarrow> string \<Rightarrow> string \<Rightarrow> verdict_db \<Rightarrow> verdict_db result" where
  "record_manual le url check_type rejected why company title context db =
     and_then (ai_result_row (le_writer le) ((ai_row_of url (if rejected then ''rejected'' else ''passed'') (Some why) check_type)
         \<lparr>ai_company := Some company, ai_job_title := Some title, ai_config_name := Some context\<rparr>))
       (\<lambda>rw. add_ai_results (le_sha256 le) (le_call_of le) [rw] db)"

definition nonempty :: "string option \<Rightarrow> bool" where
  "nonempty s \<longleftrightarrow> coalesce s '''' \<noteq> ''''"

text \<open>A text that was read: the row it becomes, and the page.\<close>

definition stored_page ::
  "instant \<Rightarrow> string \<Rightarrow> string \<Rightarrow> string \<Rightarrow> page_state \<Rightarrow> (Page option \<times> string option) \<times> page_state" where
  "stored_page now url how body ps =
     (case record_fetch now url ''passed'' how (Some body) (ps_fetches ps) of (i, db) \<Rightarrow>
        ((Some \<lparr>pg_fetch_id = i, pg_text = body\<rparr>, None), ps\<lparr>ps_fetches := db\<rparr>))"

text \<open>The part of \<open>refresh_page\<close> after the host's allowance: the static fetcher, then the browser.\<close>

definition fetch_rendered ::
  "fetch_world \<Rightarrow> string \<Rightarrow> page_state \<Rightarrow> (Page option \<times> string option) result \<times> page_state" where
  "fetch_rendered w url ps =
     (let browser =
        (case wd_browser w of
           Inl e \<Rightarrow> (Inl e, ps)
         | Inr content \<Rightarrow>
             if nonempty content
             then (case stored_page (wd_at w) url ''scraped'' (the content) ps of (page, ps') \<Rightarrow> (Inr page, ps'))
             else (Inr (None, None),
                   ps\<lparr>ps_fetches := snd (record_fetch (wd_at w) url ''failed'' ''fetch returned nothing'' None (ps_fetches ps))\<rparr>)) in
      if wd_static_first w \<and> \<not> wd_listed w
      then (case wd_static w of
              Inl e \<Rightarrow> (Inl e, ps)
            | Inr static \<Rightarrow>
                if nonempty static
                then (case stored_page (wd_at w) url ''static'' (the static) ps of (page, ps') \<Rightarrow> (Inr page, ps'))
                else browser)
      else browser)"

definition refresh_page ::
  "ledger_env \<Rightarrow> fetch_world \<Rightarrow> string \<Rightarrow> string \<Rightarrow> string \<Rightarrow> string \<Rightarrow> page_state
   \<Rightarrow> (Page option \<times> string option) result \<times> page_state" where
  "refresh_page le w url company title context ps =
     (case wd_ats w of
        Inl e \<Rightarrow> (Inl e, ps)
      | Inr ats \<Rightarrow>
          if an_status ats = Ats_gone
          then (case record_manual le url ''closed'' True ''ATS reports posting gone'' company title context (ps_verdicts ps) of
                  Inl e \<Rightarrow> (Inl e, ps)
                | Inr db \<Rightarrow> (Inr (None, Some ''ats_gone''), ps\<lparr>ps_verdicts := db\<rparr>))
          else if an_status ats = Ats_ok \<and> nonempty (an_text ats) \<and> \<not> looks_blocked (an_text ats)
          then (case stored_page (wd_at w) url ''ats text'' (the (an_text ats)) ps of (page, ps') \<Rightarrow>
                  (Inr page,
                   case an_posted ats of
                     None \<Rightarrow> ps'
                   | Some posted \<Rightarrow> ps'\<lparr>ps_dates := fill_date_posted url posted (ps_dates ps')\<rparr>))
          else if host_paced (wd_limits w) (wd_at w) (fd_rows (ps_fetches ps)) url then (Inr (None, None), ps)
          else fetch_rendered w url ps)"

section \<open>Automatic paths\<close>

text \<open>
  \<open>fetch\<close> of \<open>prepare_content\<close>: a refresh that raises is logged and leaves the posting without text.
\<close>

record fetch_env =
  fe_ledger :: ledger_env
  fe_retry :: retry_settings
  fe_world :: "string \<Rightarrow> fetch_world"
  fe_cancelled :: "string \<Rightarrow> bool"

fun fetch_each :: "fetch_env \<Rightarrow> posting list \<Rightarrow> pages \<times> page_state \<Rightarrow> pages \<times> page_state" where
  "fetch_each env [] cp = cp"
| "fetch_each env (p # ps) (contents, st) =
     (if fe_cancelled env (pt_url p) then fetch_each env ps (contents, st)
      else case refresh_page (fe_ledger env) (fe_world env (pt_url p)) (pt_url p) (pt_company p) (pt_title p) ''filter-prepare'' st of
        (Inr (Some page, _), st') \<Rightarrow> fetch_each env ps ((pt_url p, page) # contents, st')
      | (_, st') \<Rightarrow> fetch_each env ps (contents, st'))"

definition prepare_content ::
  "'o store \<Rightarrow> 'o \<Rightarrow> fetch_env \<Rightarrow> instant \<Rightarrow> int \<Rightarrow> posting list \<Rightarrow> page_state \<times> Task list
   \<Rightarrow> (pages \<times> int) result \<times> page_state \<times> Task list" where
  "prepare_content st objs env now i jobs pt =
     (case pt of (ps, tbl) \<Rightarrow>
        case get_contents st objs False (map pt_url jobs) (fd_rows (ps_fetches ps)) of
          Inl e \<Rightarrow> (Inl e, ps, tbl)
        | Inr contents \<Rightarrow>
            let missing = filter (\<lambda>p. pt_url p \<notin> fst ` set contents) jobs;
                parked = fetch_parked_urls (fe_retry env) now (fd_rows (ps_fetches ps)) (map pt_url missing);
                pending = filter (\<lambda>p. pt_url p \<notin> set parked) missing;
                (contents', ps') = fetch_each env pending (contents, ps) in
            (Inr (contents', unavailable_pages jobs contents'), ps', report_unavailable i jobs contents' tbl))"

definition content_ready_urls :: "fetch_row list \<Rightarrow> string list \<Rightarrow> string list" where
  "content_ready_urls rows urls = filter (\<lambda>u. \<exists>f \<in> set rows. fw_url f = u \<and> has_text f) urls"

text \<open>
  \<open>_cache_pages\<close> of a pull: the listing's own text is stored without a fetch. \<open>fe_cancelled\<close> is asked
  at every tenth posting. The task's progress is not modelled.
\<close>

record cache_counts =
  ct_already_cached :: nat
  ct_skipped_recent_failure :: nat
  ct_cached :: nat
  ct_failed :: nat
  ct_gone :: nat

fun cache_each ::
  "fetch_env \<Rightarrow> instant \<Rightarrow> string list \<Rightarrow> nat \<Rightarrow> (posting \<times> string) list \<Rightarrow> cache_counts \<times> page_state
   \<Rightarrow> cache_counts option \<times> page_state" where
  "cache_each env now known i [] (n, st) = (Some n, st)"
| "cache_each env now known i ((p, description) # ps) (n, st) =
     (if i mod 10 = 0 \<and> fe_cancelled env (pt_url p) then (None, st)
      else if pt_url p \<in> set known then cache_each env now known (i + 1) ps (n, st)
      else if description \<noteq> ''''
      then cache_each env now known (i + 1) ps
             (n\<lparr>ct_cached := ct_cached n + 1\<rparr>,
              st\<lparr>ps_fetches := snd (record_fetch now (pt_url p) ''passed'' ''listing text'' (Some description) (ps_fetches st))\<rparr>)
      else case refresh_page (fe_ledger env) (fe_world env (pt_url p)) (pt_url p) (pt_company p) (pt_title p) ''ingest'' st of
        (Inl e, st') \<Rightarrow> cache_each env now known (i + 1) ps (n\<lparr>ct_failed := ct_failed n + 1\<rparr>, st')
      | (Inr (page, closure), st') \<Rightarrow>
          cache_each env now known (i + 1) ps
            (if nonempty closure then n\<lparr>ct_gone := ct_gone n + 1\<rparr>
             else if \<not> nonempty (map_option pg_text page) then n\<lparr>ct_failed := ct_failed n + 1\<rparr>
             else n\<lparr>ct_cached := ct_cached n + 1\<rparr>, st'))"

definition cache_pages ::
  "fetch_env \<Rightarrow> instant \<Rightarrow> (posting \<times> string) list \<Rightarrow> page_state \<Rightarrow> cache_counts option \<times> page_state" where
  "cache_pages env now cands ps =
     (let rows = fd_rows (ps_fetches ps);
          have_content = content_ready_urls rows (map (pt_url \<circ> fst) cands);
          tried = fetch_parked_urls (fe_retry env) now rows
                    (filter (\<lambda>u. u \<notin> set have_content) (map (pt_url \<circ> fst) cands)) in
      cache_each env now (have_content @ tried) 0 cands
        (\<lparr>ct_already_cached = length (remdups have_content), ct_skipped_recent_failure = length (remdups tried), ct_cached = 0, ct_failed = 0, ct_gone = 0\<rparr>, ps))"

section \<open>What a fetch appends_fetch\<close>

text \<open>Ids are given in order, from one.\<close>

definition fetch_db_ok :: "fetch_db \<Rightarrow> bool" where
  "fetch_db_ok db \<longleftrightarrow> fd_next db > 0 \<and> list_all (\<lambda>f. fw_id f > 0 \<and> fw_id f < fd_next db) (fd_rows db) \<and> distinct (map fw_id (fd_rows db))"

definition appends_fetch :: "string \<Rightarrow> instant \<Rightarrow> fetch_db \<Rightarrow> fetch_row \<Rightarrow> fetch_db \<Rightarrow> bool" where
  "appends_fetch url t db f db' \<longleftrightarrow>
     fd_rows db' = fd_rows db @ [f] \<and> fd_next db' = fd_next db + 1 \<and> fw_id f = fd_next db
     \<and> fw_url f = url \<and> fw_at f = t \<and> (fw_status f = ''passed'' \<or> fw_status f = ''failed'')"

lemma appends_ok: "appends_fetch url t db f db' \<Longrightarrow> fetch_db_ok db \<Longrightarrow> fetch_db_ok db'"
  by (auto simp: appends_fetch_def fetch_db_ok_def list_all_iff)

lemma record_appends:
  "method_status = ''passed'' \<or> method_status = ''failed'' \<Longrightarrow>
   \<exists>f. appends_fetch url t db f (snd (record_fetch t url method_status how content db)) \<and> fw_status f = method_status"
  by (auto simp: record_fetch_def appends_fetch_def)

lemma stored_page_appends:
  assumes "stored_page t url how body ps = (page, ps')"
  shows "\<exists>f. appends_fetch url t (ps_fetches ps) f (ps_fetches ps') \<and> fw_status f = ''passed''"
  using assms record_appends [of "''passed''" url t "ps_fetches ps" how "Some body"]
  by (auto simp: stored_page_def split: prod.splits)

definition page_refreshed :: "string \<Rightarrow> instant \<Rightarrow> page_state \<Rightarrow> page_state \<Rightarrow> bool" where
  "page_refreshed url t ps ps' \<longleftrightarrow> ps_fetches ps' = ps_fetches ps \<or> (\<exists>f. appends_fetch url t (ps_fetches ps) f (ps_fetches ps'))"

lemma fetch_rendered_refreshes:
  assumes "fetch_rendered w url ps = (r, ps')"
  shows "page_refreshed url (wd_at w) ps ps'" "r = Inr (Some page, c) \<Longrightarrow>
    \<exists>f. appends_fetch url (wd_at w) (ps_fetches ps) f (ps_fetches ps') \<and> fw_status f = ''passed''"
  using assms stored_page_appends [of "wd_at w" url _ _ ps] record_appends [of "''failed''" url "wd_at w" "ps_fetches ps"]
  by (auto simp: fetch_rendered_def page_refreshed_def Let_def split: sum.splits prod.splits if_splits; blast)+

lemma refresh_page_refreshes:
  assumes "refresh_page le w url company title context ps = (r, ps')"
  shows "page_refreshed url (wd_at w) ps ps'" "r = Inr (Some page, c) \<Longrightarrow>
    \<exists>f. appends_fetch url (wd_at w) (ps_fetches ps) f (ps_fetches ps') \<and> fw_status f = ''passed''"
  using assms stored_page_appends [of "wd_at w" url _ _ ps] fetch_rendered_refreshes [of w url ps r ps']
  by (auto simp: refresh_page_def page_refreshed_def split: sum.splits prod.splits if_splits option.splits; blast)+

section \<open>Streaks\<close>

lemma last_passed_append:
  assumes "appends_fetch url t db f db'" "fetch_db_ok db"
  shows "last_passed u (fd_rows db') = (if u = url \<and> fw_status f = ''passed'' then fw_id f else last_passed u (fd_rows db))"
proof (cases "u = url \<and> fw_status f = ''passed''")
  case True
  then have "last_passed u (fd_rows db') = fw_id f"
    unfolding last_passed_def using assms by (intro Max_eqI) (auto simp: appends_fetch_def fetch_db_ok_def list_all_iff less_imp_le)
  with True show ?thesis by simp
next
  case False
  then show ?thesis using assms(1) by (auto simp: last_passed_def appends_fetch_def)
qed

lemma last_passed_below: "fetch_db_ok db \<Longrightarrow> last_passed u (fd_rows db) < fd_next db"
  by (auto simp: last_passed_def fetch_db_ok_def list_all_iff)

lemma streak_append:
  assumes "appends_fetch url t db f db'" "fetch_db_ok db"
  shows "streak_rows u (fd_rows db') =
    (if u \<noteq> url then streak_rows u (fd_rows db)
     else if fw_status f = ''passed'' then [] else streak_rows u (fd_rows db) @ [f])"
proof -
  have f: "fd_rows db' = fd_rows db @ [f]" "fw_url f = url" "fw_id f = fd_next db"
      "fw_status f = ''passed'' \<or> fw_status f = ''failed''" and below: "\<forall>g \<in> set (fd_rows db). fw_id g < fd_next db"
    using assms by (auto simp: appends_fetch_def fetch_db_ok_def list_all_iff)
  show ?thesis
    using f below last_passed_below [OF assms(2), of u] last_passed_append [OF assms, of u]
    by (auto simp: streak_rows_def filter_empty_conv intro!: filter_cong)
qed

section \<open>Automatic fetches back off\<close>

text \<open>Each instant after the first is at least the wait of the failures before it behind the one before.\<close>

definition waits_between :: "retry_settings \<Rightarrow> instant list \<Rightarrow> bool" where
  "waits_between rt ts \<longleftrightarrow> list_all (\<lambda>k. ts ! k + retry_wait rt (k + 1) \<le> ts ! (k + 1)) [0..<length ts - 1]"

definition backed_off :: "retry_settings \<Rightarrow> fetch_row list \<Rightarrow> bool" where
  "backed_off rt rows \<longleftrightarrow>
     (\<forall>url. length (streak_rows url rows) \<le> rt_give_up rt \<and> waits_between rt (map fw_at (streak_rows url rows)))"

lemma spaced_snoc:
  "waits_between rt ts \<Longrightarrow> (ts = [] \<or> last ts + retry_wait rt (length ts) \<le> t) \<Longrightarrow> waits_between rt (ts @ [t])"
  by (cases ts rule: rev_cases) (auto simp: waits_between_def list_all_iff nth_append less_Suc_eq)

lemma max_instant_ge: "t \<in> set ts \<Longrightarrow> \<exists>m. max_instant ts = Some m \<and> t \<le> m"
proof (cases ts)
  case (Cons a rest)
  have "a \<le> foldr max rest a" "x \<in> set rest \<Longrightarrow> x \<le> foldr max rest a" for x
    by (induction rest) (auto simp: le_max_iff_disj)
  then show "t \<in> set ts \<Longrightarrow> ?thesis" using Cons by (auto simp: max_instant_def)
qed simp

lemma not_parked:
  assumes "\<not> fetch_parked rt now rows url"
  shows "length (streak_rows url rows) < rt_give_up rt"
    "streak_rows url rows = [] \<or> last (map fw_at (streak_rows url rows)) + retry_wait rt (length (streak_rows url rows)) \<le> now"
proof -
  let ?ts = "map fw_at (streak_rows url rows)"
  have "last ?ts + retry_wait rt (length ?ts) \<le> now" if "?ts \<noteq> []"
    using max_instant_ge [OF last_in_set [OF that]] assms by (auto simp: fetch_parked_def FETCH_STREAK_def)
  then show "streak_rows url rows = [] \<or> last ?ts + retry_wait rt (length (streak_rows url rows)) \<le> now" by fastforce
  show "length (streak_rows url rows) < rt_give_up rt"
    using assms by (auto simp: fetch_parked_def FETCH_STREAK_def)
qed

lemma parked_streak: "streak_rows u rows' = streak_rows u rows \<Longrightarrow> fetch_parked rt now rows' u = fetch_parked rt now rows u"
  by (simp add: fetch_parked_def FETCH_STREAK_def)

text \<open>What holds within a run that began at \<open>now\<close> with the postings \<open>urls\<close> still to fetch.\<close>

definition run_ok :: "retry_settings \<Rightarrow> instant \<Rightarrow> string set \<Rightarrow> page_state \<Rightarrow> bool" where
  "run_ok rt now urls ps \<longleftrightarrow>
     fetch_db_ok (ps_fetches ps) \<and> backed_off rt (fd_rows (ps_fetches ps))
     \<and> (\<forall>u \<in> urls. \<not> fetch_parked rt now (fd_rows (ps_fetches ps)) u)"

lemma run_ok_subset: "run_ok rt now urls ps \<Longrightarrow> vs \<subseteq> urls \<Longrightarrow> run_ok rt now vs ps"
  by (auto simp: run_ok_def)

lemma appends_run_ok:
  assumes "appends_fetch url t (ps_fetches ps) f (ps_fetches ps')" "run_ok rt now urls ps" "now \<le> t" "url \<in> urls \<or> fw_status f = ''passed''"
  shows "run_ok rt now (urls - {url}) ps'"
proof -
  let ?rows = "fd_rows (ps_fetches ps)" and ?rows' = "fd_rows (ps_fetches ps')"
  have ok: "fetch_db_ok (ps_fetches ps)" and off: "backed_off rt ?rows"
    using assms(2) by (simp_all add: run_ok_def)
  note streaks = streak_append [OF assms(1) ok]
  have at: "fw_at f = t" using assms(1) by (simp add: appends_fetch_def)
  have "length (streak_rows u ?rows') \<le> rt_give_up rt \<and> waits_between rt (map fw_at (streak_rows u ?rows'))" for u
  proof (cases "u = url \<and> fw_status f \<noteq> ''passed''")
    case True
    then have "\<not> fetch_parked rt now ?rows u" using assms(2,4) by (auto simp: run_ok_def)
    note parked = not_parked [OF this]
    have "waits_between rt (map fw_at (streak_rows u ?rows) @ [t])"
      using off parked(2) assms(3) by (intro spaced_snoc) (auto simp: backed_off_def)
    then show ?thesis using True parked(1) at by (simp add: streaks)
  next
    case False
    then show ?thesis using off by (auto simp: streaks backed_off_def waits_between_def)
  qed
  moreover have "\<not> fetch_parked rt now ?rows' u" if "u \<in> urls - {url}" for u
    using that assms(2) parked_streak [of u ?rows' ?rows] by (auto simp: streaks run_ok_def)
  ultimately show ?thesis using appends_ok [OF assms(1) ok] by (auto simp: run_ok_def backed_off_def)
qed

lemma refresh_run_ok:
  assumes "refresh_page le w url company title context ps = (r, ps')" "run_ok rt now urls ps" "url \<in> urls" "now \<le> wd_at w"
  shows "run_ok rt now (urls - {url}) ps'"
proof -
  have "page_refreshed url (wd_at w) ps ps'" by (rule refresh_page_refreshes [OF assms(1)])
  then consider "ps_fetches ps' = ps_fetches ps" | f where "appends_fetch url (wd_at w) (ps_fetches ps) f (ps_fetches ps')"
    by (auto simp: page_refreshed_def)
  then show ?thesis
  proof cases
    case 1
    then show ?thesis using assms(2) by (auto simp: run_ok_def)
  next
    case 2
    then show ?thesis by (rule appends_run_ok) (use assms in auto)
  qed
qed

lemma fetch_each_run_ok:
  assumes "fetch_each env jobs (contents, ps) = (contents', ps')" "run_ok rt now (pt_url ` set jobs) ps"
    "distinct (map pt_url jobs)" "\<forall>p \<in> set jobs. now \<le> wd_at (fe_world env (pt_url p))"
  shows "run_ok rt now {} ps'"
  using assms
proof (induction jobs arbitrary: contents ps)
  case (Cons p jobs)
  show ?case
  proof (cases "fe_cancelled env (pt_url p)")
    case True
    then show ?thesis using Cons by (auto intro: run_ok_subset)
  next
    case False
    obtain r ps1 where r: "refresh_page (fe_ledger env) (fe_world env (pt_url p)) (pt_url p) (pt_company p) (pt_title p)
        ''filter-prepare'' ps = (r, ps1)" by fastforce
    have "run_ok rt now (pt_url ` set (p # jobs) - {pt_url p}) ps1"
      using Cons.prems by (intro refresh_run_ok [OF r]) auto
    then have "run_ok rt now (pt_url ` set jobs) ps1"
      by (rule run_ok_subset) (use Cons.prems(3) in auto)
    moreover obtain contents1 where "fetch_each env jobs (contents1, ps1) = (contents', ps')"
      using Cons.prems(1) False r by (cases r) (auto split: option.splits)
    ultimately show ?thesis using Cons.IH [of contents1 ps1] Cons.prems(3,4) by auto
  qed
qed simp

lemma cache_each_run_ok:
  assumes "cache_each env now known i cands (n, ps) = (r, ps')" "run_ok rt now (pt_url ` fst ` set cands - set known) ps"
    "distinct (map (pt_url \<circ> fst) cands)" "\<forall>c \<in> set cands. now \<le> wd_at (fe_world env (pt_url (fst c)))"
  shows "run_ok rt now {} ps'"
  using assms
proof (induction env now known i cands "(n, ps)" arbitrary: n ps rule: cache_each.induct)
  case (2 env now known i p description cands n ps)
  let ?todo = "pt_url ` fst ` set cands - set known"
  have todo: "?todo \<subseteq> pt_url ` fst ` set ((p, description) # cands) - set known - {pt_url p}"
    using "2.prems"(3) by (auto simp: image_iff)
  consider (stop) "i mod 10 = 0 \<and> fe_cancelled env (pt_url p)" | (known) "\<not> (i mod 10 = 0 \<and> fe_cancelled env (pt_url p))" "pt_url p \<in> set known"
    | (listed) "\<not> (i mod 10 = 0 \<and> fe_cancelled env (pt_url p))" "pt_url p \<notin> set known" "description \<noteq> ''''"
    | (fetch) "\<not> (i mod 10 = 0 \<and> fe_cancelled env (pt_url p))" "pt_url p \<notin> set known" "description = ''''" by blast
  then show ?case
  proof cases
    case stop
    then show ?thesis using "2.prems" by (auto intro: run_ok_subset)
  next
    case known
    moreover have "run_ok rt now ?todo ps" using "2.prems"(2) by (rule run_ok_subset) auto
    ultimately show ?thesis using "2.hyps"(1) "2.prems" by auto
  next
    case listed
    let ?ps = "ps\<lparr>ps_fetches := snd (record_fetch now (pt_url p) ''passed'' ''listing text'' (Some description) (ps_fetches ps))\<rparr>"
    obtain f where "appends_fetch (pt_url p) now (ps_fetches ps) f (ps_fetches ?ps)" "fw_status f = ''passed''"
      using record_appends [of "''passed''"] by fastforce
    then have "run_ok rt now (pt_url ` fst ` set ((p, description) # cands) - set known - {pt_url p}) ?ps"
      using "2.prems"(2) by (intro appends_run_ok) auto
    then have "run_ok rt now ?todo ?ps" using todo by (rule run_ok_subset)
    then show ?thesis using "2.hyps"(2) "2.prems" listed by auto
  next
    case fetch
    obtain r1 ps1 where r: "refresh_page (fe_ledger env) (fe_world env (pt_url p)) (pt_url p) (pt_company p) (pt_title p)
        ''ingest'' ps = (r1, ps1)" by fastforce
    have "run_ok rt now (pt_url ` fst ` set ((p, description) # cands) - set known - {pt_url p}) ps1"
      using "2.prems" fetch by (intro refresh_run_ok [OF r]) auto
    then have "run_ok rt now ?todo ps1" using todo by (rule run_ok_subset)
    then show ?thesis using "2.hyps"(3,4) "2.prems" fetch r by (cases r1) (auto split: prod.splits)
  qed
qed simp

lemma prepare_content_run_ok:
  assumes "prepare_content st objs env now i jobs (ps, tbl) = (r, ps', tbl')" "run_ok (fe_retry env) now {} ps"
    "distinct (map pt_url jobs)" "\<forall>p \<in> set jobs. now \<le> wd_at (fe_world env (pt_url p))"
  shows "run_ok (fe_retry env) now {} ps'"
proof (cases "get_contents st objs False (map pt_url jobs) (fd_rows (ps_fetches ps))")
  case (Inl e)
  then show ?thesis using assms by (auto simp: prepare_content_def)
next
  case (Inr contents)
  let ?missing = "filter (\<lambda>p. pt_url p \<notin> fst ` set contents) jobs"
  let ?pending = "filter (\<lambda>p. pt_url p \<notin> set (fetch_parked_urls (fe_retry env) now (fd_rows (ps_fetches ps)) (map pt_url ?missing))) ?missing"
  obtain c' where c': "fetch_each env ?pending (contents, ps) = (c', ps')"
    using assms(1) Inr by (auto simp: prepare_content_def Let_def split: prod.splits)
  have "run_ok (fe_retry env) now (pt_url ` set ?pending) ps"
    using assms(2) by (auto simp: run_ok_def fetch_parked_urls_def)
  then show ?thesis using assms(3,4) by (intro fetch_each_run_ok [OF c']) (auto simp: distinct_map_filter)
qed

lemma cache_pages_run_ok:
  assumes "cache_pages env now cands ps = (r, ps')" "run_ok (fe_retry env) now {} ps"
    "distinct (map (pt_url \<circ> fst) cands)" "\<forall>c \<in> set cands. now \<le> wd_at (fe_world env (pt_url (fst c)))"
  shows "run_ok (fe_retry env) now {} ps'"
  using assms unfolding cache_pages_def Let_def
  by (intro cache_each_run_ok [OF assms(1) [unfolded cache_pages_def Let_def]])
    (auto simp: run_ok_def fetch_parked_urls_def content_ready_urls_def)

end
