(* ===== verification/Listings.thy ===== *)
theory Listings
  imports Object_Store
begin

text \<open>
  A listing's description and raw record, inline or as members of verified bundle objects
  (\<open>core/payloads/listings.py\<close>): what a pull writes, and the moves of stored listings between the two
  shapes.
\<close>

section \<open>Uploading values\<close>

text \<open>Values keyed by their digest, uploaded bundle by bundle.\<close>

fun put_bundles ::
  "'o store \<Rightarrow> object list \<Rightarrow> 'o \<Rightarrow> (string \<times> BundleMemberRef) list result \<times> 'o" where
  "put_bundles st [] objs = (Inr [], objs)"
| "put_bundles st (g # gs) objs =
     (case put_bundle st g objs of
        (Inl e, objs') \<Rightarrow> (Inl e, objs')
      | (Inr refs, objs') \<Rightarrow>
          (case put_bundles st gs objs' of (rest, objs'') \<Rightarrow> (and_then rest (\<lambda>more_refs. Inr (refs @ more_refs)), objs'')))"

definition put_values ::
  "'o store \<Rightarrow> bool \<Rightarrow> object \<Rightarrow> 'o \<Rightarrow> (string \<times> string \<times> int) list result \<times> 'o" where
  "put_values st in_transaction values objs =
     (if in_transaction
      then (Inl (RuntimeError ''Listing payloads cannot be uploaded inside a database transaction''), objs)
      else case put_bundles st (bundle_groups (\<lambda>item. int (length (encode_payload (snd item)))) values) objs of
        (refs, objs') \<Rightarrow> (and_then refs (\<lambda>rs. Inr (map (\<lambda>(name, ref). (name, bm_sha256 ref, bm_size ref)) rs)), objs'))"

section \<open>Two shapes of a field\<close>

record field_link =
  fk_sha256 :: string
  fk_object :: string
  fk_size :: int

record payload_field =
  fi_inline :: json
  fi_link :: "field_link option"

record listing =
  li_url :: string
  li_description :: payload_field
  li_raw :: payload_field

datatype field_name = Description | Raw

definition FIELDS :: "field_name list" where "FIELDS = [Description, Raw]"

primrec field_of :: "field_name \<Rightarrow> listing \<Rightarrow> payload_field" where
  "field_of Description = li_description"
| "field_of Raw = li_raw"

primrec put_field :: "field_name \<Rightarrow> payload_field \<Rightarrow> listing \<Rightarrow> listing" where
  "put_field Description f l = l\<lparr>li_description := f\<rparr>"
| "put_field Raw f l = l\<lparr>li_raw := f\<rparr>"

text \<open>The column's default, and \<open>_TYPES\<close>.\<close>

primrec field_default :: "field_name \<Rightarrow> json" where
  "field_default Description = JStr ''''"
| "field_default Raw = JObj []"

fun has_type :: "field_name \<Rightarrow> json \<Rightarrow> bool" where
  "has_type Description (JStr s) = True"
| "has_type Raw (JObj kvs) = True"
| "has_type name v = False"

definition not_a :: "field_name \<Rightarrow> string" where
  "not_a name = (case name of Description \<Rightarrow> ''Listing description is not a str'' | Raw \<Rightarrow> ''Listing raw is not a dict'')"

section \<open>Reading\<close>

definition resolve_field ::
  "'o store \<Rightarrow> 'o \<Rightarrow> bool \<Rightarrow> field_name \<Rightarrow> listing \<Rightarrow> bundle_cache \<Rightarrow> json result \<times> bundle_cache" where
  "resolve_field st objs in_transaction name l cache =
     (case fi_link (field_of name l) of
        None \<Rightarrow> (Inr (fi_inline (field_of name l)), cache)
      | Some k \<Rightarrow>
          if in_transaction
          then (Inl (RuntimeError ''A listing payload cannot be read inside a database transaction''), cache)
          else
            case get_digest_member st objs (fk_object k) (fk_size k) (fk_sha256 k) cache of (found, cache') \<Rightarrow>
              (and_then found (\<lambda>v. if has_type name v then Inr v else Inl (PayloadUnavailable (not_a name))), coalesce cache' cache))"

text \<open>A resolved row: the listing with the values of its two fields.\<close>

definition resolve_listing ::
  "'o store \<Rightarrow> 'o \<Rightarrow> bool \<Rightarrow> listing \<Rightarrow> bundle_cache \<Rightarrow> (field_name \<Rightarrow> json) result \<times> bundle_cache" where
  "resolve_listing st objs in_transaction l cache =
     (case resolve_field st objs in_transaction Description l cache of
        (Inl e, cache1) \<Rightarrow> (Inl e, cache1)
      | (Inr d, cache1) \<Rightarrow>
          (case resolve_field st objs in_transaction Raw l cache1 of (raw, cache2) \<Rightarrow>
             (and_then raw (\<lambda>r. Inr (case_field_name d r)), cache2)))"

fun resolve_listings ::
  "'o store \<Rightarrow> 'o \<Rightarrow> bool \<Rightarrow> listing list \<Rightarrow> bundle_cache \<Rightarrow> (listing \<times> (field_name \<Rightarrow> json)) list result \<times> bundle_cache" where
  "resolve_listings st objs in_transaction [] cache = (Inr [], cache)"
| "resolve_listings st objs in_transaction (l # ls) cache =
     (case resolve_listing st objs in_transaction l cache of
        (Inl e, cache') \<Rightarrow> (Inl e, cache')
      | (Inr vals, cache') \<Rightarrow>
          (case resolve_listings st objs in_transaction ls cache' of (rest, cache'') \<Rightarrow>
             (and_then rest (\<lambda>found. Inr ((l, vals) # found)), cache'')))"

section \<open>What a pull writes\<close>

definition value_digest :: "'o store \<Rightarrow> json \<Rightarrow> string" where
  "value_digest st v = st_sha256 st (encode_payload v)"

text \<open>The references the stored rows of this pull already have; a later one for a digest replaces an earlier.\<close>

definition known_links :: "listing list \<Rightarrow> string list \<Rightarrow> (string \<times> string \<times> int) list" where
  "known_links table urls =
     rev (concat (map (\<lambda>l. List.map_filter (\<lambda>name. map_option (\<lambda>k. (fk_sha256 k, fk_object k, fk_size k)) (fi_link (field_of name l))) FIELDS)
       (filter (\<lambda>l. li_url l \<in> set urls) table)))"

type_synonym listed = "string \<times> string \<times> object"

definition listed_value :: "field_name \<Rightarrow> listed \<Rightarrow> json" where
  "listed_value name l = (case name of Description \<Rightarrow> JStr (fst (snd l)) | Raw \<Rightarrow> JObj (snd (snd l)))"

text \<open>An empty description has no digest: it stays inline.\<close>

definition listed_digest :: "'o store \<Rightarrow> field_name \<Rightarrow> listed \<Rightarrow> string option" where
  "listed_digest st name l =
     (if listed_value name l = JStr '''' then None else Some (value_digest st (listed_value name l)))"

definition missing_values :: "'o store \<Rightarrow> (string \<times> string \<times> int) list \<Rightarrow> listed list \<Rightarrow> object" where
  "missing_values st links listed =
     dict_of (concat (map (\<lambda>l. List.map_filter (\<lambda>name.
        case listed_digest st name l of
          None \<Rightarrow> None
        | Some digest \<Rightarrow> if map_of links digest = None then Some (digest, listed_value name l) else None) FIELDS) listed))"

definition listing_column ::
  "'o store \<Rightarrow> (string \<times> string \<times> int) list \<Rightarrow> field_name \<Rightarrow> listed \<Rightarrow> payload_field" where
  "listing_column st links name l =
     (case Option.bind (listed_digest st name l) (\<lambda>digest. map_option (Pair digest) (map_of links digest)) of
        Some (digest, object, sz) \<Rightarrow>
          \<lparr>fi_inline = field_default name, fi_link = Some \<lparr>fk_sha256 = digest, fk_object = object, fk_size = sz\<rparr>\<rparr>
      | None \<Rightarrow> \<lparr>fi_inline = listed_value name l, fi_link = None\<rparr>)"

definition stays_inline :: "'o store \<Rightarrow> (string \<times> string \<times> int) list \<Rightarrow> field_name \<Rightarrow> listed \<Rightarrow> bool" where
  "stays_inline st links name l \<longleftrightarrow>
     (case listed_digest st name l of None \<Rightarrow> False | Some digest \<Rightarrow> map_of links digest = None)"

text \<open>\<open>configured\<close>: whether \<open>PayloadStore.from_env\<close> finds its settings.\<close>

definition reference_columns ::
  "'o store \<Rightarrow> bool \<Rightarrow> bool \<Rightarrow> listing list \<Rightarrow> listed list \<Rightarrow> 'o
   \<Rightarrow> ((payload_field \<times> payload_field) list \<times> nat) result \<times> 'o" where
  "reference_columns st configured in_transaction table listed objs =
     (let known = known_links table (map fst listed);
          missing = missing_values st known listed;
          out = (\<lambda>links. (map (\<lambda>l. (listing_column st links Description l, listing_column st links Raw l)) listed,
                  length (filter (\<lambda>(name, l). stays_inline st links name l) (List.product FIELDS listed)))) in
      if missing = [] \<or> \<not> configured then (Inr (out known), objs)
      else if in_transaction then (Inl (RuntimeError ''Listing payloads cannot be uploaded inside a database transaction''), objs)
      else case put_values st False missing objs of
        (Inl _, objs') \<Rightarrow> (Inr (out known), objs')
      | (Inr uploaded, objs') \<Rightarrow> (Inr (out (rev uploaded @ known)), objs'))"

section \<open>Moving stored listings\<close>

definition inline_field :: "field_name \<Rightarrow> listing \<Rightarrow> bool" where
  "inline_field name l \<longleftrightarrow>
     fi_link (field_of name l) = None \<and> (name = Raw \<or> fi_inline (li_description l) \<noteq> JStr '''')"

definition listing_state :: "listing \<Rightarrow> (string \<times> field_link option) list" where
  "listing_state l = map (\<lambda>name. (encode_payload (fi_inline (field_of name l)), fi_link (field_of name l))) FIELDS"

definition read_listings :: "(string \<Rightarrow> bool) \<Rightarrow> listing list \<Rightarrow> string list \<Rightarrow> (string \<times> listing) list" where
  "read_listings locked table urls = map (\<lambda>l. (li_url l, l)) (filter (\<lambda>l. li_url l \<in> set urls \<and> \<not> locked (li_url l)) table)"

text \<open>
  A page of a migration: what it reads, and the table it then finds under its locks, other writers
  in between. \<open>locked\<close> are the rows a pull holds, which \<open>SKIP LOCKED\<close> leaves out.
\<close>

record page_view =
  pv_seen :: "listing list"
  pv_table :: "listing list"
  pv_locked :: "string \<Rightarrow> bool"

definition count_page :: "page_view \<Rightarrow> string list \<Rightarrow> string list" where
  "count_page pv urls =
     map (\<lambda>url. case map_of (read_listings (\<lambda>_. False) (pv_seen pv) urls) url of
        None \<Rightarrow> ''gone''
      | Some l \<Rightarrow> if list_ex (\<lambda>name. inline_field name l) FIELDS then ''inline'' else ''referenced'') urls"

text \<open>What the second half of a page does with a row it planned to rewrite.\<close>

definition unchanged :: "page_view \<Rightarrow> listing \<Rightarrow> listing option" where
  "unchanged pv l =
     (case map_of (read_listings (pv_locked pv) (pv_table pv) [li_url l]) (li_url l) of
        None \<Rightarrow> None
      | Some now_row \<Rightarrow> if listing_state now_row = listing_state l then Some now_row else None)"

definition refer_field :: "'o store \<Rightarrow> (string \<times> string \<times> int) list \<Rightarrow> listing \<Rightarrow> field_name \<Rightarrow> listing \<Rightarrow> listing" where
  "refer_field st links seen name l =
     (let digest = value_digest st (fi_inline (field_of name seen)); link = the (map_of links digest) in
      put_field name \<lparr>fi_inline = field_default name,
        fi_link = Some \<lparr>fk_sha256 = digest, fk_object = fst link, fk_size = snd link\<rparr>\<rparr> l)"

definition rewritten :: "page_view \<Rightarrow> string list \<Rightarrow> (listing \<Rightarrow> bool) \<Rightarrow> (listing \<Rightarrow> listing \<Rightarrow> listing) \<Rightarrow> listing \<Rightarrow> listing" where
  "rewritten pv urls planned write_row l =
     (case map_of (read_listings (\<lambda>_. False) (pv_seen pv) urls) (li_url l) of
        Some seen \<Rightarrow> if planned seen \<and> unchanged pv seen \<noteq> None then write_row seen l else l
      | None \<Rightarrow> l)"

definition rewrite_rows :: "page_view \<Rightarrow> string list \<Rightarrow> (listing \<Rightarrow> bool) \<Rightarrow> (listing \<Rightarrow> listing \<Rightarrow> listing) \<Rightarrow> listing list" where
  "rewrite_rows pv urls planned write_row = map (rewritten pv urls planned write_row) (pv_table pv)"

definition externalize_page ::
  "'o store \<Rightarrow> page_view \<Rightarrow> string list \<Rightarrow> 'o \<Rightarrow> string list \<times> listing list \<times> 'o" where
  "externalize_page st pv urls objs =
     (let rows = read_listings (\<lambda>_. False) (pv_seen pv) urls;
          work = (\<lambda>l. filter (\<lambda>name. inline_field name l) FIELDS) in
      case put_values st False (dict_of (concat (map (\<lambda>(url, l). map (\<lambda>name.
             (value_digest st (fi_inline (field_of name l)), fi_inline (field_of name l))) (work l)) rows))) objs of
        (Inl _, objs') \<Rightarrow>
          (map (\<lambda>url. case map_of rows url of
             None \<Rightarrow> ''gone'' | Some l \<Rightarrow> if work l \<noteq> [] then ''unavailable'' else ''referenced'') urls,
           pv_table pv, objs')
      | (Inr links, objs') \<Rightarrow>
          (map (\<lambda>url. case map_of rows url of
             None \<Rightarrow> ''gone''
           | Some l \<Rightarrow> if work l = [] then ''referenced'' else if unchanged pv l = None then ''changed'' else ''externalized'') urls,
           rewrite_rows pv urls (\<lambda>l. work l \<noteq> []) (\<lambda>seen l. fold (refer_field st links seen) (work seen) l),
           objs'))"

fun verify_page ::
  "'o store \<Rightarrow> 'o \<Rightarrow> (string \<times> listing) list \<Rightarrow> string list \<Rightarrow> bundle_cache \<Rightarrow> string list" where
  "verify_page st objs rows [] cache = []"
| "verify_page st objs rows (url # urls) cache =
     (case map_of rows url of
        None \<Rightarrow> ''gone'' # verify_page st objs rows urls cache
      | Some l \<Rightarrow>
          (case resolve_listings st objs False [l] cache of
             (Inl _, cache') \<Rightarrow> ''unavailable'' # verify_page st objs rows urls cache'
           | (Inr _, cache') \<Rightarrow>
               (if list_ex (\<lambda>name. inline_field name l) FIELDS then ''inline'' else ''verified'') # verify_page st objs rows urls cache'))"

definition held_fields :: "listing \<Rightarrow> field_name list" where
  "held_fields l = filter (\<lambda>name. fi_link (field_of name l) \<noteq> None) FIELDS"

definition restore_field :: "(field_name \<Rightarrow> json) \<Rightarrow> field_name \<Rightarrow> listing \<Rightarrow> listing" where
  "restore_field vals name l = put_field name \<lparr>fi_inline = vals name, fi_link = None\<rparr> l"

definition restore_page :: "'o store \<Rightarrow> page_view \<Rightarrow> string list \<Rightarrow> 'o \<Rightarrow> string list \<times> listing list" where
  "restore_page st pv urls objs =
     (let rows = read_listings (\<lambda>_. False) (pv_seen pv) urls in
      case resolve_listings st objs False (filter (\<lambda>l. held_fields l \<noteq> []) (map snd rows)) [] of
        (Inl _, _) \<Rightarrow>
          (map (\<lambda>url. case map_of rows url of
             None \<Rightarrow> ''gone'' | Some l \<Rightarrow> if held_fields l \<noteq> [] then ''unavailable'' else ''inline'') urls,
           pv_table pv)
      | (Inr found, _) \<Rightarrow>
          (map (\<lambda>url. case map_of rows url of
             None \<Rightarrow> ''gone''
           | Some l \<Rightarrow> if held_fields l = [] then ''inline'' else if unchanged pv l = None then ''changed'' else ''restored'') urls,
           rewrite_rows pv urls (\<lambda>l. held_fields l \<noteq> [])
             (\<lambda>seen l. fold (restore_field (the (map_of (map (\<lambda>(l, vals). (li_url l, vals)) found) (li_url seen)))) (held_fields seen) l)))"

datatype migrate_mode = Count | Externalize | Verify | Restore

definition FAILED_OUTCOMES :: "string list" where "FAILED_OUTCOMES = [''changed'', ''unavailable'']"

fun pages_of :: "nat \<Rightarrow> 'a list \<Rightarrow> 'a list list" where
  "pages_of n [] = []"
| "pages_of n (x # xs) = (x # take (n - 1) xs) # pages_of n (drop (n - 1) xs)"

text \<open>
  One page of the run, between whatever \<open>others\<close> write before its locks. A page reads the table as
  the pages before it left it.
\<close>

record migrate_env =
  me_others :: "string list \<Rightarrow> listing list \<Rightarrow> listing list"
  me_locked :: "string list \<Rightarrow> string \<Rightarrow> bool"

definition run_page ::
  "'o store \<Rightarrow> migrate_env \<Rightarrow> migrate_mode \<Rightarrow> string list \<Rightarrow> listing list \<times> 'o \<Rightarrow> string list \<times> listing list \<times> 'o" where
  "run_page st env mode urls to =
     (let pv = \<lparr>pv_seen = fst to, pv_table = me_others env urls (fst to), pv_locked = me_locked env urls\<rparr> in
      case mode of
        Count \<Rightarrow> (count_page pv urls, to)
      | Externalize \<Rightarrow> externalize_page st pv urls (snd to)
      | Verify \<Rightarrow> (verify_page st (snd to) (read_listings (\<lambda>_. False) (fst to) urls) urls [], to)
      | Restore \<Rightarrow> (case restore_page st pv urls (snd to) of (outcomes, table) \<Rightarrow> (outcomes, table, snd to)))"

fun run_pages ::
  "'o store \<Rightarrow> migrate_env \<Rightarrow> migrate_mode \<Rightarrow> string list list \<Rightarrow> listing list \<times> 'o \<Rightarrow> string list list \<times> listing list \<times> 'o" where
  "run_pages st env mode [] to = ([], to)"
| "run_pages st env mode (p # ps) to =
     (case run_page st env mode p to of (outcomes, to') \<Rightarrow>
        case run_pages st env mode ps to' of (rest, to'') \<Rightarrow> (outcomes # rest, to''))"

record migrate_report =
  mr_counts :: "(string \<times> nat) list"
  mr_failed :: "string list"
  mr_after :: string
  mr_exhausted :: bool

definition migrate ::
  "'o store \<Rightarrow> migrate_env \<Rightarrow> bool \<Rightarrow> migrate_mode \<Rightarrow> string \<Rightarrow> nat \<Rightarrow> nat \<Rightarrow> listing list \<times> 'o
   \<Rightarrow> migrate_report result \<times> listing list \<times> 'o" where
  "migrate st env in_transaction mode after limit chunk_size to =
     (if in_transaction
      then (Inl (RuntimeError ''Listing payload migration cannot run inside a database transaction''), to)
      else
        let urls = take limit (sort (filter (\<lambda>u. after < u) (map li_url (fst to))));
            pages = pages_of chunk_size urls;
            (results, to') = run_pages st env mode pages to;
            stop = (if mode \<in> {Externalize, Restore}
                    then length (takeWhile (\<lambda>p. ''unavailable'' \<notin> set p) results) else length pages);
            outcomes = concat results in
        (Inr \<lparr>mr_counts = map (\<lambda>out. (out, length (filter ((=) out) outcomes))) (remdups outcomes),
              mr_failed = map fst (filter (\<lambda>(url, out). out \<in> set FAILED_OUTCOMES) (zip (concat pages) outcomes)),
              mr_after = (if stop = 0 then after else last (pages ! (stop - 1))),
              mr_exhausted = (stop = length pages \<and> length urls < limit)\<rparr>, to'))"

section \<open>What a field holds\<close>

text \<open>A field holds a value inline, as the same JSON text, or by the digest of that text.\<close>

definition holds_value :: "'o store \<Rightarrow> json \<Rightarrow> payload_field \<Rightarrow> bool" where
  "holds_value st v f \<longleftrightarrow>
     (case fi_link f of
        None \<Rightarrow> encode_payload (fi_inline f) = encode_payload v
      | Some k \<Rightarrow> fk_sha256 k = value_digest st v)"

lemma digest_member_value:
  assumes "get_digest_member st objs sha sz member cache = (Inr w, cache')"
  shows "value_digest st w = member"
proof -
  obtain r c where r: "store_bundle st objs (st_bucket st) sha sz (Some cache) = (r, c)" by fastforce
  then show ?thesis
    using assms by (cases r) (auto simp: get_digest_member_def value_digest_def Let_def split: if_splits option.splits)
qed

lemma store_read_error: "store_read st objs bucket key sz sha = Inl e \<Longrightarrow> \<exists>why. e = PayloadUnavailable why"
  by (auto simp: store_read_def Let_def split: if_splits option.splits)

lemma store_bundle_error: "store_bundle st objs bucket sha sz cache = (Inl e, cache') \<Longrightarrow> \<exists>why. e = PayloadUnavailable why"
  unfolding store_bundle_def Let_def
  by (cases "store_read st objs bucket (v3_key sha) sz sha") (auto dest: store_read_error split: option.splits json.splits)

lemma digest_member_error:
  assumes "get_digest_member st objs sha sz member cache = (Inl e, cache')"
  shows "\<exists>why. e = PayloadUnavailable why"
proof -
  obtain r c where r: "store_bundle st objs (st_bucket st) sha sz (Some cache) = (r, c)" by fastforce
  show ?thesis
    using assms r by (cases r) (auto simp: get_digest_member_def Let_def dest: store_bundle_error split: if_splits option.splits)
qed

lemma resolve_field_value:
  assumes "resolve_field st objs tx name l cache = (Inr w, cache')"
  shows "holds_value st w (field_of name l)" "fi_link (field_of name l) = None \<Longrightarrow> w = fi_inline (field_of name l)"
proof -
  have "holds_value st w (field_of name l) \<and> (fi_link (field_of name l) = None \<longrightarrow> w = fi_inline (field_of name l))"
  proof (cases "fi_link (field_of name l)")
    case (Some k)
    obtain r c where r: "get_digest_member st objs (fk_object k) (fk_size k) (fk_sha256 k) cache = (r, c)" by fastforce
    then have "r = Inr w" using assms Some by (auto simp: resolve_field_def and_then_Inr_iff split: if_splits)
    with r show ?thesis using digest_member_value [of st objs] Some by (auto simp: holds_value_def)
  qed (use assms in \<open>auto simp: resolve_field_def holds_value_def\<close>)
  then show "holds_value st w (field_of name l)" "fi_link (field_of name l) = None \<Longrightarrow> w = fi_inline (field_of name l)" by auto
qed

lemma resolve_field_error:
  assumes "resolve_field st objs tx name l cache = (Inl e, cache')"
  shows "\<exists>why. e = PayloadUnavailable why"
proof -
  obtain k where k: "fi_link (field_of name l) = Some k" using assms by (cases "fi_link (field_of name l)") (auto simp: resolve_field_def)
  obtain r c where r: "get_digest_member st objs (fk_object k) (fk_size k) (fk_sha256 k) cache = (r, c)" by fastforce
  then show ?thesis
    using assms k digest_member_error [of st objs] by (cases r) (auto simp: resolve_field_def split: if_splits)
qed

text \<open>Two values that one field holds have the same text, unless texts collide.\<close>

lemma holds_value_text:
  assumes "holds_value st v f" "holds_value st w f" "only_text (st_sha256 st) (encode_payload v)"
  shows "encode_payload w = encode_payload v"
  using assms by (auto simp: holds_value_def value_digest_def only_text_def split: option.splits)

lemma field_reads:
  assumes "holds_value st v (field_of name l)" "only_text (st_sha256 st) (encode_payload v)"
  shows "case fst (resolve_field st objs tx name l cache) of
      Inr w \<Rightarrow> encode_payload w = encode_payload v | Inl e \<Rightarrow> \<exists>why. e = PayloadUnavailable why"
proof -
  obtain r c where r: "resolve_field st objs tx name l cache = (r, c)" by fastforce
  then show ?thesis
    using resolve_field_error resolve_field_value(1) holds_value_text [OF assms(1) _ assms(2)] by (cases r) fastforce+
qed

section \<open>What a pull writes\<close>

lemma listing_column_holds: "holds_value st (listed_value name l) (listing_column st links name l)"
  by (auto simp: listing_column_def listed_digest_def holds_value_def Option.bind_eq_Some_conv split: option.split)

lemma listing_column_inline:
  "listed_value name l = JStr '''' \<Longrightarrow> fi_link (listing_column st links name l) = None"
  by (simp add: listing_column_def listed_digest_def)

lemma stays_inline_iff:
  "stays_inline st links name l \<longleftrightarrow> fi_link (listing_column st links name l) = None \<and> listed_value name l \<noteq> JStr ''''"
  by (auto simp: stays_inline_def listing_column_def listed_digest_def split: option.split)

text \<open>
  A pull stores what its board listed. Whatever object storage does, each listing gets its
  description and its raw record, inline or by the digest of its text; reading the stored field
  later gives that value or raises. An empty description stays inline, as the mark of a board that
  carried none, and the report counts the values that had to stay inline.
\<close>

definition listing_of :: "listed \<Rightarrow> payload_field \<times> payload_field \<Rightarrow> listing" where
  "listing_of l cols = \<lparr>li_url = fst l, li_description = fst cols, li_raw = snd cols\<rparr>"

theorem pull_stores_what_was_listed:
  assumes "reference_columns st configured tx table listed objs = (Inr (columns, inline), objs')"
    "k < length listed" "only_text (st_sha256 st) (encode_payload (listed_value name (listed ! k)))"
  shows "length columns = length listed
    \<and> (case fst (resolve_field st later False name (listing_of (listed ! k) (columns ! k)) cache) of
         Inr w \<Rightarrow> encode_payload w = encode_payload (listed_value name (listed ! k))
       | Inl e \<Rightarrow> \<exists>why. e = PayloadUnavailable why)
    \<and> (fst (snd (listed ! k)) = '''' \<longrightarrow> fi_link (fst (columns ! k)) = None)
    \<and> inline = length (filter (\<lambda>(name, l, cols). fi_link (field_of name (listing_of l cols)) = None \<and> listed_value name l \<noteq> JStr '''')
        (List.product FIELDS (zip listed columns)))"
proof -
  obtain links where out: "columns = map (\<lambda>l. (listing_column st links Description l, listing_column st links Raw l)) listed"
      "inline = length (filter (\<lambda>(name, l). stays_inline st links name l) (List.product FIELDS listed))"
    using assms(1) by (auto simp: reference_columns_def Let_def split: if_splits prod.splits sum.splits)
  let ?row = "listing_of (listed ! k) (columns ! k)"
  have field: "field_of n (listing_of l (listing_column st links Description l, listing_column st links Raw l)) = listing_column st links n l" for n l
    by (cases n) (simp_all add: listing_of_def)
  have "holds_value st (listed_value name (listed ! k)) (field_of name ?row)"
    using assms(2) by (simp add: out(1) field listing_column_holds)
  note read = field_reads [OF this assms(3), of later False cache]
  have "zip listed columns = map (\<lambda>l. (l, listing_column st links Description l, listing_column st links Raw l)) listed"
    unfolding out(1) by (simp add: zip_map2 zip_same_conv_map)
  then have "inline = length (filter (\<lambda>(name, l, cols). fi_link (field_of name (listing_of l cols)) = None \<and> listed_value name l \<noteq> JStr '''')
      (List.product FIELDS (zip listed columns)))"
    unfolding out(2) by (simp add: FIELDS_def filter_map comp_def case_prod_beta field [unfolded listing_of_def] listing_of_def stays_inline_iff)
  moreover have "fst (snd (listed ! k)) = '''' \<longrightarrow> fi_link (fst (columns ! k)) = None"
    using assms(2) by (auto simp: out(1) listed_value_def intro: listing_column_inline)
  ultimately show ?thesis using read by (simp add: out(1))
qed

section \<open>Moves keep every value\<close>

lemma field_of_put [simp]: "field_of name (put_field other f l) = (if name = other then f else field_of name l)"
  by (cases name; cases other) auto

lemma put_field_url [simp]: "li_url (put_field name f l) = li_url l"
  by (cases name) auto

lemma FIELDS_all [simp]: "set FIELDS = UNIV" "distinct FIELDS"
  using field_name.exhaust by (auto simp: FIELDS_def)

lemma fold_put_field:
  assumes "\<forall>name l. g name l = put_field name (f name) l"
  shows "field_of name (fold g names l) = (if name \<in> set names then f name else field_of name l)"
    "li_url (fold g names l) = li_url l"
  using assms by (induction names arbitrary: l) auto

lemma refer_fields:
  "field_of name (fold (refer_field st links seen) names l) =
     (if name \<in> set names
      then let digest = value_digest st (fi_inline (field_of name seen)); link = the (map_of links digest) in
        \<lparr>fi_inline = field_default name, fi_link = Some \<lparr>fk_sha256 = digest, fk_object = fst link, fk_size = snd link\<rparr>\<rparr>
      else field_of name l)"
  "li_url (fold (refer_field st links seen) names l) = li_url l"
  using fold_put_field [where g = "refer_field st links seen" and f = "\<lambda>name.
      let digest = value_digest st (fi_inline (field_of name seen)); link = the (map_of links digest) in
        \<lparr>fi_inline = field_default name, fi_link = Some \<lparr>fk_sha256 = digest, fk_object = fst link, fk_size = snd link\<rparr>\<rparr>"]
  by (simp_all add: refer_field_def Let_def)

lemma restore_fields:
  "field_of name (fold (restore_field vals) names l) =
     (if name \<in> set names then \<lparr>fi_inline = vals name, fi_link = None\<rparr> else field_of name l)"
  "li_url (fold (restore_field vals) names l) = li_url l"
  using fold_put_field [where g = "restore_field vals" and f = "\<lambda>name. \<lparr>fi_inline = vals name, fi_link = None\<rparr>"]
  by (simp_all add: restore_field_def)

lemma read_listings_Some:
  assumes "map_of (read_listings locked table urls) u = Some l"
  shows "l \<in> set table" "li_url l = u" "u \<in> set urls" "\<not> locked u"
  using map_of_SomeD [OF assms] by (auto simp: read_listings_def)

lemma unchanged_row:
  assumes "unchanged pv seen \<noteq> None" "distinct (map li_url (pv_table pv))" "l \<in> set (pv_table pv)" "li_url l = li_url seen"
  shows "listing_state l = listing_state seen"
proof -
  obtain l' where l': "map_of (read_listings (pv_locked pv) (pv_table pv) [li_url seen]) (li_url seen) = Some l'"
      "listing_state l' = listing_state seen"
    using assms(1) by (auto simp: unchanged_def split: option.splits if_splits)
  then have "l' = l" using read_listings_Some [OF l'(1)] assms(2,3,4) by (metis distinct_map inj_onD)
  then show ?thesis using l'(2) by simp
qed

lemma listing_state_field:
  assumes "listing_state l = listing_state seen"
  shows "fi_link (field_of name l) = fi_link (field_of name seen)"
    "encode_payload (fi_inline (field_of name l)) = encode_payload (fi_inline (field_of name seen))"
  using assms by (cases name; simp add: listing_state_def FIELDS_def)+

text \<open>Rewriting rows is safe when each rewrite is: the row it meets has the state that was read.\<close>

lemma rewrite_rows_keeps:
  assumes "distinct (map li_url (pv_table pv))" "l \<in> set (pv_table pv)" "holds_value st v (field_of name l)"
    "\<forall>seen. map_of (read_listings (\<lambda>_. False) (pv_seen pv) urls) (li_url l) = Some seen \<longrightarrow> planned seen \<longrightarrow>
       listing_state l = listing_state seen \<longrightarrow>
       li_url (write_row seen l) = li_url l \<and> holds_value st v (field_of name (write_row seen l))"
  shows "\<exists>l' \<in> set (rewrite_rows pv urls planned write_row). li_url l' = li_url l \<and> holds_value st v (field_of name l')"
proof -
  let ?l = "rewritten pv urls planned write_row l"
  have "li_url ?l = li_url l \<and> holds_value st v (field_of name ?l)"
  proof (cases "map_of (read_listings (\<lambda>_. False) (pv_seen pv) urls) (li_url l)")
    case (Some seen)
    have "listing_state l = listing_state seen" if "unchanged pv seen \<noteq> None"
      using that assms(1,2) read_listings_Some(2) [OF Some] by (intro unchanged_row) auto
    then show ?thesis using assms(3,4) Some by (auto simp: rewritten_def)
  qed (use assms(3) in \<open>simp add: rewritten_def\<close>)
  then show ?thesis using assms(2) by (auto simp: rewrite_rows_def)
qed

lemma resolve_listing_fields:
  assumes "resolve_listing st objs tx l cache = (Inr vals, cache')"
  shows "holds_value st (vals name) (field_of name l)"
proof -
  obtain rd c1 where rd: "resolve_field st objs tx Description l cache = (rd, c1)" by fastforce
  then obtain d where d: "rd = Inr d" using assms by (cases rd) (auto simp: resolve_listing_def)
  obtain rr c2 where rr: "resolve_field st objs tx Raw l c1 = (rr, c2)" by fastforce
  then obtain r where r: "rr = Inr r" "vals = case_field_name d r"
    using assms rd d by (auto simp: resolve_listing_def and_then_Inr_iff)
  show ?thesis
    using rd rr d r resolve_field_value(1) [of st objs tx Description l cache d c1] resolve_field_value(1) [of st objs tx Raw l c1 r c2]
    by (cases name) auto
qed

lemma resolve_listings_found:
  assumes "resolve_listings st objs tx ls cache = (Inr found, cache')"
  shows "map fst found = ls \<and> (\<forall>(l, vals) \<in> set found. \<forall>name. holds_value st (vals name) (field_of name l))"
  using assms
proof (induction ls arbitrary: cache found cache')
  case (Cons l ls)
  obtain r c where r: "resolve_listing st objs tx l cache = (r, c)" by fastforce
  then obtain vals rest c' where "r = Inr vals" "resolve_listings st objs tx ls c = (Inr rest, c')" "found = (l, vals) # rest"
    using Cons.prems by (cases r) (auto simp: and_then_Inr_iff split: prod.splits)
  then show ?case using Cons.IH [of c rest c'] r resolve_listing_fields by auto
qed simp

lemma externalize_keeps:
  assumes "distinct (map li_url (pv_table pv))" "l \<in> set (pv_table pv)" "holds_value st v (field_of name l)"
    "externalize_page st pv urls objs = (outcomes, table', objs')"
  shows "\<exists>l' \<in> set table'. li_url l' = li_url l \<and> holds_value st v (field_of name l')"
proof -
  let ?work = "\<lambda>l. filter (\<lambda>name. inline_field name l) FIELDS"
  have write_ok: "li_url (fold (refer_field st links seen) (?work seen) l) = li_url l
      \<and> holds_value st v (field_of name (fold (refer_field st links seen) (?work seen) l))"
    if "listing_state l = listing_state seen" for links seen
    using assms(3) listing_state_field [OF that, of name]
    by (auto simp: refer_fields Let_def holds_value_def value_digest_def inline_field_def split: option.splits)
  have "\<exists>l' \<in> set (rewrite_rows pv urls (\<lambda>l. ?work l \<noteq> []) (\<lambda>seen l. fold (refer_field st links seen) (?work seen) l)).
      li_url l' = li_url l \<and> holds_value st v (field_of name l')" for links
    using write_ok by (intro rewrite_rows_keeps [OF assms(1-3)]) blast
  then show ?thesis
    using assms(2,3,4) unfolding externalize_page_def Let_def by (auto split: prod.splits sum.splits)
qed

lemma restore_keeps:
  assumes "distinct (map li_url (pv_seen pv))" "distinct (map li_url (pv_table pv))" "l \<in> set (pv_table pv)"
    "holds_value st v (field_of name l)" "only_text (st_sha256 st) (encode_payload v)"
    "restore_page st pv urls objs = (outcomes, table')"
  shows "\<exists>l' \<in> set table'. li_url l' = li_url l \<and> holds_value st v (field_of name l')"
proof -
  let ?rows = "read_listings (\<lambda>_. False) (pv_seen pv) urls"
  obtain r c where r: "resolve_listings st objs False (filter (\<lambda>l. held_fields l \<noteq> []) (map snd ?rows)) [] = (r, c)" by fastforce
  show ?thesis
  proof (cases r)
    case (Inl e)
    then show ?thesis using assms(3,4,6) r by (auto simp: restore_page_def)
  next
    case (Inr found)
    let ?vals = "\<lambda>seen. the (map_of (map (\<lambda>(l, vals). (li_url l, vals)) found) (li_url seen))"
    note found = resolve_listings_found [OF r [unfolded Inr]]
    have "li_url (fold (restore_field (?vals seen)) (held_fields seen) l) = li_url l
        \<and> holds_value st v (field_of name (fold (restore_field (?vals seen)) (held_fields seen) l))"
      if seen: "map_of ?rows (li_url l) = Some seen" "held_fields seen \<noteq> []" "listing_state l = listing_state seen" for seen
    proof -
      have "(li_url l, seen) \<in> set ?rows" using seen(1) by (rule map_of_SomeD)
      then have "seen \<in> set (map fst found)" using found seen(2) by force
      then obtain vals where vals: "(seen, vals) \<in> set found" by auto
      have "distinct (map li_url (map fst found))"
        using found assms(1) by (auto simp: read_listings_def comp_def distinct_map inj_on_def)
      then have "map_of (map (\<lambda>(l, vals). (li_url l, vals)) found) (li_url seen) = Some vals"
        using vals by (intro map_of_is_SomeI) (auto simp: comp_def case_prod_beta intro: rev_image_eqI)
      then have "?vals seen = vals" by simp
      moreover have "holds_value st (vals name) (field_of name seen)" using found vals by blast
      moreover have "holds_value st v (field_of name seen)"
        using assms(4) listing_state_field [OF seen(3), of name] by (simp add: holds_value_def split: option.splits)
      ultimately have "encode_payload (?vals seen name) = encode_payload v"
        using holds_value_text [OF _ _ assms(5)] by blast
      then show ?thesis using assms(4) by (auto simp: restore_fields holds_value_def)
    qed
    then have "\<exists>l' \<in> set (rewrite_rows pv urls (\<lambda>l. held_fields l \<noteq> []) (\<lambda>seen l. fold (restore_field (?vals seen)) (held_fields seen) l)).
        li_url l' = li_url l \<and> holds_value st v (field_of name l')"
      by (intro rewrite_rows_keeps [OF assms(2-4)]) blast
    then show ?thesis using assms(6) r Inr by (auto simp: restore_page_def)
  qed
qed

text \<open>
  C29: Moving listings keeps every value. Whatever other writers do between the read of a page and its
  locks, a row the page finds there keeps its url and its two values, whether the page swaps them
  for references or brings them back: reading one afterwards gives that value or raises, whatever
  became of the stored objects.
\<close>

theorem moved_listings_keep_their_values:
  assumes "distinct (map li_url (pv_seen pv))" "distinct (map li_url (pv_table pv))" "l \<in> set (pv_table pv)"
    "holds_value st v (field_of name l)" "only_text (st_sha256 st) (encode_payload v)"
    "table' = fst (snd (externalize_page st pv urls objs)) \<or> table' = snd (restore_page st pv urls objs)"
  shows "\<exists>l' \<in> set table'. li_url l' = li_url l
    \<and> (case fst (resolve_field st later tx name l' cache) of
         Inr w \<Rightarrow> encode_payload w = encode_payload v | Inl e \<Rightarrow> \<exists>why. e = PayloadUnavailable why)"
proof -
  have "\<exists>l' \<in> set table'. li_url l' = li_url l \<and> holds_value st v (field_of name l')"
    using assms(6)
  proof
    assume "table' = fst (snd (externalize_page st pv urls objs))"
    then show ?thesis using externalize_keeps [OF assms(2-4)] by (metis prod.collapse)
  next
    assume "table' = snd (restore_page st pv urls objs)"
    then show ?thesis using restore_keeps [OF assms(1-5)] by (metis prod.collapse)
  qed
  then show ?thesis using field_reads [OF _ assms(5)] by blast
qed

section \<open>A migration up to its cursor\<close>

text \<open>Nobody else writes.\<close>

definition nobody_writes :: migrate_env where
  "nobody_writes = \<lparr>me_others = (\<lambda>_ table. table), me_locked = (\<lambda>_ _. False)\<rparr>"

definition in_shape :: "migrate_mode \<Rightarrow> listing \<Rightarrow> bool" where
  "in_shape mode l = (case mode of
     Externalize \<Rightarrow> list_all (\<lambda>name. \<not> inline_field name l) FIELDS
   | Restore \<Rightarrow> held_fields l = []
   | _ \<Rightarrow> True)"

lemma read_own:
  assumes "distinct (map li_url table)" "l \<in> set table" "li_url l \<in> set urls"
  shows "map_of (read_listings (\<lambda>_. False) table urls) (li_url l) = Some l"
  using assms by (intro map_of_is_SomeI) (auto simp: read_listings_def comp_def distinct_map inj_on_def)

lemma read_other: "u \<notin> set urls \<Longrightarrow> map_of (read_listings locked table urls) u = None"
  by (auto simp: read_listings_def map_of_eq_None_iff)

abbreviation still :: "listing list \<Rightarrow> page_view" where
  "still table \<equiv> \<lparr>pv_seen = table, pv_table = table, pv_locked = (\<lambda>_. False)\<rparr>"

lemma rewritten_still:
  assumes "distinct (map li_url table)" "l \<in> set table"
  shows "rewritten (still table) urls planned write_row l = (if li_url l \<in> set urls \<and> planned l then write_row l l else l)"
  using read_own [OF assms, of urls] read_own [OF assms, of "[li_url l]"] read_other [of "li_url l" urls "\<lambda>_. False" table]
  by (cases "li_url l \<in> set urls") (auto simp: rewritten_def unchanged_def)

lemma rewrite_still:
  assumes "distinct (map li_url table)" "\<forall>seen l. li_url (write_row seen l) = li_url l"
    "table' = rewrite_rows (still table) urls planned write_row"
  shows "map li_url table' = map li_url table"
    "l' \<in> set table' \<Longrightarrow> \<exists>l \<in> set table. l' = (if li_url l \<in> set urls \<and> planned l then write_row l l else l)"
  using assms by (auto simp: rewrite_rows_def rewritten_still)

lemma refer_in_shape:
  "in_shape Externalize (fold (refer_field st links l) (filter (\<lambda>name. inline_field name l) FIELDS) l)"
proof -
  let ?l = "fold (refer_field st links l) (filter (\<lambda>name. inline_field name l) FIELDS) l"
  have "\<not> inline_field name ?l" for name
  proof (cases "inline_field name l")
    case True
    then show ?thesis by (simp add: inline_field_def [of name ?l] refer_fields Let_def)
  next
    case False
    then have "field_of name ?l = field_of name l" by (simp add: refer_fields)
    then show ?thesis using False by (cases name) (auto simp: inline_field_def)
  qed
  then show ?thesis by (simp add: in_shape_def list_all_iff)
qed

lemma restore_in_shape: "in_shape Restore (fold (restore_field vals) (held_fields l) l)"
  by (auto simp: in_shape_def held_fields_def restore_fields filter_empty_conv)

text \<open>What one page of a nobody_writes run does to the rows, in either direction.\<close>

definition page_finishes :: "migrate_mode \<Rightarrow> string list \<Rightarrow> listing list \<Rightarrow> string list \<Rightarrow> listing list \<Rightarrow> bool" where
  "page_finishes mode urls table outcomes table' \<longleftrightarrow>
     map li_url table' = map li_url table
     \<and> (\<forall>l' \<in> set table'. if li_url l' \<in> set urls then ''unavailable'' \<notin> set outcomes \<longrightarrow> in_shape mode l' else l' \<in> set table)"

lemma rewrite_finishes:
  assumes "distinct (map li_url table)" "\<forall>seen l. li_url (write_row seen l) = li_url l"
    "\<forall>l. \<not> planned l \<longrightarrow> in_shape mode l" "\<forall>l. in_shape mode (write_row l l)"
  shows "page_finishes mode urls table outcomes (rewrite_rows (still table) urls planned write_row)"
proof -
  note rows = rewrite_still [OF assms(1,2) refl, where urls = urls and planned = planned]
  have "if li_url l' \<in> set urls then in_shape mode l' else l' \<in> set table"
    if l': "l' \<in> set (rewrite_rows (still table) urls planned write_row)" for l'
  proof -
    obtain l where l: "l \<in> set table" "l' = (if li_url l \<in> set urls \<and> planned l then write_row l l else l)"
      using rows(2) [OF l'] by blast
    then have "li_url l' = li_url l" using assms(2) by auto
    then show ?thesis using l assms(3,4) by auto
  qed
  then show ?thesis using rows(1) by (auto simp: page_finishes_def split: if_splits)
qed

lemma unavailable_finishes:
  assumes "distinct (map li_url table)" "\<forall>l. \<not> planned l \<longrightarrow> in_shape mode l"
    "outcomes = map (\<lambda>url. case map_of (read_listings (\<lambda>_. False) table urls) url of
       None \<Rightarrow> ''gone'' | Some l \<Rightarrow> if planned l then ''unavailable'' else other) urls"
  shows "page_finishes mode urls table outcomes table"
proof -
  have "in_shape mode l" if l: "l \<in> set table" "li_url l \<in> set urls" "''unavailable'' \<notin> set outcomes" for l
    using l(2,3) read_own [OF assms(1) l(1,2)] assms(2) unfolding assms(3) by (force simp: image_iff)
  then show ?thesis by (auto simp: page_finishes_def)
qed

lemma externalize_finishes:
  assumes "distinct (map li_url table)" "externalize_page st (still table) urls objs = (outcomes, table', objs')"
  shows "page_finishes Externalize urls table outcomes table'"
proof -
  let ?work = "\<lambda>l. filter (\<lambda>name. inline_field name l) FIELDS"
  have idle: "\<forall>l. \<not> ?work l \<noteq> [] \<longrightarrow> in_shape Externalize l"
    by (simp add: in_shape_def filter_empty_conv list_all_iff)
  have shaped: "page_finishes Externalize urls table outs
      (rewrite_rows (still table) urls (\<lambda>l. ?work l \<noteq> []) (\<lambda>seen l. fold (refer_field st links seen) (?work seen) l))" for outs links
    using assms(1) idle by (intro rewrite_finishes allI refer_in_shape) (simp_all add: refer_fields(2))
  obtain r objs1 where r: "put_values st False (dict_of (concat (map (\<lambda>(url, l). map (\<lambda>name.
      (value_digest st (fi_inline (field_of name l)), fi_inline (field_of name l))) (?work l)) (read_listings (\<lambda>_. False) table urls)))) objs = (r, objs1)"
    by fastforce
  show ?thesis
  proof (cases r)
    case (Inl e)
    have "page_finishes Externalize urls table outcomes table"
      using assms(2) r Inl by (intro unavailable_finishes [OF assms(1) idle, where other = "''referenced''"]) (auto simp: externalize_page_def)
    then show ?thesis using assms(2) r Inl by (auto simp: externalize_page_def)
  next
    case (Inr links)
    then show ?thesis using assms(2) r shaped by (auto simp: externalize_page_def)
  qed
qed

lemma restore_finishes:
  assumes "distinct (map li_url table)" "restore_page st (still table) urls objs = (outcomes, table')"
  shows "page_finishes Restore urls table outcomes table'"
proof -
  have idle: "\<forall>l. \<not> held_fields l \<noteq> [] \<longrightarrow> in_shape Restore l" by (simp add: in_shape_def)
  have shaped: "page_finishes Restore urls table outs
      (rewrite_rows (still table) urls (\<lambda>l. held_fields l \<noteq> []) (\<lambda>seen l. fold (restore_field (vals seen)) (held_fields seen) l))" for outs vals
    using assms(1) idle by (intro rewrite_finishes allI restore_in_shape) (simp_all add: restore_fields(2))
  obtain r c where r: "resolve_listings st objs False (filter (\<lambda>l. held_fields l \<noteq> [])
      (map snd (read_listings (\<lambda>_. False) table urls))) [] = (r, c)" by fastforce
  show ?thesis
  proof (cases r)
    case (Inl e)
    have "page_finishes Restore urls table outcomes table"
      using assms(2) r Inl by (intro unavailable_finishes [OF assms(1) idle, where other = "''inline''"]) (auto simp: restore_page_def)
    then show ?thesis using assms(2) r Inl by (auto simp: restore_page_def)
  next
    case (Inr found)
    then show ?thesis using assms(2) r shaped by (auto simp: restore_page_def)
  qed
qed

lemma run_page_finishes:
  assumes "distinct (map li_url table)" "mode = Externalize \<or> mode = Restore" "run_page st nobody_writes mode urls (table, objs) = (outcomes, table', objs')"
  shows "page_finishes mode urls table outcomes table'"
  using assms(2,3) externalize_finishes [OF assms(1)] restore_finishes [OF assms(1)]
  by (auto simp: run_page_def nobody_writes_def Let_def split: prod.splits)

lemma run_pages_finish:
  assumes "distinct (map li_url table)" "mode = Externalize \<or> mode = Restore" "distinct (concat pages)"
    "run_pages st nobody_writes mode pages (table, objs) = (results, table', objs')"
  shows "length results = length pages \<and> map li_url table' = map li_url table
    \<and> (\<forall>l' \<in> set table'. li_url l' \<notin> set (concat pages) \<longrightarrow> l' \<in> set table)
    \<and> (\<forall>k < length pages. ''unavailable'' \<notin> set (results ! k) \<longrightarrow> (\<forall>l' \<in> set table'. li_url l' \<in> set (pages ! k) \<longrightarrow> in_shape mode l'))"
  using assms(1,3,4)
proof (induction pages arbitrary: table objs results)
  case (Cons p ps)
  obtain outs table1 objs1 where one: "run_page st nobody_writes mode p (table, objs) = (outs, table1, objs1)" by (rule prod_cases3)
  obtain rest where rest: "run_pages st nobody_writes mode ps (table1, objs1) = (rest, table', objs')" "results = outs # rest"
    using Cons.prems(3) one by (auto split: prod.splits)
  have fin: "page_finishes mode p table outs table1" by (rule run_page_finishes [OF Cons.prems(1) assms(2) one])
  then have urls: "map li_url table1 = map li_url table" by (simp add: page_finishes_def)
  then have "distinct (map li_url table1)" using Cons.prems(1) by simp
  note later = Cons.IH [OF this _ rest(1)]
  have kept: "l' \<in> set table1" if "l' \<in> set table'" "li_url l' \<in> set p" for l'
  proof -
    have "li_url l' \<notin> set (concat ps)" using that(2) Cons.prems(2) by (auto simp del: set_concat)
    then show ?thesis using later that(1) Cons.prems(2) by simp
  qed
  have "in_shape mode l'" if "''unavailable'' \<notin> set outs" "l' \<in> set table'" "li_url l' \<in> set p" for l'
    using kept [OF that(2,3)] fin that by (auto simp: page_finishes_def)
  moreover have "l' \<in> set table" if "l' \<in> set table'" "li_url l' \<notin> set (concat (p # ps))" for l'
    using that later fin Cons.prems(2) by (auto simp: page_finishes_def)
  ultimately show ?case using later Cons.prems(2) urls rest(2) by (auto simp: nth_Cons split: nat.split)
qed simp

lemma concat_pages_of [simp]: "concat (pages_of n xs) = xs"
  by (induction n xs rule: pages_of.induct) auto

lemma pages_of_nonempty: "p \<in> set (pages_of n xs) \<Longrightarrow> p \<noteq> []"
  by (induction n xs rule: pages_of.induct) auto

lemma take_snoc: "0 < k \<Longrightarrow> k \<le> length xs \<Longrightarrow> take k xs = take (k - 1) xs @ [xs ! (k - 1)]"
  by (cases k) (auto simp: take_Suc_conv_app_nth)

lemma sorted_prefix_mem:
  assumes "sorted (xs @ ys)" "xs \<noteq> []" "u \<in> set (xs @ ys)" "u \<le> last xs"
  shows "u \<in> set xs"
proof (rule ccontr)
  assume "u \<notin> set xs"
  then have "u \<in> set ys" using assms(3) by simp
  then have "last xs \<le> u" using assms(1,2) by (auto simp: sorted_append)
  then show False using assms(2,4) \<open>u \<notin> set xs\<close> by auto
qed


section \<open>Witnesses\<close>

text \<open>One listing with a description, moved to object storage and back.\<close>

definition page_text_store :: "(string \<times> string) list store" where
  "page_text_store = sample_store (encode_payload (JStr ''page''))"

definition sample_listing :: listing where
  "sample_listing = \<lparr>li_url = ''u1'', li_description = \<lparr>fi_inline = JStr ''page'', fi_link = None\<rparr>,
     li_raw = \<lparr>fi_inline = JObj [], fi_link = Some \<lparr>fk_sha256 = ''s'', fk_object = ''o'', fk_size = 1\<rparr>\<rparr>\<rparr>"

lemma page_text_only: "only_text (st_sha256 page_text_store) (encode_payload (JStr ''page''))"
  unfolding page_text_store_def by (rule sample_only_text)

theorem pull_stores_what_was_listed_witness:
  "\<exists>columns inline objs. reference_columns page_text_store True False [] [(''u1'', ''page'', [])] [] = (Inr (columns, inline), objs)
     \<and> length columns = 1
     \<and> (case fst (resolve_field page_text_store objs False Description (listing_of (''u1'', ''page'', []) (columns ! 0)) []) of
          Inr w \<Rightarrow> encode_payload w = encode_payload (JStr ''page'') | Inl e \<Rightarrow> \<exists>why. e = PayloadUnavailable why)"
proof -
  have "case reference_columns page_text_store True False [] [(''u1'', ''page'', [])] [] of (Inr _, _) \<Rightarrow> True | _ \<Rightarrow> False"
    by code_simp
  then obtain columns inline objs where
    out: "reference_columns page_text_store True False [] [(''u1'', ''page'', [])] [] = (Inr (columns, inline), objs)"
    by (auto split: prod.splits sum.splits)
  have lv: "listed_value Description (''u1'', ''page'', []) = JStr ''page''" by (simp add: listed_value_def)
  have "only_text (st_sha256 page_text_store) (encode_payload (listed_value Description ([(''u1'', ''page'', [])] ! 0)))"
    using page_text_only lv by simp
  note stored = pull_stores_what_was_listed [OF out _ this, of objs "[]"]
  have "length columns = 1 \<and>
      (case fst (resolve_field page_text_store objs False Description (listing_of (''u1'', ''page'', []) (columns ! 0)) []) of
         Inr w \<Rightarrow> encode_payload w = encode_payload (JStr ''page'') | Inl e \<Rightarrow> \<exists>why. e = PayloadUnavailable why)"
    using stored by (simp only: nth_Cons_0 lv) simp
  then show ?thesis using out by blast
qed

theorem moved_listings_keep_their_values_witness:
  "\<exists>l' \<in> set (fst (snd (externalize_page page_text_store (still [sample_listing]) [''u1''] []))).
     li_url l' = ''u1''
     \<and> (case fst (resolve_field page_text_store (snd (snd (externalize_page page_text_store (still [sample_listing]) [''u1''] []))) False
              Description l' []) of
          Inr w \<Rightarrow> encode_payload w = encode_payload (JStr ''page'') | Inl e \<Rightarrow> \<exists>why. e = PayloadUnavailable why)"
proof -
  have "holds_value page_text_store (JStr ''page'') (field_of Description sample_listing)"
    by (simp add: holds_value_def sample_listing_def)
  then show ?thesis
    using moved_listings_keep_their_values [of "still [sample_listing]" sample_listing page_text_store "JStr ''page''" Description
        "fst (snd (externalize_page page_text_store (still [sample_listing]) [''u1''] []))" "[''u1'']" "[]"] page_text_only
    by (simp add: sample_listing_def)
qed


end
