(* ===== verification/Page_Tiering.thy ===== *)
theory Page_Tiering
  imports Page_Fetches Listings
begin

text \<open>
  The task that moves page texts nothing reads to object storage and back
  (\<open>tasks/page_text_tiering.py\<close>), with several workers at it, and what it leaves of the pages and of
  the back-off of their fetches.
\<close>

section \<open>Tiering\<close>

definition MIN_CONTENT_CHARS :: int where "MIN_CONTENT_CHARS = 200"

record job_view =
  jv_id :: int
  jv_url :: string
  jv_available :: "bool option"

record observation =
  ob_job :: int
  ob_at :: instant

record tier_env =
  te_enabled :: bool
  te_cold_days :: int
  te_per_cycle :: int
  te_now :: instant
  te_jobs :: "job_view list"
  te_observations :: "observation list"
  te_cancelled :: "nat \<Rightarrow> bool"

definition window :: "tier_env \<Rightarrow> instant" where
  "window env = te_now env - hours (24 * te_cold_days env)"

definition COLD :: "tier_env \<Rightarrow> fetch_row list \<Rightarrow> fetch_row \<Rightarrow> bool" where
  "COLD env rows f \<longleftrightarrow>
     fw_at f < window env
     \<and> ((\<exists>n \<in> set rows. has_text n \<and> fw_url n = fw_url f \<and> fw_id n > fw_id f \<and> text_chars n > MIN_CONTENT_CHARS)
        \<or> (\<exists>j \<in> set (te_jobs env). jv_url j = fw_url f \<and> \<not> coalesce (jv_available j) False
             \<and> \<not> (\<exists>ob \<in> set (te_observations env). ob_job ob = jv_id j \<and> ob_at ob > window env)))"

definition tier_rule :: "tier_env \<Rightarrow> fetch_row list \<Rightarrow> fetch_row \<Rightarrow> bool" where
  "tier_rule env rows f \<longleftrightarrow> te_enabled env \<and> COLD env rows f"

text \<open>
  A move reads and uploads, then swaps each text for its reference in one statement; what it writes
  is the plan. \<open>text_digest\<close> names a text's member.
\<close>

definition text_digest :: "'o store \<Rightarrow> string \<Rightarrow> string" where
  "text_digest st s = st_sha256 st (encode_payload (JStr s))"

type_synonym move_plan = "(int \<times> content_ref \<times> int) list"

definition to_move :: "tier_env \<Rightarrow> nat \<Rightarrow> fetch_row list \<Rightarrow> fetch_row list" where
  "to_move env limit rows = take limit (sort_key fw_id (filter (\<lambda>f. nonempty (fw_content f) \<and> tier_rule env rows f) rows))"

definition move_item :: "'o store \<Rightarrow> (string \<times> string \<times> int) list \<Rightarrow> fetch_row \<Rightarrow> int \<times> content_ref \<times> int" where
  "move_item st links f =
     (let body = the (fw_content f); digest = text_digest st body; link = the (map_of links digest) in
      (fw_id f, \<lparr>cr_object = fst link, cr_size = snd link, cr_member = digest\<rparr>, int (length body)))"

definition plan_move ::
  "'o store \<Rightarrow> tier_env \<Rightarrow> nat \<Rightarrow> fetch_row list \<Rightarrow> 'o \<Rightarrow> move_plan result \<times> 'o" where
  "plan_move st env limit rows objs =
     (let picked = to_move env limit rows in
      if picked = [] then (Inr [], objs)
      else
        case put_values st False (dict_of (map (\<lambda>f. (text_digest st (the (fw_content f)), JStr (the (fw_content f)))) picked)) objs of
          (Inl e, objs') \<Rightarrow> (Inl e, objs')
        | (Inr links, objs') \<Rightarrow> (Inr (map (move_item st links) picked), objs'))"

definition move_row :: "move_plan \<Rightarrow> fetch_row \<Rightarrow> fetch_row" where
  "move_row plan f =
     (case map_of plan (fw_id f) of
        None \<Rightarrow> f
      | Some (link, chars) \<Rightarrow>
          if fw_content f = None then f else f\<lparr>fw_content := None, fw_ref := Some link, fw_chars := Some chars\<rparr>)"

definition apply_move :: "move_plan \<Rightarrow> fetch_row list \<Rightarrow> nat \<times> fetch_row list" where
  "apply_move plan rows =
     (length (filter (\<lambda>f. map_of plan (fw_id f) \<noteq> None \<and> fw_content f \<noteq> None) rows), map (move_row plan) rows)"

type_synonym pull_plan = "(int \<times> string) list"

definition to_pull :: "tier_env \<Rightarrow> nat \<Rightarrow> fetch_row list \<Rightarrow> fetch_row list" where
  "to_pull env limit rows = take limit (sort_key fw_id (filter (\<lambda>f. fw_ref f \<noteq> None \<and> \<not> tier_rule env rows f) rows))"

definition plan_pull :: "'o store \<Rightarrow> tier_env \<Rightarrow> nat \<Rightarrow> fetch_row list \<Rightarrow> 'o \<Rightarrow> pull_plan result" where
  "plan_pull st env limit rows objs =
     and_then (resolve_rows st objs False (to_pull env limit rows) [])
       (\<lambda>found. Inr (map (\<lambda>(f, s). (fw_id f, coalesce s '''')) found))"

definition pull_row :: "pull_plan \<Rightarrow> fetch_row \<Rightarrow> fetch_row" where
  "pull_row plan f =
     (case map_of plan (fw_id f) of
        None \<Rightarrow> f
      | Some body \<Rightarrow>
          if fw_ref f = None then f else f\<lparr>fw_content := Some body, fw_ref := None, fw_chars := None\<rparr>)"

definition apply_pull :: "pull_plan \<Rightarrow> fetch_row list \<Rightarrow> nat \<times> fetch_row list" where
  "apply_pull plan rows =
     (length (filter (\<lambda>f. map_of plan (fw_id f) \<noteq> None \<and> fw_ref f \<noteq> None) rows), map (pull_row plan) rows)"

definition move_pages ::
  "'o store \<Rightarrow> tier_env \<Rightarrow> nat \<Rightarrow> fetch_row list \<times> 'o \<Rightarrow> nat result \<times> fetch_row list \<times> 'o" where
  "move_pages st env limit ro =
     (case ro of (rows, objs) \<Rightarrow>
        case plan_move st env limit rows objs of
          (Inl e, objs') \<Rightarrow> (Inl e, rows, objs')
        | (Inr plan, objs') \<Rightarrow> (case apply_move plan rows of (n, rows') \<Rightarrow> (Inr n, rows', objs')))"

definition pull_back ::
  "'o store \<Rightarrow> tier_env \<Rightarrow> nat \<Rightarrow> fetch_row list \<times> 'o \<Rightarrow> nat result \<times> fetch_row list \<times> 'o" where
  "pull_back st env limit ro =
     (case ro of (rows, objs) \<Rightarrow>
        case plan_pull st env limit rows objs of
          Inl e \<Rightarrow> (Inl e, rows, objs)
        | Inr plan \<Rightarrow> (case apply_pull plan rows of (n, rows') \<Rightarrow> (Inr n, rows', objs)))"

definition STEP :: int where "STEP = max 1 (BUNDLE_MAX_BYTES div 10000)"

text \<open>
  Both loops of the handler: passes of at most \<open>STEP\<close> rows until the budget, a cancel or an empty
  pass; \<open>noted\<close> is what the loop writes after a pass.
\<close>

function tier_loop ::
  "(nat \<Rightarrow> 's \<Rightarrow> nat result \<times> 's) \<Rightarrow> (int \<Rightarrow> 's \<Rightarrow> 's) \<Rightarrow> (nat \<Rightarrow> bool) \<Rightarrow> int \<Rightarrow> int \<Rightarrow> nat \<Rightarrow> 's
   \<Rightarrow> int result \<times> nat \<times> 's" where
  "tier_loop pass noted stopped budget moved k s =
     (if moved < budget \<and> \<not> stopped k
      then (case pass (nat (min STEP (budget - moved))) s of
              (Inl e, s') \<Rightarrow> (Inl e, k + 1, s')
            | (Inr n, s') \<Rightarrow>
                if n = 0 then (Inr moved, k + 1, noted moved s')
                else tier_loop pass noted stopped budget (moved + int n) (k + 1) (noted (moved + int n) s'))
      else (Inr moved, k + 1, s))"
  by pat_completeness auto
termination
  by (relation "measure (\<lambda>(pass, noted, stopped, budget, moved, k, s). nat (budget - moved))") auto

declare tier_loop.simps [simp del]

definition tier_label :: "int \<Rightarrow> int \<Rightarrow> string" where
  "tier_label moved pulled = ''held '' @ dumps (JNum moved) @ '', brought back '' @ dumps (JNum pulled)"

type_synonym 'o tier_state = "(fetch_row list \<times> 'o) \<times> Task list"

definition on_pages ::
  "(nat \<Rightarrow> fetch_row list \<times> 'o \<Rightarrow> nat result \<times> fetch_row list \<times> 'o) \<Rightarrow> nat \<Rightarrow> 'o tier_state \<Rightarrow> nat result \<times> 'o tier_state" where
  "on_pages pass limit sq = (case pass limit (fst sq) of (n, s) \<Rightarrow> (n, s, snd sq))"

definition tier_progress ::
  "tier_env \<Rightarrow> TaskClaim option \<Rightarrow> int \<Rightarrow> int \<Rightarrow> int \<Rightarrow> string \<Rightarrow> object \<Rightarrow> 'o tier_state \<Rightarrow> 'o tier_state" where
  "tier_progress env cur i finished tot label extra sq =
     (fst sq, set_progress (te_now env) cur i finished tot label extra (snd sq))"

definition handle_tier_page_text ::
  "'o store \<Rightarrow> tier_env \<Rightarrow> TaskClaim option \<Rightarrow> int \<Rightarrow> 'o tier_state \<Rightarrow> py_error option \<times> 'o tier_state" where
  "handle_tier_page_text st env cur i sq =
     (let budget = te_per_cycle env in
      case tier_loop (on_pages (pull_back st env)) (\<lambda>_ s. s) (te_cancelled env) budget 0 0 sq of
        (Inl e, _, sq') \<Rightarrow> (Some e, sq')
      | (Inr pulled, k, sq') \<Rightarrow>
          (case tier_loop (on_pages (move_pages st env))
                  (\<lambda>moved. tier_progress env cur i moved budget (tier_label moved pulled) []) (te_cancelled env) budget 0 k sq' of
             (Inl e, _, sq'') \<Rightarrow> (Some e, sq'')
           | (Inr moved, _, sq'') \<Rightarrow>
               (None, tier_progress env cur i (moved + pulled) (moved + pulled) (tier_label moved pulled)
                  [(''held'', JNum moved), (''brought_back'', JNum pulled)] sq'')))"

section \<open>Tiering keeps every page\<close>

text \<open>The text a row holds, inline or by its digest, and its length where the text is elsewhere.\<close>

definition keeps_text :: "'o store \<Rightarrow> string \<Rightarrow> fetch_row \<Rightarrow> bool" where
  "keeps_text st body f \<longleftrightarrow>
     (case fw_ref f of
        None \<Rightarrow> fw_content f = Some body \<and> fw_chars f = None
      | Some link \<Rightarrow> fw_content f = None \<and> cr_member link = text_digest st body \<and> fw_chars f = Some (int (length body)))"

definition same_fetch :: "fetch_row \<Rightarrow> fetch_row \<Rightarrow> bool" where
  "same_fetch f g \<longleftrightarrow>
     fw_id f = fw_id g \<and> fw_url f = fw_url g \<and> fw_status f = fw_status g \<and> fw_method f = fw_method g \<and> fw_at f = fw_at g"

text \<open>
  Several workers: what each has read and uploaded and not yet written is a plan of its own, new
  fetches arrive, other tables take numbers from the sequence, and the objects may change in any way.
\<close>

record 'o tier_sys =
  ty_db :: fetch_db
  ty_objects :: 'o
  ty_moves :: "move_plan list"
  ty_pulls :: "pull_plan list"

inductive tier_step :: "'o store \<Rightarrow> 'o tier_sys \<Rightarrow> 'o tier_sys \<Rightarrow> bool" for st where
  fetched: "tier_step st y (y\<lparr>ty_db := snd (record_fetch now url stat how content (ty_db y))\<rparr>)"
| move_planned: "plan_move st env limit (fd_rows (ty_db y)) (ty_objects y) = (Inr plan, objs) \<Longrightarrow>
    tier_step st y (y\<lparr>ty_objects := objs, ty_moves := plan # ty_moves y\<rparr>)"
| move_failed: "plan_move st env limit (fd_rows (ty_db y)) (ty_objects y) = (Inl e, objs) \<Longrightarrow>
    tier_step st y (y\<lparr>ty_objects := objs\<rparr>)"
| moved: "plan \<in> set (ty_moves y) \<Longrightarrow>
    tier_step st y (y\<lparr>ty_db := (ty_db y)\<lparr>fd_rows := snd (apply_move plan (fd_rows (ty_db y)))\<rparr>, ty_moves := remove1 plan (ty_moves y)\<rparr>)"
| pull_planned: "plan_pull st env limit (fd_rows (ty_db y)) (ty_objects y) = Inr plan \<Longrightarrow>
    tier_step st y (y\<lparr>ty_pulls := plan # ty_pulls y\<rparr>)"
| pulled: "plan \<in> set (ty_pulls y) \<Longrightarrow>
    tier_step st y (y\<lparr>ty_db := (ty_db y)\<lparr>fd_rows := snd (apply_pull plan (fd_rows (ty_db y)))\<rparr>, ty_pulls := remove1 plan (ty_pulls y)\<rparr>)"
| storage: "tier_step st y (y\<lparr>ty_objects := objs\<rparr>)"
| numbered: "fd_next (ty_db y) \<le> n \<Longrightarrow> tier_step st y (y\<lparr>ty_db := (ty_db y)\<lparr>fd_next := n\<rparr>\<rparr>)"

lemma encode_JStr_inject: "encode_payload (JStr a) = encode_payload (JStr b) \<Longrightarrow> a = b"
proof -
  assume same: "encode_payload (JStr a) = encode_payload (JStr b)"
  have "loads (encode_payload (JStr a)) = Some (canonical (JStr a))" "loads (encode_payload (JStr b)) = Some (canonical (JStr b))"
    by (rule loads_encode; simp)+
  with same have "canonical (JStr a) = canonical (JStr b)" by (metis option.inject)
  then show "a = b" by simp
qed

lemma digest_member_text:
  assumes "get_digest_member st objs sha sz (text_digest st body) cache = (Inr (JStr s), cache')"
    "only_text (st_sha256 st) (encode_payload (JStr body))"
  shows "s = body"
proof -
  have "st_sha256 st (encode_payload (JStr s)) = st_sha256 st (encode_payload (JStr body))"
    using digest_member_value [OF assms(1)] by (simp add: value_digest_def text_digest_def)
  then show ?thesis using assms(2) encode_JStr_inject by (auto simp: only_text_def)
qed

lemma resolve_row_text:
  assumes "keeps_text st body f" "only_text (st_sha256 st) (encode_payload (JStr body))"
    "resolve_row st objs tx f cache = (r, cache')"
  shows "case r of Inr t \<Rightarrow> t = Some body | Inl e \<Rightarrow> \<exists>why. e = PayloadUnavailable why"
proof (cases "fw_ref f")
  case None
  then show ?thesis using assms by (auto simp: resolve_row_def keeps_text_def)
next
  case (Some link)
  show ?thesis
  proof (cases tx)
    case True
    then show ?thesis using assms(3) Some by (auto simp: resolve_row_def)
  next
    case False
    obtain v c where v: "get_digest_member st objs (cr_object link) (cr_size link) (cr_member link) cache = (v, c)" by fastforce
    have "cr_member link = text_digest st body" using assms(1) Some by (simp add: keeps_text_def)
    then have told: "v = Inr (JStr s) \<Longrightarrow> s = body" "v = Inl e \<Longrightarrow> \<exists>why. e = PayloadUnavailable why" for s e
      using v digest_member_text [OF _ assms(2)] digest_member_error by fastforce+
    have r: "r = and_then v (\<lambda>v. case v of JStr s \<Rightarrow> Inr (Some s) | _ \<Rightarrow> Inl (PayloadUnavailable ''Page text is not a string''))"
      using assms(3) Some False v by (simp add: resolve_row_def)
    show ?thesis
    proof (cases v)
      case (Inl e)
      then show ?thesis using r told(2) by simp
    next
      case (Inr j)
      then show ?thesis using r told(1) by (cases j) auto
    qed
  qed
qed

lemma resolve_rows_found:
  assumes "resolve_rows st objs tx fs cache = Inr found"
  shows "map fst found = fs" "(f, s) \<in> set found \<Longrightarrow> \<exists>c c'. resolve_row st objs tx f c = (Inr s, c')"
proof -
  have "map fst found = fs \<and> (\<forall>(f, s) \<in> set found. \<exists>c c'. resolve_row st objs tx f c = (Inr s, c'))"
    using assms
  proof (induction fs arbitrary: cache found)
    case (Cons f fs)
    obtain r c where r: "resolve_row st objs tx f cache = (r, c)" by fastforce
    then obtain s rest where "r = Inr s" "resolve_rows st objs tx fs c = Inr rest" "found = (f, s) # rest"
      using Cons.prems by (auto simp: and_then_Inr_iff)
    then show ?case using Cons.IH [of c rest] r by auto
  qed simp
  then show "map fst found = fs" "(f, s) \<in> set found \<Longrightarrow> \<exists>c c'. resolve_row st objs tx f c = (Inr s, c')" by auto
qed

text \<open>Every row and every plan that concerns the fetch \<open>g\<close> agrees that its text is \<open>body\<close>.\<close>

definition page_kept :: "'o store \<Rightarrow> string \<Rightarrow> fetch_row \<Rightarrow> 'o tier_sys \<Rightarrow> bool" where
  "page_kept st body g y \<longleftrightarrow>
     fw_id g < fd_next (ty_db y)
     \<and> fw_id g \<in> fw_id ` set (fd_rows (ty_db y))
     \<and> (\<forall>f \<in> set (fd_rows (ty_db y)). fw_id f = fw_id g \<longrightarrow> same_fetch f g \<and> keeps_text st body f)
     \<and> (\<forall>plan \<in> set (ty_moves y). \<forall>(i, link, chars) \<in> set plan. i = fw_id g \<longrightarrow>
          cr_member link = text_digest st body \<and> chars = int (length body))
     \<and> (\<forall>plan \<in> set (ty_pulls y). \<forall>(i, s) \<in> set plan. i = fw_id g \<longrightarrow> s = body)"

lemma move_row_id [simp]: "fw_id (move_row plan f) = fw_id f"
  by (auto simp: move_row_def split: option.splits)

lemma pull_row_id [simp]: "fw_id (pull_row plan f) = fw_id f"
  by (auto simp: pull_row_def split: option.splits)

lemma move_row_kept:
  assumes "same_fetch f g" "keeps_text st body f"
    "\<forall>(i, link, chars) \<in> set plan. i = fw_id f \<longrightarrow> cr_member link = text_digest st body \<and> chars = int (length body)"
  shows "same_fetch (move_row plan f) g" "keeps_text st body (move_row plan f)"
  using assms by (auto simp: move_row_def same_fetch_def keeps_text_def split: option.splits dest!: map_of_SomeD)

lemma pull_row_kept:
  assumes "same_fetch f g" "keeps_text st body f" "\<forall>(i, s) \<in> set plan. i = fw_id f \<longrightarrow> s = body"
  shows "same_fetch (pull_row plan f) g" "keeps_text st body (pull_row plan f)"
  using assms by (auto simp: pull_row_def same_fetch_def keeps_text_def split: option.splits dest!: map_of_SomeD)

lemma plan_move_kept:
  assumes "plan_move st env limit rows objs = (Inr plan, objs')" "\<forall>f \<in> set rows. fw_id f = i \<longrightarrow> keeps_text st body f"
  shows "\<forall>(j, link, chars) \<in> set plan. j = i \<longrightarrow> cr_member link = text_digest st body \<and> chars = int (length body)"
proof -
  have "fw_content f = Some body" if "f \<in> set (to_move env limit rows)" "fw_id f = i" for f
  proof -
    have "f \<in> set rows" "nonempty (fw_content f)" using that(1) by (auto simp: to_move_def dest: in_set_takeD)
    then show ?thesis using assms(2) that(2) by (auto simp: keeps_text_def nonempty_def coalesce_def split: option.splits)
  qed
  moreover have "plan = [] \<or> (\<exists>links. plan = map (move_item st links) (to_move env limit rows))"
    using assms(1) by (auto simp: plan_move_def Let_def split: if_splits prod.splits sum.splits)
  ultimately show ?thesis by (auto simp: move_item_def Let_def)
qed

lemma plan_pull_kept:
  assumes "plan_pull st env limit rows objs = Inr plan" "\<forall>f \<in> set rows. fw_id f = i \<longrightarrow> keeps_text st body f"
    "only_text (st_sha256 st) (encode_payload (JStr body))"
  shows "\<forall>(j, s) \<in> set plan. j = i \<longrightarrow> s = body"
proof -
  obtain found where found: "resolve_rows st objs False (to_pull env limit rows) [] = Inr found"
      "plan = map (\<lambda>(f, s). (fw_id f, coalesce s '''')) found"
    using assms(1) by (auto simp: plan_pull_def and_then_Inr_iff)
  have "s = Some body" if fs: "(f, s) \<in> set found" "fw_id f = i" for f s
  proof -
    have "f \<in> set (to_pull env limit rows)" unfolding resolve_rows_found(1) [OF found(1), symmetric] using that(1) by force
    then have "f \<in> set rows" by (auto simp: to_pull_def dest: in_set_takeD)
    then have "keeps_text st body f" using assms(2) that(2) by blast
    moreover obtain c c' where "resolve_row st objs False f c = (Inr s, c')"
      using resolve_rows_found(2) [OF found(1) fs(1)] by blast
    ultimately show ?thesis using resolve_row_text [OF _ assms(3)] by fastforce
  qed
  then show ?thesis using found(2) by (fastforce simp: coalesce_def)
qed

lemma page_kept_rows:
  assumes "page_kept st body g y" "fd_next db = fd_next (ty_db y)" "fd_rows db = map swap (fd_rows (ty_db y))"
    "\<forall>f. fw_id (swap f) = fw_id f"
    "\<forall>f. same_fetch f g \<and> keeps_text st body f \<longrightarrow> same_fetch (swap f) g \<and> keeps_text st body (swap f)"
    "set (ty_moves y') \<subseteq> set (ty_moves y)" "set (ty_pulls y') \<subseteq> set (ty_pulls y)" "ty_db y' = db"
  shows "page_kept st body g y'"
proof -
  note kept = assms(1) [unfolded page_kept_def]
  have "same_fetch f g \<and> keeps_text st body f" if f: "f \<in> set (fd_rows db)" "fw_id f = fw_id g" for f
  proof -
    obtain f' where "f' \<in> set (fd_rows (ty_db y))" "f = swap f'" using f(1) assms(3) by auto
    then show ?thesis using kept assms(4,5) f(2) by auto
  qed
  moreover have "fw_id g \<in> fw_id ` set (fd_rows db)"
    using kept assms(3,4) by (auto simp: image_image)
  ultimately show ?thesis
    unfolding page_kept_def assms(8) assms(2) using kept assms(6,7) by blast
qed

lemma tier_step_kept:
  assumes "tier_step st y y'" "page_kept st body g y" "only_text (st_sha256 st) (encode_payload (JStr body))"
  shows "page_kept st body g y'"
  using assms
proof cases
  case (fetched now url stat how content)
  then show ?thesis using assms(2) by (auto simp: page_kept_def record_fetch_def)
next
  case (move_planned env limit plan objs)
  then show ?thesis using assms(2) plan_move_kept [OF move_planned(2), of "fw_id g" body] by (auto simp: page_kept_def)
next
  case (move_failed env limit e objs)
  then show ?thesis using assms(2) by (auto simp: page_kept_def)
next
  case (moved plan)
  have "\<forall>(i, link, chars) \<in> set plan. i = fw_id g \<longrightarrow> cr_member link = text_digest st body \<and> chars = int (length body)"
    using moved(2) assms(2) by (auto simp: page_kept_def)
  then have "same_fetch (move_row plan f) g \<and> keeps_text st body (move_row plan f)" if "same_fetch f g" "keeps_text st body f" for f
    using that move_row_kept [OF that, of plan] by (auto simp: same_fetch_def)
  then show ?thesis
    unfolding moved(1)
    by (intro page_kept_rows [OF assms(2), where swap = "move_row plan"]) (auto simp: apply_move_def dest: set_remove1_subset [THEN subsetD])
next
  case (pull_planned env limit plan)
  then show ?thesis using assms(2) plan_pull_kept [OF pull_planned(2) _ assms(3), of "fw_id g"] by (auto simp: page_kept_def)
next
  case (pulled plan)
  have "\<forall>(i, s) \<in> set plan. i = fw_id g \<longrightarrow> s = body"
    using pulled(2) assms(2) by (auto simp: page_kept_def)
  then have "same_fetch (pull_row plan f) g \<and> keeps_text st body (pull_row plan f)" if "same_fetch f g" "keeps_text st body f" for f
    using that pull_row_kept [OF that, of plan] by (auto simp: same_fetch_def)
  then show ?thesis
    unfolding pulled(1)
    by (intro page_kept_rows [OF assms(2), where swap = "pull_row plan"]) (auto simp: apply_pull_def dest: set_remove1_subset [THEN subsetD])
next
  case (storage objs)
  then show ?thesis using assms(2) by (auto simp: page_kept_def)
next
  case (numbered n)
  then show ?thesis using assms(2) by (auto simp: page_kept_def)
qed

lemma tier_steps_kept:
  assumes "(tier_step st)\<^sup>*\<^sup>* y y'" "page_kept st body g y" "only_text (st_sha256 st) (encode_payload (JStr body))"
  shows "page_kept st body g y'"
  using assms by (induction rule: rtranclp_induct) (auto intro: tier_step_kept)

lemma page_kept_start:
  assumes "fetch_db_ok (ty_db y)" "ty_moves y = []" "ty_pulls y = []" "g \<in> set (fd_rows (ty_db y))" "keeps_text st body g"
  shows "page_kept st body g y"
proof -
  have "f = g" if "f \<in> set (fd_rows (ty_db y))" "fw_id f = fw_id g" for f
    using assms(1,4) that by (auto simp: fetch_db_ok_def distinct_map dest: inj_onD)
  then show ?thesis using assms by (auto simp: page_kept_def fetch_db_ok_def list_all_iff same_fetch_def)
qed

text \<open>The handler is made of such steps, so what they keep it keeps, beside any other worker.\<close>

definition as_sys :: "int \<Rightarrow> 'o tier_state \<Rightarrow> 'o tier_sys" where
  "as_sys nxt sq = \<lparr>ty_db = \<lparr>fd_rows = fst (fst sq), fd_next = nxt\<rparr>, ty_objects = snd (fst sq), ty_moves = [], ty_pulls = []\<rparr>"

lemma move_pages_steps: "(tier_step st)\<^sup>*\<^sup>* (as_sys nxt sq) (as_sys nxt (snd (on_pages (move_pages st env) limit sq)))"
proof -
  obtain rows objs tbl where sq: "sq = ((rows, objs), tbl)" by (metis surj_pair)
  obtain r objs' where r: "plan_move st env limit rows objs = (r, objs')" by fastforce
  show ?thesis
  proof (cases r)
    case (Inl e)
    then have "tier_step st (as_sys nxt sq) (as_sys nxt (snd (on_pages (move_pages st env) limit sq)))"
      using move_failed [of st env limit "as_sys nxt sq"] r by (simp add: sq as_sys_def on_pages_def move_pages_def)
    then show ?thesis by blast
  next
    case (Inr plan)
    let ?mid = "(as_sys nxt sq)\<lparr>ty_objects := objs', ty_moves := [plan]\<rparr>"
    have "tier_step st (as_sys nxt sq) ?mid"
      using move_planned [of st env limit "as_sys nxt sq"] r Inr by (simp add: sq as_sys_def)
    moreover have "tier_step st ?mid (as_sys nxt (snd (on_pages (move_pages st env) limit sq)))"
      using tier_step.moved [of plan ?mid st] r Inr by (simp add: sq as_sys_def on_pages_def move_pages_def case_prod_beta)
    ultimately show ?thesis by (meson r_into_rtranclp rtranclp.rtrancl_into_rtrancl)
  qed
qed

lemma pull_back_steps: "(tier_step st)\<^sup>*\<^sup>* (as_sys nxt sq) (as_sys nxt (snd (on_pages (pull_back st env) limit sq)))"
proof -
  obtain rows objs tbl where sq: "sq = ((rows, objs), tbl)" by (metis surj_pair)
  show ?thesis
  proof (cases "plan_pull st env limit rows objs")
    case (Inl e)
    then show ?thesis by (simp add: sq on_pages_def pull_back_def)
  next
    case (Inr plan)
    let ?mid = "(as_sys nxt sq)\<lparr>ty_pulls := [plan]\<rparr>"
    have "tier_step st (as_sys nxt sq) ?mid"
      using pull_planned [of st env limit "as_sys nxt sq"] Inr by (simp add: sq as_sys_def)
    moreover have "tier_step st ?mid (as_sys nxt (snd (on_pages (pull_back st env) limit sq)))"
      using tier_step.pulled [of plan ?mid st] Inr by (simp add: sq as_sys_def on_pages_def pull_back_def case_prod_beta)
    ultimately show ?thesis by (meson r_into_rtranclp rtranclp.rtrancl_into_rtrancl)
  qed
qed

lemma tier_loop_relates:
  assumes "reflp R" "transp R" "\<forall>n s. R s (snd (pass n s))" "\<forall>m s. R s (noted m s)"
  shows "R s (snd (snd (tier_loop pass noted stopped budget moved k s)))"
proof (induction "nat (budget - moved)" arbitrary: moved k s rule: less_induct)
  case less
  note trans = transpD [OF assms(2)]
  obtain r s' where r: "pass (nat (min STEP (budget - moved))) s = (r, s')" by fastforce
  then have s': "R s s'" using assms(3) by (metis snd_conv)
  have noted: "R s (noted m s')" for m by (rule trans [OF s']) (use assms(4) in blast)
  show ?case
  proof (cases "moved < budget \<and> \<not> stopped k \<and> (\<exists>n. r = Inr n \<and> n \<noteq> 0)")
    case True
    then obtain n where n: "r = Inr n" "0 < n" by auto
    let ?s = "noted (moved + int n) s'"
    have "R ?s (snd (snd (tier_loop pass noted stopped budget (moved + int n) (k + 1) ?s)))"
      by (rule less) (use True n in simp)
    then have "R s (snd (snd (tier_loop pass noted stopped budget (moved + int n) (k + 1) ?s)))" by (rule trans [OF noted])
    then show ?thesis using True n r by (simp add: tier_loop.simps [of pass noted stopped budget moved])
  next
    case False
    then show ?thesis
      using r s' noted reflpD [OF assms(1)] by (cases r) (auto simp: tier_loop.simps [of pass noted stopped budget moved])
  qed
qed

lemma handle_relates:
  assumes "handle_tier_page_text st env cur i sq = (e, sq')" "reflp R" "transp R"
    "\<forall>n s. R s (snd (on_pages (pull_back st env) n s))" "\<forall>n s. R s (snd (on_pages (move_pages st env) n s))"
    "\<forall>m tot label extra s. R s (tier_progress env cur i m tot label extra s)"
  shows "R sq sq'"
proof -
  note R = reflpD [OF assms(2)] transpD [OF assms(3)]
  let ?budget = "te_per_cycle env"
  obtain r k s where pulls: "tier_loop (on_pages (pull_back st env)) (\<lambda>_ s. s) (te_cancelled env) ?budget 0 0 sq = (r, k, s)"
    by (rule prod_cases3)
  have "R sq (snd (snd (tier_loop (on_pages (pull_back st env)) (\<lambda>_ s. s) (te_cancelled env) ?budget 0 0 sq)))"
    using assms(4) R(1) by (intro tier_loop_relates [OF assms(2,3)]) blast+
  then have first: "R sq s" unfolding pulls by simp
  show ?thesis
  proof (cases r)
    case (Inl err)
    then show ?thesis using assms(1) pulls first by (simp add: handle_tier_page_text_def Let_def)
  next
    case (Inr pulled)
    let ?noted = "\<lambda>moved. tier_progress env cur i moved ?budget (tier_label moved pulled) []"
    obtain r' k' s' where moves: "tier_loop (on_pages (move_pages st env)) ?noted (te_cancelled env) ?budget 0 k s = (r', k', s')"
      by (rule prod_cases3)
    have "R s (snd (snd (tier_loop (on_pages (move_pages st env)) ?noted (te_cancelled env) ?budget 0 k s)))"
      using assms(5,6) by (intro tier_loop_relates [OF assms(2,3)]) blast+
    then have "R s s'" unfolding moves by simp
    then have "R sq s'" by (rule R(2) [OF first])
    moreover have "R s' sq'"
    proof (cases r')
      case (Inl err)
      then have "sq' = s'" using assms(1) by (simp add: handle_tier_page_text_def Let_def pulls Inr moves)
      then show ?thesis using R(1) by simp
    next
      case (Inr moved)
      then have "sq' = tier_progress env cur i (moved + pulled) (moved + pulled) (tier_label moved pulled)
          [(''held'', JNum moved), (''brought_back'', JNum pulled)] s'"
        using assms(1) \<open>r = Inr pulled\<close> by (simp add: handle_tier_page_text_def Let_def pulls moves)
      then show ?thesis using assms(6) by blast
    qed
    ultimately show ?thesis by (rule R(2))
  qed
qed

lemma handle_tier_page_text_steps:
  assumes "handle_tier_page_text st env cur i sq = (e, sq')"
  shows "(tier_step st)\<^sup>*\<^sup>* (as_sys nxt sq) (as_sys nxt sq')"
proof (rule handle_relates [OF assms, where R = "\<lambda>sq sq'. (tier_step st)\<^sup>*\<^sup>* (as_sys nxt sq) (as_sys nxt sq')"])
  show "\<forall>m tot label extra s. (tier_step st)\<^sup>*\<^sup>* (as_sys nxt s) (as_sys nxt (tier_progress env cur i m tot label extra s))"
    by (simp add: as_sys_def tier_progress_def)
qed (auto intro: reflpI transpI simp: pull_back_steps move_pages_steps)

section \<open>Streaks are not touched by tiering\<close>

lemma same_fetch_refl [simp]: "same_fetch f f"
  by (simp add: same_fetch_def)

lemma same_fetch_trans: "same_fetch f g \<Longrightarrow> same_fetch g h \<Longrightarrow> same_fetch f h"
  by (simp add: same_fetch_def)

abbreviation same_fetches :: "fetch_row list \<Rightarrow> fetch_row list \<Rightarrow> bool" where
  "same_fetches \<equiv> list_all2 same_fetch"

lemma same_fetches_map: "\<forall>f. same_fetch (swap f) f \<Longrightarrow> same_fetches (map swap rows) rows"
  by (induction rows) auto

lemma same_fetches_swap: "same_fetches (snd (apply_move plan rows)) rows" "same_fetches (snd (apply_pull plan' rows)) rows"
  unfolding apply_move_def apply_pull_def snd_conv
  by (rule same_fetches_map, auto simp: move_row_def pull_row_def same_fetch_def split: option.split)+

lemma filter_same:
  "same_fetches rows' rows \<Longrightarrow> \<forall>f g. same_fetch f g \<longrightarrow> P f = P g \<Longrightarrow> same_fetches (filter P rows') (filter P rows)"
  by (induction rows' rows rule: list_all2_induct) auto

lemma map_same: "same_fetches rows' rows \<Longrightarrow> \<forall>f g. same_fetch f g \<longrightarrow> h f = h g \<Longrightarrow> map h rows' = map h rows"
  by (induction rows' rows rule: list_all2_induct) auto

lemma streak_same:
  assumes "same_fetches rows' rows"
  shows "same_fetches (streak_rows u rows') (streak_rows u rows)"
proof -
  have "same_fetches (filter (\<lambda>f. fw_url f = u \<and> fw_status f = ''passed'') rows') (filter (\<lambda>f. fw_url f = u \<and> fw_status f = ''passed'') rows)"
    by (rule filter_same [OF assms]) (auto simp: same_fetch_def)
  then have "last_passed u rows' = last_passed u rows"
    unfolding last_passed_def using map_same [where h = fw_id] by (simp add: same_fetch_def)
  then show ?thesis unfolding streak_rows_def by (auto simp: same_fetch_def intro: filter_same [OF assms])
qed

lemma run_ok_same:
  assumes "run_ok rt now {} ps" "same_fetches rows (fd_rows (ps_fetches ps))"
  shows "run_ok rt now {} (ps\<lparr>ps_fetches := (ps_fetches ps)\<lparr>fd_rows := rows\<rparr>\<rparr>)"
proof -
  have ids: "map fw_id rows = map fw_id (fd_rows (ps_fetches ps))"
    using assms(2) by (rule map_same) (simp add: same_fetch_def)
  then have "fw_id ` set rows = fw_id ` set (fd_rows (ps_fetches ps))" by (metis list.set_map)
  then have "fetch_db_ok ((ps_fetches ps)\<lparr>fd_rows := rows\<rparr>)"
    using assms(1) ids by (auto simp: run_ok_def fetch_db_ok_def list_all_iff) (metis imageE image_eqI)+
  moreover have "map fw_at (streak_rows u rows) = map fw_at (streak_rows u (fd_rows (ps_fetches ps)))" for u
    using streak_same [OF assms(2)] by (rule map_same) (simp add: same_fetch_def)
  moreover have "length (streak_rows u rows) = length (streak_rows u (fd_rows (ps_fetches ps)))" for u
    using streak_same [OF assms(2)] by (rule list_all2_lengthD)
  ultimately show ?thesis using assms(1) by (simp add: run_ok_def backed_off_def)
qed

lemma move_pages_same: "same_fetches (fst (fst (snd (on_pages (move_pages st env) limit sq)))) (fst (fst sq))"
  by (auto simp: on_pages_def move_pages_def list.rel_refl case_prod_beta intro: same_fetches_swap split: sum.split)

lemma pull_back_same: "same_fetches (fst (fst (snd (on_pages (pull_back st env) limit sq)))) (fst (fst sq))"
  by (auto simp: on_pages_def pull_back_def list.rel_refl case_prod_beta intro: same_fetches_swap split: sum.split)

lemma handle_same:
  assumes "handle_tier_page_text st env cur i sq = (e, sq')"
  shows "same_fetches (fst (fst sq')) (fst (fst sq))"
proof (rule handle_relates [OF assms, where R = "\<lambda>sq sq'. same_fetches (fst (fst sq')) (fst (fst sq))"])
  show "transp (\<lambda>sq sq'. same_fetches (fst (fst sq')) (fst (fst sq)))"
    by (rule transpI) (rule list_all2_trans [of same_fetch same_fetch same_fetch, OF same_fetch_trans])
qed (auto intro!: reflpI list.rel_refl simp: pull_back_same move_pages_same tier_progress_def)

section \<open>Theorems\<close>

text \<open>
  Automatic fetching, run after run: filter preparations and pulls, each with its reading of the
  back-off before its fetches, re-checks by a person that find the page, and tiering between them.
\<close>

inductive auto_reachable :: "'o store \<Rightarrow> retry_settings \<Rightarrow> page_state \<Rightarrow> bool" for st rt where
  start: "fd_rows (ps_fetches ps) = [] \<Longrightarrow> fd_next (ps_fetches ps) > 0 \<Longrightarrow> auto_reachable st rt ps"
| prepared: "auto_reachable st rt ps \<Longrightarrow> fe_retry env = rt \<Longrightarrow> distinct (map pt_url jobs) \<Longrightarrow>
    \<forall>p \<in> set jobs. now \<le> wd_at (fe_world env (pt_url p)) \<Longrightarrow>
    prepare_content st objs env now i jobs (ps, tbl) = (r, ps', tbl') \<Longrightarrow> auto_reachable st rt ps'"
| cached: "auto_reachable st rt ps \<Longrightarrow> fe_retry env = rt \<Longrightarrow> distinct (map (pt_url \<circ> fst) cands) \<Longrightarrow>
    \<forall>c \<in> set cands. now \<le> wd_at (fe_world env (pt_url (fst c))) \<Longrightarrow>
    cache_pages env now cands ps = (n, ps') \<Longrightarrow> auto_reachable st rt ps'"
| rechecked: "auto_reachable st rt ps \<Longrightarrow>
    refresh_page le w url company title context ps = (Inr (Some page, c), ps') \<Longrightarrow> auto_reachable st rt ps'"
| tiered: "auto_reachable st rt ps \<Longrightarrow>
    handle_tier_page_text st env cur i ((fd_rows (ps_fetches ps), objs), tbl) = (e, (rows, objs'), tbl') \<Longrightarrow>
    auto_reachable st rt (ps\<lparr>ps_fetches := (ps_fetches ps)\<lparr>fd_rows := rows\<rparr>\<rparr>)"
| numbers_taken: "auto_reachable st rt ps \<Longrightarrow> fd_next (ps_fetches ps) \<le> n \<Longrightarrow>
    auto_reachable st rt (ps\<lparr>ps_fetches := (ps_fetches ps)\<lparr>fd_next := n\<rparr>\<rparr>)"

lemma auto_reachable_ok: "auto_reachable st rt ps \<Longrightarrow> run_ok rt now {} ps"
proof (induction arbitrary: now rule: auto_reachable.induct)
  case (start ps)
  then show ?case by (simp add: run_ok_def fetch_db_ok_def backed_off_def streak_rows_def waits_between_def)
next
  case (prepared ps env jobs now0 objs i tbl r ps' tbl')
  then have "run_ok rt now0 {} ps'" using prepare_content_run_ok [OF prepared(5)] by blast
  then show ?case by (simp add: run_ok_def)
next
  case (cached ps env cands now0 n ps')
  then have "run_ok rt now0 {} ps'" using cache_pages_run_ok [OF cached(5)] by blast
  then show ?case by (simp add: run_ok_def)
next
  case (rechecked ps le w url company title ctx page c ps')
  obtain f where "appends_fetch url (wd_at w) (ps_fetches ps) f (ps_fetches ps')" "fw_status f = ''passed''"
    using refresh_page_refreshes(2) [OF rechecked(2)] by blast
  then have "run_ok rt (wd_at w) ({} - {url}) ps'" using rechecked.IH by (intro appends_run_ok) auto
  then show ?case by (simp add: run_ok_def)
next
  case (tiered ps env cur i objs tbl e rows objs' tbl')
  have "same_fetches rows (fd_rows (ps_fetches ps))" using handle_same [OF tiered(2)] by simp
  with tiered.IH show ?case by (rule run_ok_same)
next
  case (numbers_taken ps n)
  then show ?case by (auto simp: run_ok_def fetch_db_ok_def list_all_iff)
qed


text \<open>
  C27: Tiering keeps every page. Whatever workers move and bring back meanwhile, in any order and
  between each other's reads and writes, and whatever happens to the stored objects, a fetched
  page keeps its row, its length and its text: reading it gives that text or raises, through any
  cache.
\<close>

theorem tiering_keeps_every_page:
  assumes "(tier_step st)\<^sup>*\<^sup>* y y'" "fetch_db_ok (ty_db y)" "ty_moves y = []" "ty_pulls y = []"
    "g \<in> set (fd_rows (ty_db y))" "keeps_text st body g" "body \<noteq> ''''" "only_text (st_sha256 st) (encode_payload (JStr body))"
  shows "\<exists>f \<in> set (fd_rows (ty_db y')). same_fetch f g \<and> has_text f \<and> text_chars f = int (length body)
    \<and> (case fst (resolve_row st objs tx f cache) of
         Inr s \<Rightarrow> s = Some body | Inl e \<Rightarrow> \<exists>why. e = PayloadUnavailable why)"
proof -
  have "page_kept st body g y'"
    using assms(1) page_kept_start [OF assms(2-6)] assms(8) by (rule tier_steps_kept)
  then obtain f where f: "f \<in> set (fd_rows (ty_db y'))" "same_fetch f g" "keeps_text st body f"
    by (auto simp: page_kept_def)
  obtain r c where r: "resolve_row st objs tx f cache = (r, c)" by fastforce
  have "has_text f" "text_chars f = int (length body)"
    using f(3) assms(7) by (auto simp: keeps_text_def has_text_def text_chars_def coalesce_def split: option.splits)
  then show ?thesis using f resolve_row_text [OF f(3) assms(8) r] r by auto
qed

section \<open>Switching tiering off\<close>

abbreviation held_rows :: "fetch_row list \<Rightarrow> fetch_row list" where
  "held_rows \<equiv> filter (\<lambda>f. fw_ref f \<noteq> None)"

text \<open>The stored objects can be read: the texts of any of these rows resolve.\<close>

definition readable :: "'o store \<Rightarrow> 'o \<Rightarrow> fetch_row list \<Rightarrow> bool" where
  "readable st objs rows \<longleftrightarrow> (\<forall>fs. set fs \<subseteq> set rows \<longrightarrow> (\<exists>found. resolve_rows st objs False fs [] = Inr found))"

lemma pull_pass:
  assumes "distinct (map fw_id rows)" "\<not> te_enabled env" "readable st objs (held_rows rows)"
  shows "\<exists>rows'. pull_back st env limit (rows, objs) = (Inr (min limit (length (held_rows rows))), rows', objs)
    \<and> map fw_id rows' = map fw_id rows \<and> set (held_rows rows') \<subseteq> set (held_rows rows)
    \<and> length (held_rows rows') = length (held_rows rows) - limit"
proof -
  let ?held = "held_rows rows" and ?picked = "to_pull env limit rows"
  have picked: "?picked = take limit (sort_key fw_id ?held)" using assms(2) by (simp add: to_pull_def tier_rule_def)
  have sub: "set ?picked \<subseteq> set ?held" unfolding picked by (metis set_sort set_take_subset)
  have dist: "distinct ?held" "distinct ?picked" using assms(1) by (auto simp: picked distinct_map)
  obtain found where found: "resolve_rows st objs False ?picked [] = Inr found"
    using assms(3) sub unfolding readable_def by blast
  let ?plan = "map (\<lambda>(f, s). (fw_id f, coalesce s '''')) found"
  have "map fst ?plan = map fw_id ?picked"
    unfolding resolve_rows_found(1) [OF found, symmetric] by (simp add: case_prod_beta)
  then have ids: "dom (map_of ?plan) = fw_id ` set ?picked" unfolding dom_map_of_conv_image_fst by (metis list.set_map)
  have hit: "map_of ?plan (fw_id f) \<noteq> None \<longleftrightarrow> f \<in> set ?picked" if "f \<in> set rows" for f
  proof -
    have "fw_id f \<in> fw_id ` set ?picked \<longleftrightarrow> f \<in> set ?picked"
      using assms(1) that sub by (auto simp: distinct_map dest: inj_onD)
    then show ?thesis using ids by blast
  qed
  have split: "filter P ?held = filter (\<lambda>f. P f \<and> fw_ref f \<noteq> None) rows" for P
    unfolding filter_filter by (rule filter_cong) auto
  have count: "filter (\<lambda>f. map_of ?plan (fw_id f) \<noteq> None \<and> fw_ref f \<noteq> None) rows = filter (\<lambda>f. f \<in> set ?picked) ?held"
    unfolding split using hit by (intro filter_cong) auto
  have kept: "held_rows (map (pull_row ?plan) rows) = filter (\<lambda>f. f \<notin> set ?picked) ?held"
  proof -
    have same: "fw_ref (pull_row ?plan f) \<noteq> None \<longleftrightarrow> f \<notin> set ?picked \<and> fw_ref f \<noteq> None" "f \<notin> set ?picked \<Longrightarrow> pull_row ?plan f = f"
      if "f \<in> set rows" for f using hit [OF that] by (auto simp: pull_row_def split: option.splits)
    then have "held_rows (map (pull_row ?plan) rows) = map (pull_row ?plan) (filter (\<lambda>f. f \<notin> set ?picked \<and> fw_ref f \<noteq> None) rows)"
      by (simp add: filter_map o_def cong: filter_cong)
    also have "\<dots> = filter (\<lambda>f. f \<notin> set ?picked \<and> fw_ref f \<noteq> None) rows" using same(2) by (intro map_idI) auto
    finally show ?thesis by (simp only: split)
  qed
  have "length (filter (\<lambda>f. f \<in> set ?picked) ?held) = card (set ?picked)"
  proof -
    have "set (filter (\<lambda>f. f \<in> set ?picked) ?held) = set ?picked" using sub by auto
    then show ?thesis using distinct_card [OF distinct_filter [OF dist(1)]] by metis
  qed
  also have "\<dots> = min limit (length ?held)" using dist(2) by (simp add: distinct_card) (simp add: picked min.commute)
  finally have n: "length (filter (\<lambda>f. f \<in> set ?picked) ?held) = min limit (length ?held)" .
  then have left: "length (filter (\<lambda>f. f \<notin> set ?picked) ?held) = length ?held - limit"
    using sum_length_filter_compl [of "\<lambda>f. f \<in> set ?picked" ?held] by linarith
  have "plan_pull st env limit rows objs = Inr ?plan" using found by (simp add: plan_pull_def)
  moreover have "apply_pull ?plan rows = (min limit (length ?held), map (pull_row ?plan) rows)"
    unfolding apply_pull_def count n ..
  ultimately have "pull_back st env limit (rows, objs) = (Inr (min limit (length ?held)), map (pull_row ?plan) rows, objs)"
    by (simp only: pull_back_def prod.case sum.case)
  moreover have "set (held_rows (map (pull_row ?plan) rows)) \<subseteq> set ?held" unfolding kept by auto
  moreover have "length (held_rows (map (pull_row ?plan) rows)) = length ?held - limit" unfolding kept by (rule left)
  moreover have "map fw_id (map (pull_row ?plan) rows) = map fw_id rows" by simp
  ultimately show ?thesis by blast
qed

lemma readable_subset: "readable st objs rows \<Longrightarrow> set rows' \<subseteq> set rows \<Longrightarrow> readable st objs rows'"
  by (auto simp: readable_def)

lemma pull_loop_empties:
  assumes "\<not> te_enabled env" "distinct (map fw_id rows)" "readable st objs (held_rows rows)"
    "moved + int (length (held_rows rows)) \<le> budget"
  shows "\<exists>rows' k'. tier_loop (on_pages (pull_back st env)) (\<lambda>_ s. s) (\<lambda>_. False) budget moved k ((rows, objs), tbl)
      = (Inr (moved + int (length (held_rows rows))), k', ((rows', objs), tbl)) \<and> held_rows rows' = []"
  using assms(2-)
proof (induction "length (held_rows rows)" arbitrary: rows moved k rule: less_induct)
  case less
  let ?limit = "nat (min STEP (budget - moved))" and ?n = "length (held_rows rows)"
  let ?loop = "tier_loop (on_pages (pull_back st env)) (\<lambda>_ s. s) (\<lambda>_. False) budget"
  obtain rows1 where rows1: "pull_back st env ?limit (rows, objs) = (Inr (min ?limit ?n), rows1, objs)"
      "map fw_id rows1 = map fw_id rows" "set (held_rows rows1) \<subseteq> set (held_rows rows)" "length (held_rows rows1) = ?n - ?limit"
    using pull_pass [OF less.prems(1) assms(1) less.prems(2)] by blast
  have pass: "on_pages (pull_back st env) ?limit ((rows, objs), tbl) = (Inr (min ?limit ?n), ((rows1, objs), tbl))"
    by (simp only: on_pages_def rows1(1) fst_conv snd_conv prod.case)
  have unfold: "?loop moved k ((rows, objs), tbl) =
      (if moved < budget then if min ?limit ?n = 0 then (Inr moved, k + 1, ((rows1, objs), tbl))
         else ?loop (moved + int (min ?limit ?n)) (k + 1) ((rows1, objs), tbl)
       else (Inr moved, k + 1, ((rows, objs), tbl)))"
    by (subst tier_loop.simps) (simp only: pass prod.case sum.case not_False_eq_True simp_thms)
  show ?case
  proof (cases "?n = 0")
    case True
    then have "held_rows rows1 = []" using rows1(3) by auto
    then show ?thesis using True unfold by auto
  next
    case False
    then have "moved < budget" using less.prems(3) by linarith
    then have go: "moved < budget" "0 < min ?limit ?n" using False by (auto simp: STEP_def BUNDLE_MAX_BYTES_def)
    have "int (min ?limit ?n) + int (length (held_rows rows1)) = int ?n" using rows1(4) by simp
    then have len: "moved + int (min ?limit ?n) + int (length (held_rows rows1)) = moved + int ?n" by linarith
    have "\<exists>rows' k'. ?loop (moved + int (min ?limit ?n)) (k + 1) ((rows1, objs), tbl)
        = (Inr (moved + int (min ?limit ?n) + int (length (held_rows rows1))), k', ((rows', objs), tbl)) \<and> held_rows rows' = []"
      using go rows1(2,4) less.prems(1,3) len readable_subset [OF less.prems(2) rows1(3)] by (intro less.hyps) auto
    then show ?thesis unfolding len using go unfold by auto
  qed
qed

lemma move_row_Nil: "move_row [] = (\<lambda>f. f)"
  by (simp add: fun_eq_iff move_row_def)

lemma move_loop_idle:
  assumes "\<not> te_enabled env"
  shows "tier_loop (on_pages (move_pages st env)) noted stopped budget 0 k sq
      \<in> {(Inr 0, k + 1, sq), (Inr 0, k + 1, noted 0 sq)}"
proof -
  have "on_pages (move_pages st env) limit sq = (Inr 0, sq)" for limit
    using assms by (cases sq) (auto simp: on_pages_def move_pages_def plan_move_def to_move_def tier_rule_def apply_move_def
        move_row_Nil Let_def split: prod.split)
  then show ?thesis by (simp add: tier_loop.simps [of _ _ _ budget 0])
qed

text \<open>
  Switching tiering off brings every page back: while the stored texts can be read and the cycle's
  budget covers them, one run of the handler leaves no text in object storage, and every fetch is
  still there.
\<close>

theorem switched_off_brings_every_page_back:
  assumes "\<not> te_enabled env" "te_cancelled env = (\<lambda>_. False)" "distinct (map fw_id rows)" "readable st objs (held_rows rows)"
    "int (length (held_rows rows)) \<le> te_per_cycle env"
  shows "\<exists>rows' tbl'. handle_tier_page_text st env cur i ((rows, objs), tbl) = (None, ((rows', objs), tbl'))
    \<and> list_all2 same_fetch rows' rows \<and> filter (\<lambda>f. fw_ref f \<noteq> None) rows' = []"
proof -
  let ?budget = "te_per_cycle env" and ?n = "int (length (held_rows rows))"
  let ?noted = "\<lambda>moved. tier_progress env cur i moved ?budget (tier_label moved ?n) []"
  obtain rows' k' where pulls: "tier_loop (on_pages (pull_back st env)) (\<lambda>_ s. s) (\<lambda>_. False) ?budget 0 0 ((rows, objs), tbl)
      = (Inr ?n, k', ((rows', objs), tbl))" "held_rows rows' = []"
    using pull_loop_empties [OF assms(1,3,4), of 0 ?budget 0 tbl] assms(5) by (simp only: add_0) blast
  obtain k'' tbl1 where moves: "tier_loop (on_pages (move_pages st env)) ?noted (\<lambda>_. False) ?budget 0 k' ((rows', objs), tbl)
      = (Inr 0, k'', ((rows', objs), tbl1))"
    using move_loop_idle [OF assms(1), of st ?noted "\<lambda>_. False" ?budget k' "((rows', objs), tbl)"]
    by (auto simp: tier_progress_def)
  obtain tbl' where handled: "handle_tier_page_text st env cur i ((rows, objs), tbl) = (None, ((rows', objs), tbl'))"
    using pulls(1) moves by (simp add: handle_tier_page_text_def assms(2) Let_def tier_progress_def)
  then show ?thesis using pulls(2) handle_same [OF handled] by auto
qed

section \<open>Witnesses\<close>

text \<open>A page that never loads, pulled at the start, after ten hours and after a day.\<close>

definition sample_retry :: retry_settings where
  "sample_retry = \<lparr>rt_base = 24, rt_cap = 168, rt_give_up = 5\<rparr>"

definition empty_world :: "instant \<Rightarrow> fetch_world" where
  "empty_world t = \<lparr>wd_at = t, wd_ats = Inr \<lparr>an_status = Ats_other, an_text = None, an_posted = None\<rparr>, wd_listed = False,
     wd_limits = [], wd_static_first = True, wd_static = Inr None, wd_browser = Inr None\<rparr>"

definition sample_fetch_env :: "instant \<Rightarrow> fetch_env" where
  "sample_fetch_env t = \<lparr>fe_ledger = \<lparr>le_writer = \<lparr>wr_name = ''w'', wr_config_name = None\<rparr>, le_sha256 = (\<lambda>s. s), le_call_of = (\<lambda>_ _. None)\<rparr>,
     fe_retry = sample_retry, fe_world = (\<lambda>_. empty_world t), fe_cancelled = (\<lambda>_. False)\<rparr>"

definition no_pages :: page_state where
  "no_pages = \<lparr>ps_fetches = \<lparr>fd_rows = [], fd_next = 1\<rparr>, ps_verdicts = \<lparr>vd_rows = [], vd_texts = []\<rparr>, ps_dates = []\<rparr>"

definition pulled_at :: "instant \<Rightarrow> page_state \<Rightarrow> page_state" where
  "pulled_at t ps = snd (cache_pages (sample_fetch_env t) t [(sample_posting ''u1'', '''')] ps)"

lemma pulled_at_reachable: "auto_reachable st sample_retry ps \<Longrightarrow> auto_reachable st sample_retry (pulled_at t ps)"
  unfolding pulled_at_def
  by (rule cached [where env = "sample_fetch_env t" and now = t and cands = "[(sample_posting ''u1'', '''')]"])
    (auto simp: sample_fetch_env_def empty_world_def prod_eq_iff)


text \<open>A page whose posting is gone for two days, moved by a run of the handler.\<close>

definition sample_tier :: "bool \<Rightarrow> tier_env" where
  "sample_tier enabled = \<lparr>te_enabled = enabled, te_cold_days = 1, te_per_cycle = 5, te_now = hours 48,
     te_jobs = [\<lparr>jv_id = 1, jv_url = ''u1'', jv_available = Some False\<rparr>], te_observations = [], te_cancelled = (\<lambda>_. False)\<rparr>"

definition sample_page :: fetch_row where
  "sample_page = \<lparr>fw_id = 1, fw_url = ''u1'', fw_status = ''passed'', fw_method = ''scraped'', fw_content = Some ''page'',
     fw_ref = None, fw_chars = None, fw_at = 0\<rparr>"

definition moved_state :: "(string \<times> string) list tier_state" where
  "moved_state = snd (handle_tier_page_text page_text_store (sample_tier True) None 7 (([sample_page], []), []))"

definition held_page :: fetch_row where
  "held_page = sample_page\<lparr>fw_content := None, fw_chars := Some 4,
     fw_ref := Some \<lparr>cr_object = replicate 64 (CHR ''1''), cr_size = 75, cr_member = replicate 64 (CHR ''0'')\<rparr>\<rparr>"

lemma moved_rows: "fst (fst moved_state) = [held_page]"
  by code_simp

theorem tiering_keeps_every_page_witness:
  "fw_content held_page = None
   \<and> (\<exists>f \<in> set (fst (fst moved_state)). same_fetch f sample_page \<and> text_chars f = 4
        \<and> (case fst (resolve_row page_text_store (snd (fst moved_state)) False f []) of
             Inr s \<Rightarrow> s = Some ''page'' | Inl e \<Rightarrow> \<exists>why. e = PayloadUnavailable why))"
proof -
  let ?sq = "(([sample_page], []), [])"
  have steps: "(tier_step page_text_store)\<^sup>*\<^sup>* (as_sys 2 ?sq) (as_sys 2 moved_state)"
    unfolding moved_state_def by (rule handle_tier_page_text_steps) (rule surjective_pairing)
  have "\<exists>f \<in> set (fd_rows (ty_db (as_sys 2 moved_state))). same_fetch f sample_page \<and> has_text f \<and> text_chars f = int (length ''page'')
      \<and> (case fst (resolve_row page_text_store (snd (fst moved_state)) False f []) of
           Inr s \<Rightarrow> s = Some ''page'' | Inl e \<Rightarrow> \<exists>why. e = PayloadUnavailable why)"
    by (rule tiering_keeps_every_page [OF steps _ _ _ _ _ _ page_text_only])
      (simp_all add: as_sys_def fetch_db_ok_def sample_page_def keeps_text_def)
  then show ?thesis by (auto simp: as_sys_def held_page_def)
qed

lemma moved_page_resolves:
  "\<exists>c s. resolve_row page_text_store (snd (fst moved_state)) False held_page [] = (Inr s, c)
     \<and> resolve_row page_text_store (snd (fst moved_state)) False held_page c = (Inr s, c)"
proof -
  have "case resolve_row page_text_store (snd (fst moved_state)) False held_page [] of
          (Inr s, c) \<Rightarrow> s = Some ''page'' \<and> resolve_row page_text_store (snd (fst moved_state)) False held_page c = (Inr (Some ''page''), c)
        | _ \<Rightarrow> False"
    by code_simp
  then show ?thesis by (auto split: prod.splits sum.splits)
qed

lemma moved_page_readable: "readable page_text_store (snd (fst moved_state)) [held_page]"
proof -
  obtain c s where c: "resolve_row page_text_store (snd (fst moved_state)) False held_page [] = (Inr s, c)"
      "resolve_row page_text_store (snd (fst moved_state)) False held_page c = (Inr s, c)"
    using moved_page_resolves by blast
  have "\<exists>found. resolve_rows page_text_store (snd (fst moved_state)) False fs d = Inr found"
    if "set fs \<subseteq> {held_page}" "d = [] \<or> d = c" for fs d
    using that
  proof (induction fs arbitrary: d)
    case (Cons f fs)
    then obtain found where "resolve_rows page_text_store (snd (fst moved_state)) False fs c = Inr found" by auto
    then show ?case using Cons.prems c by auto
  qed simp
  then show ?thesis by (auto simp: readable_def)
qed

theorem switched_off_brings_every_page_back_witness:
  "filter (\<lambda>f. fw_ref f \<noteq> None) (fst (fst moved_state)) = [held_page]
   \<and> (\<exists>rows' tbl'. handle_tier_page_text page_text_store (sample_tier False) None 7 moved_state = (None, (rows', snd (fst moved_state)), tbl')
        \<and> filter (\<lambda>f. fw_ref f \<noteq> None) rows' = [])"
proof -
  have state: "moved_state = (([held_page], snd (fst moved_state)), snd moved_state)"
    using moved_rows by (metis prod.collapse)
  have held: "held_rows [held_page] = [held_page]" by (simp add: held_page_def)
  have "\<exists>rows' tbl'. handle_tier_page_text page_text_store (sample_tier False) None 7 (([held_page], snd (fst moved_state)), snd moved_state)
      = (None, ((rows', snd (fst moved_state)), tbl')) \<and> list_all2 same_fetch rows' [held_page] \<and> filter (\<lambda>f. fw_ref f \<noteq> None) rows' = []"
    by (rule switched_off_brings_every_page_back) (simp_all only: held moved_page_readable, simp_all add: sample_tier_def)
  then show ?thesis using state held moved_rows by metis
qed

end
