(* ===== verification/Catalogue.thy ===== *)
theory Catalogue
  imports Listings Tasks Slots
begin

text \<open>
  The catalogue of postings (\<open>core/catalog/jobs.py\<close>, \<open>core/catalog/observations.py\<close>): what each
  source said about a posting, the availability that follows from it and is stored on the posting,
  and the writers of both. Observations are kept in the order of their ids. The rows another
  transaction has locked are an argument where a statement skips them.
\<close>

section \<open>Tables\<close>

text \<open>The fields of a posting, a stored posting, an observation and an upload that the catalogue reads or writes.\<close>

record JobPosting =
  kp_company :: string
  kp_locations :: "string list"
  kp_title :: string
  kp_url :: string
  kp_terms :: "string list"
  kp_active :: bool
  kp_date_posted :: int
  kp_raw_url :: string

record job =
  kj_id :: int
  kj_url :: string
  kj_raw_url :: string
  kj_company :: string
  kj_title :: string
  kj_locations :: "string list"
  kj_terms :: "string list"
  kj_source :: string
  kj_near_copy_key :: "string option"
  kj_active :: bool
  kj_available :: "bool option"
  kj_date_posted :: "instant option"

record source_observation =
  ko_job :: int
  ko_source :: string
  ko_kind :: string
  ko_run :: "int option"

record posting_upload =
  ku_job :: int
  ku_by :: int
  ku_status :: string

record catalogue =
  kt_jobs :: "job list"
  kt_observations :: "source_observation list"
  kt_uploads :: "posting_upload list"
  kt_next :: int

text \<open>The sources with their switches, and the setting that enforces title patterns.\<close>

record catalogue_env =
  ke_sources :: "(string \<times> bool) list"
  ke_patterns_enforced :: bool

section \<open>Availability\<close>

definition CORRECTION_SOURCE :: string where "CORRECTION_SOURCE = ''admin''"

definition ADMITTED :: "string list" where "ADMITTED = [''appeared'', ''reappeared'']"

definition observed :: "source_observation list \<Rightarrow> job \<Rightarrow> source_observation list" where
  "observed obs j = filter (\<lambda>ob. ko_job ob = kj_id j) obs"

text \<open>The latest of some observations, rows being in the order of their ids.\<close>

definition latest_kind :: "source_observation list \<Rightarrow> string option" where
  "latest_kind obs = (if obs = [] then None else Some (ko_kind (last obs)))"

definition kind_by :: "string \<Rightarrow> source_observation list \<Rightarrow> string option" where
  "kind_by src obs = latest_kind (filter (\<lambda>ob. ko_source ob = src) obs)"

definition admits :: "catalogue_env \<Rightarrow> string option \<Rightarrow> bool" where
  "admits env k \<longleftrightarrow>
     k = Some ''appeared'' \<or> k = Some ''reappeared'' \<or> k = Some ''not_listed''
     \<or> (k = Some ''filtered'' \<and> \<not> ke_patterns_enforced env)"

definition AVAILABLE :: "catalogue_env \<Rightarrow> source_observation list \<Rightarrow> job \<Rightarrow> bool option" where
  "AVAILABLE env obs j =
     (let mine = observed obs j in
      if mine \<noteq> [] \<and> ko_source (last mine) = CORRECTION_SOURCE then Some (ko_kind (last mine) = ''reappeared'')
      else if \<exists>sw \<in> set (ke_sources env). snd sw \<and> admits env (kind_by (fst sw) mine) then Some True
      else if mine \<noteq> [] then Some False
      else if \<exists>sw \<in> set (ke_sources env). fst sw = kj_source j \<and> \<not> snd sw then Some False
      else if kj_source j = ''sheet_import'' then Some False
      else None)"

definition STORED :: "catalogue_env \<Rightarrow> source_observation list \<Rightarrow> job \<Rightarrow> bool" where
  "STORED env obs j = coalesce (AVAILABLE env obs j) (kj_active j)"

definition IS_AVAILABLE :: "job \<Rightarrow> bool" where
  "IS_AVAILABLE j = coalesce (kj_available j) False"

text \<open>\<open>_refresh_available\<close>: the locks first, then the value. How many rows it wrote, and the table.\<close>

definition store_available ::
  "catalogue_env \<Rightarrow> (int \<Rightarrow> bool) \<Rightarrow> int list \<Rightarrow> catalogue \<Rightarrow> nat \<times> catalogue" where
  "store_available env locked_out ids cat =
     (let due = (\<lambda>j. kj_id j \<in> set ids \<and> \<not> locked_out (kj_id j)
                  \<and> kj_available j \<noteq> Some (STORED env (kt_observations cat) j)) in
      (length (filter due (kt_jobs cat)),
       cat\<lparr>kt_jobs := update_where due (\<lambda>j. j\<lparr>kj_available := Some (STORED env (kt_observations cat) j)\<rparr>) (kt_jobs cat)\<rparr>))"

definition BATCH :: nat where "BATCH = 500"

fun store_batches :: "catalogue_env \<Rightarrow> int list list \<Rightarrow> catalogue \<Rightarrow> nat \<times> catalogue" where
  "store_batches env [] cat = (0, cat)"
| "store_batches env (ids # rest) cat =
     (case store_available env (\<lambda>_. False) ids cat of (n, cat') \<Rightarrow>
        case store_batches env rest cat' of (m, cat'') \<Rightarrow> (n + m, cat''))"

definition refresh_available :: "catalogue_env \<Rightarrow> int list \<Rightarrow> catalogue \<Rightarrow> nat \<times> catalogue" where
  "refresh_available env ids cat = store_batches env (pages_of BATCH ids) cat"

definition RECONCILE_CHUNK :: int where "RECONCILE_CHUNK = 20000"

definition reconcile_chunk :: "catalogue_env \<Rightarrow> (int \<Rightarrow> bool) \<Rightarrow> int \<Rightarrow> catalogue \<Rightarrow> nat \<times> catalogue" where
  "reconcile_chunk env locked_out lo cat =
     store_available env locked_out
       (map kj_id (filter (\<lambda>j. lo \<le> kj_id j \<and> kj_id j < lo + RECONCILE_CHUNK
            \<and> kj_available j \<noteq> Some (STORED env (kt_observations cat) j)) (kt_jobs cat))) cat"

fun reconcile_ranges :: "catalogue_env \<Rightarrow> (int \<Rightarrow> bool) \<Rightarrow> int list \<Rightarrow> catalogue \<Rightarrow> nat \<times> catalogue" where
  "reconcile_ranges env locked_out [] cat = (0, cat)"
| "reconcile_ranges env locked_out (lo # los) cat =
     (case reconcile_chunk env locked_out lo cat of (n, cat') \<Rightarrow>
        case reconcile_ranges env locked_out los cat' of (m, cat'') \<Rightarrow> (n + m, cat''))"

text \<open>\<open>range(lo, hi + 1, _RECONCILE_CHUNK)\<close> over the ids there are.\<close>

definition chunk_starts :: "int \<Rightarrow> int \<Rightarrow> int list" where
  "chunk_starts lo hi = map (\<lambda>k. lo + int k * RECONCILE_CHUNK) [0..<nat ((hi - lo) div RECONCILE_CHUNK + 1)]"

definition reconcile_available :: "catalogue_env \<Rightarrow> (int \<Rightarrow> bool) \<Rightarrow> catalogue \<Rightarrow> nat \<times> catalogue" where
  "reconcile_available env locked_out cat =
     (if kt_jobs cat = [] then (0, cat)
      else let ids = map kj_id (kt_jobs cat) in
        reconcile_ranges env locked_out (chunk_starts (Min (set ids)) (Max (set ids))) cat)"

section \<open>Corrections\<close>

definition set_active :: "catalogue_env \<Rightarrow> int \<Rightarrow> bool \<Rightarrow> catalogue \<Rightarrow> bool \<times> catalogue" where
  "set_active env i active cat =
     (if i \<notin> kj_id ` set (kt_jobs cat) then (False, cat)
      else (True, snd (store_available env (\<lambda>_. False) [i]
        (cat\<lparr>kt_observations := kt_observations cat @ [\<lparr>ko_job = i, ko_source = CORRECTION_SOURCE,
             ko_kind = (if active then ''reappeared'' else ''unlisted''), ko_run = None\<rparr>]\<rparr>))))"

record correction =
  kc_active :: "bool option"
  kc_company :: "string option"
  kc_title :: "string option"
  kc_locations :: "string list option"
  kc_terms :: "string list option"
  kc_unknown :: "string list"

definition correct_row :: "correction \<Rightarrow> job \<Rightarrow> job" where
  "correct_row c j = j\<lparr>kj_company := coalesce (kc_company c) (kj_company j), kj_title := coalesce (kc_title c) (kj_title j),
     kj_locations := coalesce (kc_locations c) (kj_locations j), kj_terms := coalesce (kc_terms c) (kj_terms j)\<rparr>"

definition correct_posting :: "catalogue_env \<Rightarrow> int \<Rightarrow> correction \<Rightarrow> catalogue \<Rightarrow> job option result \<times> catalogue" where
  "correct_posting env i c cat =
     (if kc_unknown c \<noteq> [] then (Inl (ValueError (''not correctable'')), cat)
      else
        let (found, cat1) = (case kc_active c of None \<Rightarrow> (True, cat) | Some active \<Rightarrow> set_active env i active cat) in
        if \<not> found then (Inr None, cat)
        else let cat2 = cat1\<lparr>kt_jobs := update_where (\<lambda>j. kj_id j = i) (correct_row c) (kt_jobs cat1)\<rparr> in
          (Inr (find (\<lambda>j. kj_id j = i) (kt_jobs cat2)), cat2))"

definition fill_job_date :: "string \<Rightarrow> instant \<Rightarrow> catalogue \<Rightarrow> catalogue" where
  "fill_job_date url posted cat =
     cat\<lparr>kt_jobs := update_where (\<lambda>j. kj_url j = url \<and> kj_date_posted j = None) (\<lambda>j. j\<lparr>kj_date_posted := Some posted\<rparr>) (kt_jobs cat)\<rparr>"

definition set_near_copy_keys :: "(string \<times> string) list \<Rightarrow> catalogue \<Rightarrow> catalogue" where
  "set_near_copy_keys keys cat =
     cat\<lparr>kt_jobs := update_where (\<lambda>j. map_of keys (kj_url j) \<noteq> None \<and> kj_near_copy_key j \<noteq> map_of keys (kj_url j))
       (\<lambda>j. j\<lparr>kj_near_copy_key := map_of keys (kj_url j)\<rparr>) (kt_jobs cat)\<rparr>"

text \<open>\<open>fill_source_company\<close>: a statement names at most a batch of rows, until one is not full.\<close>

definition nameless :: "string \<Rightarrow> job \<Rightarrow> bool" where
  "nameless src j \<longleftrightarrow> kj_source j = src \<and> kj_company j = ''''"

definition name_chunk :: "string \<Rightarrow> string \<Rightarrow> job list \<Rightarrow> nat \<times> job list" where
  "name_chunk src company jobs =
     (let picked = take BATCH (sort_key kj_url (filter (nameless src) jobs)) in
      (length picked, update_where (\<lambda>j. nameless src j \<and> kj_id j \<in> kj_id ` set picked) (\<lambda>j. j\<lparr>kj_company := company\<rparr>) jobs))"

lemma name_chunk_fewer:
  assumes "company \<noteq> ''''" "name_chunk src company jobs = (n, jobs')" "\<not> n < BATCH"
  shows "length (filter (nameless src) jobs') < length (filter (nameless src) jobs)"
proof -
  let ?picked = "take BATCH (sort_key kj_url (filter (nameless src) jobs))"
  have out: "n = length ?picked" "jobs' = update_where (\<lambda>j. nameless src j \<and> kj_id j \<in> kj_id ` set ?picked) (\<lambda>j. j\<lparr>kj_company := company\<rparr>) jobs"
    using assms(2) by (simp_all add: name_chunk_def Let_def)
  then have "length ?picked \<noteq> 0" using assms(3) unfolding BATCH_def by linarith
  then have "?picked \<noteq> []" by (simp only: length_0_conv not_False_eq_True)
  then have j0: "hd ?picked \<in> set ?picked" by (rule hd_in_set)
  then have "hd ?picked \<in> set (filter (nameless src) jobs)" by (metis in_set_takeD set_sort)
  then have "length (filter (\<lambda>j. kj_id j \<notin> kj_id ` set ?picked) (filter (nameless src) jobs)) < length (filter (nameless src) jobs)"
    using j0 by (intro length_filter_less) blast+
  then have "length (filter (\<lambda>j. nameless src j \<and> kj_id j \<notin> kj_id ` set ?picked) jobs) < length (filter (nameless src) jobs)"
    by (simp only: filter_filter)
  moreover have "length (filter (nameless src) jobs') = length (filter (\<lambda>j. nameless src j \<and> kj_id j \<notin> kj_id ` set ?picked) jobs)"
  proof -
    have "filter (nameless src) (update_where (\<lambda>j. nameless src j \<and> kj_id j \<in> X) (\<lambda>j. j\<lparr>kj_company := company\<rparr>) js)
        = filter (\<lambda>j. nameless src j \<and> kj_id j \<notin> X) js" for X js
      using assms(1) by (induction js) (auto simp: update_where_def nameless_def)
    then show ?thesis unfolding out(2) by simp
  qed
  ultimately show ?thesis by simp
qed

function fill_loop :: "string \<Rightarrow> string \<Rightarrow> nat \<Rightarrow> job list \<Rightarrow> nat \<times> job list" where
  "fill_loop src company named jobs =
     (case name_chunk src company jobs of (n, jobs') \<Rightarrow>
        if company = '''' \<or> n < BATCH then (named + n, jobs') else fill_loop src company (named + n) jobs')"
  by pat_completeness auto
termination
  by (relation "measure (\<lambda>(src, company, named, jobs). length (filter (nameless src) jobs))")
    (auto intro: name_chunk_fewer [OF _ sym])

declare fill_loop.simps [simp del]

definition fill_source_company :: "string \<Rightarrow> string \<Rightarrow> catalogue \<Rightarrow> nat result \<times> catalogue" where
  "fill_source_company src named cat =
     (let company = py_strip named in
      if company = '''' then (Inl (ValueError ''a company to fill with is required''), cat)
      else case fill_loop src company 0 (kt_jobs cat) of (n, jobs) \<Rightarrow> (Inr n, cat\<lparr>kt_jobs := jobs\<rparr>))"

section \<open>Uploads\<close>

definition upload_job :: "int \<Rightarrow> string \<Rightarrow> string \<Rightarrow> job" where
  "upload_job i url raw_url =
     \<lparr>kj_id = i, kj_url = url, kj_raw_url = raw_url, kj_company = '''', kj_title = '''', kj_locations = [], kj_terms = [],
      kj_source = ''upload'', kj_near_copy_key = None, kj_active = True, kj_available = Some True, kj_date_posted = None\<rparr>"

record upload_report =
  ur_id :: int
  ur_extraction_status :: "string option"
  ur_uploaded_by :: "int option"

definition add_upload :: "string \<Rightarrow> string \<Rightarrow> int \<Rightarrow> catalogue \<Rightarrow> upload_report \<times> catalogue" where
  "add_upload url raw_url uid cat =
     (case find (\<lambda>j. kj_url j = url) (kt_jobs cat) of
        None \<Rightarrow>
          (\<lparr>ur_id = kt_next cat, ur_extraction_status = Some ''pending'', ur_uploaded_by = Some uid\<rparr>,
           cat\<lparr>kt_jobs := kt_jobs cat @ [upload_job (kt_next cat) url raw_url], kt_next := kt_next cat + 1,
               kt_uploads := kt_uploads cat @ [\<lparr>ku_job = kt_next cat, ku_by = uid, ku_status = ''pending''\<rparr>]\<rparr>)
      | Some j \<Rightarrow>
          let uploads = update_where (\<lambda>u. ku_job u = kj_id j \<and> ku_status u = ''failed'') (\<lambda>u. u\<lparr>ku_status := ''pending''\<rparr>) (kt_uploads cat);
              upload = find (\<lambda>u. ku_job u = kj_id j) uploads in
          (\<lparr>ur_id = kj_id j, ur_extraction_status = map_option ku_status upload, ur_uploaded_by = map_option ku_by upload\<rparr>,
           cat\<lparr>kt_uploads := uploads\<rparr>))"

definition set_extraction_status :: "int \<Rightarrow> string \<Rightarrow> catalogue \<Rightarrow> catalogue" where
  "set_extraction_status i stat cat =
     cat\<lparr>kt_uploads := update_where (\<lambda>u. ku_job u = i) (\<lambda>u. u\<lparr>ku_status := stat\<rparr>) (kt_uploads cat)\<rparr>"

definition record_extraction :: "int \<Rightarrow> string \<Rightarrow> string \<Rightarrow> string list \<Rightarrow> string list \<Rightarrow> catalogue \<Rightarrow> catalogue" where
  "record_extraction i company title locations terms cat =
     set_extraction_status i ''done''
       (cat\<lparr>kt_jobs := update_where (\<lambda>j. kj_id j = i) (\<lambda>j. j\<lparr>kj_company := company, kj_title := title, kj_locations := locations,
             kj_terms := terms\<rparr>) (kt_jobs cat)\<rparr>)"

section \<open>Upserting a pull\<close>

definition posted_at :: "JobPosting \<Rightarrow> instant option" where
  "posted_at p = (if kp_date_posted p = 0 then None else Some (kp_date_posted p * usec_per_second))"

text \<open>The row an upsert leaves of a stored one, and the row it inserts.\<close>

definition merged_job :: "string \<Rightarrow> JobPosting \<Rightarrow> job \<Rightarrow> job" where
  "merged_job src p j =
     j\<lparr>kj_company := (if kj_source j = ''upload'' \<or> kj_company j = '''' then kp_company p else kj_company j),
       kj_title := (if kj_source j = ''upload'' \<or> kj_title j = '''' then kp_title p else kj_title j),
       kj_locations := kp_locations p, kj_terms := kp_terms p,
       kj_date_posted := (case kj_date_posted j of None \<Rightarrow> posted_at p | Some d \<Rightarrow> Some d),
       kj_source := (if kj_source j = ''upload'' then src else kj_source j)\<rparr>"

definition pulled_job :: "int \<Rightarrow> string \<Rightarrow> JobPosting \<Rightarrow> job" where
  "pulled_job i src p =
     \<lparr>kj_id = i, kj_url = kp_url p, kj_raw_url = (if kp_raw_url p = '''' then kp_url p else kp_raw_url p),
      kj_company = kp_company p, kj_title = kp_title p, kj_locations = kp_locations p, kj_terms = kp_terms p, kj_source = src,
      kj_near_copy_key = None, kj_active = True, kj_available = Some True, kj_date_posted = posted_at p\<rparr>"

text \<open>The columns the filter of the statement compares.\<close>

definition upsert_columns :: "job \<Rightarrow> string \<times> string \<times> string list \<times> string list \<times> instant option \<times> string" where
  "upsert_columns j = (kj_company j, kj_title j, kj_locations j, kj_terms j, kj_date_posted j, kj_source j)"

text \<open>
  One statement of the batch: a posting whose row would not change is filtered out; another is
  inserted, or updates the row of its url.
\<close>

definition upsert_one :: "string \<Rightarrow> JobPosting \<Rightarrow> catalogue \<Rightarrow> catalogue" where
  "upsert_one src p cat =
     (if \<exists>j \<in> set (kt_jobs cat). kj_url j = kp_url p \<and> upsert_columns (merged_job src p j) = upsert_columns j then cat
      else if kp_url p \<in> kj_url ` set (kt_jobs cat)
      then cat\<lparr>kt_jobs := update_where (\<lambda>j. kj_url j = kp_url p) (merged_job src p) (kt_jobs cat)\<rparr>
      else cat\<lparr>kt_jobs := kt_jobs cat @ [pulled_job (kt_next cat) src p], kt_next := kt_next cat + 1\<rparr>)"

definition upsert_batch :: "string \<Rightarrow> JobPosting list \<Rightarrow> catalogue \<Rightarrow> catalogue" where
  "upsert_batch src batch cat =
     (let taken = map ku_job (filter (\<lambda>u. ku_status u \<noteq> ''done''
            \<and> (\<exists>j \<in> set (kt_jobs cat). kj_id j = ku_job u \<and> kj_source j = ''upload'' \<and> kj_url j \<in> kp_url ` set batch)) (kt_uploads cat));
          cat' = fold (upsert_one src) batch cat in
      cat'\<lparr>kt_uploads := update_where (\<lambda>u. ku_job u \<in> set taken \<and> ku_status u \<noteq> ''done'') (\<lambda>u. u\<lparr>ku_status := ''done''\<rparr>) (kt_uploads cat')\<rparr>)"

text \<open>
  A batch that deadlocks is rolled back and tried again, up to a number of attempts; \<open>deadlocks\<close>
  says which attempts do. None: the last attempt deadlocked too, and the error is raised, with the
  batches before it committed.
\<close>

definition attempt_batch :: "nat \<Rightarrow> (nat \<Rightarrow> bool) \<Rightarrow> string \<Rightarrow> JobPosting list \<Rightarrow> catalogue \<Rightarrow> catalogue option" where
  "attempt_batch retries deadlocks src batch cat =
     (if list_all deadlocks [0..<retries] then None else Some (upsert_batch src batch cat))"

fun upsert_batches :: "(JobPosting list \<Rightarrow> nat \<Rightarrow> bool) \<Rightarrow> string \<Rightarrow> JobPosting list list \<Rightarrow> catalogue \<Rightarrow> bool \<times> catalogue" where
  "upsert_batches deadlocks src [] cat = (True, cat)"
| "upsert_batches deadlocks src (batch # batches) cat =
     (case attempt_batch 3 (deadlocks batch) src batch cat of
        None \<Rightarrow> (False, cat)
      | Some cat' \<Rightarrow> upsert_batches deadlocks src batches cat')"

text \<open>How many rows the pull offered, None where a deadlock was raised.\<close>

definition upsert_postings ::
  "(JobPosting list \<Rightarrow> nat \<Rightarrow> bool) \<Rightarrow> JobPosting list \<Rightarrow> string \<Rightarrow> catalogue \<Rightarrow> nat option \<times> catalogue" where
  "upsert_postings deadlocks postings src cat =
     (let rows = sort_key kp_url (filter (\<lambda>p. kp_url p \<noteq> '''') postings);
          (ok, cat') = upsert_batches deadlocks src (pages_of BATCH rows) cat in
      (if ok then Some (length rows) else None, cat'))"

section \<open>Observing a pull\<close>

definition posting_by_url :: "JobPosting list \<Rightarrow> string \<Rightarrow> JobPosting option" where
  "posting_by_url postings url = (if url = '''' then None else find (\<lambda>p. kp_url p = url) (rev postings))"

text \<open>What a pull says of a posting it lists; None where it says nothing new.\<close>

definition observed_kind :: "string set \<Rightarrow> JobPosting \<Rightarrow> string \<Rightarrow> string option \<Rightarrow> string option" where
  "observed_kind kept p url previous =
     (let said = (if \<not> kp_active p then Some ''unlisted''
                  else if url \<notin> kept then Some ''filtered''
                  else case previous of
                    None \<Rightarrow> Some ''appeared''
                  | Some k \<Rightarrow> if k \<in> set ADMITTED then None else Some ''reappeared'') in
      if said = previous then None else said)"

definition listed_rows ::
  "string \<Rightarrow> JobPosting list \<Rightarrow> string set \<Rightarrow> catalogue \<Rightarrow> (string \<times> int \<times> string) list" where
  "listed_rows src postings kept cat =
     List.map_filter (\<lambda>j. case posting_by_url postings (kj_url j) of
        None \<Rightarrow> None
      | Some p \<Rightarrow> map_option (\<lambda>k. (kj_url j, kj_id j, k))
          (observed_kind kept p (kj_url j) (kind_by src (observed (kt_observations cat) j)))) (kt_jobs cat)"

definition never_observed_rows ::
  "string \<Rightarrow> JobPosting list \<Rightarrow> catalogue \<Rightarrow> (string \<times> int \<times> string) list" where
  "never_observed_rows src postings cat =
     map (\<lambda>j. (kj_url j, kj_id j, ''unlisted'')) (filter (\<lambda>j. kj_source j = src \<and> kj_available j = Some True
        \<and> posting_by_url postings (kj_url j) = None \<and> kind_by src (observed (kt_observations cat) j) = None) (kt_jobs cat))"

definition missing_rows ::
  "string \<Rightarrow> JobPosting list \<Rightarrow> string \<Rightarrow> catalogue \<Rightarrow> (string \<times> int \<times> string) list" where
  "missing_rows src postings absence cat =
     map (\<lambda>j. (kj_url j, kj_id j, absence)) (filter (\<lambda>j. posting_by_url postings (kj_url j) = None
        \<and> (case kind_by src (observed (kt_observations cat) j) of
             None \<Rightarrow> False | Some k \<Rightarrow> k \<in> set ADMITTED \<or> k = ''filtered'')) (kt_jobs cat))"

definition observation_rows ::
  "string \<Rightarrow> JobPosting list \<Rightarrow> string set \<Rightarrow> string option \<Rightarrow> catalogue \<Rightarrow> (string \<times> int \<times> string) list" where
  "observation_rows src postings kept absence cat =
     sort_key fst (listed_rows src postings kept cat
       @ (if absence = Some ''unlisted'' then never_observed_rows src postings cat else [])
       @ (case absence of None \<Rightarrow> [] | Some k \<Rightarrow> missing_rows src postings k cat))"

definition insert_observations ::
  "string \<Rightarrow> int option \<Rightarrow> (string \<times> int \<times> string) list \<Rightarrow> catalogue \<Rightarrow> catalogue" where
  "insert_observations src run rows cat =
     cat\<lparr>kt_observations := kt_observations cat
       @ map (\<lambda>(url, i, k). \<lparr>ko_job = i, ko_source = src, ko_kind = k, ko_run = run\<rparr>) rows\<rparr>"

definition observe ::
  "catalogue_env \<Rightarrow> string \<Rightarrow> int option \<Rightarrow> JobPosting list \<Rightarrow> string set \<Rightarrow> string option \<Rightarrow> catalogue
   \<Rightarrow> (string \<times> nat) list \<times> catalogue" where
  "observe env src run postings kept absence cat =
     (let rows = observation_rows src postings kept absence cat;
          kinds = map (\<lambda>(url, i, k). k) rows in
      (map (\<lambda>k. (k, length (filter ((=) k) kinds))) (remdups kinds),
       if rows = [] then cat
       else snd (refresh_available env (sort (remdups (map (\<lambda>(url, i, k). i) rows))) (insert_observations src run rows cat))))"

section \<open>Stored availability\<close>

definition synced :: "catalogue_env \<Rightarrow> source_observation list \<Rightarrow> job \<Rightarrow> job" where
  "synced env obs j = j\<lparr>kj_available := Some (STORED env obs j)\<rparr>"

definition in_sync :: "catalogue_env \<Rightarrow> source_observation list \<Rightarrow> job \<Rightarrow> bool" where
  "in_sync env obs j \<longleftrightarrow> kj_available j = Some (STORED env obs j)"

lemma STORED_cong:
  assumes "kj_id j' = kj_id j" "kj_active j' = kj_active j" "kj_source j' = kj_source j \<or> observed obs j \<noteq> []"
  shows "STORED env obs j' = STORED env obs j"
proof -
  have "observed obs j' = observed obs j" by (simp only: observed_def assms(1))
  then show ?thesis using assms(3) by (auto simp only: STORED_def AVAILABLE_def Let_def assms(2) split: if_split)
qed

lemma STORED_available [simp]: "STORED env obs (j\<lparr>kj_available := a\<rparr>) = STORED env obs j"
  by (rule STORED_cong) simp_all

lemma synced_simps [simp]:
  "kj_id (synced env obs j) = kj_id j" "kj_url (synced env obs j) = kj_url j" "kj_source (synced env obs j) = kj_source j"
  "STORED env' obs' (synced env obs j) = STORED env' obs' j" "in_sync env obs (synced env obs j)"
  "observed obs' (synced env obs j) = observed obs' j"
  by (simp_all add: synced_def in_sync_def observed_def)

lemma synced_id: "in_sync env obs j \<Longrightarrow> synced env obs j = j"
  by (cases j) (simp add: synced_def in_sync_def)

lemma store_available_jobs:
  "snd (store_available env locked_out ids cat) =
     cat\<lparr>kt_jobs := map (\<lambda>j. if kj_id j \<in> set ids \<and> \<not> locked_out (kj_id j) then synced env (kt_observations cat) j else j) (kt_jobs cat)\<rparr>"
proof -
  let ?obs = "kt_observations cat"
  have "update_where (\<lambda>j. kj_id j \<in> set ids \<and> \<not> locked_out (kj_id j) \<and> kj_available j \<noteq> Some (STORED env ?obs j))
      (\<lambda>j. j\<lparr>kj_available := Some (STORED env ?obs j)\<rparr>) js
    = map (\<lambda>j. if kj_id j \<in> set ids \<and> \<not> locked_out (kj_id j) then synced env ?obs j else j) js" for js
    by (induction js) (auto simp: update_where_def synced_def)
  then show ?thesis by (simp add: store_available_def Let_def)
qed

lemma store_batches_jobs:
  "snd (store_batches env batches cat) =
     cat\<lparr>kt_jobs := map (\<lambda>j. if kj_id j \<in> set (concat batches) then synced env (kt_observations cat) j else j) (kt_jobs cat)\<rparr>"
proof (induction batches arbitrary: cat)
  case (Cons ids rest)
  let ?cat = "snd (store_available env (\<lambda>_. False) ids cat)"
  have obs: "kt_observations ?cat = kt_observations cat" by (simp add: store_available_jobs)
  have "snd (store_batches env (ids # rest) cat) = snd (store_batches env rest ?cat)" by (simp add: case_prod_beta)
  also have "\<dots> = cat\<lparr>kt_jobs := map (\<lambda>j. if kj_id j \<in> set (concat (ids # rest)) then synced env (kt_observations cat) j else j) (kt_jobs cat)\<rparr>"
    unfolding Cons.IH obs unfolding store_available_jobs
    by (simp, rule arg_cong [where f = "\<lambda>js. cat\<lparr>kt_jobs := js\<rparr>"], rule map_cong) (auto simp: synced_id)
  finally show ?case .
qed simp

lemma refresh_available_jobs:
  "snd (refresh_available env ids cat) =
     cat\<lparr>kt_jobs := map (\<lambda>j. if kj_id j \<in> set ids then synced env (kt_observations cat) j else j) (kt_jobs cat)\<rparr>"
  by (simp add: refresh_available_def store_batches_jobs del: set_concat)

lemma reconcile_chunk_jobs:
  "snd (reconcile_chunk env locked_out lo cat) =
     cat\<lparr>kt_jobs := map (\<lambda>j. if lo \<le> kj_id j \<and> kj_id j < lo + RECONCILE_CHUNK \<and> \<not> locked_out (kj_id j)
        then synced env (kt_observations cat) j else j) (kt_jobs cat)\<rparr>"
proof -
  let ?stale = "filter (\<lambda>j. lo \<le> kj_id j \<and> kj_id j < lo + RECONCILE_CHUNK
      \<and> kj_available j \<noteq> Some (STORED env (kt_observations cat) j)) (kt_jobs cat)"
  have "(if kj_id j \<in> set (map kj_id ?stale) \<and> \<not> locked_out (kj_id j) then synced env (kt_observations cat) j else j)
      = (if lo \<le> kj_id j \<and> kj_id j < lo + RECONCILE_CHUNK \<and> \<not> locked_out (kj_id j) then synced env (kt_observations cat) j else j)"
    if "j \<in> set (kt_jobs cat)" for j
    using that synced_id [of env "kt_observations cat" j] by (auto simp: in_sync_def)
  then show ?thesis by (simp add: reconcile_chunk_def store_available_jobs cong: map_cong)
qed

lemma reconcile_ranges_jobs:
  "snd (reconcile_ranges env locked_out los cat) =
     cat\<lparr>kt_jobs := map (\<lambda>j. if (\<exists>lo \<in> set los. lo \<le> kj_id j \<and> kj_id j < lo + RECONCILE_CHUNK) \<and> \<not> locked_out (kj_id j)
        then synced env (kt_observations cat) j else j) (kt_jobs cat)\<rparr>"
proof (induction los arbitrary: cat)
  case (Cons lo los)
  let ?cat = "snd (reconcile_chunk env locked_out lo cat)"
  have obs: "kt_observations ?cat = kt_observations cat" by (simp add: reconcile_chunk_jobs)
  have "snd (reconcile_ranges env locked_out (lo # los) cat) = snd (reconcile_ranges env locked_out los ?cat)" by (simp add: case_prod_beta)
  also have "\<dots> = cat\<lparr>kt_jobs := map (\<lambda>j. if (\<exists>lo \<in> set (lo # los). lo \<le> kj_id j \<and> kj_id j < lo + RECONCILE_CHUNK) \<and> \<not> locked_out (kj_id j)
        then synced env (kt_observations cat) j else j) (kt_jobs cat)\<rparr>"
    unfolding Cons.IH obs unfolding reconcile_chunk_jobs
    by (simp, rule arg_cong [where f = "\<lambda>js. cat\<lparr>kt_jobs := js\<rparr>"], rule map_cong) (auto simp: synced_id)
  finally show ?case .
qed simp

lemma chunk_starts_cover:
  assumes "lo \<le> i" "i \<le> hi"
  shows "\<exists>s \<in> set (chunk_starts lo hi). s \<le> i \<and> i < s + RECONCILE_CHUNK"
proof -
  let ?k = "nat ((i - lo) div RECONCILE_CHUNK)"
  have "(i - lo) div RECONCILE_CHUNK \<le> (hi - lo) div RECONCILE_CHUNK" "0 \<le> (i - lo) div RECONCILE_CHUNK"
    using assms by (simp_all add: RECONCILE_CHUNK_def zdiv_mono1)
  then have "?k < nat ((hi - lo) div RECONCILE_CHUNK + 1)" "int ?k = (i - lo) div RECONCILE_CHUNK" by simp_all
  moreover have "lo + (i - lo) div RECONCILE_CHUNK * RECONCILE_CHUNK \<le> i"
      "i < lo + (i - lo) div RECONCILE_CHUNK * RECONCILE_CHUNK + RECONCILE_CHUNK"
    by (simp_all add: RECONCILE_CHUNK_def)
  ultimately show ?thesis unfolding chunk_starts_def by (auto intro!: bexI [of _ ?k])
qed

text \<open>
  Reconciling stores the availability that the observations, the switches and the pattern setting
  give, on every posting that no other transaction holds, and changes nothing else.
\<close>

theorem reconcile_stores_what_sources_say:
  "snd (reconcile_available env locked_out cat) =
     cat\<lparr>kt_jobs := map (\<lambda>j. if locked_out (kj_id j) then j else j\<lparr>kj_available := Some (STORED env (kt_observations cat) j)\<rparr>) (kt_jobs cat)\<rparr>"
proof (cases "kt_jobs cat = []")
  case False
  let ?ids = "map kj_id (kt_jobs cat)"
  have "\<exists>s \<in> set (chunk_starts (Min (set ?ids)) (Max (set ?ids))). s \<le> kj_id j \<and> kj_id j < s + RECONCILE_CHUNK"
    if "j \<in> set (kt_jobs cat)" for j
    using that by (intro chunk_starts_cover) simp_all
  then show ?thesis using False by (auto simp: reconcile_available_def Let_def reconcile_ranges_jobs synced_def cong: map_cong)
qed (simp add: reconcile_available_def)

section \<open>The catalogue among its writers\<close>

text \<open>
  Writers commit one transaction at a time. A pull commits its observations and refreshes the
  postings they name later, in batches: until then those refreshes are due. A worker that dies
  leaves its due refreshes undone, a source is pulled while it is switched on, and a switch or the pattern setting changes what every posting
  should store; \<open>cx_stale\<close> holds the postings this leaves for the next reconcile.
\<close>

record catalogue_sys =
  cx_env :: catalogue_env
  cx_cat :: catalogue
  cx_due :: "int list"
  cx_stale :: "int set"

abbreviation job_ids :: "catalogue \<Rightarrow> int set" where
  "job_ids cat \<equiv> kj_id ` set (kt_jobs cat)"

definition switched_on :: "catalogue_env \<Rightarrow> string \<Rightarrow> bool" where
  "switched_on env src \<longleftrightarrow> (src, True) \<in> set (ke_sources env) \<and> (src, False) \<notin> set (ke_sources env)
     \<and> src \<noteq> ''upload'' \<and> src \<noteq> ''sheet_import''"

text \<open>No source is called as the mark of an upload.\<close>

definition env_ok :: "catalogue_env \<Rightarrow> bool" where
  "env_ok env \<longleftrightarrow> ''upload'' \<notin> fst ` set (ke_sources env)"

definition catalogue_ok :: "catalogue \<Rightarrow> bool" where
  "catalogue_ok cat \<longleftrightarrow> distinct (map kj_url (kt_jobs cat)) \<and> (\<forall>i \<in> job_ids cat. i < kt_next cat)
     \<and> (\<forall>ob \<in> set (kt_observations cat). ko_job ob < kt_next cat)"

inductive catalogue_step :: "catalogue_sys \<Rightarrow> catalogue_sys \<Rightarrow> bool" where
  upserted: "switched_on (cx_env x) src \<Longrightarrow> catalogue_step x (x\<lparr>cx_cat := upsert_batch src batch (cx_cat x)\<rparr>)"
| observations: "\<forall>(url, i, k) \<in> set rows. i \<in> job_ids (cx_cat x) \<Longrightarrow>
    catalogue_step x (x\<lparr>cx_cat := insert_observations src run rows (cx_cat x), cx_due := cx_due x @ map (\<lambda>(url, i, k). i) rows\<rparr>)"
| refresh_done: "set ids \<subseteq> set (cx_due x) \<Longrightarrow>
    catalogue_step x (x\<lparr>cx_cat := snd (store_available (cx_env x) (\<lambda>_. False) ids (cx_cat x)),
      cx_due := filter (\<lambda>i. i \<notin> set ids) (cx_due x)\<rparr>)"
| worker_died: "catalogue_step x (x\<lparr>cx_due := filter (\<lambda>i. i \<notin> undone) (cx_due x), cx_stale := cx_stale x \<union> undone\<rparr>)"
| corrected: "correct_posting (cx_env x) i c (cx_cat x) = (r, cat) \<Longrightarrow> catalogue_step x (x\<lparr>cx_cat := cat\<rparr>)"
| uploaded: "add_upload url raw_url uid (cx_cat x) = (r, cat) \<Longrightarrow> catalogue_step x (x\<lparr>cx_cat := cat\<rparr>)"
| filled: "fill_source_company src company (cx_cat x) = (r, cat) \<Longrightarrow> catalogue_step x (x\<lparr>cx_cat := cat\<rparr>)"
| dated: "catalogue_step x (x\<lparr>cx_cat := fill_job_date url posted (cx_cat x)\<rparr>)"
| keyed: "catalogue_step x (x\<lparr>cx_cat := set_near_copy_keys keys (cx_cat x)\<rparr>)"
| extracted: "catalogue_step x (x\<lparr>cx_cat := record_extraction i company title locations terms (cx_cat x)\<rparr>)"
| upload_marked: "catalogue_step x (x\<lparr>cx_cat := set_extraction_status i stat (cx_cat x)\<rparr>)"
| switched: "env_ok env \<Longrightarrow> catalogue_step x (x\<lparr>cx_env := env, cx_stale := cx_stale x \<union> job_ids (cx_cat x)\<rparr>)"
| reconciled: "catalogue_step x (x\<lparr>cx_cat := snd (reconcile_chunk (cx_env x) locked_out lo (cx_cat x)),
      cx_stale := {i \<in> cx_stale x. \<not> (lo \<le> i \<and> i < lo + RECONCILE_CHUNK \<and> \<not> locked_out i)}\<rparr>)"

inductive catalogue_reachable :: "catalogue_sys \<Rightarrow> bool" where
  start: "kt_jobs (cx_cat x) = [] \<Longrightarrow> kt_observations (cx_cat x) = [] \<Longrightarrow> env_ok (cx_env x) \<Longrightarrow> catalogue_reachable x"
| step: "catalogue_reachable x \<Longrightarrow> catalogue_step x y \<Longrightarrow> catalogue_reachable y"

definition availability_told :: "catalogue_sys \<Rightarrow> bool" where
  "availability_told x \<longleftrightarrow> env_ok (cx_env x) \<and> catalogue_ok (cx_cat x)
     \<and> (\<forall>j \<in> set (kt_jobs (cx_cat x)). in_sync (cx_env x) (kt_observations (cx_cat x)) j \<or> kj_id j \<in> set (cx_due x) \<union> cx_stale x)"

text \<open>A writer that changes rows one by one and leaves what their availability depends on.\<close>

definition harmless :: "catalogue_env \<Rightarrow> source_observation list \<Rightarrow> (job \<Rightarrow> job) \<Rightarrow> bool" where
  "harmless env obs f \<longleftrightarrow> (\<forall>j. kj_id (f j) = kj_id j \<and> kj_url (f j) = kj_url j \<and> (in_sync env obs j \<longrightarrow> in_sync env obs (f j)))"

lemma harmless_keeps: "(\<forall>j. kj_id (f j) = kj_id j \<and> kj_url (f j) = kj_url j \<and> kj_source (f j) = kj_source j
    \<and> kj_active (f j) = kj_active j \<and> kj_available (f j) = kj_available j) \<Longrightarrow> harmless env obs f"
  using STORED_cong [of "f _" _ obs env] by (simp add: harmless_def in_sync_def)

lemma harmless_comp: "harmless env obs f \<Longrightarrow> harmless env obs g \<Longrightarrow> harmless env obs (\<lambda>j. f (g j))"
  by (simp add: harmless_def)

lemma harmless_if: "harmless env obs f \<Longrightarrow> harmless env obs (\<lambda>j. if P j then f j else j)"
  by (simp add: harmless_def)

lemma harmless_synced: "harmless env obs (\<lambda>j. if P j then synced env obs j else j)"
  by (auto simp: harmless_def)

lemma told_map:
  assumes "availability_told x" "harmless (cx_env x) (kt_observations (cx_cat x)) f" "kt_jobs cat = map f (kt_jobs (cx_cat x))"
    "kt_observations cat = kt_observations (cx_cat x)" "kt_next cat = kt_next (cx_cat x)"
  shows "availability_told (x\<lparr>cx_cat := cat\<rparr>)"
proof -
  have same: "map kj_url (kt_jobs cat) = map kj_url (kt_jobs (cx_cat x))" "job_ids cat = job_ids (cx_cat x)"
    using assms(2,3) by (auto simp: harmless_def image_image)
  have "catalogue_ok (cx_cat x)" using assms(1) by (simp add: availability_told_def)
  then have "catalogue_ok cat" unfolding catalogue_ok_def same assms(4,5) .
  moreover have "in_sync (cx_env x) (kt_observations cat) j \<or> kj_id j \<in> set (cx_due x) \<union> cx_stale x" if "j \<in> set (kt_jobs cat)" for j
    using that assms(1,2,3,4) by (auto simp: availability_told_def harmless_def)
  ultimately show ?thesis using assms(1) by (simp add: availability_told_def)
qed

lemma told_uploads: "availability_told (x\<lparr>cx_cat := cat\<lparr>kt_uploads := us\<rparr>\<rparr>) = availability_told (x\<lparr>cx_cat := cat\<rparr>)"
  by (simp add: availability_told_def catalogue_ok_def)

lemma unobserved_STORED:
  assumes "observed obs j = []" "\<forall>sw \<in> set (ke_sources env). fst sw = kj_source j \<longrightarrow> snd sw" "kj_source j \<noteq> ''sheet_import''"
  shows "STORED env obs j = kj_active j"
  using assms by (auto simp: STORED_def AVAILABLE_def Let_def kind_by_def latest_kind_def admits_def coalesce_def)

lemma switched_on_only: "switched_on env src \<Longrightarrow> \<forall>sw \<in> set (ke_sources env). fst sw = src \<longrightarrow> snd sw"
  unfolding switched_on_def by (metis (full_types) prod.collapse)

lemma merged_STORED:
  assumes "env_ok env" "switched_on env src"
  shows "STORED env obs (merged_job src p j) = STORED env obs j"
proof (cases "kj_source j = ''upload'' \<and> observed obs j = []")
  case True
  then have "observed obs (merged_job src p j) = []" by (simp add: merged_job_def observed_def)
  moreover have "kj_source (merged_job src p j) = src" "kj_active (merged_job src p j) = kj_active j"
    using True by (simp_all add: merged_job_def)
  moreover have "src \<noteq> ''sheet_import''" using assms(2) by (simp add: switched_on_def)
  ultimately have "STORED env obs (merged_job src p j) = kj_active j"
    using switched_on_only [OF assms(2)] unobserved_STORED [of obs "merged_job src p j" env] by simp
  moreover have "STORED env obs j = kj_active j"
  proof (rule unobserved_STORED)
    show "\<forall>sw \<in> set (ke_sources env). fst sw = kj_source j \<longrightarrow> snd sw"
      using True assms(1) by (metis env_ok_def image_eqI)
  qed (use True in simp_all)
  ultimately show ?thesis by simp
next
  case False
  then show ?thesis by (intro STORED_cong) (auto simp: merged_job_def)
qed

lemma merged_harmless:
  "env_ok env \<Longrightarrow> switched_on env src \<Longrightarrow> harmless env obs (\<lambda>j. if P j then merged_job src p j else j)"
  using merged_STORED by (intro harmless_if) (auto simp: harmless_def in_sync_def merged_job_def)

lemma told_append:
  assumes "availability_told (x\<lparr>cx_cat := cat\<rparr>)" "kj_id j = kt_next cat" "kj_url j \<notin> kj_url ` set (kt_jobs cat)" "kj_active j" "kj_available j = Some True"
    "\<forall>sw \<in> set (ke_sources (cx_env x)). fst sw = kj_source j \<longrightarrow> snd sw" "kj_source j \<noteq> ''sheet_import''"
  shows "availability_told (x\<lparr>cx_cat := cat\<lparr>kt_jobs := kt_jobs cat @ [j], kt_next := kt_next cat + 1, kt_uploads := us\<rparr>\<rparr>)"
proof -
  have "\<forall>ob \<in> set (kt_observations cat). ko_job ob < kt_next cat" using assms(1) by (simp add: availability_told_def catalogue_ok_def)
  then have "observed (kt_observations cat) j = []" using assms(2) by (auto simp: observed_def filter_empty_conv)
  then have "in_sync (cx_env x) (kt_observations cat) j" using unobserved_STORED assms(4-7) by (simp add: in_sync_def)
  then show ?thesis using assms(1-3) by (auto simp: availability_told_def catalogue_ok_def)
qed

lemma upsert_one_told:
  assumes "availability_told (x\<lparr>cx_cat := cat\<rparr>)" "switched_on (cx_env x) src"
  shows "availability_told (x\<lparr>cx_cat := upsert_one src p cat\<rparr>)"
proof -
  have env: "env_ok (cx_env x)" using assms(1) by (simp add: availability_told_def)
  show ?thesis
  proof (cases "kp_url p \<in> kj_url ` set (kt_jobs cat)")
    case True
    have "availability_told (x\<lparr>cx_cat := cat\<lparr>kt_jobs := update_where (\<lambda>j. kj_url j = kp_url p) (merged_job src p) (kt_jobs cat)\<rparr>\<rparr>)"
      using told_map [OF assms(1), of "\<lambda>j. if kj_url j = kp_url p then merged_job src p j else j"
          "cat\<lparr>kt_jobs := update_where (\<lambda>j. kj_url j = kp_url p) (merged_job src p) (kt_jobs cat)\<rparr>"] merged_harmless [OF env assms(2)]
      by (simp add: update_where_def)
    then show ?thesis using True assms(1) by (simp add: upsert_one_def)
  next
    case False
    have "availability_told (x\<lparr>cx_cat := cat\<lparr>kt_jobs := kt_jobs cat @ [pulled_job (kt_next cat) src p], kt_next := kt_next cat + 1, kt_uploads := kt_uploads cat\<rparr>\<rparr>)"
      using assms False switched_on_only [OF assms(2)] by (intro told_append) (auto simp: pulled_job_def switched_on_def)
    then show ?thesis using False assms(1) by (auto simp: upsert_one_def)
  qed
qed

lemma upsert_batch_told:
  assumes "availability_told x" "switched_on (cx_env x) src"
  shows "availability_told (x\<lparr>cx_cat := upsert_batch src batch (cx_cat x)\<rparr>)"
proof -
  have "availability_told (x\<lparr>cx_cat := cat\<rparr>) \<Longrightarrow> availability_told (x\<lparr>cx_cat := fold (upsert_one src) ps cat\<rparr>)" for ps cat
    using assms(2) by (induction ps arbitrary: cat) (auto intro: upsert_one_told)
  from this [of "cx_cat x" batch] show ?thesis using assms(1) by (simp add: upsert_batch_def Let_def told_uploads)
qed

lemma observed_append: "\<forall>ob \<in> set new. ko_job ob \<noteq> kj_id j \<Longrightarrow> observed (obs @ new) j = observed obs j"
  by (auto simp: observed_def filter_empty_conv)

lemma STORED_append:
  assumes "\<forall>ob \<in> set new. ko_job ob \<noteq> kj_id j"
  shows "STORED env (obs @ new) j = STORED env obs j"
  unfolding STORED_def AVAILABLE_def observed_append [OF assms] ..

lemma observations_told:
  assumes "availability_told x" "\<forall>(url, i, k) \<in> set rows. i \<in> job_ids (cx_cat x)"
  shows "availability_told (x\<lparr>cx_cat := insert_observations src run rows (cx_cat x), cx_due := cx_due x @ map (\<lambda>(url, i, k). i) rows\<rparr>)"
proof -
  let ?new = "map (\<lambda>(url, i, k). \<lparr>ko_job = i, ko_source = src, ko_kind = k, ko_run = run\<rparr>) rows"
  have "in_sync (cx_env x) (kt_observations (cx_cat x) @ ?new) j \<or> kj_id j \<in> set (cx_due x @ map (\<lambda>(url, i, k). i) rows) \<union> cx_stale x"
    if "j \<in> set (kt_jobs (cx_cat x))" for j
  proof (cases "kj_id j \<in> set (map (\<lambda>(url, i, k). i) rows)")
    case False
    then have "\<forall>ob \<in> set ?new. ko_job ob \<noteq> kj_id j" by force
    then have "STORED (cx_env x) (kt_observations (cx_cat x) @ ?new) j = STORED (cx_env x) (kt_observations (cx_cat x)) j"
      by (rule STORED_append)
    then show ?thesis using assms(1) that by (auto simp: availability_told_def in_sync_def)
  qed simp
  moreover have "catalogue_ok (insert_observations src run rows (cx_cat x))"
    using assms by (fastforce simp: availability_told_def catalogue_ok_def insert_observations_def)
  ultimately show ?thesis using assms(1) by (simp add: availability_told_def insert_observations_def)
qed

lemma told_synced:
  assumes "availability_told x" "\<forall>i. i \<in> set (cx_due x) \<union> cx_stale x \<longrightarrow> i \<in> set pend \<union> late \<or> P i"
  shows "availability_told (x\<lparr>cx_cat := (cx_cat x)\<lparr>kt_jobs := map (\<lambda>j. if P (kj_id j) then synced (cx_env x) (kt_observations (cx_cat x)) j else j)
    (kt_jobs (cx_cat x))\<rparr>, cx_due := pend, cx_stale := late\<rparr>)"
proof -
  let ?obs = "kt_observations (cx_cat x)" and ?f = "\<lambda>j. if P (kj_id j) then synced (cx_env x) (kt_observations (cx_cat x)) j else j"
  have "availability_told (x\<lparr>cx_cat := (cx_cat x)\<lparr>kt_jobs := map ?f (kt_jobs (cx_cat x))\<rparr>\<rparr>)"
    by (rule told_map [OF assms(1) harmless_synced [of _ _ "\<lambda>j. P (kj_id j)"]]) simp_all
  moreover have "in_sync (cx_env x) ?obs (?f j) \<or> kj_id (?f j) \<in> set pend \<union> late" if "j \<in> set (kt_jobs (cx_cat x))" for j
    using that assms by (auto simp: availability_told_def)
  then have "\<forall>j \<in> ?f ` set (kt_jobs (cx_cat x)). in_sync (cx_env x) ?obs j \<or> kj_id j \<in> set pend \<union> late" by blast
  ultimately show ?thesis by (simp add: availability_told_def)
qed

lemma told_self: "availability_told x \<Longrightarrow> availability_told (x\<lparr>cx_cat := cx_cat x\<rparr>)"
  by (simp add: availability_told_def)

lemma set_active_told:
  assumes "availability_told x" "set_active (cx_env x) i active (cx_cat x) = (r, cat)"
  shows "availability_told (x\<lparr>cx_cat := cat\<rparr>)"
proof (cases "i \<in> job_ids (cx_cat x)")
  case True
  define kind where "kind = (if active then ''reappeared'' else ''unlisted'')"
  let ?rows = "[(''''::string, i, kind)]"
  let ?x = "x\<lparr>cx_cat := insert_observations CORRECTION_SOURCE None ?rows (cx_cat x), cx_due := cx_due x @ map (\<lambda>(url, i, k). i) ?rows\<rparr>"
  have "availability_told ?x" using True by (intro observations_told [OF assms(1)]) simp
  note synced = told_synced [OF this, of "cx_due x" "cx_stale x" "(=) i"]
  have "cat = snd (store_available (cx_env x) (\<lambda>_. False) [i] (insert_observations CORRECTION_SOURCE None ?rows (cx_cat x)))"
    using assms(2) True by (simp add: set_active_def insert_observations_def kind_def)
  then show ?thesis using synced by (simp add: store_available_jobs insert_observations_def eq_commute [of _ i] cong: if_cong)
next
  case False
  then show ?thesis using assms told_self [OF assms(1)] by (simp add: set_active_def)
qed

lemma correct_posting_told:
  assumes "availability_told x" "correct_posting (cx_env x) i c (cx_cat x) = (r, cat)"
  shows "availability_told (x\<lparr>cx_cat := cat\<rparr>)"
proof -
  have row: "harmless env obs (\<lambda>j. if kj_id j = i then correct_row c j else j)" for env obs
    by (intro harmless_if harmless_keeps) (simp add: correct_row_def)
  obtain found cat1 where first: "(case kc_active c of None \<Rightarrow> (True, cat0) | Some active \<Rightarrow> set_active (cx_env x) i active cat0) = (found, cat1)"
    if "cat0 = cx_cat x" for cat0 by fastforce
  have told1: "availability_told (x\<lparr>cx_cat := cat1\<rparr>)"
    using first [OF refl] assms(1) set_active_told [OF assms(1)] by (auto split: option.splits)
  show ?thesis
  proof (cases "kc_unknown c = [] \<and> found")
    case True
    then have "cat = cat1\<lparr>kt_jobs := update_where (\<lambda>j. kj_id j = i) (correct_row c) (kt_jobs cat1)\<rparr>"
      using assms(2) first [OF refl] by (simp add: correct_posting_def Let_def)
    then show ?thesis using told_map [OF told1, of "\<lambda>j. if kj_id j = i then correct_row c j else j" cat] row by (simp add: update_where_def)
  next
    case False
    then have "cat = cx_cat x" using assms(2) first [OF refl] by (auto simp: correct_posting_def Let_def split: if_splits)
    then show ?thesis using assms(1) by simp
  qed
qed

lemma told_update_where:
  assumes "availability_told (x\<lparr>cx_cat := cat\<rparr>)" "\<forall>j. kj_id (f j) = kj_id j \<and> kj_url (f j) = kj_url j \<and> kj_source (f j) = kj_source j
    \<and> kj_active (f j) = kj_active j \<and> kj_available (f j) = kj_available j"
  shows "availability_told (x\<lparr>cx_cat := cat\<lparr>kt_jobs := update_where P f (kt_jobs cat)\<rparr>\<rparr>)"
  using told_map [OF assms(1) harmless_if [OF harmless_keeps [OF assms(2)], of _ _ P], of "cat\<lparr>kt_jobs := update_where P f (kt_jobs cat)\<rparr>"]
  by (simp add: update_where_def)

lemma fill_loop_told:
  "availability_told (x\<lparr>cx_cat := cat\<lparr>kt_jobs := jobs\<rparr>\<rparr>) \<Longrightarrow> availability_told (x\<lparr>cx_cat := cat\<lparr>kt_jobs := snd (fill_loop src company named jobs)\<rparr>\<rparr>)"
proof (induction src company named jobs rule: fill_loop.induct)
  case (1 src company named jobs)
  obtain n jobs' where nb: "name_chunk src company jobs = (n, jobs')" by (cases "name_chunk src company jobs")
  let ?ids = "kj_id ` set (take BATCH (sort_key kj_url (filter (nameless src) jobs)))"
  have "jobs' = update_where (\<lambda>j. nameless src j \<and> kj_id j \<in> ?ids) (\<lambda>j. j\<lparr>kj_company := company\<rparr>) jobs"
    using nb by (simp add: name_chunk_def Let_def)
  then have next_told: "availability_told (x\<lparr>cx_cat := cat\<lparr>kt_jobs := jobs'\<rparr>\<rparr>)"
    using told_update_where [OF "1.prems", of "\<lambda>j. j\<lparr>kj_company := company\<rparr>" "\<lambda>j. nameless src j \<and> kj_id j \<in> ?ids"] by simp
  show ?case
  proof (cases "company = '''' \<or> n < BATCH")
    case True
    then show ?thesis using next_told by (simp add: fill_loop.simps [of src company named jobs] nb)
  next
    case False
    then show ?thesis using "1.IH" [OF nb [symmetric] False next_told] by (simp add: fill_loop.simps [of src company named jobs] nb)
  qed
qed

lemma filled_told:
  assumes "availability_told x" "fill_source_company src company (cx_cat x) = (r, cat)"
  shows "availability_told (x\<lparr>cx_cat := cat\<rparr>)"
  using assms fill_loop_told [where x = x and cat = "cx_cat x" and jobs = "kt_jobs (cx_cat x)" and src = src and company = "py_strip company" and named = 0]
  by (auto simp: fill_source_company_def Let_def split: if_splits prod.splits)

lemma uploaded_told:
  assumes "availability_told x" "add_upload url raw_url uid (cx_cat x) = (r, cat)"
  shows "availability_told (x\<lparr>cx_cat := cat\<rparr>)"
proof (cases "find (\<lambda>j. kj_url j = url) (kt_jobs (cx_cat x))")
  case None
  then have fresh: "url \<notin> kj_url ` set (kt_jobs (cx_cat x))" by (auto simp: find_None_iff)
  have "fst sw \<noteq> ''upload''" if "sw \<in> set (ke_sources (cx_env x))" for sw
    using assms(1) that by (force simp: availability_told_def env_ok_def)
  then show ?thesis using assms None fresh told_append [OF told_self [OF assms(1)], of "upload_job (kt_next (cx_cat x)) url raw_url"]
    by (auto simp: add_upload_def upload_job_def)
next
  case (Some j)
  then show ?thesis using assms(2) told_self [OF assms(1)] by (auto simp: add_upload_def Let_def told_uploads)
qed

lemma refreshed_told:
  assumes "availability_told x"
  shows "availability_told (x\<lparr>cx_cat := snd (store_available (cx_env x) (\<lambda>_. False) ids (cx_cat x)), cx_due := filter (\<lambda>i. i \<notin> set ids) (cx_due x)\<rparr>)"
  using told_synced [OF assms, of "filter (\<lambda>i. i \<notin> set ids) (cx_due x)" "cx_stale x" "\<lambda>i. i \<in> set ids"]
  by (auto simp: store_available_jobs)

lemma reconciled_told:
  assumes "availability_told x"
  shows "availability_told (x\<lparr>cx_cat := snd (reconcile_chunk (cx_env x) locked_out lo (cx_cat x)),
      cx_stale := {i \<in> cx_stale x. \<not> (lo \<le> i \<and> i < lo + RECONCILE_CHUNK \<and> \<not> locked_out i)}\<rparr>)"
  using told_synced [OF assms, of "cx_due x" "{i \<in> cx_stale x. \<not> (lo \<le> i \<and> i < lo + RECONCILE_CHUNK \<and> \<not> locked_out i)}"
      "\<lambda>i. lo \<le> i \<and> i < lo + RECONCILE_CHUNK \<and> \<not> locked_out i"]
  by (auto simp: reconcile_chunk_jobs)

lemma rewritten_told:
  assumes "availability_told x"
  shows "availability_told (x\<lparr>cx_cat := fill_job_date url posted (cx_cat x)\<rparr>)" "availability_told (x\<lparr>cx_cat := set_near_copy_keys keys (cx_cat x)\<rparr>)"
    "availability_told (x\<lparr>cx_cat := record_extraction i company title locations terms (cx_cat x)\<rparr>)"
    "availability_told (x\<lparr>cx_cat := set_extraction_status i stat (cx_cat x)\<rparr>)"
  using told_update_where [OF told_self [OF assms]] told_self [OF assms]
  by (simp_all add: fill_job_date_def set_near_copy_keys_def record_extraction_def set_extraction_status_def told_uploads)

lemma catalogue_step_told: "catalogue_step x y \<Longrightarrow> availability_told x \<Longrightarrow> availability_told y"
proof (induction rule: catalogue_step.induct)
  case (worker_died x undone)
  then show ?case by (auto simp: availability_told_def)
next
  case (switched env x)
  then show ?case by (auto simp: availability_told_def)
next
  case (reconciled x locked_out lo)
  then show ?case by (rule reconciled_told)
qed (auto intro: upsert_batch_told observations_told refreshed_told correct_posting_told uploaded_told filled_told rewritten_told)

lemma catalogue_reachable_told: "catalogue_reachable x \<Longrightarrow> availability_told x"
proof (induction rule: catalogue_reachable.induct)
  case (start x)
  then show ?case by (simp add: availability_told_def catalogue_ok_def)
qed (rule catalogue_step_told)


definition demo_posting :: JobPosting where
  "demo_posting = \<lparr>kp_company = ''Acme'', kp_locations = [], kp_title = ''Engineer'', kp_url = ''u1'', kp_terms = [],
     kp_active = True, kp_date_posted = 0, kp_raw_url = ''''\<rparr>"

definition demo_start :: catalogue_sys where
  "demo_start = \<lparr>cx_env = \<lparr>ke_sources = [(''gh'', True)], ke_patterns_enforced = True\<rparr>,
     cx_cat = \<lparr>kt_jobs = [], kt_observations = [], kt_uploads = [], kt_next = 1\<rparr>, cx_due = [], cx_stale = {}\<rparr>"

definition demo_pulled :: catalogue_sys where
  "demo_pulled = demo_start\<lparr>cx_cat := upsert_batch ''gh'' [demo_posting] (cx_cat demo_start)\<rparr>"

definition demo_dropped :: catalogue_sys where
  "demo_dropped = demo_pulled\<lparr>cx_cat := insert_observations ''gh'' None [(''u1'', 1, ''unlisted'')] (cx_cat demo_pulled),
     cx_due := cx_due demo_pulled @ map (\<lambda>(url, i, k). i) [(''u1'', 1, ''unlisted'')]\<rparr>"

definition demo_refreshed :: catalogue_sys where
  "demo_refreshed = demo_dropped\<lparr>cx_cat := snd (store_available (cx_env demo_dropped) (\<lambda>_. False) [1] (cx_cat demo_dropped)),
     cx_due := filter (\<lambda>i. i \<notin> set [1]) (cx_due demo_dropped)\<rparr>"

lemmas demo_defs = demo_posting_def demo_start_def demo_pulled_def demo_dropped_def demo_refreshed_def
  upsert_batch_def upsert_one_def pulled_job_def posted_at_def insert_observations_def update_where_def

lemma demo_reachable: "catalogue_reachable demo_refreshed"
proof -
  have "catalogue_reachable demo_start" by (rule start) (simp_all add: demo_start_def env_ok_def)
  then have "catalogue_reachable demo_pulled" unfolding demo_pulled_def
    by (rule step) (rule upserted, simp add: demo_start_def switched_on_def)
  then have "catalogue_reachable demo_dropped" unfolding demo_dropped_def
    by (rule step) (rule observations, simp add: demo_defs)
  then show ?thesis unfolding demo_refreshed_def
    by (rule step) (rule refresh_done, simp add: demo_defs)
qed


section \<open>What a pull writes\<close>

lemma merged_unchanged: "upsert_columns (merged_job src p j) = upsert_columns j \<Longrightarrow> merged_job src p j = j"
  by (cases j) (simp add: upsert_columns_def merged_job_def)

text \<open>
  The filter that keeps a pull from rewriting rows it would not change changes nothing else: with
  it, the statement leaves the table as an unfiltered upsert would.
\<close>

theorem upsert_filter_skips_only_no_ops:
  assumes "distinct (map kj_url (kt_jobs cat))"
  shows "upsert_one src p cat =
    (if kp_url p \<in> kj_url ` set (kt_jobs cat)
     then cat\<lparr>kt_jobs := map (\<lambda>j. if kj_url j = kp_url p then merged_job src p j else j) (kt_jobs cat)\<rparr>
     else cat\<lparr>kt_jobs := kt_jobs cat @ [pulled_job (kt_next cat) src p], kt_next := kt_next cat + 1\<rparr>)"
proof (cases "\<exists>j \<in> set (kt_jobs cat). kj_url j = kp_url p \<and> upsert_columns (merged_job src p j) = upsert_columns j")
  case True
  then obtain j where j: "j \<in> set (kt_jobs cat)" "kj_url j = kp_url p" "merged_job src p j = j" using merged_unchanged by blast
  then have "j' = j" if "j' \<in> set (kt_jobs cat)" "kj_url j' = kp_url p" for j'
    using that assms by (metis distinct_map inj_onD)
  then have "map (\<lambda>j'. if kj_url j' = kp_url p then merged_job src p j' else j') (kt_jobs cat) = kt_jobs cat"
    using j(3) by (intro map_idI) (metis (full_types))
  moreover have "kp_url p \<in> kj_url ` set (kt_jobs cat)" using j(1,2) by force
  ultimately show ?thesis using True by (simp add: upsert_one_def)
qed (auto simp: upsert_one_def update_where_def)

lemma upsert_filter_skips_only_no_ops_witness:
  "distinct (map kj_url [pulled_job 1 ''gh'' demo_posting])
   \<and> kt_jobs (upsert_one ''gh'' demo_posting \<lparr>kt_jobs = [pulled_job 1 ''gh'' demo_posting], kt_observations = [], kt_uploads = [], kt_next = 2\<rparr>)
     = [pulled_job 1 ''gh'' demo_posting]"
  using upsert_filter_skips_only_no_ops [of "\<lparr>kt_jobs = [pulled_job 1 ''gh'' demo_posting], kt_observations = [], kt_uploads = [], kt_next = 2\<rparr>" "''gh''" demo_posting]
  by (simp add: pulled_job_def demo_posting_def merged_job_def posted_at_def)

definition observation_of :: "string \<Rightarrow> int option \<Rightarrow> string \<times> int \<times> string \<Rightarrow> source_observation" where
  "observation_of src run = (\<lambda>(url, i, k). \<lparr>ko_job = i, ko_source = src, ko_kind = k, ko_run = run\<rparr>)"

lemma kind_by_new:
  obtains (said) u k where "(u, kj_id j, k) \<in> set rows" "kind_by src (observed (obs @ map (observation_of src run) rows) j) = Some k"
  | (silent) "kj_id j \<notin> (\<lambda>(u, i, k). i) ` set rows"
      "kind_by src (observed (obs @ map (observation_of src run) rows) j) = kind_by src (observed obs j)"
proof -
  let ?mine = "filter (\<lambda>(u, i, k). i = kj_id j) rows"
  have "filter (\<lambda>ob. ko_source ob = src) (filter (\<lambda>ob. ko_job ob = kj_id j) (map (observation_of src run) rows)) = map (observation_of src run) ?mine"
    by (induction rows) (auto simp: observation_of_def)
  then have split: "filter (\<lambda>ob. ko_source ob = src) (observed (obs @ map (observation_of src run) rows) j)
      = filter (\<lambda>ob. ko_source ob = src) (observed obs j) @ map (observation_of src run) ?mine"
    by (simp add: observed_def)
  show ?thesis
  proof (cases "?mine = []")
    case True
    then show ?thesis using silent split by (force simp: kind_by_def filter_empty_conv)
  next
    case False
    obtain u i k where lastrow: "last ?mine = (u, i, k)" by (cases "last ?mine")
    then have "(u, i, k) \<in> set ?mine" using False last_in_set by metis
    then have "(u, kj_id j, k) \<in> set rows" by auto
    moreover have "kind_by src (observed (obs @ map (observation_of src run) rows) j) = Some k"
      using split False lastrow by (simp add: kind_by_def latest_kind_def last_map observation_of_def)
    ultimately show ?thesis by (rule said)
  qed
qed

text \<open>What a pull says of one stored posting, over the source's latest observation of it.\<close>

definition said_of ::
  "string \<Rightarrow> JobPosting list \<Rightarrow> string set \<Rightarrow> string option \<Rightarrow> string option \<Rightarrow> job \<Rightarrow> string \<Rightarrow> bool" where
  "said_of src postings kept absence previous j k \<longleftrightarrow>
     (case posting_by_url postings (kj_url j) of
        Some p \<Rightarrow> observed_kind kept p (kj_url j) previous = Some k
      | None \<Rightarrow> absence = Some k
          \<and> (case previous of
               None \<Rightarrow> k = ''unlisted'' \<and> kj_source j = src \<and> kj_available j = Some True
             | Some q \<Rightarrow> q \<in> set ADMITTED \<or> q = ''filtered''))"

lemma in_map_filter: "x \<in> set (List.map_filter f xs) \<longleftrightarrow> (\<exists>y \<in> set xs. f y = Some x)"
  by (induction xs) (auto simp: List.map_filter_simps split: option.splits)

lemma observation_rows_iff:
  "(u, i, k) \<in> set (observation_rows src postings kept absence cat) \<longleftrightarrow>
     (\<exists>j \<in> set (kt_jobs cat). u = kj_url j \<and> i = kj_id j
        \<and> said_of src postings kept absence (kind_by src (observed (kt_observations cat) j)) j k)"
proof -
  let ?prev = "\<lambda>j. kind_by src (observed (kt_observations cat) j)"
  have listed: "(u, i, k) \<in> set (listed_rows src postings kept cat) \<longleftrightarrow> (\<exists>j \<in> set (kt_jobs cat). u = kj_url j \<and> i = kj_id j
      \<and> (\<exists>p. posting_by_url postings (kj_url j) = Some p \<and> observed_kind kept p (kj_url j) (?prev j) = Some k))"
    unfolding listed_rows_def in_map_filter by (intro bex_cong refl) (auto split: option.splits)
  have never: "(u, i, k) \<in> set (never_observed_rows src postings cat) \<longleftrightarrow> (\<exists>j \<in> set (kt_jobs cat). u = kj_url j \<and> i = kj_id j
      \<and> posting_by_url postings (kj_url j) = None \<and> ?prev j = None \<and> k = ''unlisted'' \<and> kj_source j = src \<and> kj_available j = Some True)"
    by (auto simp: never_observed_rows_def)
  have missing: "(u, i, k) \<in> set (missing_rows src postings q cat) \<longleftrightarrow> (\<exists>j \<in> set (kt_jobs cat). u = kj_url j \<and> i = kj_id j
      \<and> posting_by_url postings (kj_url j) = None \<and> k = q \<and> (\<exists>q'. ?prev j = Some q' \<and> (q' \<in> set ADMITTED \<or> q' = ''filtered'')))" for q
    by (auto simp: missing_rows_def split: option.splits)
  have said: "said_of src postings kept absence (?prev j) j k \<longleftrightarrow>
      (\<exists>p. posting_by_url postings (kj_url j) = Some p \<and> observed_kind kept p (kj_url j) (?prev j) = Some k)
      \<or> (posting_by_url postings (kj_url j) = None \<and> absence = Some k
         \<and> ((?prev j = None \<and> k = ''unlisted'' \<and> kj_source j = src \<and> kj_available j = Some True)
            \<or> (\<exists>q'. ?prev j = Some q' \<and> (q' \<in> set ADMITTED \<or> q' = ''filtered''))))" for j
    unfolding said_of_def by (cases "posting_by_url postings (kj_url j)"; cases "?prev j") simp_all
  have "(u, i, k) \<in> set (observation_rows src postings kept absence cat) \<longleftrightarrow>
      (u, i, k) \<in> set (listed_rows src postings kept cat)
      \<or> (absence = Some ''unlisted'' \<and> (u, i, k) \<in> set (never_observed_rows src postings cat))
      \<or> (\<exists>q. absence = Some q \<and> (u, i, k) \<in> set (missing_rows src postings q cat))"
    by (cases absence) (simp_all add: observation_rows_def)
  then show ?thesis unfolding listed never missing said by blast
qed

lemma observed_kind_again: "observed_kind kept p url previous = Some k \<Longrightarrow> observed_kind kept p url (Some k) = None"
  by (auto simp: observed_kind_def Let_def ADMITTED_def split: if_splits option.splits)

lemma observe_state:
  fixes cat src postings kept absence run
  defines "rows \<equiv> observation_rows src postings kept absence cat"
  defines "obs' \<equiv> kt_observations cat @ map (observation_of src run) rows"
  shows "snd (observe env src run postings kept absence cat) =
    cat\<lparr>kt_observations := obs',
        kt_jobs := map (\<lambda>j. if kj_id j \<in> (\<lambda>(u, i, k). i) ` set rows then synced env obs' j else j) (kt_jobs cat)\<rparr>"
  by (simp add: observe_def Let_def rows_def [symmetric] refresh_available_jobs insert_observations_def obs'_def observation_of_def)


text \<open>
  C32: Once a pull is recorded, the same pull has nothing more to say: its observation rows over the
  table it leaves are none.
\<close>

theorem observing_again_says_nothing:
  assumes "distinct (map kj_id (kt_jobs cat))" "absence = None \<or> absence = Some ''unlisted'' \<or> absence = Some ''not_listed''"
  shows "observation_rows src postings kept absence (snd (observe env src run postings kept absence cat)) = []"
proof -
  define rows where "rows = observation_rows src postings kept absence cat"
  define obs' where "obs' = kt_observations cat @ map (observation_of src run) rows"
  define g where "g = (\<lambda>j. if kj_id j \<in> (\<lambda>(u, i, k). i) ` set rows then synced env obs' j else j)"
  have g_same: "kj_id (g j) = kj_id j" "kj_url (g j) = kj_url j" "kj_source (g j) = kj_source j" "observed obs' (g j) = observed obs' j" for j
    by (simp_all add: g_def)
  have after: "snd (observe env src run postings kept absence cat) = cat\<lparr>kt_observations := obs', kt_jobs := map g (kt_jobs cat)\<rparr>"
    unfolding observe_state g_def obs'_def rows_def ..
  have quiet: "\<not> said_of src postings kept absence (kind_by src (observed obs' j)) (g j) k" if j: "j \<in> set (kt_jobs cat)" for j k
  proof (cases rule: kind_by_new [where j = j and rows = rows and src = src and obs = "kt_observations cat" and run = run])
    case (said u q)
    then obtain j' where j': "j' \<in> set (kt_jobs cat)" "kj_id j' = kj_id j"
        "said_of src postings kept absence (kind_by src (observed (kt_observations cat) j')) j' q"
      unfolding rows_def observation_rows_iff by auto
    then have "j' = j" using assms(1) j by (metis distinct_map inj_onD)
    then show ?thesis using j'(3) said(2) assms(2) observed_kind_again
      by (auto simp: said_of_def obs'_def [symmetric] g_same ADMITTED_def split: option.splits)
  next
    case silent
    then have "g j = j" by (simp add: g_def)
    moreover have "\<not> said_of src postings kept absence (kind_by src (observed (kt_observations cat) j)) j k"
    proof
      assume "said_of src postings kept absence (kind_by src (observed (kt_observations cat) j)) j k"
      then have "(kj_url j, kj_id j, k) \<in> set rows" unfolding rows_def observation_rows_iff using j by blast
      then show False using silent(1) by force
    qed
    ultimately show ?thesis using silent(2) by (simp add: obs'_def)
  qed
  have "(u, i, k) \<notin> set (observation_rows src postings kept absence (snd (observe env src run postings kept absence cat)))" for u i k
    unfolding after observation_rows_iff using quiet by (auto simp: g_same)
  then show ?thesis by (metis list.set_intros(1) neq_Nil_conv prod_cases3)
qed

lemma observing_again_says_nothing_witness:
  "observation_rows ''gh'' [demo_posting] {''u1''} (Some ''unlisted'') (cx_cat demo_pulled) = [(''u1'', 1, ''appeared'')]
   \<and> observation_rows ''gh'' [demo_posting] {''u1''} (Some ''unlisted'')
      (snd (observe (cx_env demo_pulled) ''gh'' None [demo_posting] {''u1''} (Some ''unlisted'') (cx_cat demo_pulled))) = []"
proof
  show "observation_rows ''gh'' [demo_posting] {''u1''} (Some ''unlisted'') (cx_cat demo_pulled) = [(''u1'', 1, ''appeared'')]"
    by (simp add: demo_defs observation_rows_def listed_rows_def never_observed_rows_def missing_rows_def posting_by_url_def
        observed_kind_def kind_by_def latest_kind_def observed_def List.map_filter_simps)
  show "observation_rows ''gh'' [demo_posting] {''u1''} (Some ''unlisted'')
      (snd (observe (cx_env demo_pulled) ''gh'' None [demo_posting] {''u1''} (Some ''unlisted'') (cx_cat demo_pulled))) = []"
    by (rule observing_again_says_nothing) (simp_all add: demo_defs)
qed


end
