(* ===== verification/Spec2Isabelle.thy ===== *)
theory Spec2Isabelle
  imports Pricing_SQL Queue_Properties Batch_Wire Fallback Fleet_Spend Submission_Properties Receipts
    Slots Entitlements Screening Board_Projection Schedule Ledger_Rollup Filter_Runs
    Page_Tiering Catalogue
begin

text \<open>
  A verification library for the job tracker's work queue and its paid model calls.

  \<^bold>\<open>The program.\<close> Workers on several hosts claim tasks from one PostgreSQL table, run their
  handlers, and settle the row they hold. Handlers that need a language model build requests,
  choose a model by price and capability, submit the requests as provider batches, park the task
  while the provider works and collect the answers when a poller wakes it. Around this, a reaper
  returns the tasks of silent workers, recovery replays failed work, a fallback moves work away
  from a provider whose account is out of credit, a weekly ceiling bounds what the fleet spends,
  and each host that is scraped has a pace learned from its refusals.

  \<^bold>\<open>Theories and sources\<close> (paths under \<open>src/src\<close>).

  \<^item> \<open>Prelude\<close>: errors and results, \<open>and_then\<close>, tables as lists of rows with \<open>update_where\<close>
    and its rules, the \<open>named_theorems\<close> \<open>table_simps\<close>, and the interface of a row update.
  \<^item> \<open>Provider_Spec\<close>, \<open>Datasheet_OpenAI\<close>, \<open>Datasheet_Anthropic\<close>, \<open>Datasheet_XAI\<close>,
    \<open>Datasheet_DeepSeek\<close>, \<open>Providers\<close>: \<open>core/providers\<close> and \<open>core/batch_capabilities.py\<close>. Every
    declared model is transcribed; the index and its duplicate check are functions.
  \<^item> \<open>Pricing\<close>, \<open>Pricing_SQL\<close>: \<open>core/pricing.py\<close>. The SQL text of \<open>cost_sql\<close> is a syntax tree with
    a three-valued evaluator, and is proved to compute the Python formula.
  \<^item> \<open>Routing\<close>: \<open>core/routing.py\<close>. \<open>resolve\<close> picks the cheapest capable model.
  \<^item> \<open>Shapes\<close>: \<open>core/shapes.py\<close>, the declared tasks.
  \<^item> \<open>Json\<close>: JSON values, objects as association lists with \<open>jsonb\<close> merge.
  \<^item> \<open>Tasks\<close>: the \<open>tasks\<close> table of \<open>api/orm/platform.py\<close>, \<open>api/queue.py\<close>,
    \<open>api/task_admission.py\<close> and the cancel filter of \<open>api/routers/admin/fleet_tasks.py\<close>.
  \<^item> \<open>Lifecycle\<close>: \<open>tasks/runtime/lifecycle.py\<close>; a claim is the stamp of worker and attempt.
  \<^item> \<open>Hosts\<close>: \<open>api/hosts.py\<close>, the pace of one host.
  \<^item> \<open>Claims\<close>, \<open>Execution\<close>: \<open>api/worker_lifecycle\<close> and the exit handler of \<open>api/worker.py\<close>.
  \<^item> \<open>Batching\<close>: the batch ids of a payload, the batch ledger, parking and the poller
    (\<open>tasks/runtime/batching.py\<close>, \<open>tasks/batches.py\<close>).
  \<^item> \<open>Recovery\<close>: \<open>tasks/runtime/payload_recovery.py\<close>.
  \<^item> \<open>Transitions\<close>, \<open>Worker_Fleet\<close>: the fleet as a step relation. A step is one statement or
    transaction of a worker, the reaper, the poller, recovery or an administrator; runs interleave
    freely. \<open>Fleet_Properties\<close>, \<open>Fleet_Budget\<close>, \<open>Fleet_Care\<close>: its invariants, each a locale of what
    a row update must keep, interpreted once for every update the code makes.
  \<^item> \<open>Queue_Properties\<close>: claim order, reaping, parents and chunks, polling, recovery, back-off.
  \<^item> \<open>Batch_Wire\<close>: \<open>core/batch/specs.py\<close>, the waves of \<open>core/batch/__init__.py\<close> and both request
    forms.
  \<^item> \<open>Fallback\<close>: \<open>core/fallback.py\<close>, \<open>core/verdict_equivalence.py\<close>, \<open>api/model_fallback.py\<close>.
  \<^item> \<open>Fleet_Spend\<close>: \<open>api/budget/fleet.py\<close>, \<open>api/task_config.py\<close>.
  \<^item> \<open>Submission\<close>, \<open>Submission_Properties\<close>: \<open>submit_batches\<close> with its two transports
    (\<open>core/batch/transport.py\<close>, \<open>core/batch/anthropic_batches.py\<close>), \<open>snapshot_specs\<close> of
    \<open>api/ai/batch_results.py\<close>, and \<open>_submit\<close>, \<open>submit_or_collect\<close>, \<open>run_batched\<close>.
  \<^item> \<open>Collection\<close>: \<open>core/batch/collection.py\<close>, \<open>collect\<close> of \<open>core/batch/anthropic_batches.py\<close> and
    \<open>collect_finished_batches\<close>.
  \<^item> \<open>Receipts\<close>: \<open>checkpoint\<close>, \<open>unconsumed\<close>, \<open>consume_result\<close> and \<open>consume_results\<close> of
    \<open>api/ai/batch_results.py\<close>, the batch side of \<open>api/model_calls.py\<close>, \<open>batch_usage\<close>, and
    \<open>collect_pending\<close>.
  \<^item> \<open>Slots\<close>: \<open>tasks/runtime/limits.py\<close> and the slots of \<open>api/worker.py\<close>: the adaptive limit, the
    memory reading, a pass of the slots and the turn of the main loop.
  \<^item> \<open>Entitlements\<close>: \<open>api/budget\<close> for people: group budgets, the shared week, the configuration a
    person's call runs on and its booking.
  \<^item> \<open>Regex\<close>, \<open>Screening\<close>: \<open>core/screening.py\<close>. Every recipe is transcribed; patterns are parsed
    and matched by the rules of Python and of PostgreSQL.
  \<^item> \<open>Json_Text\<close>, \<open>Object_Store\<close>: \<open>encode_payload\<close> and \<open>core/payloads\<close>: the canonical text of a
    payload, members of consolidated objects, verified writes, and reads that check size and digest.
  \<^item> \<open>Dates\<close>, \<open>Board_Admission\<close>, \<open>Board_Projection\<close>: posting dates, the admission of a managed-board
    run against its sponsor's allowance, and the statements that bring a board's view up to date.
  \<^item> \<open>Schedule\<close>: \<open>api/worker_lifecycle/scheduling.py\<close>, a pass of the scheduler over sources, boards
    and sweeps.
  \<^item> \<open>Ledger_Rollup\<close>: the hourly totals of the call ledger, the hours a late write makes stale, and
    the reads that combine totals with live rows.
  \<^item> \<open>Verdicts\<close>, \<open>Filtering\<close>: the verdict ledger (\<open>api/ai/verdicts.py\<close>, \<open>core/store.py\<close>) and the
    collection of filter answers (\<open>tasks/filtering\<close>), one result at a time and as a chunk.
  \<^item> \<open>Pay_Screen\<close>, \<open>Filter_Runs\<close>: the pay a posting states against the pay a person asks for, and
    the runs of the filter: shared chunks and personal runs, from the lists of postings to the
    requests they submit.
  \<^item> \<open>Listings\<close>: \<open>core/payloads/listings.py\<close>: fields inline or as members of bundle objects, what a
    pull writes, and the migration between the two shapes.
  \<^item> \<open>Page_Fetches\<close>, \<open>Page_Tiering\<close>: the rows of page fetches and their readers
    (\<open>core/page_fetches.py\<close>), the back-off, the hourly allowance and \<open>refresh_page\<close>
    (\<open>api/ai/verdicts.py\<close>), two automatic paths (\<open>tasks/filtering/execution.py\<close>,
    \<open>tasks/ingest.py\<close>), and the task that moves texts to object storage and back
    (\<open>tasks/page_text_tiering.py\<close>) among other workers.
  \<^item> \<open>Catalogue\<close>: \<open>core/catalog/jobs.py\<close>, \<open>core/catalog/observations.py\<close>: what the sources said of a
    posting, the availability stored on it, and every writer of both as a step relation.

  \<^bold>\<open>How code corresponds to definitions.\<close> A table is a list of records, a row per element, and a
  statement is a function on it: an \<open>UPDATE ... WHERE\<close> is \<open>update_where\<close> with the condition and the
  assignment, a transaction is the composition of its statements. The current time, the claim of
  the running task and the answers of providers are arguments. A raise is the left side of a sum
  or a constructor of an outcome type. \<open>Decimal\<close> and the database's double precision are \<open>rat\<close>:
  rounding is not modelled. Settings are constant during an operation and already validated.
  Worker names are unique, as deployment requires. Task events,
  metrics, logs and telemetry change no table and are left out. Cryptographic digests, web servers
  and providers are parameters.

  \<^bold>\<open>What is shown.\<close> Of the fleet: one run owns a task, a lost claim stays lost and a run that lost
  its claim changes nothing; dedupe keys are unique; cancelled and done are final; a task's retry
  budget bounds its claims. Of paid work: a batch accepted by a provider is named by the task
  however the run ends, leaves the payload only with its results stored, each item is billed
  once, and each result is consumed once. Of choice and price: the cheapest capable model, SQL and
  Python prices agree, a reservation covers the bill, fallback goes only where work can run, ends
  and repeats nothing, and the weekly ceiling holds for billed work. Of the rest: claim order,
  reaping, polling, recovery, back-off, host pacing and the wire forms; a worker stays within its
  slots and its connections; spending of the shared key stays inside its budget; the SQL and Python
  title screens agree. Of stored payloads: their text determines them, and a reference reads the
  value it was returned for or nothing. Of boards and schedules: a sponsor's allowance is not
  overcommitted, a projection replaces exactly one board, a pass pulls each due source once and
  queues nothing paid while AI is off. Of the reports of spend: totals and live rows add up to the
  ledger, and catching up clears every stale hour. Of filtering: a chunk of answers is collected as
  its answers one by one, a posting is submitted by one chunk only, a run holds its postings before
  it queues work on them and accounts for each, and scheduled work on shared postings is batched
  or refused. Of pages and listings: automatic fetches back off, no text or listing value is lost on
  its way to object storage or back whatever else is written meanwhile, and a migration is complete
  up to its cursor. Of the catalogue: stored availability lags behind the observations only where a
  refresh is due or a reconcile is owed, reconciling stores what the sources say, an upsert that
  skips unchanged rows is the plain upsert, and a pull recorded once has nothing more to record.

  \<^bold>\<open>Termination.\<close> Loops over lists are structural. The submission loop ends because each pass
  takes an untried entry of the fallback chain (\<open>chain_left\<close>), the tiering loop because each pass
  that goes on spends budget. Reading JSON counts down the length of the text, which is enough by
  the round trip. No other definition uses fuel.

  \<^bold>\<open>Not modelled.\<close> HTTP fetching and the applicant-tracking adapters are scraping of other people's
  pages; what the pages become is modelled. Mail, application assistance and live model calls are I/O around third-party clients. The
  HTTP routers, spend, health and analytics reports are request parsing and SQL reads. Settings,
  schema declarations, migrations and authentication are declarations or library calls. Derivation
  and verification handlers are prompts and SQL selections around the submission and collection
  shown here; their prompt texts, like the filter's, are not modelled.
\<close>

end
